(* ===== verification/Prelude.thy ===== *)
theory Prelude
  imports Main "HOL-Library.Sublist" "HOL-Library.List_Lexorder" "HOL-Library.Char_ord"
begin

text \<open>
  Shared vocabulary of the development: the Go string and byte operations the
  sources use (package strings, strconv, path), modelled on byte strings, the
  generic list and table lemmas, and the named collections the component
  theories extend.

  A Go string is a byte sequence, modelled as \<open>string\<close> (a \<open>char list\<close> whose
  characters are bytes). Case mapping acts on the ASCII letters, which is what
  \<^verbatim>\<open>strings.ToLower\<close> does on ASCII text; Unicode case mapping is not modelled.
\<close>

named_theorems go_string_simps "evaluation rules of the Go string operations"
named_theorems table_simps "rules for the list-backed tables"

type_synonym bytes = string
type_synonym unix = int

section \<open>Sums as results\<close>

definition is_ok :: "'e + 'a \<Rightarrow> bool" where
  "is_ok r = (case r of Inl _ \<Rightarrow> False | Inr _ \<Rightarrow> True)"

lemma is_ok_simps [simp]: "\<not> is_ok (Inl e)" "is_ok (Inr x)"
  by (simp_all add: is_ok_def)

fun map_result :: "('a \<Rightarrow> 'e + 'b) \<Rightarrow> 'a list \<Rightarrow> 'e + 'b list" where
  "map_result f [] = Inr []"
| "map_result f (x # xs) =
     (case f x of Inl e \<Rightarrow> Inl e
      | Inr y \<Rightarrow> (case map_result f xs of Inl e \<Rightarrow> Inl e | Inr ys \<Rightarrow> Inr (y # ys)))"

lemma map_result_Inr_iff:
  "map_result f xs = Inr ys \<longleftrightarrow> list_all2 (\<lambda>x y. f x = Inr y) xs ys"
proof (induction xs arbitrary: ys)
  case Nil
  then show ?case by auto
next
  case (Cons x xs)
  show ?case
  proof (cases "f x")
    case (Inl e)
    then show ?thesis by (cases ys) auto
  next
    case (Inr y)
    then show ?thesis
      by (cases ys; cases "map_result f xs") (auto simp: Cons.IH [symmetric])
  qed
qed

lemma map_result_map_id:
  "(\<And>y. y \<in> set ys \<Longrightarrow> f (g y) = Inr y) \<Longrightarrow> map_result f (map g ys) = Inr ys"
  by (induction ys) auto

section \<open>Characters\<close>

definition is_digit :: "char \<Rightarrow> bool" where
  "is_digit c = (CHR ''0'' \<le> c \<and> c \<le> CHR ''9'')"

definition is_lower :: "char \<Rightarrow> bool" where
  "is_lower c = (CHR ''a'' \<le> c \<and> c \<le> CHR ''z'')"

definition is_upper :: "char \<Rightarrow> bool" where
  "is_upper c = (CHR ''A'' \<le> c \<and> c \<le> CHR ''Z'')"

definition is_space :: "char \<Rightarrow> bool" where
  "is_space c = (c \<in> {CHR '' '', CHR 0x09, CHR 0x0A, CHR 0x0B, CHR 0x0C, CHR 0x0D})"

definition lower_char :: "char \<Rightarrow> char" where
  "lower_char c = (if is_upper c then char_of (of_char c + (32::nat)) else c)"

definition to_lower :: "string \<Rightarrow> string" where
  "to_lower s = map lower_char s"

lemma lower_char_not_upper: "\<not> is_upper (lower_char c)"
proof (cases "is_upper c")
  case True
  then have "(65::nat) \<le> of_char c" "of_char c \<le> (90::nat)"
    by (auto simp: is_upper_def less_eq_char_def)
  then have "of_char (lower_char c) = (of_char c + 32 :: nat)"
    using True by (simp add: lower_char_def)
  then show ?thesis
    using \<open>65 \<le> of_char c\<close> by (auto simp: is_upper_def less_eq_char_def)
next
  case False
  then show ?thesis by (simp add: lower_char_def)
qed

lemma lower_char_idem [simp]: "lower_char (lower_char c) = lower_char c"
  using lower_char_not_upper [of c] by (simp add: lower_char_def [of "lower_char c"])

lemma to_lower_idem [simp]: "to_lower (to_lower s) = to_lower s"
  by (simp add: to_lower_def)

lemma length_to_lower [simp]: "length (to_lower s) = length s"
  by (simp add: to_lower_def)

lemma to_lower_append [simp]: "to_lower (s @ t) = to_lower s @ to_lower t"
  by (simp add: to_lower_def)

lemma to_lower_Nil_iff [simp]: "to_lower s = [] \<longleftrightarrow> s = []"
  by (simp add: to_lower_def)

lemma lower_char_id: "\<not> is_upper c \<Longrightarrow> lower_char c = c"
  by (simp add: lower_char_def)

section \<open>Prefixes, suffixes and trimming\<close>

definition trim_prefix :: "string \<Rightarrow> string \<Rightarrow> string" where
  "trim_prefix s p = (if prefix p s then drop (length p) s else s)"

definition trim_suffix :: "string \<Rightarrow> string \<Rightarrow> string" where
  "trim_suffix s p = (if suffix p s then take (length s - length p) s else s)"

definition trim_space :: "string \<Rightarrow> string" where
  "trim_space s = rev (dropWhile is_space (rev (dropWhile is_space s)))"

text \<open>\<^verbatim>\<open>strings.TrimRight(s, "c")\<close> and \<^verbatim>\<open>strings.Trim(s, "c")\<close> for a one-character cut set.\<close>

definition trim_right_char :: "char \<Rightarrow> string \<Rightarrow> string" where
  "trim_right_char c s = rev (dropWhile (\<lambda>x. x = c) (rev s))"

definition trim_char :: "char \<Rightarrow> string \<Rightarrow> string" where
  "trim_char c s = trim_right_char c (dropWhile (\<lambda>x. x = c) s)"

text \<open>\<^verbatim>\<open>strings.Cut(s, "c")\<close>: before, after and whether the separator was found.\<close>

definition cut :: "char \<Rightarrow> string \<Rightarrow> string \<times> string \<times> bool" where
  "cut c s = (if c \<in> set s
     then (takeWhile (\<lambda>x. x \<noteq> c) s, tl (dropWhile (\<lambda>x. x \<noteq> c) s), True)
     else (s, [], False))"

text \<open>\<^verbatim>\<open>strings.CutPrefix\<close>.\<close>

definition cut_prefix :: "string \<Rightarrow> string \<Rightarrow> string option" where
  "cut_prefix p s = (if prefix p s then Some (drop (length p) s) else None)"

lemma cut_prefix_Some [simp]: "cut_prefix p (p @ s) = Some s"
  by (simp add: cut_prefix_def)

lemma trim_right_char_prefix: "prefix (trim_right_char c s) s"
proof -
  have "suffix (dropWhile (\<lambda>x. x = c) (rev s)) (rev s)"
    by (rule suffix_dropWhile)
  then show ?thesis
    by (simp add: trim_right_char_def suffix_to_prefix)
qed

lemma last_trim_right_char:
  "trim_right_char c s \<noteq> [] \<Longrightarrow> last (trim_right_char c s) \<noteq> c"
  unfolding trim_right_char_def last_rev rev_is_Nil_conv by (rule hd_dropWhile)

lemma hd_trim_char: "trim_char c s \<noteq> [] \<Longrightarrow> hd (trim_char c s) \<noteq> c"
proof -
  assume ne: "trim_char c s \<noteq> []"
  let ?d = "dropWhile (\<lambda>x. x = c) s"
  from trim_right_char_prefix [of c ?d] obtain zs where zs: "?d = trim_char c s @ zs"
    unfolding trim_char_def prefix_def by blast
  with ne have "hd (trim_char c s) = hd ?d" and "?d \<noteq> []" by auto
  then show ?thesis using hd_dropWhile [of "\<lambda>x. x = c" s] by simp
qed

lemma set_trim_right_char: "set (trim_right_char c s) \<subseteq> set s"
  unfolding trim_right_char_def by (auto dest: set_dropWhileD)

lemma set_trim_char: "set (trim_char c s) \<subseteq> set s"
proof -
  have "set (dropWhile (\<lambda>x. x = c) s) \<subseteq> set s" by (auto dest: set_dropWhileD)
  then show ?thesis
    unfolding trim_char_def using set_trim_right_char by blast
qed

section \<open>Splitting and joining\<close>

text \<open>\<^verbatim>\<open>strings.Split(s, "c")\<close>: never empty, \<open>n\<close> separators give \<open>n + 1\<close> parts.\<close>

fun split_on :: "char \<Rightarrow> string \<Rightarrow> string list" where
  "split_on c [] = [[]]"
| "split_on c (x # xs) =
     (if x = c then [] # split_on c xs
      else (case split_on c xs of [] \<Rightarrow> [[x]] | p # ps \<Rightarrow> (x # p) # ps))"

fun join_with :: "char \<Rightarrow> string list \<Rightarrow> string" where
  "join_with c [] = []"
| "join_with c [p] = p"
| "join_with c (p # ps) = p @ c # join_with c ps"

lemma split_on_not_Nil [simp]: "split_on c s \<noteq> []"
  by (induction s) (auto split: list.splits)

lemma split_on_parts: "p \<in> set (split_on c s) \<Longrightarrow> c \<notin> set p"
proof (induction s arbitrary: p)
  case Nil
  then show ?case by simp
next
  case (Cons x xs)
  then show ?case
    by (cases "split_on c xs") (auto split: if_splits)
qed

lemma join_split: "join_with c (split_on c s) = s"
proof (induction s)
  case Nil
  then show ?case by simp
next
  case (Cons x xs)
  show ?case
  proof (cases "split_on c xs")
    case Nil
    then show ?thesis by simp
  next
    case (Cons p ps)
    with Cons.IH show ?thesis by (cases ps) auto
  qed
qed

lemma split_on_single: "c \<notin> set p \<Longrightarrow> split_on c p = [p]"
  by (induction p) auto

lemma split_on_append: "c \<notin> set p \<Longrightarrow> split_on c (p @ c # s) = p # split_on c s"
  by (induction p) auto

lemma split_join:
  "ps \<noteq> [] \<Longrightarrow> (\<And>p. p \<in> set ps \<Longrightarrow> c \<notin> set p) \<Longrightarrow> split_on c (join_with c ps) = ps"
  by (induction c ps rule: join_with.induct) (auto simp: split_on_single split_on_append)

lemma set_split_on: "p \<in> set (split_on c s) \<Longrightarrow> set p \<subseteq> set s"
proof (induction s arbitrary: p)
  case Nil
  then show ?case by simp
next
  case (Cons x xs)
  then show ?case
    by (cases "split_on c xs") (force split: if_splits)+
qed

section \<open>Decimal printing\<close>

definition digit_char :: "nat \<Rightarrow> char" where
  "digit_char d = char_of (48 + d)"

fun nat_str :: "nat \<Rightarrow> string" where
  "nat_str n = (if n < 10 then [digit_char n] else nat_str (n div 10) @ [digit_char (n mod 10)])"

declare nat_str.simps [simp del]

definition int_str :: "int \<Rightarrow> string" where
  "int_str i = (if i < 0 then CHR ''-'' # nat_str (nat (- i)) else nat_str (nat i))"

lemma of_char_digit_char: "d < 10 \<Longrightarrow> of_char (digit_char d) = 48 + d"
  by (simp add: digit_char_def)

lemma digit_char_inj: "d < 10 \<Longrightarrow> e < 10 \<Longrightarrow> digit_char d = digit_char e \<Longrightarrow> d = e"
  by (metis add_left_cancel of_char_digit_char)

lemma is_digit_digit_char: "d < 10 \<Longrightarrow> is_digit (digit_char d)"
  by (simp add: is_digit_def less_eq_char_def of_char_digit_char)

lemma nat_str_digits: "c \<in> set (nat_str n) \<Longrightarrow> is_digit c"
proof (induction n rule: nat_str.induct)
  case (1 n)
  show ?case
  proof (cases "n < 10")
    case True
    with "1.prems" show ?thesis
      by (simp add: nat_str.simps [of n] is_digit_digit_char)
  next
    case False
    with "1.prems" have "c = digit_char (n mod 10) \<or> c \<in> set (nat_str (n div 10))"
      by (simp add: nat_str.simps [of n])
    with "1.IH" False show ?thesis by (auto simp: is_digit_digit_char)
  qed
qed

lemma nat_str_not_Nil [simp]: "nat_str n \<noteq> []"
  by (subst nat_str.simps) simp

lemma nat_str_inj: "nat_str m = nat_str n \<Longrightarrow> m = n"
proof (induction m arbitrary: n rule: nat_str.induct)
  case (1 m)
  show ?case
  proof (cases "m < 10")
    case True
    with "1.prems" have "n < 10"
      by (metis append_self_conv2 butlast.simps(2) butlast_snoc nat_str.simps nat_str_not_Nil)
    with True "1.prems" show ?thesis
      by (auto simp: nat_str.simps [of m] nat_str.simps [of n] dest: digit_char_inj)
  next
    case False
    have n: "\<not> n < 10"
      using "1.prems" False
      by (auto simp: nat_str.simps [of m] nat_str.simps [of n])
    with False "1.prems" have e: "nat_str (m div 10) = nat_str (n div 10)"
      and "digit_char (m mod 10) = digit_char (n mod 10)"
      by (auto simp: nat_str.simps [of m] nat_str.simps [of n])
    then have "m mod 10 = n mod 10" by (auto intro: digit_char_inj)
    moreover from "1.IH" [OF False e] have "m div 10 = n div 10" .
    ultimately show ?thesis by (metis div_mult_mod_eq)
  qed
qed

lemma int_str_inj: "int_str i = int_str j \<Longrightarrow> i = j"
proof -
  assume eq: "int_str i = int_str j"
  have minus: "CHR ''-'' \<notin> set (nat_str n)" for n
    using nat_str_digits [of "CHR ''-''" n] by (auto simp: is_digit_def)
  have "nat_str n \<noteq> CHR ''-'' # s" for n s
    using minus [of n] by auto
  with eq show ?thesis
    by (auto simp: int_str_def split: if_splits dest: nat_str_inj dest!: sym [of "CHR ''-'' # _"])
qed

lemma int_str_chars: "c \<in> set (int_str i) \<Longrightarrow> is_digit c \<or> c = CHR ''-''"
  by (auto simp: int_str_def dest: nat_str_digits split: if_splits)

section \<open>Tables\<close>

text \<open>
  A database table is a list of rows in insertion order. \<open>lookup_row\<close> is a
  one-row SELECT, \<open>delete_rows\<close> a DELETE, \<open>update_rows\<close> an UPDATE whose SET
  clause is the function given.
\<close>

definition lookup_row :: "('r \<Rightarrow> bool) \<Rightarrow> 'r list \<Rightarrow> 'r option" where
  "lookup_row p rows = find p rows"

definition delete_rows :: "('r \<Rightarrow> bool) \<Rightarrow> 'r list \<Rightarrow> 'r list" where
  "delete_rows p rows = filter (\<lambda>r. \<not> p r) rows"

definition update_rows :: "('r \<Rightarrow> bool) \<Rightarrow> ('r \<Rightarrow> 'r) \<Rightarrow> 'r list \<Rightarrow> 'r list" where
  "update_rows p f rows = map (\<lambda>r. if p r then f r else r) rows"

definition unique_on :: "('r \<Rightarrow> 'k) \<Rightarrow> 'r list \<Rightarrow> bool" where
  "unique_on key rows = distinct (map key rows)"

lemma lookup_row_Some: "lookup_row p rows = Some r \<Longrightarrow> r \<in> set rows \<and> p r"
  by (auto simp: lookup_row_def find_Some_iff)

lemma lookup_row_None: "lookup_row p rows = None \<longleftrightarrow> (\<forall>r \<in> set rows. \<not> p r)"
  by (auto simp: lookup_row_def find_None_iff)

lemma lookup_row_key:
  assumes "unique_on key rows" "r \<in> set rows"
  shows "lookup_row (\<lambda>x. key x = key r) rows = Some r"
proof -
  obtain x where x: "lookup_row (\<lambda>x. key x = key r) rows = Some x"
    using assms(2) lookup_row_None [of "\<lambda>x. key x = key r" rows]
    by (cases "lookup_row (\<lambda>x. key x = key r) rows") auto
  then have "x \<in> set rows" "key x = key r" by (auto dest: lookup_row_Some)
  with assms have "x = r"
    by (auto simp: unique_on_def distinct_map inj_on_def)
  with x show ?thesis by simp
qed

lemma unique_on_inj: "unique_on key rows \<Longrightarrow> r \<in> set rows \<Longrightarrow> s \<in> set rows \<Longrightarrow> key r = key s \<Longrightarrow> r = s"
  by (auto simp: unique_on_def distinct_map inj_on_def)

lemma unique_on_snoc [table_simps]:
  "unique_on key (rows @ [r]) \<longleftrightarrow> unique_on key rows \<and> key r \<notin> key ` set rows"
  by (auto simp: unique_on_def)

lemma unique_on_delete [table_simps]: "unique_on key rows \<Longrightarrow> unique_on key (delete_rows p rows)"
  by (simp add: unique_on_def delete_rows_def distinct_map_filter)

lemma unique_on_update [table_simps]:
  assumes "\<And>r. r \<in> set rows \<Longrightarrow> key (f r) = key r" "unique_on key rows"
  shows "unique_on key (update_rows p f rows)"
proof -
  have "map key (update_rows p f rows) = map key rows"
    using assms(1) by (simp add: update_rows_def)
  with assms(2) show ?thesis by (simp add: unique_on_def)
qed

lemma set_delete_rows [simp]: "set (delete_rows p rows) = {r \<in> set rows. \<not> p r}"
  by (auto simp: delete_rows_def)

lemma set_update_rows [simp]:
  "set (update_rows p f rows) = (\<lambda>r. if p r then f r else r) ` set rows"
  by (auto simp: update_rows_def)

lemma unique_on_Nil [simp]: "unique_on key []"
  by (simp add: unique_on_def)

lemma length_filter_0_iff: "length (filter P xs) = 0 \<longleftrightarrow> (\<forall>x \<in> set xs. \<not> P x)"
  by (simp add: filter_empty_conv)

text \<open>A foreign key: every row's reference is the key of some target row.\<close>

definition refs :: "('r \<Rightarrow> 'k) \<Rightarrow> 'r list \<Rightarrow> ('s \<Rightarrow> 'k) \<Rightarrow> 's list \<Rightarrow> bool" where
  "refs fk rows key targets = (\<forall>r \<in> set rows. fk r \<in> key ` set targets)"

lemma refs_Nil [simp]: "refs fk [] key targets"
  by (simp add: refs_def)

lemma refs_snoc [table_simps]:
  "refs fk (rows @ [r]) key targets \<longleftrightarrow> refs fk rows key targets \<and> fk r \<in> key ` set targets"
  by (auto simp: refs_def)

lemma refs_delete [table_simps]: "refs fk rows key targets \<Longrightarrow> refs fk (delete_rows p rows) key targets"
  by (auto simp: refs_def)

lemma refs_update [table_simps]:
  "refs fk rows key targets \<Longrightarrow> (\<And>r. r \<in> set rows \<Longrightarrow> fk (f r) = fk r) \<Longrightarrow> refs fk (update_rows p f rows) key targets"
  by (auto simp: refs_def)

lemma refs_target_snoc [table_simps]: "refs fk rows key targets \<Longrightarrow> refs fk rows key (targets @ [t])"
  by (auto simp: refs_def)

lemma refs_target_update [table_simps]:
  "refs fk rows key targets \<Longrightarrow> (\<And>t. t \<in> set targets \<Longrightarrow> key (f t) = key t) \<Longrightarrow> refs fk rows key (update_rows p f targets)"
proof -
  assume r: "refs fk rows key targets" and k: "\<And>t. t \<in> set targets \<Longrightarrow> key (f t) = key t"
  have "key ` set (update_rows p f targets) = key ` set targets"
    unfolding set_update_rows image_image by (rule image_cong) (auto simp: k)
  with r show ?thesis by (simp add: refs_def)
qed

lemma refs_target_delete [table_simps]:
  "refs fk rows key targets \<Longrightarrow> (\<And>t r. t \<in> set targets \<Longrightarrow> p t \<Longrightarrow> r \<in> set rows \<Longrightarrow> fk r \<noteq> key t)
     \<Longrightarrow> refs fk rows key (delete_rows p targets)"
  by (force simp: refs_def)

lemma refs_delete_both:
  "refs fk rows key targets \<Longrightarrow> (\<And>t r. p t \<Longrightarrow> fk r = key t \<Longrightarrow> q r)
     \<Longrightarrow> refs fk (delete_rows q rows) key (delete_rows p targets)"
  by (force simp: refs_def)

lemma unique_on_same_keys: "map key rows = map key rows' \<Longrightarrow> unique_on key rows = unique_on key rows'"
  by (simp add: unique_on_def)

lemma update_rows_Cons: "update_rows p f (r # rows) = (if p r then f r else r) # update_rows p f rows"
  by (simp add: update_rows_def)

lemma unique_on_Cons: "unique_on key (r # rows) \<longleftrightarrow> key r \<notin> key ` set rows \<and> unique_on key rows"
  by (simp add: unique_on_def)

text \<open>Replacing one row of a keyed table by a row whose value of the key is not taken elsewhere.\<close>

lemma unique_on_replace [table_simps]:
  assumes "unique_on ident rows" "unique_on key rows"
    and "\<And>r. r \<in> set rows \<Longrightarrow> ident r \<noteq> k \<Longrightarrow> key r \<noteq> key x"
  shows "unique_on key (update_rows (\<lambda>r. ident r = k) (\<lambda>_. x) rows)"
  using assms
proof (induction rows)
  case Nil
  then show ?case by (simp add: update_rows_def)
next
  case (Cons r rows)
  have IH: "unique_on key (update_rows (\<lambda>r. ident r = k) (\<lambda>_. x) rows)"
    using Cons by (auto simp: unique_on_def)
  show ?case
  proof (cases "ident r = k")
    case True
    have "ident s \<noteq> k" if "s \<in> set rows" for s
      using Cons.prems(1) True that by (auto simp: unique_on_def image_iff)
    then have "update_rows (\<lambda>r. ident r = k) (\<lambda>_. x) rows = rows"
      and "\<forall>s \<in> set rows. key s \<noteq> key x"
      using Cons.prems(3) by (auto simp: update_rows_def intro: map_idI)
    then show ?thesis using True Cons.prems(2) by (auto simp: unique_on_def update_rows_def image_iff)
  next
    case False
    have "key r \<noteq> key s" if "s \<in> set rows" for s
      using Cons.prems(2) that by (auto simp: unique_on_def image_iff)
    moreover have "key r \<noteq> key x" using Cons.prems(3) False by simp
    ultimately have "key r \<notin> key ` set (update_rows (\<lambda>r. ident r = k) (\<lambda>_. x) rows)" by auto
    then show ?thesis using IH False by (simp only: update_rows_Cons unique_on_Cons if_False simp_thms)
  qed
qed

end
