(* ===== verification/GoNet.thy ===== *)
theory GoNet
  imports Prelude "HOL-Library.Word"
begin

unbundle bit_operations_syntax

text \<open>
  The part of Go's package net the sources rely on: \<^verbatim>\<open>net.SplitHostPort\<close>,
  \<^verbatim>\<open>strconv.Atoi\<close> on ports, \<^verbatim>\<open>net.ParseIP\<close> (IPv4 and IPv6 text forms) and the
  address predicates of \<^verbatim>\<open>net.IP\<close>. An address is a list of 4 or 16 bytes.
\<close>

type_synonym ip = "8 word list"

section \<open>Substring search and integers in text\<close>

fun str_contains :: "string \<Rightarrow> string \<Rightarrow> bool" where
  "str_contains [] pat = (pat = [])"
| "str_contains (c # s) pat = (prefix pat (c # s) \<or> str_contains s pat)"

definition digit_val :: "char \<Rightarrow> nat" where
  "digit_val c = of_char c - 48"

definition digits_val :: "string \<Rightarrow> nat" where
  "digits_val s = foldl (\<lambda>n c. 10 * n + digit_val c) 0 s"

text \<open>\<^verbatim>\<open>strconv.Atoi\<close>: an optional sign and decimal digits that fit an int64.\<close>

definition atoi :: "string \<Rightarrow> int option" where
  "atoi s =
     (let (neg, ds) = (case s of
           c # r \<Rightarrow> if c = CHR ''-'' then (True, r) else if c = CHR ''+'' then (False, r) else (False, s)
         | [] \<Rightarrow> (False, [])) in
      if ds = [] \<or> \<not> list_all is_digit ds then None
      else let v = (if neg then - int (digits_val ds) else int (digits_val ds)) in
        if - (2 ^ 63) \<le> v \<and> v < 2 ^ 63 then Some v else None)"

section \<open>net.SplitHostPort\<close>

datatype addr_err = MissingPort | TooManyColons | MissingBracket | UnexpectedOpen | UnexpectedClose

fun addr_err_text :: "addr_err \<Rightarrow> string" where
  "addr_err_text MissingPort = ''missing port in address''"
| "addr_err_text TooManyColons = ''too many colons in address''"
| "addr_err_text MissingBracket = ''missing bracket in address''"
| "addr_err_text UnexpectedOpen = ''unexpected open bracket in address''"
| "addr_err_text UnexpectedClose = ''unexpected close bracket in address''"

text \<open>\<^verbatim>\<open>(*net.AddrError).Error\<close>: the offending address is part of the message.\<close>

definition addr_err_msg :: "string \<Rightarrow> addr_err \<Rightarrow> string" where
  "addr_err_msg addr e = (if addr = [] then addr_err_text e
     else ''address '' @ addr @ '': '' @ addr_err_text e)"

fun index_of :: "char \<Rightarrow> string \<Rightarrow> nat option" where
  "index_of c [] = None"
| "index_of c (x # xs) = (if x = c then Some 0 else map_option Suc (index_of c xs))"

definition last_index_of :: "char \<Rightarrow> string \<Rightarrow> nat option" where
  "last_index_of c s = map_option (\<lambda>i. length s - 1 - i) (index_of c (rev s))"

definition split_host_port :: "string \<Rightarrow> addr_err + string \<times> string" where
  "split_host_port hp =
     (case last_index_of (CHR '':'') hp of
        None \<Rightarrow> Inl MissingPort
      | Some i \<Rightarrow>
          if prefix ''['' hp then
            (case index_of (CHR '']'') hp of
               None \<Rightarrow> Inl MissingBracket
             | Some e \<Rightarrow>
                 if e + 1 = length hp then Inl MissingPort
                 else if e + 1 \<noteq> i then
                   (if hp ! (e + 1) = CHR '':'' then Inl TooManyColons else Inl MissingPort)
                 else if CHR ''['' \<in> set (drop 1 hp) then Inl UnexpectedOpen
                 else if CHR '']'' \<in> set (drop (e + 1) hp) then Inl UnexpectedClose
                 else Inr (drop 1 (take e hp), drop (i + 1) hp))
          else if CHR '':'' \<in> set (take i hp) then Inl TooManyColons
          else if CHR ''['' \<in> set hp then Inl UnexpectedOpen
          else if CHR '']'' \<in> set hp then Inl UnexpectedClose
          else Inr (take i hp, drop (i + 1) hp))"

section \<open>net.ParseIP\<close>

text \<open>One decimal field of a dotted quad: 1 to 3 digits, no leading zero, at most 255.\<close>

definition ipv4_field :: "string \<Rightarrow> 8 word option" where
  "ipv4_field f =
     (if f = [] \<or> \<not> list_all is_digit f then None
      else if length f > 1 \<and> hd f = CHR ''0'' then None
      else if length f > 3 \<or> digits_val f > 255 then None
      else Some (of_nat (digits_val f)))"

definition ipv4_fields :: "string \<Rightarrow> ip option" where
  "ipv4_fields s =
     (case map ipv4_field (split_on (CHR ''.'') s) of
        [Some a, Some b, Some c, Some d] \<Rightarrow> Some [a, b, c, d]
      | _ \<Rightarrow> None)"

definition hex_val :: "char \<Rightarrow> nat option" where
  "hex_val c =
     (if is_digit c then Some (of_char c - 48)
      else if CHR ''a'' \<le> c \<and> c \<le> CHR ''f'' then Some (of_char c - 87)
      else if CHR ''A'' \<le> c \<and> c \<le> CHR ''F'' then Some (of_char c - 55)
      else None)"

definition is_hex :: "char \<Rightarrow> bool" where
  "is_hex c = (hex_val c \<noteq> None)"

definition hex_group :: "string \<Rightarrow> nat" where
  "hex_group s = foldl (\<lambda>n c. 16 * n + (case hex_val c of Some v \<Rightarrow> v | None \<Rightarrow> 0)) 0 s"

text \<open>
  The group loop of \<^verbatim>\<open>netip.parseIPv6\<close>. The first argument counts the groups that
  still fit (the loop runs while fewer than 16 bytes are filled), \<open>acc\<close> holds the
  bytes so far and \<open>ell\<close> the byte position of the double colon. The result carries
  the unread rest of the text.
\<close>

fun ipv6_groups :: "nat \<Rightarrow> string \<Rightarrow> ip \<Rightarrow> nat option \<Rightarrow> (string \<times> ip \<times> nat option) option" where
  "ipv6_groups 0 s acc ell = Some (s, acc, ell)"
| "ipv6_groups (Suc k) s acc ell =
     (let g = takeWhile is_hex s; rest = dropWhile is_hex s in
      if g = [] \<or> length g > 4 then None
      else if prefix ''.'' rest then
        (if ell = None \<and> length acc \<noteq> 12 then None
         else if length acc + 4 > 16 then None
         else case ipv4_fields s of None \<Rightarrow> None | Some q \<Rightarrow> Some ([], acc @ q, ell))
      else
        let acc' = acc @ [of_nat (hex_group g div 256), of_nat (hex_group g mod 256)] in
        case rest of
          [] \<Rightarrow> Some ([], acc', ell)
        | c # r \<Rightarrow>
            if c \<noteq> CHR '':'' then None
            else if r = [] then None
            else if prefix '':'' r then
              (if ell \<noteq> None then None
               else if tl r = [] then Some ([], acc', Some (length acc'))
               else ipv6_groups k (tl r) acc' (Some (length acc')))
            else ipv6_groups k r acc' ell)"

definition parse_ipv6 :: "string \<Rightarrow> ip option" where
  "parse_ipv6 s =
     (let (s', ell) = (if prefix ''::'' s then (drop 2 s, Some 0) else (s, None)) in
      if prefix ''::'' s \<and> s' = [] then Some (replicate 16 0)
      else case ipv6_groups 8 s' [] ell of
        None \<Rightarrow> None
      | Some (rest, acc, ell') \<Rightarrow>
          if rest \<noteq> [] then None
          else if length acc < 16 then
            (case ell' of
               None \<Rightarrow> None
             | Some e \<Rightarrow> Some (take e acc @ replicate (16 - length acc) 0 @ drop e acc))
          else if ell' \<noteq> None then None
          else Some acc)"

definition v4_mapped :: "ip \<Rightarrow> ip" where
  "v4_mapped q = replicate 10 0 @ [255, 255] @ q"

text \<open>
  \<^verbatim>\<open>net.ParseIP\<close>: the first of dot, colon or percent decides the family; a zone is
  never accepted; the result is the 16-byte form.
\<close>

definition parse_ip :: "string \<Rightarrow> ip option" where
  "parse_ip s =
     (case dropWhile (\<lambda>c. c \<noteq> CHR ''.'' \<and> c \<noteq> CHR '':'' \<and> c \<noteq> CHR ''%'') s of
        [] \<Rightarrow> None
      | c # _ \<Rightarrow>
          if c = CHR ''.'' then map_option v4_mapped (ipv4_fields s)
          else if c = CHR '':'' then (if CHR ''%'' \<in> set s then None else parse_ipv6 s)
          else None)"

section \<open>net.IP predicates\<close>

definition to4 :: "ip \<Rightarrow> ip option" where
  "to4 a = (if length a = 4 then Some a
     else if length a = 16 \<and> take 10 a = replicate 10 0 \<and> a ! 10 = 255 \<and> a ! 11 = 255
       then Some (drop 12 a) else None)"

definition ip_equal :: "ip \<Rightarrow> ip \<Rightarrow> bool" where
  "ip_equal a b = (if length a = length b then a = b
     else if length a = 4 \<and> length b = 16 then b = v4_mapped a
     else if length a = 16 \<and> length b = 4 then a = v4_mapped b
     else False)"

definition ipv6_loopback :: ip where
  "ipv6_loopback = replicate 15 0 @ [1]"

definition is_loopback :: "ip \<Rightarrow> bool" where
  "is_loopback a = (case to4 a of Some q \<Rightarrow> q ! 0 = 127 | None \<Rightarrow> ip_equal a ipv6_loopback)"

definition is_link_local_unicast :: "ip \<Rightarrow> bool" where
  "is_link_local_unicast a = (case to4 a of
       Some q \<Rightarrow> q ! 0 = 169 \<and> q ! 1 = 254
     | None \<Rightarrow> length a = 16 \<and> a ! 0 = 0xfe \<and> a ! 1 AND 0xc0 = 0x80)"

definition is_link_local_multicast :: "ip \<Rightarrow> bool" where
  "is_link_local_multicast a = (case to4 a of
       Some q \<Rightarrow> q ! 0 = 224 \<and> q ! 1 = 0 \<and> q ! 2 = 0
     | None \<Rightarrow> length a = 16 \<and> a ! 0 = 0xff \<and> a ! 1 AND 0x0f = 0x02)"

definition is_interface_local_multicast :: "ip \<Rightarrow> bool" where
  "is_interface_local_multicast a = (length a = 16 \<and> a ! 0 = 0xff \<and> a ! 1 AND 0x0f = 0x01)"

definition is_unspecified :: "ip \<Rightarrow> bool" where
  "is_unspecified a = (ip_equal a (v4_mapped [0, 0, 0, 0]) \<or> ip_equal a (replicate 16 0))"

definition is_multicast :: "ip \<Rightarrow> bool" where
  "is_multicast a = (case to4 a of
       Some q \<Rightarrow> q ! 0 AND 0xf0 = 0xe0
     | None \<Rightarrow> length a = 16 \<and> a ! 0 = 0xff)"

section \<open>Facts\<close>

lemma v4_mapped_expand: "v4_mapped q = [0, 0, 0, 0, 0, 0, 0, 0, 0, 0, 255, 255] @ q"
  by (simp add: v4_mapped_def eval_nat_numeral)

lemma length_v4_mapped [simp]: "length q = 4 \<Longrightarrow> length (v4_mapped q) = 16"
  by (simp add: v4_mapped_def)

lemma v4_mapped_inj [simp]: "v4_mapped a = v4_mapped b \<longleftrightarrow> a = b"
  by (simp add: v4_mapped_def)

lemma to4_v4 [simp]: "length q = 4 \<Longrightarrow> to4 q = Some q"
  by (simp add: to4_def)

lemma to4_v4_mapped [simp]: "length q = 4 \<Longrightarrow> to4 (v4_mapped q) = Some q"
  by (simp add: to4_def v4_mapped_def nth_append)

lemma ipv4_fields_length: "ipv4_fields s = Some q \<Longrightarrow> length q = 4"
  by (auto simp: ipv4_fields_def split: list.splits option.splits)

lemma ipv6_groups_length:
  "ipv6_groups k s acc ell = Some (r, acc', ell') \<Longrightarrow> length acc + 2 * k \<le> 16 \<Longrightarrow> length acc' \<le> 16"
proof (induction k s acc ell rule: ipv6_groups.induct)
  case (1 s acc ell)
  then show ?case by simp
next
  case (2 k s acc ell)
  then show ?case
    by (auto simp: Let_def split: if_splits option.splits list.splits dest!: ipv4_fields_length)
qed

lemma parse_ipv6_length: "parse_ipv6 s = Some a \<Longrightarrow> length a = 16"
proof -
  assume p: "parse_ipv6 s = Some a"
  have le: "length acc \<le> 16" if "ipv6_groups 8 t [] ell = Some (r, acc, ell')" for t ell r acc ell'
    using ipv6_groups_length [OF that] by simp
  from p show ?thesis
    by (auto simp: parse_ipv6_def Let_def split: if_splits option.splits prod.splits dest!: le)
qed

lemma parse_ip_length: "parse_ip s = Some a \<Longrightarrow> length a = 16"
  by (auto simp: parse_ip_def split: list.splits if_splits
      dest: ipv4_fields_length parse_ipv6_length)

text \<open>The octet masks as ranges, checked over all 256 octets.\<close>

lemma octet_cases: "(x :: 8 word) \<in> set (map of_nat [0..<256])"
proof -
  have "unat x < 2 ^ LENGTH(8)" by (rule unsigned_less)
  then have "unat x \<in> set [0..<256]" by simp
  then have "(word_of_nat (unat x) :: 8 word) \<in> word_of_nat ` set [0..<256]" by (rule imageI)
  then show ?thesis by simp
qed

lemma octet_all: "list_all P (map of_nat [0..<256]) \<Longrightarrow> P (x :: 8 word)"
  using octet_cases [of x] by (auto simp: list_all_iff)

lemma multicast_octet: "((x :: 8 word) AND 0xf0 = 0xe0) = (224 \<le> x \<and> x \<le> 239)"
  by (rule octet_all) code_simp

lemma fe80_octet: "((x :: 8 word) AND 0xc0 = 0x80) = (128 \<le> x \<and> x \<le> 191)"
  by (rule octet_all) code_simp

end
