(* ===== verification/Policy.thy ===== *)
theory Policy
  imports GoNet
begin

text \<open>
  Package policy: host patterns (pattern.go), the three-level fetch policy and its
  intersection (fetch.go), visibility (visibility.go) and the SSRF guard (ssrf.go).
\<close>

section \<open>Fetch modes (fetch.go)\<close>

datatype FetchMode = FetchModeDeny | FetchModeAllowlist | FetchModeAllowAll

fun fetch_mode_rank :: "FetchMode \<Rightarrow> nat" where
  "fetch_mode_rank FetchModeDeny = 0"
| "fetch_mode_rank FetchModeAllowlist = 1"
| "fetch_mode_rank FetchModeAllowAll = 2"

lemma fetch_mode_rank_inj: "fetch_mode_rank a = fetch_mode_rank b \<Longrightarrow> a = b"
  by (cases a; cases b) auto

instantiation FetchMode :: linorder
begin

definition less_eq_FetchMode :: "FetchMode \<Rightarrow> FetchMode \<Rightarrow> bool" where
  "less_eq_FetchMode a b = (fetch_mode_rank a \<le> fetch_mode_rank b)"

definition less_FetchMode :: "FetchMode \<Rightarrow> FetchMode \<Rightarrow> bool" where
  "less_FetchMode a b = (fetch_mode_rank a < fetch_mode_rank b)"

instance
  by standard (auto simp: less_eq_FetchMode_def less_FetchMode_def intro: fetch_mode_rank_inj)

end

lemmas fetch_mode_order = less_eq_FetchMode_def less_FetchMode_def

fun fetch_mode_String :: "FetchMode \<Rightarrow> string" where
  "fetch_mode_String FetchModeDeny = ''deny''"
| "fetch_mode_String FetchModeAllowlist = ''allowlist''"
| "fetch_mode_String FetchModeAllowAll = ''allow-all''"

datatype policy_error = ErrInvalidFetchMode string | ErrInvalidPattern string | ErrInvalidVisibility string

definition ParseFetchMode :: "string \<Rightarrow> policy_error + FetchMode" where
  "ParseFetchMode s =
     (if s = ''deny'' then Inr FetchModeDeny
      else if s = ''allowlist'' then Inr FetchModeAllowlist
      else if s = ''allow-all'' then Inr FetchModeAllowAll
      else Inl (ErrInvalidFetchMode s))"

section \<open>Host patterns (pattern.go)\<close>

definition is_alnum :: "char \<Rightarrow> bool" where
  "is_alnum c = (is_digit c \<or> is_lower c \<or> is_upper c)"

text \<open>\<open>hostLabelRE\<close>: a DNS label of 1 to 63 letters, digits and inner hyphens.\<close>

definition hostLabelRE :: "string \<Rightarrow> bool" where
  "hostLabelRE l = (l \<noteq> [] \<and> length l \<le> 63 \<and> is_alnum (hd l) \<and> is_alnum (last l)
     \<and> list_all (\<lambda>c. is_alnum c \<or> c = CHR ''-'') l)"

record Pattern =
  pat_raw :: string
  pat_host :: string
  pat_wildcard :: bool
  pat_port :: int

definition isValidHostname :: "string \<Rightarrow> bool" where
  "isValidHostname s = (s \<noteq> [] \<and> length s \<le> 253 \<and> list_all hostLabelRE (split_on (CHR ''.'') s))"

text \<open>The part of \<open>ParsePattern\<close> after the optional port has been split off.\<close>

definition pattern_of_host :: "string \<Rightarrow> string \<Rightarrow> int \<Rightarrow> policy_error + Pattern" where
  "pattern_of_host raw h port =
     (let host = trim_suffix (trim_prefix (to_lower h) ''['') '']'' in
      if host = [] then Inl (ErrInvalidPattern raw)
      else if prefix ''*.'' host then
        (let domain = drop 2 host in
         if domain = [] \<or> \<not> isValidHostname domain then Inl (ErrInvalidPattern raw)
         else Inr \<lparr>pat_raw = raw, pat_host = domain, pat_wildcard = True, pat_port = port\<rparr>)
      else if \<not> isValidHostname host \<and> parse_ip host = None then Inl (ErrInvalidPattern raw)
      else Inr \<lparr>pat_raw = raw, pat_host = host, pat_wildcard = False, pat_port = port\<rparr>)"

definition ParsePattern :: "string \<Rightarrow> policy_error + Pattern" where
  "ParsePattern s =
     (if s = [] then Inl (ErrInvalidPattern s)
      else case split_host_port s of
        Inr (h, portStr) \<Rightarrow>
          (case atoi portStr of
             None \<Rightarrow> Inl (ErrInvalidPattern s)
           | Some n \<Rightarrow> if n < 1 \<or> n > 65535 then Inl (ErrInvalidPattern s)
               else pattern_of_host s h n)
      | Inl e \<Rightarrow>
          if \<not> str_contains (addr_err_msg s e) ''missing port'' then Inl (ErrInvalidPattern s)
          else pattern_of_host s s 0)"

definition portMatches :: "Pattern \<Rightarrow> int \<Rightarrow> bool" where
  "portMatches p port =
     (if port = 0 then True
      else if pat_port p \<noteq> 0 then port = pat_port p
      else port = 80 \<or> port = 443)"

definition Matches :: "Pattern \<Rightarrow> string \<Rightarrow> int \<Rightarrow> bool" where
  "Matches p host port =
     (if \<not> portMatches p port then False
      else let h = to_lower (trim_suffix host ''.'') in
        if pat_wildcard p then suffix (CHR ''.'' # pat_host p) h \<and> h \<noteq> pat_host p
        else h = pat_host p)"

section \<open>Effective policy (fetch.go)\<close>

record FetchPolicy =
  fp_mode :: FetchMode
  fp_allow :: "Pattern list"

record EffectivePolicy =
  ep_mode :: FetchMode
  ep_levels :: "FetchPolicy list"

definition Effective :: "FetchPolicy list \<Rightarrow> EffectivePolicy" where
  "Effective levels =
     (if levels = [] then \<lparr>ep_mode = FetchModeDeny, ep_levels = []\<rparr>
      else
        let mode = foldl (\<lambda>m l. if fp_mode l < m then fp_mode l else m) FetchModeAllowAll levels in
        \<lparr>ep_mode = mode,
         ep_levels = (if mode = FetchModeAllowlist
            then filter (\<lambda>l. fp_mode l = FetchModeAllowlist) levels else [])\<rparr>)"

fun anyPatternMatches :: "Pattern list \<Rightarrow> string \<Rightarrow> int \<Rightarrow> bool" where
  "anyPatternMatches [] host port = False"
| "anyPatternMatches (p # ps) host port = (if Matches p host port then True else anyPatternMatches ps host port)"

definition Decision :: "EffectivePolicy \<Rightarrow> string \<Rightarrow> int \<Rightarrow> bool" where
  "Decision e host port =
     (case ep_mode e of
        FetchModeAllowAll \<Rightarrow> True
      | FetchModeAllowlist \<Rightarrow> list_all (\<lambda>l. anyPatternMatches (fp_allow l) host port) (ep_levels e)
      | FetchModeDeny \<Rightarrow> False)"

section \<open>Visibility (visibility.go)\<close>

datatype Visibility = VisibilityWorkspace | VisibilityOrg | VisibilityPublic

fun visibility_rank :: "Visibility \<Rightarrow> nat" where
  "visibility_rank VisibilityWorkspace = 0"
| "visibility_rank VisibilityOrg = 1"
| "visibility_rank VisibilityPublic = 2"

lemma visibility_rank_inj: "visibility_rank a = visibility_rank b \<Longrightarrow> a = b"
  by (cases a; cases b) auto

instantiation Visibility :: linorder
begin

definition less_eq_Visibility :: "Visibility \<Rightarrow> Visibility \<Rightarrow> bool" where
  "less_eq_Visibility a b = (visibility_rank a \<le> visibility_rank b)"

definition less_Visibility :: "Visibility \<Rightarrow> Visibility \<Rightarrow> bool" where
  "less_Visibility a b = (visibility_rank a < visibility_rank b)"

instance
  by standard (auto simp: less_eq_Visibility_def less_Visibility_def intro: visibility_rank_inj)

end

fun visibility_String :: "Visibility \<Rightarrow> string" where
  "visibility_String VisibilityWorkspace = ''workspace''"
| "visibility_String VisibilityOrg = ''org''"
| "visibility_String VisibilityPublic = ''public''"

definition ParseVisibility :: "string \<Rightarrow> policy_error + Visibility" where
  "ParseVisibility s =
     (if s = ''public'' then Inr VisibilityPublic
      else if s = ''org'' then Inr VisibilityOrg
      else if s = ''workspace'' then Inr VisibilityWorkspace
      else Inl (ErrInvalidVisibility s))"

definition MinVisibility :: "Visibility list \<Rightarrow> Visibility" where
  "MinVisibility vs =
     (case vs of [] \<Rightarrow> VisibilityWorkspace
      | v # rest \<Rightarrow> foldl (\<lambda>narrowest v. if v < narrowest then v else narrowest) v rest)"

section \<open>The SSRF guard (ssrf.go)\<close>

definition alibabaMetadataIP :: ip where
  "alibabaMetadataIP = v4_mapped [100, 100, 100, 200]"

definition BlockedIP :: "ip option \<Rightarrow> bool" where
  "BlockedIP ip =
     (case ip of
        None \<Rightarrow> True
      | Some a \<Rightarrow>
          if is_loopback a \<or> is_link_local_unicast a \<or> is_link_local_multicast a
             \<or> is_interface_local_multicast a \<or> is_unspecified a \<or> is_multicast a then True
          else (case to4 a of Some q \<Rightarrow> ip_equal q alibabaMetadataIP | None \<Rightarrow> False))"

section \<open>Lemmas\<close>

subsection \<open>Round trips of the enumerations\<close>

lemma ParseFetchMode_String [simp]: "ParseFetchMode (fetch_mode_String m) = Inr m"
  by (cases m) (simp_all add: ParseFetchMode_def)

lemma ParseFetchMode_Inr: "ParseFetchMode s = Inr m \<longleftrightarrow> s = fetch_mode_String m"
  by (cases m) (auto simp: ParseFetchMode_def)

lemma ParseVisibility_String [simp]: "ParseVisibility (visibility_String v) = Inr v"
  by (cases v) (simp_all add: ParseVisibility_def)

lemma ParseVisibility_Inr: "ParseVisibility s = Inr v \<longleftrightarrow> s = visibility_String v"
  by (cases v) (auto simp: ParseVisibility_def)

subsection \<open>The effective mode is the minimum of the levels\<close>

lemma effective_mode_foldl:
  "foldl (\<lambda>m l. if fp_mode l < m then fp_mode l else m) m0 ls = foldl min m0 (map fp_mode ls)"
  by (induction ls arbitrary: m0) (auto simp: min_def)

lemma foldl_min_le: "x \<in> set (m0 # ms) \<Longrightarrow> foldl min (m0 :: 'a :: linorder) ms \<le> x"
proof (induction ms arbitrary: m0 x)
  case Nil
  then show ?case by simp
next
  case (Cons m ms)
  have head: "foldl min (min m0 m) ms \<le> min m0 m"
    by (rule Cons.IH) simp
  show ?case
  proof (cases "x \<in> set ms")
    case True
    then show ?thesis using Cons.IH [of x "min m0 m"] by simp
  next
    case False
    with Cons.prems have "min m0 m \<le> x" by auto
    from order_trans [OF head this] show ?thesis by simp
  qed
qed

lemma foldl_min_in: "foldl min (m0 :: 'a :: linorder) ms \<in> set (m0 # ms)"
proof (induction ms arbitrary: m0)
  case Nil
  then show ?case by simp
next
  case (Cons m ms)
  from Cons [of "min m0 m"] show ?case by (auto simp: min_def split: if_splits)
qed

text \<open>What one level permits on its own.\<close>

definition level_permits :: "FetchPolicy \<Rightarrow> string \<Rightarrow> int \<Rightarrow> bool" where
  "level_permits l host port =
     (case fp_mode l of FetchModeDeny \<Rightarrow> False
      | FetchModeAllowlist \<Rightarrow> (\<exists>p \<in> set (fp_allow l). Matches p host port)
      | FetchModeAllowAll \<Rightarrow> True)"

lemma anyPatternMatches_iff: "anyPatternMatches ps host port \<longleftrightarrow> (\<exists>p \<in> set ps. Matches p host port)"
  by (induction ps) auto

lemma Effective_mode_le: "l \<in> set ls \<Longrightarrow> ep_mode (Effective ls) \<le> fp_mode l"
  using foldl_min_le [of "fp_mode l" FetchModeAllowAll "map fp_mode ls"]
  by (auto simp: Effective_def Let_def effective_mode_foldl)

lemma Effective_mode_in:
  "ls \<noteq> [] \<Longrightarrow> ep_mode (Effective ls) \<in> fp_mode ` set ls"
proof -
  assume ne: "ls \<noteq> []"
  let ?m = "foldl min FetchModeAllowAll (map fp_mode ls)"
  have mode: "ep_mode (Effective ls) = ?m"
    using ne by (simp add: Effective_def Let_def effective_mode_foldl)
  from foldl_min_in [of FetchModeAllowAll "map fp_mode ls"]
  consider "?m = FetchModeAllowAll" | "?m \<in> fp_mode ` set ls" by auto
  then show ?thesis
  proof cases
    case 1
    obtain l where l: "l \<in> set ls" using ne by (cases ls) auto
    with Effective_mode_le [OF l] mode 1 have "fp_mode l = FetchModeAllowAll"
      by (cases "fp_mode l") (auto simp: fetch_mode_order)
    with l mode 1 show ?thesis by force
  next
    case 2
    with mode show ?thesis by simp
  qed
qed

text \<open>
  The effective policy is the intersection of its levels: an outbound fetch is
  decided ALLOW exactly when at least one level is configured and every level
  permits the host and port on its own (no level fails closed to deny).
\<close>

lemma Decision_levels:
  "Decision (Effective levels) host port
     \<longleftrightarrow> levels \<noteq> [] \<and> list_all (\<lambda>l. level_permits l host port) levels"
proof (cases "levels = []")
  case True
  then show ?thesis by (simp add: Effective_def Decision_def)
next
  case ne: False
  show ?thesis
  proof (cases "ep_mode (Effective levels)")
    case FetchModeDeny
    with Effective_mode_in [OF ne] obtain l where "l \<in> set levels" "fp_mode l = FetchModeDeny" by force
    with FetchModeDeny show ?thesis
      by (auto simp: Decision_def list_all_iff level_permits_def intro!: bexI [of _ l])
  next
    case FetchModeAllowlist
    have lv: "ep_levels (Effective levels) = filter (\<lambda>l. fp_mode l = FetchModeAllowlist) levels"
      using FetchModeAllowlist ne by (simp add: Effective_def Let_def split: if_splits)
    have nd: "fp_mode l \<noteq> FetchModeDeny" if "l \<in> set levels" for l
      using Effective_mode_le [OF that] FetchModeAllowlist
      by (cases "fp_mode l") (auto simp: fetch_mode_order)
    have "level_permits l host port \<longleftrightarrow>
        (fp_mode l = FetchModeAllowlist \<longrightarrow> anyPatternMatches (fp_allow l) host port)"
      if "l \<in> set levels" for l
      using nd [OF that] by (cases "fp_mode l") (auto simp: level_permits_def anyPatternMatches_iff)
    with FetchModeAllowlist lv ne show ?thesis
      by (auto simp: Decision_def list_all_iff)
  next
    case FetchModeAllowAll
    have "fp_mode l = FetchModeAllowAll" if "l \<in> set levels" for l
      using Effective_mode_le [OF that] FetchModeAllowAll
      by (cases "fp_mode l") (auto simp: fetch_mode_order)
    with FetchModeAllowAll ne show ?thesis
      by (auto simp: Decision_def list_all_iff level_permits_def)
  qed
qed

subsection \<open>Patterns\<close>

lemma portMatches_0 [simp]: "portMatches p 0"
  by (simp add: portMatches_def)

lemma Matches_port0: "Matches p host port \<Longrightarrow> Matches p host 0"
  by (auto simp: Matches_def Let_def split: if_splits)

text \<open>
  The Resolve-time pre-check never refuses what the Dial-time check would
  allow: a fetch permitted for a concrete port is also permitted for the
  \<open>port = 0\<close> query the resolver makes before the port is known.
\<close>

lemma Decision_port0: "Decision e host port \<Longrightarrow> Decision e host 0"
  by (auto simp: Decision_def list_all_iff anyPatternMatches_iff
      split: FetchMode.splits dest: Matches_port0)

definition p_example :: Pattern where
  "p_example = \<lparr>pat_raw = ''*.example.com:8443'', pat_host = ''example.com'', pat_wildcard = True, pat_port = 8443\<rparr>"

lemma parse_example: "ParsePattern ''*.example.com:8443'' = Inr p_example"
  by code_simp

lemma pattern_of_host_Inr:
  assumes "pattern_of_host raw h port = Inr p"
  shows "pat_raw p = raw \<and> pat_port p = port \<and> pat_host p \<noteq> []
     \<and> (isValidHostname (pat_host p) \<or> \<not> pat_wildcard p \<and> parse_ip (pat_host p) \<noteq> None)
     \<and> to_lower (pat_host p) = pat_host p"
proof -
  have low: "to_lower (trim_suffix (trim_prefix (to_lower h) ''['') '']'')
      = trim_suffix (trim_prefix (to_lower h) ''['') '']''"
    by (auto simp: trim_prefix_def trim_suffix_def to_lower_def take_map drop_map)
  then have "to_lower (drop 2 (trim_suffix (trim_prefix (to_lower h) ''['') '']''))
      = drop 2 (trim_suffix (trim_prefix (to_lower h) ''['') '']'')"
    by (metis drop_map to_lower_def)
  with low assms show ?thesis
    by (auto simp: pattern_of_host_def Let_def split: if_splits)
qed

lemma ParsePattern_Inr:
  assumes "ParsePattern s = Inr p"
  shows "pat_raw p = s" "0 \<le> pat_port p" "pat_port p \<le> 65535"
    "pat_host p \<noteq> []" "to_lower (pat_host p) = pat_host p"
    "isValidHostname (pat_host p) \<or> \<not> pat_wildcard p \<and> parse_ip (pat_host p) \<noteq> None"
  using assms
  by (auto simp: ParsePattern_def split: if_splits sum.splits option.splits prod.splits
      dest!: pattern_of_host_Inr)

text \<open>
  A parsed pattern is well formed and re-parses to itself: it keeps its source
  text, its port is 0 or a valid TCP port, its host is lower-case and non-empty and
  is a valid host name or, for a non-wildcard pattern, possibly a literal IP
  address.
\<close>

lemma ParsePattern_wf:
  assumes "ParsePattern s = Inr p"
  shows "ParsePattern (pat_raw p) = Inr p \<and> 0 \<le> pat_port p \<and> pat_port p \<le> 65535
     \<and> pat_host p \<noteq> [] \<and> to_lower (pat_host p) = pat_host p
     \<and> (isValidHostname (pat_host p) \<or> \<not> pat_wildcard p \<and> parse_ip (pat_host p) \<noteq> None)"
  using assms ParsePattern_Inr [OF assms] by simp

text \<open>
  What a pattern matches, with the query host lower-cased and one trailing dot
  dropped. The port must fit (an explicit port exactly, 80 or 443 without one, any
  for the port-0 pre-check). A wildcard pattern then matches exactly the hosts
  ending in a dot and its domain, never the apex domain itself; an exact pattern
  matches only its host.
\<close>

lemma Matches_iff:
  "Matches p host port \<longleftrightarrow>
     (port = 0 \<or> (if pat_port p = 0 then port \<in> {80, 443} else port = pat_port p)) \<and>
     (if pat_wildcard p
      then \<exists>sub. to_lower (trim_suffix host ''.'') = sub @ ''.'' @ pat_host p
      else to_lower (trim_suffix host ''.'') = pat_host p)"
proof -
  have "sub @ ''.'' @ h \<noteq> h" for sub h :: string
    by (metis append_Nil append_assoc append_same_eq list.distinct(1) append_is_Nil_conv)
  then show ?thesis
    by (auto simp: Matches_def Let_def portMatches_def suffix_def)
qed

subsection \<open>Visibility\<close>

lemma MinVisibility_foldl: "MinVisibility (v # vs) = foldl min v vs"
  by (simp add: MinVisibility_def, induction vs arbitrary: v) (auto simp: min_def)

lemma MinVisibility_le: "v \<in> set vs \<Longrightarrow> MinVisibility vs \<le> v"
proof (cases vs)
  case Nil
  then show "v \<in> set vs \<Longrightarrow> MinVisibility vs \<le> v" by simp
next
  case (Cons w ws)
  assume "v \<in> set vs"
  with Cons show ?thesis using foldl_min_le [of v w ws] by (simp add: MinVisibility_foldl)
qed

lemma MinVisibility_in: "vs \<noteq> [] \<Longrightarrow> MinVisibility vs \<in> set vs"
  using foldl_min_in by (cases vs) (auto simp: MinVisibility_foldl)

subsection \<open>Blocked addresses\<close>

lemma replicate_16: "replicate 16 (0 :: 8 word) = [0, 0, 0, 0, 0, 0, 0, 0, 0, 0, 0, 0, 0, 0, 0, 0]"
  by (simp add: eval_nat_numeral)

lemma is_unspecified_v4:
  "length q = 4 \<Longrightarrow> is_unspecified (v4_mapped q) \<longleftrightarrow> q = [0, 0, 0, 0]"
  "length q = 4 \<Longrightarrow> is_unspecified q \<longleftrightarrow> q = [0, 0, 0, 0]"
  by (auto simp: is_unspecified_def ip_equal_def v4_mapped_expand replicate_16)

lemma v4_mapped_not_ff: "v4_mapped q ! 0 = 0"
  by (simp add: v4_mapped_expand)

text \<open>
  The SSRF guard on IPv4 targets, whether dialed in the 4-byte form or smuggled
  in as an IPv4-mapped IPv6 address: exactly loopback (127/8), link-local
  (169.254/16, the cloud metadata range), multicast (224/4), the unspecified
  address and the Alibaba metadata address are blocked; nothing else is.
\<close>

lemma BlockedIP_v4:
  "BlockedIP (Some (v4_mapped [a, b, c, d])) = BlockedIP (Some [a, b, c, d]) \<and>
    (BlockedIP (Some [a, b, c, d]) \<longleftrightarrow>
       a = 127 \<or> a = 169 \<and> b = 254 \<or> 224 \<le> a \<and> a \<le> 239
       \<or> [a, b, c, d] = [0, 0, 0, 0] \<or> [a, b, c, d] = [100, 100, 100, 200])"
proof -
  let ?q = "[a, b, c, d]"
  have ali: "ip_equal ?q alibabaMetadataIP \<longleftrightarrow> ?q = [100, 100, 100, 200]"
    by (auto simp: ip_equal_def alibabaMetadataIP_def v4_mapped_expand)
  have mapped: "BlockedIP (Some (v4_mapped ?q)) = BlockedIP (Some ?q)"
    by (simp add: BlockedIP_def is_loopback_def is_link_local_unicast_def is_link_local_multicast_def
        is_interface_local_multicast_def is_multicast_def is_unspecified_v4 v4_mapped_not_ff)
  have ll: "a = 224 \<Longrightarrow> a AND 0xf0 = 0xe0" by simp
  have "BlockedIP (Some ?q) \<longleftrightarrow>
       a = 127 \<or> a = 169 \<and> b = 254 \<or> a AND 0xf0 = 0xe0
       \<or> ?q = [0, 0, 0, 0] \<or> ?q = [100, 100, 100, 200]"
    using ll ali is_unspecified_v4(2) [of ?q]
    by (auto simp: BlockedIP_def is_loopback_def is_link_local_unicast_def is_link_local_multicast_def
        is_interface_local_multicast_def is_multicast_def)
  with mapped show ?thesis by (simp add: multicast_octet)
qed

text \<open>
  The guard on IPv6 addresses that do not embed an IPv4 address: exactly the
  loopback address, the unspecified address, link-local unicast (fe80::/10) and
  multicast (ff00::/8) are blocked; an address that could not be parsed is always
  blocked.
\<close>

lemma BlockedIP_v6:
  assumes "length a = 16" and "to4 a = None"
  shows "BlockedIP None \<and> (BlockedIP (Some a) \<longleftrightarrow>
     a = ipv6_loopback \<or> a = replicate 16 0
     \<or> a ! 0 = 0xfe \<and> 128 \<le> a ! 1 \<and> a ! 1 \<le> 191 \<or> a ! 0 = 0xff)"
proof -
  have "length ipv6_loopback = 16" by (simp add: ipv6_loopback_def)
  moreover have "a \<noteq> v4_mapped [0, 0, 0, 0]"
    using assms(2) to4_v4_mapped [of "[0, 0, 0, 0]"] by auto
  ultimately show ?thesis
    using assms
    by (auto simp: BlockedIP_def is_loopback_def is_link_local_unicast_def is_link_local_multicast_def
        is_interface_local_multicast_def is_multicast_def is_unspecified_def ip_equal_def fe80_octet)
qed

end
