(* ===== verification/Manifest.thy ===== *)
theory Manifest
  imports Policy
begin

text \<open>
  Package manifest: the function manifest. Locating and decoding the manifest file
  (parse.go), byte sizes (size.go), reserved names (reserved.go), structural
  validation (validate.go), entry-point resolution (main.go) and the storage form
  (normalized.go).

  Parameters: \<open>unmarshal\<close> is the third-party YAML decoder (None is a decoding
  error), \<open>parse_duration\<close> is \<^verbatim>\<open>time.ParseDuration\<close> in nanoseconds, \<open>duration_str\<close> is
  \<^verbatim>\<open>time.Duration.String\<close>, and the record \<open>float_ops\<close> stands for the IEEE float64
  operations \<open>parseByteSize\<close> uses. A bundle's file map is an association list.
\<close>

type_synonym files = "(string \<times> bytes) list"

definition has_file :: "files \<Rightarrow> string \<Rightarrow> bool" where
  "has_file fs name = (map_of fs name \<noteq> None)"

datatype manifest_error =
    ErrParse | ErrInvalidTimeout | ErrInvalidMemory | ErrInvalidFetchPolicy | ErrBadVisibility
  | ErrInvalidName | ErrReservedName | ErrInvalidOwner | ErrDescriptionTooLong | ErrInvalidEnv
  | ErrMainNotFound | ErrNoEntryPoint | ErrNilManifest

section \<open>Data (manifest.go, parse.go, normalized.go)\<close>

record FetchPermission =
  fperm_Mode :: FetchMode
  fperm_Allow :: "Pattern list"

record Manifest =
  m_Source :: string
  m_Name :: string
  m_Owner :: string
  m_Main :: string
  m_Description :: string
  m_Timeout :: "int option"
  m_Memory :: "int option"
  m_Nodejs :: bool
  m_Fetch :: FetchPermission
  m_Env :: "string list"
  m_Visibility :: "Visibility option"

definition FetchPermission_FetchPolicy :: "FetchPermission \<Rightarrow> FetchPolicy" where
  "FetchPermission_FetchPolicy f = \<lparr>fp_mode = fperm_Mode f, fp_allow = fperm_Allow f\<rparr>"

text \<open>The zero value \<^verbatim>\<open>Manifest{}\<close> of a bundle without a manifest file.\<close>

definition zero_manifest :: Manifest where
  "zero_manifest = \<lparr>m_Source = [], m_Name = [], m_Owner = [], m_Main = [], m_Description = [],
     m_Timeout = None, m_Memory = None, m_Nodejs = False,
     m_Fetch = \<lparr>fperm_Mode = FetchModeDeny, fperm_Allow = []\<rparr>, m_Env = [], m_Visibility = None\<rparr>"

record rawFetch =
  rf_Mode :: string
  rf_Allow :: "string list"

record rawManifest =
  raw_Name :: string
  raw_Owner :: string
  raw_Main :: string
  raw_Description :: string
  raw_Timeout :: string
  raw_Memory :: string
  raw_Nodejs :: bool
  raw_Fetch :: rawFetch
  raw_Env :: "string list"
  raw_Visibility :: string

record NormalizedFetch =
  nf_Mode :: string
  nf_Allow :: "string list"

record Normalized =
  n_Source :: string
  n_Name :: string
  n_Owner :: string
  n_Main :: string
  n_Description :: string
  n_Timeout :: string
  n_Memory :: int
  n_Nodejs :: bool
  n_Fetch :: NormalizedFetch
  n_Env :: "string list"
  n_Visibility :: string

section \<open>Byte sizes (size.go)\<close>

record 'f float_ops =
  parse_float :: "string \<Rightarrow> 'f option"
  float_negative :: "'f \<Rightarrow> bool"
  float_scale :: "'f \<Rightarrow> int \<Rightarrow> int"

definition byteUnits :: "(string \<times> int) list" where
  "byteUnits = [(''kib'', 2 ^ 10), (''mib'', 2 ^ 20), (''gib'', 2 ^ 30), (''tib'', 2 ^ 40),
     (''kb'', 1000), (''mb'', 1000 * 1000), (''gb'', 1000 * 1000 * 1000),
     (''tb'', 1000 * 1000 * 1000 * 1000), (''b'', 1)]"

definition parseByteSize :: "'f float_ops \<Rightarrow> string \<Rightarrow> manifest_error + int" where
  "parseByteSize fl s =
     (let trimmed = trim_space s in
      if trimmed = [] then Inl ErrInvalidMemory
      else case find (\<lambda>(sfx, _). suffix sfx (to_lower trimmed)) byteUnits of
        Some (sfx, mult) \<Rightarrow>
          (let numPart = trim_space (take (length trimmed - length sfx) trimmed) in
           if numPart = [] then Inl ErrInvalidMemory
           else case parse_float fl numPart of
             None \<Rightarrow> Inl ErrInvalidMemory
           | Some n \<Rightarrow> if float_negative fl n then Inl ErrInvalidMemory
               else Inr (float_scale fl n mult))
      | None \<Rightarrow>
          (case atoi trimmed of
             None \<Rightarrow> Inl ErrInvalidMemory
           | Some n \<Rightarrow> if n < 0 then Inl ErrInvalidMemory else Inr n))"

section \<open>Decoding (parse.go)\<close>

definition manifestFilenames :: "string list" where
  "manifestFilenames = [''funcbox.yaml'', ''funcbox.yml'', ''funcbox.json'']"

definition findManifestFile :: "files \<Rightarrow> (string \<times> bytes) option" where
  "findManifestFile fs =
     (case find (has_file fs) manifestFilenames of
        None \<Rightarrow> None
      | Some c \<Rightarrow> map_option (\<lambda>d. (c, d)) (map_of fs c))"

definition buildFetchPermission :: "rawFetch \<Rightarrow> manifest_error + FetchPermission" where
  "buildFetchPermission raw =
     (case (if rf_Mode raw \<noteq> [] then ParseFetchMode (rf_Mode raw) else Inr FetchModeDeny) of
        Inl _ \<Rightarrow> Inl ErrInvalidFetchPolicy
      | Inr mode \<Rightarrow>
          (case map_result ParsePattern (rf_Allow raw) of
             Inl _ \<Rightarrow> Inl ErrInvalidFetchPolicy
           | Inr allow \<Rightarrow> Inr \<lparr>fperm_Mode = mode, fperm_Allow = allow\<rparr>))"

definition build_timeout :: "(string \<Rightarrow> int option) \<Rightarrow> string \<Rightarrow> manifest_error + int option" where
  "build_timeout parse_duration s =
     (if s \<noteq> [] then
        (case parse_duration s of
           None \<Rightarrow> Inl ErrInvalidTimeout
         | Some d \<Rightarrow> if d \<le> 0 then Inl ErrInvalidTimeout else Inr (Some d))
      else Inr None)"

definition build_memory :: "'f float_ops \<Rightarrow> string \<Rightarrow> manifest_error + int option" where
  "build_memory fl s =
     (if s \<noteq> [] then
        (case parseByteSize fl s of
           Inl e \<Rightarrow> Inl e
         | Inr n \<Rightarrow> if n \<le> 0 then Inl ErrInvalidMemory else Inr (Some n))
      else Inr None)"

definition build_visibility :: "string \<Rightarrow> manifest_error + Visibility option" where
  "build_visibility s =
     (if s \<noteq> [] then
        (case ParseVisibility s of Inl _ \<Rightarrow> Inl ErrBadVisibility | Inr v \<Rightarrow> Inr (Some v))
      else Inr None)"

definition buildManifest ::
  "(string \<Rightarrow> int option) \<Rightarrow> 'f float_ops \<Rightarrow> rawManifest \<Rightarrow> manifest_error + Manifest" where
  "buildManifest parse_duration fl raw =
     (case build_timeout parse_duration (raw_Timeout raw) of
        Inl e \<Rightarrow> Inl e
      | Inr timeout \<Rightarrow>
     (case build_memory fl (raw_Memory raw) of
        Inl e \<Rightarrow> Inl e
      | Inr memory \<Rightarrow>
     (case buildFetchPermission (raw_Fetch raw) of
        Inl e \<Rightarrow> Inl e
      | Inr fetch \<Rightarrow>
     (case build_visibility (raw_Visibility raw) of
        Inl e \<Rightarrow> Inl e
      | Inr visibility \<Rightarrow>
          Inr \<lparr>m_Source = [], m_Name = raw_Name raw, m_Owner = raw_Owner raw, m_Main = raw_Main raw,
            m_Description = raw_Description raw, m_Timeout = timeout, m_Memory = memory,
            m_Nodejs = raw_Nodejs raw, m_Fetch = fetch, m_Env = raw_Env raw,
            m_Visibility = visibility\<rparr>))))"

definition Parse ::
  "(bytes \<Rightarrow> rawManifest option) \<Rightarrow> (string \<Rightarrow> int option) \<Rightarrow> 'f float_ops \<Rightarrow> files
     \<Rightarrow> manifest_error + Manifest" where
  "Parse unmarshal parse_duration fl fs =
     (case findManifestFile fs of
        None \<Rightarrow> Inr zero_manifest
      | Some (name, data) \<Rightarrow>
          (case unmarshal data of
             None \<Rightarrow> Inl ErrParse
           | Some raw \<Rightarrow>
               (case buildManifest parse_duration fl raw of
                  Inl e \<Rightarrow> Inl e
                | Inr m \<Rightarrow> Inr (m\<lparr>m_Source := name\<rparr>))))"

section \<open>Names and validation (reserved.go, validate.go)\<close>

definition ReservedNames :: "string list" where
  "ReservedNames = [''dashboard'', ''api'', ''auth'', ''dev'', ''assets'', ''healthz'', ''metrics'',
     ''run'', ''www'', ''admin'', ''status'', ''favicon.ico'', ''robots.txt'']"

definition IsReserved :: "string \<Rightarrow> bool" where
  "IsReserved name =
     (if prefix ''_'' name \<or> prefix ''xn--'' name then True else name \<in> set ReservedNames)"

definition label_char :: "char \<Rightarrow> bool" where
  "label_char c = (is_lower c \<or> is_digit c)"

text \<open>\<open>nameRE\<close>: one label character, or up to 61 label characters and hyphens between two of them.\<close>

definition nameRE :: "string \<Rightarrow> bool" where
  "nameRE s =
     (case s of
        [] \<Rightarrow> False
      | c # r \<Rightarrow> label_char c \<and>
          (r = [] \<or> label_char (last r) \<and> length (butlast r) \<le> 61
             \<and> list_all (\<lambda>x. label_char x \<or> x = CHR ''-'') (butlast r)))"

definition envNameRE :: "string \<Rightarrow> bool" where
  "envNameRE s =
     (case s of
        [] \<Rightarrow> False
      | c # r \<Rightarrow> (is_upper c \<or> is_lower c \<or> c = CHR ''_'') \<and>
          list_all (\<lambda>x. is_alnum x \<or> x = CHR ''_'') r)"

definition IsValidEnvKey :: "string \<Rightarrow> bool" where
  "IsValidEnvKey key = envNameRE key"

definition validateDNSLabel :: "string \<Rightarrow> manifest_error \<Rightarrow> manifest_error + unit" where
  "validateDNSLabel value notMatch =
     (if \<not> nameRE value then Inl notMatch
      else if IsReserved value then Inl ErrReservedName
      else Inr ())"

definition validateName :: "string \<Rightarrow> manifest_error + unit" where
  "validateName name = validateDNSLabel name ErrInvalidName"

definition ValidateUserID :: "string \<Rightarrow> manifest_error + unit" where
  "ValidateUserID userID = validateDNSLabel userID ErrInvalidName"

fun validateEnv_loop :: "string list \<Rightarrow> string list \<Rightarrow> manifest_error + unit" where
  "validateEnv_loop seen [] = Inr ()"
| "validateEnv_loop seen (key # env) =
     (if \<not> envNameRE key then Inl ErrInvalidEnv
      else if key \<in> set seen then Inl ErrInvalidEnv
      else validateEnv_loop (key # seen) env)"

definition validateEnv :: "string list \<Rightarrow> manifest_error + unit" where
  "validateEnv env = validateEnv_loop [] env"

text \<open>
  \<^verbatim>\<open>utf8.RuneCountInString\<close>: the width of the rune at the head of a byte string is
  that of a well-formed UTF-8 sequence, and one byte otherwise.
\<close>

definition byte_at :: "nat \<Rightarrow> nat \<Rightarrow> nat \<Rightarrow> string \<Rightarrow> bool" where
  "byte_at lo hi i s = (i < length s \<and> lo \<le> of_char (s ! i) \<and> of_char (s ! i) \<le> hi)"

definition rune_width :: "string \<Rightarrow> nat" where
  "rune_width s =
     (if byte_at 0xC2 0xDF 0 s \<and> byte_at 0x80 0xBF 1 s then 2
      else if (byte_at 0xE0 0xE0 0 s \<and> byte_at 0xA0 0xBF 1 s
          \<or> (byte_at 0xE1 0xEC 0 s \<or> byte_at 0xEE 0xEF 0 s) \<and> byte_at 0x80 0xBF 1 s
          \<or> byte_at 0xED 0xED 0 s \<and> byte_at 0x80 0x9F 1 s)
         \<and> byte_at 0x80 0xBF 2 s then 3
      else if (byte_at 0xF0 0xF0 0 s \<and> byte_at 0x90 0xBF 1 s
          \<or> byte_at 0xF1 0xF3 0 s \<and> byte_at 0x80 0xBF 1 s
          \<or> byte_at 0xF4 0xF4 0 s \<and> byte_at 0x80 0x8F 1 s)
         \<and> byte_at 0x80 0xBF 2 s \<and> byte_at 0x80 0xBF 3 s then 4
      else 1)"

lemma rune_width_pos: "0 < rune_width s"
  by (simp add: rune_width_def)

function rune_count :: "string \<Rightarrow> nat" where
  "rune_count s = (if s = [] then 0 else Suc (rune_count (drop (rune_width s) s)))"
  by auto
termination
  by (relation "measure length") (auto simp: rune_width_pos)

declare rune_count.simps [simp del]

definition MaxDescriptionLength :: nat where
  "MaxDescriptionLength = 500"

definition Validate :: "Manifest option \<Rightarrow> manifest_error + unit" where
  "Validate mo =
     (case mo of
        None \<Rightarrow> Inl ErrNilManifest
      | Some m \<Rightarrow>
          (case validateName (m_Name m) of
             Inl e \<Rightarrow> Inl e
           | Inr _ \<Rightarrow>
          (case (if m_Owner m \<noteq> [] then validateDNSLabel (m_Owner m) ErrInvalidOwner else Inr ()) of
             Inl e \<Rightarrow> Inl e
           | Inr _ \<Rightarrow>
               if rune_count (m_Description m) > MaxDescriptionLength then Inl ErrDescriptionTooLong
               else validateEnv (m_Env m))))"

section \<open>Entry point (main.go) and storage form (normalized.go)\<close>

definition DefaultMainCandidates :: "string list" where
  "DefaultMainCandidates = [''index.js'', ''index.mjs'']"

definition ResolveMain :: "string \<Rightarrow> files \<Rightarrow> manifest_error + string" where
  "ResolveMain main fs =
     (if main \<noteq> [] then
        (if \<not> has_file fs main then Inl ErrMainNotFound else Inr main)
      else case find (has_file fs) DefaultMainCandidates of
        Some c \<Rightarrow> Inr c
      | None \<Rightarrow> Inl ErrNoEntryPoint)"

definition patternStrings :: "Pattern list \<Rightarrow> string list" where
  "patternStrings ps = map pat_raw ps"

definition Manifest_Normalized :: "(int \<Rightarrow> string) \<Rightarrow> Manifest \<Rightarrow> Normalized" where
  "Manifest_Normalized duration_str m =
     \<lparr>n_Source = m_Source m, n_Name = m_Name m, n_Owner = m_Owner m, n_Main = m_Main m,
      n_Description = m_Description m,
      n_Timeout = (case m_Timeout m of Some d \<Rightarrow> duration_str d | None \<Rightarrow> []),
      n_Memory = (case m_Memory m of Some n \<Rightarrow> n | None \<Rightarrow> 0),
      n_Nodejs = m_Nodejs m,
      n_Fetch = \<lparr>nf_Mode = fetch_mode_String (fperm_Mode (m_Fetch m)),
                 nf_Allow = patternStrings (fperm_Allow (m_Fetch m))\<rparr>,
      n_Env = m_Env m,
      n_Visibility = (case m_Visibility m of Some v \<Rightarrow> visibility_String v | None \<Rightarrow> [])\<rparr>"

section \<open>Lemmas\<close>

subsection \<open>Names\<close>

text \<open>A public name: a DNS label of lower-case letters, digits and inner hyphens, not reserved.\<close>

definition public_label :: "string \<Rightarrow> bool" where
  "public_label s =
     (1 \<le> length s \<and> length s \<le> 63 \<and> list_all (\<lambda>c. label_char c \<or> c = CHR ''-'') s
      \<and> hd s \<noteq> CHR ''-'' \<and> last s \<noteq> CHR ''-'' \<and> \<not> prefix ''xn--'' s \<and> s \<notin> set ReservedNames)"

lemma label_char_not_hyphen [simp]: "\<not> label_char (CHR ''-'')"
  by (simp add: label_char_def is_lower_def is_digit_def)

lemma label_char_not_underscore [simp]: "\<not> label_char (CHR ''_'')"
  by (simp add: label_char_def is_lower_def is_digit_def)

lemma nameRE_iff:
  "nameRE s \<longleftrightarrow> 1 \<le> length s \<and> length s \<le> 63 \<and> list_all (\<lambda>c. label_char c \<or> c = CHR ''-'') s
     \<and> hd s \<noteq> CHR ''-'' \<and> last s \<noteq> CHR ''-''"
proof (cases s)
  case Nil
  then show ?thesis by (simp add: nameRE_def)
next
  case (Cons c r)
  show ?thesis
  proof (cases r rule: rev_cases)
    case Nil
    with Cons show ?thesis by (auto simp: nameRE_def)
  next
    case (snoc m l)
    with Cons show ?thesis by (auto simp: nameRE_def)
  qed
qed

lemma nameRE_no_underscore: "nameRE s \<Longrightarrow> \<not> prefix ''_'' s"
  by (cases s) (auto simp: nameRE_def)

lemma validateDNSLabel_ok: "validateDNSLabel s e = Inr () \<longleftrightarrow> public_label s"
  using nameRE_no_underscore [of s]
  by (auto simp: validateDNSLabel_def IsReserved_def public_label_def nameRE_iff)

lemma ValidateUserID_ok: "ValidateUserID s = Inr () \<longleftrightarrow> public_label s"
  by (simp add: ValidateUserID_def validateDNSLabel_ok)

lemma validateEnv_loop_ok:
  "validateEnv_loop seen env = Inr () \<longleftrightarrow>
     list_all envNameRE env \<and> distinct env \<and> set env \<inter> set seen = {}"
  by (induction seen env rule: validateEnv_loop.induct) auto

text \<open>
  Validation accepts exactly the well-formed manifests: the name is a public
  label, the owner is absent or a public label, the description has at most 500
  characters, and the declared environment keys are identifiers with no
  duplicate.
\<close>

lemma Validate_iff:
  "Validate (Some m) = Inr () \<longleftrightarrow>
     public_label (m_Name m) \<and> (m_Owner m = [] \<or> public_label (m_Owner m))
     \<and> rune_count (m_Description m) \<le> 500 \<and> list_all IsValidEnvKey (m_Env m) \<and> distinct (m_Env m)"
  using validateDNSLabel_ok [of "m_Name m" ErrInvalidName] validateDNSLabel_ok [of "m_Owner m" ErrInvalidOwner]
  by (auto simp: Validate_def validateName_def validateEnv_def validateEnv_loop_ok MaxDescriptionLength_def
      IsValidEnvKey_def list_all_iff split: sum.splits if_splits)

subsection \<open>Decoding\<close>

lemma rune_count_le: "rune_count s \<le> length s"
proof (induction s rule: rune_count.induct)
  case (1 s)
  show ?case
  proof (cases "s = []")
    case True
    then show ?thesis by (simp add: rune_count.simps)
  next
    case False
    with 1 have "rune_count (drop (rune_width s) s) \<le> length s - rune_width s" by simp
    with False rune_width_pos [of s] show ?thesis
      by (simp add: rune_count.simps [of s]) (meson Suc_leI diff_less leI le_trans length_greater_0_conv not_less_eq_eq)
  qed
qed

definition parsed_pattern :: "Pattern \<Rightarrow> bool" where
  "parsed_pattern p = (ParsePattern (pat_raw p) = Inr p)"

lemma map_result_ParsePattern:
  assumes "map_result ParsePattern ss = Inr ps"
  shows "map pat_raw ps = ss" and "list_all parsed_pattern ps"
proof -
  from assms have rel: "list_all2 (\<lambda>s p. ParsePattern s = Inr p) ss ps"
    by (simp add: map_result_Inr_iff)
  then show "map pat_raw ps = ss"
    by (induction rule: list_all2_induct) (auto dest: ParsePattern_Inr)
  from rel show "list_all parsed_pattern ps"
    by (induction rule: list_all2_induct) (auto simp: parsed_pattern_def dest: ParsePattern_Inr)
qed

lemma patternStrings_parse: "list_all parsed_pattern ps \<Longrightarrow> map_result ParsePattern (patternStrings ps) = Inr ps"
  unfolding patternStrings_def
  by (rule map_result_map_id) (auto simp: list_all_iff parsed_pattern_def)

lemma buildFetchPermission_Inr:
  "buildFetchPermission raw = Inr f \<Longrightarrow>
     list_all parsed_pattern (fperm_Allow f) \<and> patternStrings (fperm_Allow f) = rf_Allow raw
     \<and> (rf_Mode raw = [] \<and> fperm_Mode f = FetchModeDeny \<or> rf_Mode raw = fetch_mode_String (fperm_Mode f))"
  by (auto simp: buildFetchPermission_def patternStrings_def ParseFetchMode_Inr split: sum.splits if_splits
      dest: map_result_ParsePattern)

definition manifest_wf :: "Manifest \<Rightarrow> bool" where
  "manifest_wf m =
     (list_all parsed_pattern (fperm_Allow (m_Fetch m))
      \<and> (case m_Timeout m of Some d \<Rightarrow> 0 < d | None \<Rightarrow> True)
      \<and> (case m_Memory m of Some n \<Rightarrow> 0 < n | None \<Rightarrow> True))"

lemma buildManifest_wf: "buildManifest pd fl raw = Inr m \<Longrightarrow> manifest_wf m"
  by (auto simp: buildManifest_def manifest_wf_def build_timeout_def build_memory_def
      split: sum.splits if_splits option.splits dest!: buildFetchPermission_Inr)

lemma Parse_Inr_wf: "Parse um pd fl fs = Inr m \<Longrightarrow> manifest_wf m"
  by (auto simp: Parse_def manifest_wf_def zero_manifest_def split: sum.splits option.splits
      dest!: buildManifest_wf)

text \<open>
  The storage form loses nothing of a parsed manifest that policy needs: from
  the normalized snapshot of any manifest \<open>Parse\<close> accepts, the fetch mode, the list
  of host patterns and the visibility are read back exactly, and the memory limit
  is 0 precisely when the manifest set none (a parsed limit is always positive).
\<close>

lemma Parse_Normalized_roundtrip:
  assumes "Parse unmarshal parse_duration fl fs = Inr m"
  shows "ParseFetchMode (nf_Mode (n_Fetch (Manifest_Normalized duration_str m))) = Inr (fperm_Mode (m_Fetch m))
    \<and> map_result ParsePattern (nf_Allow (n_Fetch (Manifest_Normalized duration_str m))) = Inr (fperm_Allow (m_Fetch m))
    \<and> build_visibility (n_Visibility (Manifest_Normalized duration_str m)) = Inr (m_Visibility m)
    \<and> (n_Memory (Manifest_Normalized duration_str m) = 0 \<longleftrightarrow> m_Memory m = None)"
proof -
  have wf: "manifest_wf m" using assms by (rule Parse_Inr_wf)
  have "visibility_String v \<noteq> []" for v by (cases v) auto
  with wf show ?thesis
    by (auto simp: Manifest_Normalized_def manifest_wf_def patternStrings_parse build_visibility_def
        split: option.splits)
qed

definition no_floats :: "unit float_ops" where
  "no_floats = \<lparr>parse_float = (\<lambda>_. None), float_negative = (\<lambda>_. False), float_scale = (\<lambda>_ _. 0)\<rparr>"

definition raw_example :: rawManifest where
  "raw_example = \<lparr>raw_Name = ''hello'', raw_Owner = [], raw_Main = [], raw_Description = [],
     raw_Timeout = ''10s'', raw_Memory = ''64'', raw_Nodejs = True,
     raw_Fetch = \<lparr>rf_Mode = ''allowlist'', rf_Allow = [''*.example.com:8443'']\<rparr>,
     raw_Env = [''API_KEY''], raw_Visibility = ''org''\<rparr>"

definition manifest_example :: Manifest where
  "manifest_example = \<lparr>m_Source = ''funcbox.yml'', m_Name = ''hello'', m_Owner = [], m_Main = [],
     m_Description = [], m_Timeout = Some 10000000000, m_Memory = Some 64, m_Nodejs = True,
     m_Fetch = \<lparr>fperm_Mode = FetchModeAllowlist, fperm_Allow = [p_example]\<rparr>,
     m_Env = [''API_KEY''], m_Visibility = Some VisibilityOrg\<rparr>"

lemma Parse_example:
  "Parse (\<lambda>d. if d = ''y'' then Some raw_example else None)
     (\<lambda>s. if s = ''10s'' then Some 10000000000 else None) no_floats
     [(''index.js'', ''x''), (''funcbox.json'', ''j''), (''funcbox.yml'', ''y'')] = Inr manifest_example"
  by code_simp

text \<open>
  Entry-point resolution never invents a file: it returns exactly the file the
  manifest names if the bundle has it, and otherwise, for a manifest without a
  main, index.js, or index.mjs only when index.js is absent; every other case is
  one of the two documented errors.
\<close>

lemma ResolveMain_result:
  "(ResolveMain main fs = Inr f \<longleftrightarrow>
      has_file fs f \<and> (if main \<noteq> [] then f = main
        else f = ''index.js'' \<or> f = ''index.mjs'' \<and> \<not> has_file fs ''index.js''))
   \<and> (ResolveMain main fs = Inl ErrMainNotFound \<longleftrightarrow> main \<noteq> [] \<and> \<not> has_file fs main)
   \<and> (ResolveMain main fs = Inl ErrNoEntryPoint \<longleftrightarrow>
        main = [] \<and> \<not> has_file fs ''index.js'' \<and> \<not> has_file fs ''index.mjs'')"
  by (auto simp: ResolveMain_def DefaultMainCandidates_def split: if_splits)

text \<open>
  C39. The type of a manifest. Every manifest the reader accepts and validation passes is well typed, whatever the
  document: its name is a public label and its owner one or absent, its environment keys are identifiers without
  repetition, a limit that is set is positive, and every pattern of its fetch list has a
  lower-case host that is a host name or, without a wildcard, an address, and a port of at most 65535. Its storage form is read back to the same
  fetch mode, patterns and visibility.
\<close>

theorem manifest_typed:
  assumes "Parse unmarshal parse_duration fl fs = Inr m" and "Validate (Some m) = Inr ()"
  shows "public_label (m_Name m) \<and> (m_Owner m = [] \<or> public_label (m_Owner m))
    \<and> list_all IsValidEnvKey (m_Env m) \<and> distinct (m_Env m) \<and> rune_count (m_Description m) \<le> 500
    \<and> (\<forall>d. m_Timeout m = Some d \<longrightarrow> 0 < d) \<and> (\<forall>n. m_Memory m = Some n \<longrightarrow> 0 < n)
    \<and> (\<forall>p \<in> set (fperm_Allow (m_Fetch m)). 0 \<le> pat_port p \<and> pat_port p \<le> 65535
        \<and> pat_host p \<noteq> [] \<and> to_lower (pat_host p) = pat_host p
        \<and> (isValidHostname (pat_host p) \<or> \<not> pat_wildcard p \<and> parse_ip (pat_host p) \<noteq> None))
    \<and> ParseFetchMode (nf_Mode (n_Fetch (Manifest_Normalized duration_str m))) = Inr (fperm_Mode (m_Fetch m))
    \<and> map_result ParsePattern (nf_Allow (n_Fetch (Manifest_Normalized duration_str m))) = Inr (fperm_Allow (m_Fetch m))
    \<and> build_visibility (n_Visibility (Manifest_Normalized duration_str m)) = Inr (m_Visibility m)"
proof -
  have wf: "manifest_wf m" using assms(1) by (rule Parse_Inr_wf)
  have pat: "0 \<le> pat_port p \<and> pat_port p \<le> 65535 \<and> pat_host p \<noteq> [] \<and> to_lower (pat_host p) = pat_host p
        \<and> (isValidHostname (pat_host p) \<or> \<not> pat_wildcard p \<and> parse_ip (pat_host p) \<noteq> None)"
    if "p \<in> set (fperm_Allow (m_Fetch m))" for p
  proof -
    have "ParsePattern (pat_raw p) = Inr p" using wf that by (simp add: manifest_wf_def list_all_iff parsed_pattern_def)
    then show ?thesis using ParsePattern_wf by blast
  qed
  have "(\<forall>d. m_Timeout m = Some d \<longrightarrow> 0 < d) \<and> (\<forall>n. m_Memory m = Some n \<longrightarrow> 0 < n)"
    using wf by (auto simp: manifest_wf_def)
  then show ?thesis using pat Parse_Normalized_roundtrip [OF assms(1)] assms(2) unfolding Validate_iff by blast
qed

theorem manifest_typed_witness:
  "map_result ParsePattern (nf_Allow (n_Fetch (Manifest_Normalized (\<lambda>_. ''10s'') manifest_example))) = Inr [p_example]
   \<and> public_label ''hello'' \<and> pat_port p_example \<le> 65535"
proof -
  have "Validate (Some manifest_example) = Inr ()" by code_simp
  from manifest_typed [OF Parse_example this, of "\<lambda>_. ''10s''"] show ?thesis by (simp add: manifest_example_def)
qed

end
