(* ===== verification/Bundle.thy ===== *)
theory Bundle
  imports Manifest "HOL-Library.Multiset"
begin

text \<open>
  Package bundle: the canonical archive writer (pack.go) and the limit-enforcing
  reader (unpack.go). An archive is modelled as what \<^verbatim>\<open>archive/tar\<close> over
  \<^verbatim>\<open>compress/gzip\<close> delivers to its reader: a broken gzip header, or the sequence of
  entries \<^verbatim>\<open>tar.Reader.Next\<close> yields followed by EOF or a read error. An entry body
  is the byte sequence its reader delivers, and whether that reader ends in an
  error.
\<close>

section \<open>Archives\<close>

datatype typeflag = TypeDir | TypeReg | TypeRegA | TypeOther char

record tar_header =
  h_Name :: string
  h_Typeflag :: typeflag
  h_Size :: int
  h_Mode :: int
  h_Uid :: int
  h_Gid :: int
  h_Uname :: string
  h_Gname :: string
  h_ModTime :: unix

record tar_entry =
  te_hdr :: tar_header
  te_body :: bytes
  te_body_err :: bool

datatype archive = BadGzip | Archive (arch_entries: "tar_entry list") (arch_err: bool)

datatype bundle_error =
    ErrGzipHeader | ErrTarEntry | ErrReadEntry | ErrTooLarge | ErrTooManyFiles | ErrBadPath
  | ErrBadEntryType | ErrTarHeader

section \<open>path.Clean\<close>

definition clean_step :: "bool \<Rightarrow> string list \<Rightarrow> string \<Rightarrow> string list" where
  "clean_step rooted stack cmp =
     (if cmp = [] \<or> cmp = ''.'' then stack
      else if cmp = ''..'' then
        (case stack of
           [] \<Rightarrow> if rooted then [] else [''..'']
         | x # xs \<Rightarrow> if x = ''..'' then ''..'' # stack else xs)
      else cmp # stack)"

definition path_clean :: "string \<Rightarrow> string" where
  "path_clean p =
     (let rooted = prefix ''/'' p;
          cs = rev (foldl (clean_step rooted) [] (split_on (CHR ''/'') p)) in
      if rooted then CHR ''/'' # join_with (CHR ''/'') cs
      else if cs = [] then ''.'' else join_with (CHR ''/'') cs)"

section \<open>Reading (unpack.go)\<close>

definition MaxUnpackedBytes :: int where
  "MaxUnpackedBytes = 5 * 2 ^ 20"

definition MaxFiles :: nat where
  "MaxFiles = 1000"

definition MaxPathLength :: nat where
  "MaxPathLength = 256"

definition backslash :: char where
  "backslash = CHR 0x5C"

definition normalizePath :: "string \<Rightarrow> bundle_error + string" where
  "normalizePath name =
     (if name = [] then Inl ErrBadPath
      else let norm = map (\<lambda>c. if c = backslash then CHR ''/'' else c) name in
        if prefix ''/'' norm then Inl ErrBadPath
        else let cleaned = path_clean norm in
          if cleaned = ''.'' \<or> cleaned = ''..'' \<or> prefix ''../'' cleaned then Inl ErrBadPath
          else if prefix ''/'' cleaned then Inl ErrBadPath
          else if length cleaned > MaxPathLength then Inl ErrBadPath
          else Inr cleaned)"

text \<open>
  \<open>readWithinBudget\<close>: \<^verbatim>\<open>io.ReadAll\<close> over a \<^verbatim>\<open>io.LimitReader\<close> of one byte more than
  the budget. The second component is the byte count added to the running total.
\<close>

definition readWithinBudget :: "bytes \<Rightarrow> bool \<Rightarrow> int \<Rightarrow> (bundle_error + bytes) \<times> int" where
  "readWithinBudget body body_err remaining0 =
     (let remaining = (if remaining0 < 0 then 0 else remaining0);
          data = take (nat (remaining + 1)) body in
      if body_err \<and> int (length body) < remaining + 1 then (Inl ErrReadEntry, int (length data))
      else if int (length data) > remaining then (Inl ErrTooLarge, remaining)
      else (Inr data, int (length data)))"

fun unpack_loop :: "tar_entry list \<Rightarrow> bool \<Rightarrow> files \<Rightarrow> int \<Rightarrow> nat \<Rightarrow> bundle_error + files" where
  "unpack_loop [] ended_in_error fs total_n count_n =
     (if ended_in_error then Inl ErrTarEntry else Inr fs)"
| "unpack_loop (e # es) ended_in_error fs total_n count_n =
     (case h_Typeflag (te_hdr e) of
        TypeDir \<Rightarrow> unpack_loop es ended_in_error fs total_n count_n
      | TypeOther _ \<Rightarrow> Inl ErrBadEntryType
      | _ \<Rightarrow>
          (case normalizePath (h_Name (te_hdr e)) of
             Inl err \<Rightarrow> Inl err
           | Inr name \<Rightarrow>
               if has_file fs name then Inl ErrBadPath
               else if count_n + 1 > MaxFiles then Inl ErrTooManyFiles
               else case readWithinBudget (te_body e) (te_body_err e) (MaxUnpackedBytes - total_n) of
                 (Inl err, _) \<Rightarrow> Inl err
               | (Inr data, n) \<Rightarrow>
                   unpack_loop es ended_in_error (fs @ [(name, data)]) (total_n + n) (count_n + 1)))"

definition Unpack :: "archive \<Rightarrow> bundle_error + files" where
  "Unpack a = (case a of BadGzip \<Rightarrow> Inl ErrGzipHeader | Archive es err \<Rightarrow> unpack_loop es err [] 0 0)"

section \<open>Writing (pack.go)\<close>

definition canonical_entry :: "string \<Rightarrow> bytes \<Rightarrow> tar_entry" where
  "canonical_entry name data =
     \<lparr>te_hdr = \<lparr>h_Name = name, h_Typeflag = TypeReg, h_Size = int (length data), h_Mode = 0x1A4,
        h_Uid = 0, h_Gid = 0, h_Uname = [], h_Gname = [], h_ModTime = 0\<rparr>,
      te_body = data, te_body_err = False\<rparr>"

text \<open>
  \<^verbatim>\<open>tar.Writer.WriteHeader\<close> refuses a name with a NUL byte, the only case in which
  neither USTAR nor PAX can carry the canonical header.
\<close>

definition Pack :: "files \<Rightarrow> bundle_error + archive" where
  "Pack fs =
     (let names = sort (map fst fs) in
      if \<exists>n \<in> set names. CHR 0x00 \<in> set n then Inl ErrTarHeader
      else Inr (Archive
        (map (\<lambda>n. canonical_entry n (case map_of fs n of Some d \<Rightarrow> d | None \<Rightarrow> [])) names) False))"

section \<open>Lemmas\<close>

subsection \<open>path.Clean on relative paths\<close>

definition plain_comp :: "string \<Rightarrow> bool" where
  "plain_comp c = (c \<noteq> [] \<and> c \<noteq> ''.'' \<and> c \<noteq> ''..'' \<and> CHR ''/'' \<notin> set c)"

text \<open>The stack of a relative path: plain components above a block of parent references.\<close>

lemma clean_stack:
  assumes "\<And>c. c \<in> set cs \<Longrightarrow> CHR ''/'' \<notin> set c" and "list_all plain_comp ps"
  shows "\<exists>ps' m. foldl (clean_step False) (ps @ replicate n ''..'') cs = ps' @ replicate m ''..''
     \<and> list_all plain_comp ps'"
  using assms
proof (induction cs arbitrary: ps n)
  case Nil
  then show ?case by (intro exI [of _ ps] exI [of _ n]) simp
next
  case (Cons c cs)
  have nosl: "CHR ''/'' \<notin> set c" using Cons.prems(1) by simp
  have IH: "\<exists>ps' m. foldl (clean_step False) (ps @ replicate n ''..'') cs = ps' @ replicate m ''..''
     \<and> list_all plain_comp ps'" if "list_all plain_comp ps" for ps n
    by (rule Cons.IH) (use Cons.prems(1) that in auto)
  consider "c = [] \<or> c = ''.''" | "c = ''..''" | "plain_comp c"
    using nosl by (auto simp: plain_comp_def)
  then show ?case
  proof cases
    case 1
    then have "clean_step False (ps @ replicate n ''..'') c = ps @ replicate n ''..''"
      by (auto simp: clean_step_def)
    then show ?thesis using IH [OF Cons.prems(2), of n] by simp
  next
    case 2
    show ?thesis
    proof (cases ps)
      case Nil
      with 2 have "clean_step False (ps @ replicate n ''..'') c = [] @ replicate (Suc n) ''..''"
        by (cases n) (auto simp: clean_step_def)
      then show ?thesis using IH [of "[]" "Suc n"] by simp
    next
      case (Cons p ps2)
      with 2 Cons.prems(2) have "clean_step False (ps @ replicate n ''..'') c = ps2 @ replicate n ''..''"
        by (auto simp: plain_comp_def clean_step_def)
      then show ?thesis using IH [of ps2 n] Cons.prems(2) Cons by simp
    qed
  next
    case 3
    then have "clean_step False (ps @ replicate n ''..'') c = (c # ps) @ replicate n ''..''"
      by (auto simp: plain_comp_def clean_step_def)
    then show ?thesis using IH [of "c # ps" n] 3 Cons.prems(2) by simp
  qed
qed

lemma join_with_Cons: "ps \<noteq> [] \<Longrightarrow> join_with c (p # ps) = p @ c # join_with c ps"
  by (cases ps) auto

lemma set_join_with: "set (join_with c ps) \<subseteq> insert c (\<Union> (set ` set ps))"
  by (induction c ps rule: join_with.induct) auto

lemma foldl_clean_plain:
  "list_all plain_comp cs \<Longrightarrow> foldl (clean_step r) st cs = rev cs @ st"
  by (induction cs arbitrary: st) (auto simp: plain_comp_def clean_step_def)

text \<open>A path the reader may hand out: relative, slash-separated, no empty, dot or dot-dot component.\<close>

definition safe_path :: "string \<Rightarrow> bool" where
  "safe_path p = (length p \<le> MaxPathLength \<and> backslash \<notin> set p
     \<and> list_all plain_comp (split_on (CHR ''/'') p))"

lemma path_clean_relative:
  assumes "\<not> prefix ''/'' p"
  obtains ps m where "list_all plain_comp ps"
    and "path_clean p = (if m = 0 \<and> ps = [] then ''.''
           else join_with (CHR ''/'') (replicate m ''..'' @ rev ps))"
proof -
  have "\<And>c. c \<in> set (split_on (CHR ''/'') p) \<Longrightarrow> CHR ''/'' \<notin> set c"
    by (rule split_on_parts)
  then have "\<exists>ps' m. foldl (clean_step False) ([] @ replicate 0 ''..'') (split_on (CHR ''/'') p)
      = ps' @ replicate m ''..'' \<and> list_all plain_comp ps'"
    by (rule clean_stack) simp_all
  then obtain ps m where
    "foldl (clean_step False) [] (split_on (CHR ''/'') p) = ps @ replicate m ''..''"
    "list_all plain_comp ps" by auto
  with assms show thesis
    by (intro that [of ps m]) (auto simp: path_clean_def Let_def)
qed

lemma join_parent:
  assumes "m > 0"
  shows "join_with (CHR ''/'') (replicate m ''..'' @ ps) = ''..''
    \<or> prefix ''../'' (join_with (CHR ''/'') (replicate m ''..'' @ ps))"
proof -
  obtain k where "m = Suc k" using assms by (cases m) auto
  then show ?thesis
    by (cases "replicate k ''..'' @ ps = []") (simp_all add: join_with_Cons)
qed

lemma clean_step_set: "set (clean_step r st c) \<subseteq> set st \<union> {c, ''..''}"
  by (auto simp: clean_step_def split: list.splits if_splits)

lemma foldl_clean_set: "set (foldl (clean_step r) st cs) \<subseteq> set st \<union> set cs \<union> {''..''}"
proof (induction cs arbitrary: st)
  case Nil
  then show ?case by auto
next
  case (Cons c cs)
  from Cons [of "clean_step r st c"] clean_step_set [of r st c] show ?case by auto
qed

lemma path_clean_chars:
  assumes "x \<notin> set p" "x \<noteq> CHR ''/''" "x \<noteq> CHR ''.''"
  shows "x \<notin> set (path_clean p)"
proof -
  let ?cs = "foldl (clean_step (prefix ''/'' p)) [] (split_on (CHR ''/'') p)"
  have "x \<notin> set c" if "c \<in> set ?cs" for c
  proof -
    from that foldl_clean_set [of "prefix ''/'' p" "[]" "split_on (CHR ''/'') p"]
    have "c \<in> set (split_on (CHR ''/'') p) \<or> c = ''..''" by auto
    then show ?thesis using assms by (auto dest: set_split_on)
  qed
  then have "x \<notin> \<Union> (set ` set (rev ?cs))" by auto
  with assms set_join_with [of "CHR ''/''" "rev ?cs"] have "x \<notin> set (join_with (CHR ''/'') (rev ?cs))" by auto
  with assms show ?thesis by (auto simp: path_clean_def Let_def)
qed

lemma split_join_plain:
  "ps \<noteq> [] \<Longrightarrow> list_all plain_comp ps \<Longrightarrow> split_on (CHR ''/'') (join_with (CHR ''/'') ps) = ps"
  by (rule split_join) (auto simp: list_all_iff plain_comp_def)

lemma normalizePath_safe:
  assumes "normalizePath name = Inr p"
  shows "safe_path p"
proof -
  let ?norm = "map (\<lambda>c. if c = backslash then CHR ''/'' else c) name"
  from assms have rel: "\<not> prefix ''/'' ?norm" and p: "p = path_clean ?norm"
    and ok: "p \<noteq> ''.''" "p \<noteq> ''..''" "\<not> prefix ''../'' p" "length p \<le> MaxPathLength"
    by (auto simp: normalizePath_def Let_def split: if_splits)
  from rel obtain ps m where ps: "list_all plain_comp ps"
    and cl: "path_clean ?norm = (if m = 0 \<and> ps = [] then ''.''
           else join_with (CHR ''/'') (replicate m ''..'' @ rev ps))"
    by (rule path_clean_relative)
  have "m = 0" using join_parent [of m "rev ps"] cl ok(2,3) p by (auto split: if_splits)
  with cl ok(1) p have "p = join_with (CHR ''/'') (rev ps)" "ps \<noteq> []" by (auto split: if_splits)
  with ps have "list_all plain_comp (split_on (CHR ''/'') p)" by (simp add: split_join_plain)
  moreover have "backslash \<notin> set p"
    unfolding p by (rule path_clean_chars) (auto simp: backslash_def)
  ultimately show ?thesis using ok by (simp add: safe_path_def)
qed

lemma safe_path_not_rooted:
  assumes "safe_path p" shows "p \<noteq> []" "\<not> prefix ''/'' p"
proof -
  have "list_all plain_comp (split_on (CHR ''/'') p)" using assms by (simp add: safe_path_def)
  then show "p \<noteq> []" "\<not> prefix ''/'' p" by (cases p; auto simp: plain_comp_def)+
qed

lemma path_clean_id:
  assumes "list_all plain_comp (split_on (CHR ''/'') p)" "\<not> prefix ''/'' p"
  shows "path_clean p = p"
  using assms by (simp add: path_clean_def Let_def foldl_clean_plain join_split)

lemma normalizePath_id:
  assumes "safe_path p"
  shows "normalizePath p = Inr p"
proof -
  have pc: "list_all plain_comp (split_on (CHR ''/'') p)" and bs: "backslash \<notin> set p"
    and len: "length p \<le> MaxPathLength" using assms by (simp_all add: safe_path_def)
  have norm: "map (\<lambda>c. if c = backslash then CHR ''/'' else c) p = p"
    using bs by (induction p) auto
  have "p \<noteq> ''.''" "p \<noteq> ''..''" using pc by (auto simp: plain_comp_def)
  moreover have "\<not> prefix ''../'' p"
  proof
    assume "prefix ''../'' p"
    then obtain r where "p = ''..'' @ CHR ''/'' # r" by (auto simp: prefix_def)
    with pc split_on_append [of "CHR ''/''" "''..''" r] show False by (simp add: plain_comp_def)
  qed
  ultimately show ?thesis
    using norm safe_path_not_rooted [OF assms] path_clean_id [OF pc] len
    by (simp add: normalizePath_def Let_def)
qed

subsection \<open>The reader\<close>

lemma map_of_snoc: "map_of (fs @ [(n, d)]) k = (case map_of fs k of None \<Rightarrow> if k = n then Some d else None | Some x \<Rightarrow> Some x)"
  by (induction fs) (auto split: option.splits)

lemma has_file_iff: "has_file fs n \<longleftrightarrow> n \<in> fst ` set fs"
  unfolding has_file_def by (metis map_of_eq_None_iff)

definition total_size :: "files \<Rightarrow> int" where
  "total_size fs = sum_list (map (\<lambda>f. int (length (snd f))) fs)"

text \<open>What the running state of the unpack loop satisfies.\<close>

definition unpack_inv :: "files \<Rightarrow> int \<Rightarrow> nat \<Rightarrow> bool" where
  "unpack_inv fs total_n count_n =
     (distinct (map fst fs) \<and> list_all safe_path (map fst fs) \<and> total_n = total_size fs
      \<and> count_n = length fs \<and> count_n \<le> MaxFiles \<and> total_n \<le> MaxUnpackedBytes)"

lemma readWithinBudget_Inr:
  "0 \<le> remaining \<Longrightarrow> readWithinBudget body err remaining = (Inr data, n) \<longleftrightarrow>
     \<not> err \<and> int (length body) \<le> remaining \<and> data = body \<and> n = int (length body)"
  by (auto simp: readWithinBudget_def Let_def min_def split: if_splits)

lemma unpack_inv_step:
  assumes "unpack_inv fs t c" "\<not> has_file fs name" "safe_path name" "\<not> MaxFiles < Suc c"
    and "readWithinBudget body err (MaxUnpackedBytes - t) = (Inr data, n)"
  shows "unpack_inv (fs @ [(name, data)]) (t + n) (Suc c)"
  using assms readWithinBudget_Inr [of "MaxUnpackedBytes - t" body err data n]
  by (auto simp: unpack_inv_def has_file_iff total_size_def)

lemma unpack_loop_inv:
  "unpack_loop es err fs t c = Inr out \<Longrightarrow> unpack_inv fs t c \<Longrightarrow> \<exists>t c. unpack_inv out t c"
proof (induction es arbitrary: fs t c)
  case Nil
  then show ?case by (auto split: if_splits)
next
  case (Cons e es)
  then show ?case
    by (auto split: typeflag.splits sum.splits if_splits prod.splits
        dest!: normalizePath_safe intro: Cons.IH [OF _ unpack_inv_step])
qed

lemma Unpack_inv:
  assumes "Unpack a = Inr fs"
  shows "unpack_inv fs (total_size fs) (length fs)"
proof -
  from assms obtain es err where "unpack_loop es err [] 0 0 = Inr fs"
    by (auto simp: Unpack_def split: archive.splits)
  moreover have "unpack_inv [] 0 0"
    by (simp add: unpack_inv_def total_size_def MaxFiles_def MaxUnpackedBytes_def)
  ultimately obtain t c where "unpack_inv fs t c" using unpack_loop_inv by blast
  then show ?thesis by (simp add: unpack_inv_def)
qed

text \<open>
  C8. Unpacking is safe for every archive, however crafted: an accepted bundle has
  at most 1000 files of at most 5 MiB in total, no path twice, and every path is
  relative with plain slash-separated components (none empty, dot or dot-dot, no
  backslash) of at most 256 bytes, so no entry can escape the bundle root.
\<close>

theorem Unpack_safe:
  assumes "Unpack a = Inr fs"
  shows "length fs \<le> 1000 \<and> total_size fs \<le> 5 * 1024 * 1024 \<and> distinct (map fst fs)
    \<and> list_all safe_path (map fst fs)"
  using Unpack_inv [OF assms] by (simp add: unpack_inv_def MaxFiles_def MaxUnpackedBytes_def)

definition archive_example :: archive where
  "archive_example = Archive
     [canonical_entry ''lib'' [] \<lparr>te_hdr := (te_hdr (canonical_entry ''lib'' []))\<lparr>h_Typeflag := TypeDir\<rparr>\<rparr>,
      canonical_entry ''./lib//x/../util.js'' ''u'', canonical_entry ''index.js'' ''i''] False"

lemma Unpack_example: "Unpack archive_example = Inr [(''lib/util.js'', ''u''), (''index.js'', ''i'')]"
proof -
  have "normalizePath ''./lib//x/../util.js'' = Inr ''lib/util.js''" "normalizePath ''index.js'' = Inr ''index.js''"
    by code_simp+
  then show ?thesis
    by (simp add: archive_example_def Unpack_def canonical_entry_def has_file_def MaxFiles_def
        MaxUnpackedBytes_def readWithinBudget_def)
qed

theorem Unpack_safe_witness:
  "Unpack archive_example = Inr [(''lib/util.js'', ''u''), (''index.js'', ''i'')]
   \<and> list_all safe_path [''lib/util.js'', ''index.js'']"
  using Unpack_example Unpack_safe [OF Unpack_example] by simp

subsection \<open>The writer\<close>

text \<open>A file map that fits the limits and whose names the archive format can carry.\<close>

definition packable :: "files \<Rightarrow> bool" where
  "packable fs = (distinct (map fst fs) \<and> list_all safe_path (map fst fs)
     \<and> list_all (\<lambda>n. CHR 0x00 \<notin> set n) (map fst fs)
     \<and> length fs \<le> MaxFiles \<and> total_size fs \<le> MaxUnpackedBytes)"

definition sorted_files :: "files \<Rightarrow> files" where
  "sorted_files fs = map (\<lambda>n. (n, case map_of fs n of Some d \<Rightarrow> d | None \<Rightarrow> [])) (sort (map fst fs))"

lemma sorted_files_fst [simp]: "map fst (sorted_files fs) = sort (map fst fs)"
  by (simp add: sorted_files_def comp_def)

lemma sorted_files_map_of: "map_of (sorted_files fs) = map_of fs"
proof
  fix k
  show "map_of (sorted_files fs) k = map_of fs k"
  proof (cases "map_of fs k")
    case None
    then have "k \<notin> fst ` set fs" by (simp add: map_of_eq_None_iff)
    with None show ?thesis by (simp add: sorted_files_def map_of_map_restrict restrict_map_def)
  next
    case (Some d)
    then have "k \<in> fst ` set fs" by (force dest: map_of_SomeD)
    with Some show ?thesis by (simp add: sorted_files_def map_of_map_restrict restrict_map_def)
  qed
qed

lemma sorted_files_mset: "distinct (map fst fs) \<Longrightarrow> mset (sorted_files fs) = mset fs"
proof -
  assume d: "distinct (map fst fs)"
  have "mset (sorted_files fs)
      = image_mset (\<lambda>n. (n, case map_of fs n of Some d \<Rightarrow> d | None \<Rightarrow> [])) (mset (map fst fs))"
    by (simp add: sorted_files_def)
  also have "\<dots> = mset (map (\<lambda>f. (fst f, case map_of fs (fst f) of Some d \<Rightarrow> d | None \<Rightarrow> [])) fs)"
    by (simp add: multiset.map_comp comp_def)
  also have "map (\<lambda>f. (fst f, case map_of fs (fst f) of Some d \<Rightarrow> d | None \<Rightarrow> [])) fs = fs"
    using d by (intro map_idI) auto
  finally show ?thesis .
qed

lemma total_size_mset: "mset fs = mset gs \<Longrightarrow> total_size fs = total_size gs"
  by (simp add: total_size_def sum_mset_sum_list [symmetric])

lemma total_size_simps [simp]:
  "total_size [] = 0" "total_size (f # fs) = int (length (snd f)) + total_size fs"
  "total_size (fs @ gs) = total_size fs + total_size gs"
  by (simp_all add: total_size_def)

lemma total_size_nonneg: "0 \<le> total_size fs"
  by (induction fs) auto

lemma unpack_loop_pack:
  assumes "distinct (map fst (acc @ rest))" "list_all safe_path (map fst rest)"
    and "length (acc @ rest) \<le> MaxFiles" "total_size (acc @ rest) \<le> MaxUnpackedBytes"
  shows "unpack_loop (map (\<lambda>f. canonical_entry (fst f) (snd f)) rest) False acc (total_size acc) (length acc)
     = Inr (acc @ rest)"
  using assms
proof (induction rest arbitrary: acc)
  case Nil
  then show ?case by simp
next
  case (Cons f rest)
  have "safe_path (fst f)" using Cons.prems(2) by simp
  then have n: "normalizePath (fst f) = Inr (fst f)" by (rule normalizePath_id)
  have fresh: "\<not> has_file acc (fst f)" using Cons.prems(1) by (auto simp: has_file_iff)
  have bud: "int (length (snd f)) \<le> MaxUnpackedBytes - total_size acc"
    using Cons.prems(4) total_size_nonneg [of rest] by simp
  have rd: "readWithinBudget (snd f) False (MaxUnpackedBytes - total_size acc)
      = (Inr (snd f), int (length (snd f)))"
    using bud by (subst readWithinBudget_Inr) auto
  have cnt: "\<not> MaxFiles < Suc (length acc)" using Cons.prems(3) by simp
  have IH: "unpack_loop (map (\<lambda>f. canonical_entry (fst f) (snd f)) rest) False (acc @ [f])
      (total_size (acc @ [f])) (length (acc @ [f])) = Inr ((acc @ [f]) @ rest)"
    using Cons.prems by (intro Cons.IH) auto
  show ?case
    using IH n fresh rd cnt by (simp add: canonical_entry_def)
qed

lemma sorted_files_length: "distinct (map fst fs) \<Longrightarrow> length (sorted_files fs) = length fs"
  using sorted_files_mset mset_eq_length by blast

lemma Unpack_Pack_sorted:
  assumes "packable fs"
  shows "\<exists>a. Pack fs = Inr a \<and> Unpack a = Inr (sorted_files fs)"
proof -
  let ?a = "Archive (map (\<lambda>f. canonical_entry (fst f) (snd f)) (sorted_files fs)) False"
  have pk: "Pack fs = Inr ?a"
    using assms by (auto simp: Pack_def Let_def packable_def list_all_iff sorted_files_def comp_def)
  have d: "distinct (map fst fs)" using assms by (simp add: packable_def)
  have ms: "mset (sorted_files fs) = mset fs" using d by (rule sorted_files_mset)
  have "unpack_loop (map (\<lambda>f. canonical_entry (fst f) (snd f)) (sorted_files fs)) False []
      (total_size []) (length ([] :: files)) = Inr ([] @ sorted_files fs)"
    using assms d total_size_mset [OF ms] mset_eq_length [OF ms]
    by (intro unpack_loop_pack) (auto simp: packable_def list_all_iff)
  then have "Unpack ?a = Inr (sorted_files fs)" by (simp add: Unpack_def)
  with pk show ?thesis by blast
qed

text \<open>Repacking what was unpacked gives an archive that unpacks to the same files.\<close>

lemma Unpack_repacked:
  assumes "Unpack a = Inr fs" and "Pack fs = Inr b"
  shows "Unpack b = Inr (sorted_files fs)"
proof -
  have "list_all (\<lambda>n. CHR 0x00 \<notin> set n) (map fst fs)"
    using assms(2) by (auto simp: Pack_def Let_def list_all_iff split: if_splits)
  then have "packable fs"
    using Unpack_inv [OF assms(1)] by (simp add: unpack_inv_def packable_def)
  with assms(2) show ?thesis using Unpack_Pack_sorted by fastforce
qed

text \<open>
  Packing and unpacking are inverse: a file map within the limits, with safe
  paths, is packed without error, and unpacking the archive gives back exactly the
  same map from paths to contents.
\<close>

lemma Unpack_Pack:
  assumes "packable fs"
  shows "\<exists>a out. Pack fs = Inr a \<and> Unpack a = Inr out \<and> map_of out = map_of fs \<and> length out = length fs"
  using Unpack_Pack_sorted [OF assms] sorted_files_map_of [of fs] sorted_files_length [of fs] assms
  by (auto simp: packable_def)

text \<open>
  Packing is canonical: it depends only on the contents of the file map, not on
  the order in which the map is iterated, so equal bundles give equal archives
  (and hence equal content hashes).
\<close>

lemma Pack_order_independent:
  assumes "distinct (map fst fs)" and "distinct (map fst gs)" and "map_of fs = map_of gs"
  shows "Pack fs = Pack gs"
proof -
  have "set (map fst fs) = set (map fst gs)"
    using assms(3) by (metis dom_map_of_conv_image_fst set_map)
  with assms have "mset (map fst fs) = mset (map fst gs)"
    by (simp only: set_eq_iff_mset_eq_distinct)
  then have "sort (map fst fs) = sort (map fst gs)"
    by (simp add: properties_for_sort)
  with assms(3) show ?thesis by (simp add: Pack_def)
qed

end
