(* ===== verification/Settings.thy ===== *)
theory Settings
  imports Bundle
begin

text \<open>
  Package settings: the typed organization and workspace settings documents and how
  a stored JSON blob is overlaid on the defaults. A blob is modelled after JSON
  decoding: empty, malformed, or a document in which every key may be missing
  (\<open>json.Unmarshal\<close> leaves the field of a missing or null key at its default, also
  inside nested objects).
\<close>

section \<open>Documents\<close>

record SettingsFetchPolicy =
  sfp_Mode :: string
  sfp_Allow :: "string list"

record Limits =
  lim_InvokeTimeoutMax :: string
  lim_MemoryMax :: int
  lim_BundleUnpackedMax :: int

record Org =
  so_Language :: string
  so_AllowUserFunctions :: bool
  so_AllowNodejsCompat :: bool
  so_DefaultVisibility :: string
  so_MaxVisibility :: string
  so_FetchPolicy :: SettingsFetchPolicy
  so_Limits :: Limits
  so_ExtraIDTokenAudiences :: "string list"
  so_SessionDurationSeconds :: int
  so_LogRetentionDays :: int
  so_RequireApproval :: bool
  so_MaxFunctionsPerUser :: int
  so_OpenMode :: bool
  so_ExposeCallerIdentity :: bool
  so_McpEnabled :: bool

record Workspace =
  sw_FetchPolicy :: SettingsFetchPolicy
  sw_DefaultVisibility :: string
  sw_MaxVisibility :: string
  sw_MemberCanDeploy :: bool
  sw_MaxFunctionsPerMember :: int

datatype 'd blob = BlobEmpty | BlobMalformed | Blob 'd

text \<open>The decoded documents: \<open>None\<close> is a missing key.\<close>

record fetch_doc =
  fd_mode :: "string option"
  fd_allow :: "string list option"

record limits_doc =
  ld_invoke_timeout_max :: "string option"
  ld_memory_max :: "int option"
  ld_bundle_unpacked_max :: "int option"

record org_doc =
  od_language :: "string option"
  od_allow_user_functions :: "bool option"
  od_allow_nodejs_compat :: "bool option"
  od_default_visibility :: "string option"
  od_max_visibility :: "string option"
  od_fetch_policy :: "fetch_doc option"
  od_limits :: "limits_doc option"
  od_extra_id_token_audiences :: "string list option"
  od_session_duration_seconds :: "int option"
  od_log_retention_days :: "int option"
  od_require_approval :: "bool option"
  od_max_functions_per_user :: "int option"
  od_open_mode :: "bool option"
  od_expose_caller_identity :: "bool option"
  od_mcp_enabled :: "bool option"

record workspace_doc =
  wd_fetch_policy :: "fetch_doc option"
  wd_default_visibility :: "string option"
  wd_max_visibility :: "string option"
  wd_member_can_deploy :: "bool option"
  wd_max_functions_per_member :: "int option"

datatype settings_error = ErrParseOrgSettings | ErrParseWorkspaceSettings

section \<open>Operations\<close>

definition SettingsFetchPolicy_Policy :: "SettingsFetchPolicy \<Rightarrow> policy_error + FetchPolicy" where
  "SettingsFetchPolicy_Policy f =
     (case ParseFetchMode (sfp_Mode f) of
        Inl e \<Rightarrow> Inl e
      | Inr mode \<Rightarrow>
          (case map_result ParsePattern (sfp_Allow f) of
             Inl e \<Rightarrow> Inl e
           | Inr allow \<Rightarrow> Inr \<lparr>fp_mode = mode, fp_allow = allow\<rparr>))"

definition DefaultLogRetentionDays :: int where
  "DefaultLogRetentionDays = 7"

definition DefaultOrg :: Org where
  "DefaultOrg = \<lparr>so_Language = ''en'', so_AllowUserFunctions = True, so_AllowNodejsCompat = True,
     so_DefaultVisibility = ''org'', so_MaxVisibility = ''public'',
     so_FetchPolicy = \<lparr>sfp_Mode = ''deny'', sfp_Allow = []\<rparr>,
     so_Limits = \<lparr>lim_InvokeTimeoutMax = ''60s'', lim_MemoryMax = 256 * 2 ^ 20,
        lim_BundleUnpackedMax = MaxUnpackedBytes\<rparr>,
     so_ExtraIDTokenAudiences = [], so_SessionDurationSeconds = 0,
     so_LogRetentionDays = DefaultLogRetentionDays, so_RequireApproval = False,
     so_MaxFunctionsPerUser = 0, so_OpenMode = False, so_ExposeCallerIdentity = False,
     so_McpEnabled = True\<rparr>"

definition IsLanguage :: "string \<Rightarrow> bool" where
  "IsLanguage language = (language = ''en'' \<or> language = ''ja'')"

definition EffectiveLanguage :: "string \<Rightarrow> string \<Rightarrow> string" where
  "EffectiveLanguage userLanguage orgLanguage =
     (if IsLanguage userLanguage then userLanguage
      else if IsLanguage orgLanguage then orgLanguage
      else ''en'')"

definition overlay :: "'a \<Rightarrow> 'a option \<Rightarrow> 'a" where
  "overlay dflt v = (case v of None \<Rightarrow> dflt | Some x \<Rightarrow> x)"

definition overlay_fetch :: "SettingsFetchPolicy \<Rightarrow> fetch_doc option \<Rightarrow> SettingsFetchPolicy" where
  "overlay_fetch f d = (case d of None \<Rightarrow> f
     | Some fd \<Rightarrow> \<lparr>sfp_Mode = overlay (sfp_Mode f) (fd_mode fd), sfp_Allow = overlay (sfp_Allow f) (fd_allow fd)\<rparr>)"

definition overlay_limits :: "Limits \<Rightarrow> limits_doc option \<Rightarrow> Limits" where
  "overlay_limits l d = (case d of None \<Rightarrow> l
     | Some ld \<Rightarrow> \<lparr>lim_InvokeTimeoutMax = overlay (lim_InvokeTimeoutMax l) (ld_invoke_timeout_max ld),
         lim_MemoryMax = overlay (lim_MemoryMax l) (ld_memory_max ld),
         lim_BundleUnpackedMax = overlay (lim_BundleUnpackedMax l) (ld_bundle_unpacked_max ld)\<rparr>)"

definition overlay_org :: "Org \<Rightarrow> org_doc \<Rightarrow> Org" where
  "overlay_org os d = \<lparr>
     so_Language = overlay (so_Language os) (od_language d),
     so_AllowUserFunctions = overlay (so_AllowUserFunctions os) (od_allow_user_functions d),
     so_AllowNodejsCompat = overlay (so_AllowNodejsCompat os) (od_allow_nodejs_compat d),
     so_DefaultVisibility = overlay (so_DefaultVisibility os) (od_default_visibility d),
     so_MaxVisibility = overlay (so_MaxVisibility os) (od_max_visibility d),
     so_FetchPolicy = overlay_fetch (so_FetchPolicy os) (od_fetch_policy d),
     so_Limits = overlay_limits (so_Limits os) (od_limits d),
     so_ExtraIDTokenAudiences = overlay (so_ExtraIDTokenAudiences os) (od_extra_id_token_audiences d),
     so_SessionDurationSeconds = overlay (so_SessionDurationSeconds os) (od_session_duration_seconds d),
     so_LogRetentionDays = overlay (so_LogRetentionDays os) (od_log_retention_days d),
     so_RequireApproval = overlay (so_RequireApproval os) (od_require_approval d),
     so_MaxFunctionsPerUser = overlay (so_MaxFunctionsPerUser os) (od_max_functions_per_user d),
     so_OpenMode = overlay (so_OpenMode os) (od_open_mode d),
     so_ExposeCallerIdentity = overlay (so_ExposeCallerIdentity os) (od_expose_caller_identity d),
     so_McpEnabled = overlay (so_McpEnabled os) (od_mcp_enabled d)\<rparr>"

definition ParseOrg :: "org_doc blob \<Rightarrow> settings_error + Org" where
  "ParseOrg raw =
     (case raw of
        BlobEmpty \<Rightarrow> Inr DefaultOrg
      | BlobMalformed \<Rightarrow> Inl ErrParseOrgSettings
      | Blob d \<Rightarrow>
          (let o1 = overlay_org DefaultOrg d;
               o2 = (if \<not> IsLanguage (so_Language o1) then o1\<lparr>so_Language := ''en''\<rparr> else o1);
               b = lim_BundleUnpackedMax (so_Limits o2) in
           Inr (if b \<le> 0 \<or> b > MaxUnpackedBytes
                then o2\<lparr>so_Limits := (so_Limits o2)\<lparr>lim_BundleUnpackedMax := MaxUnpackedBytes\<rparr>\<rparr>
                else o2)))"

definition DefaultWorkspace :: Workspace where
  "DefaultWorkspace = \<lparr>sw_FetchPolicy = \<lparr>sfp_Mode = ''allow-all'', sfp_Allow = []\<rparr>,
     sw_DefaultVisibility = [], sw_MaxVisibility = [], sw_MemberCanDeploy = True,
     sw_MaxFunctionsPerMember = 0\<rparr>"

definition ParseWorkspace :: "workspace_doc blob \<Rightarrow> settings_error + Workspace" where
  "ParseWorkspace raw =
     (case raw of
        BlobEmpty \<Rightarrow> Inr DefaultWorkspace
      | BlobMalformed \<Rightarrow> Inl ErrParseWorkspaceSettings
      | Blob d \<Rightarrow> Inr \<lparr>
          sw_FetchPolicy = overlay_fetch (sw_FetchPolicy DefaultWorkspace) (wd_fetch_policy d),
          sw_DefaultVisibility = overlay (sw_DefaultVisibility DefaultWorkspace) (wd_default_visibility d),
          sw_MaxVisibility = overlay (sw_MaxVisibility DefaultWorkspace) (wd_max_visibility d),
          sw_MemberCanDeploy = overlay (sw_MemberCanDeploy DefaultWorkspace) (wd_member_can_deploy d),
          sw_MaxFunctionsPerMember =
            overlay (sw_MaxFunctionsPerMember DefaultWorkspace) (wd_max_functions_per_member d)\<rparr>)"

text \<open>
  \<open>JSON\<close>: the storage form. Keys tagged \<open>omitempty\<close> are left out at their zero value.
\<close>

definition omit_zero :: "'a \<Rightarrow> 'a \<Rightarrow> 'a option" where
  "omit_zero zero v = (if v = zero then None else Some v)"

definition fetch_json :: "SettingsFetchPolicy \<Rightarrow> fetch_doc" where
  "fetch_json f = \<lparr>fd_mode = Some (sfp_Mode f), fd_allow = omit_zero [] (sfp_Allow f)\<rparr>"

definition Org_JSON :: "Org \<Rightarrow> org_doc" where
  "Org_JSON os = \<lparr>
     od_language = Some (so_Language os),
     od_allow_user_functions = Some (so_AllowUserFunctions os),
     od_allow_nodejs_compat = Some (so_AllowNodejsCompat os),
     od_default_visibility = Some (so_DefaultVisibility os),
     od_max_visibility = Some (so_MaxVisibility os),
     od_fetch_policy = Some (fetch_json (so_FetchPolicy os)),
     od_limits = Some \<lparr>
        ld_invoke_timeout_max = omit_zero [] (lim_InvokeTimeoutMax (so_Limits os)),
        ld_memory_max = omit_zero 0 (lim_MemoryMax (so_Limits os)),
        ld_bundle_unpacked_max = omit_zero 0 (lim_BundleUnpackedMax (so_Limits os))\<rparr>,
     od_extra_id_token_audiences = omit_zero [] (so_ExtraIDTokenAudiences os),
     od_session_duration_seconds = omit_zero 0 (so_SessionDurationSeconds os),
     od_log_retention_days = omit_zero 0 (so_LogRetentionDays os),
     od_require_approval = Some (so_RequireApproval os),
     od_max_functions_per_user = omit_zero 0 (so_MaxFunctionsPerUser os),
     od_open_mode = Some (so_OpenMode os),
     od_expose_caller_identity = Some (so_ExposeCallerIdentity os),
     od_mcp_enabled = Some (so_McpEnabled os)\<rparr>"

definition Workspace_JSON :: "Workspace \<Rightarrow> workspace_doc" where
  "Workspace_JSON w = \<lparr>
     wd_fetch_policy = Some (fetch_json (sw_FetchPolicy w)),
     wd_default_visibility = omit_zero [] (sw_DefaultVisibility w),
     wd_max_visibility = omit_zero [] (sw_MaxVisibility w),
     wd_member_can_deploy = Some (sw_MemberCanDeploy w),
     wd_max_functions_per_member = omit_zero 0 (sw_MaxFunctionsPerMember w)\<rparr>"

section \<open>Lemmas\<close>

lemma overlay_simps [simp]: "overlay d None = d" "overlay d (Some x) = x"
  by (simp_all add: overlay_def)

lemma overlay_omit_zero [simp]: "overlay z (omit_zero z v) = v"
  by (simp add: omit_zero_def)

lemma overlay_omit: "v \<noteq> z \<or> d = z \<Longrightarrow> overlay d (omit_zero z v) = v"
  by (auto simp: omit_zero_def)

lemma overlay_fetch_json [simp]: "sfp_Allow f0 = [] \<Longrightarrow> overlay_fetch f0 (Some (fetch_json f)) = f"
  by (simp add: overlay_fetch_def fetch_json_def)

lemma ParseOrg_bundle_max:
  "ParseOrg raw = Inr os \<Longrightarrow>
     0 < lim_BundleUnpackedMax (so_Limits os) \<and> lim_BundleUnpackedMax (so_Limits os) \<le> MaxUnpackedBytes"
  by (auto simp: ParseOrg_def DefaultOrg_def Let_def MaxUnpackedBytes_def split: blob.splits if_splits)

lemma ParseOrg_language: "ParseOrg raw = Inr os \<Longrightarrow> IsLanguage (so_Language os)"
  by (auto simp: ParseOrg_def DefaultOrg_def Let_def IsLanguage_def split: blob.splits if_splits)

definition storable_org :: "Org \<Rightarrow> bool" where
  "storable_org os = (IsLanguage (so_Language os)
     \<and> 0 < lim_BundleUnpackedMax (so_Limits os) \<and> lim_BundleUnpackedMax (so_Limits os) \<le> MaxUnpackedBytes
     \<and> lim_InvokeTimeoutMax (so_Limits os) \<noteq> [] \<and> lim_MemoryMax (so_Limits os) \<noteq> 0
     \<and> so_LogRetentionDays os \<noteq> 0)"

text \<open>
  Parsing organization settings: malformed JSON is the only error, and every
  parsed document has a supported language and a bundle limit between 1 byte and
  the system-wide 5 MiB ceiling. Storing a document and parsing it again gives the
  same document, provided the fields whose default is not the zero value (timeout,
  memory, log retention) are not zero themselves.
\<close>

lemma ParseOrg_clamps_and_roundtrips:
  "(ParseOrg raw = Inl ErrParseOrgSettings \<longleftrightarrow> raw = BlobMalformed)
   \<and> (case ParseOrg raw of Inl _ \<Rightarrow> True | Inr os \<Rightarrow> IsLanguage (so_Language os)
        \<and> lim_BundleUnpackedMax (so_Limits os) \<in> {1..MaxUnpackedBytes})
   \<and> (storable_org org \<longrightarrow> ParseOrg (Blob (Org_JSON org)) = Inr org)"
proof (intro conjI impI)
  show "ParseOrg raw = Inl ErrParseOrgSettings \<longleftrightarrow> raw = BlobMalformed"
    by (cases raw) (auto simp: ParseOrg_def Let_def)
  show "case ParseOrg raw of Inl _ \<Rightarrow> True | Inr os \<Rightarrow> IsLanguage (so_Language os)
        \<and> lim_BundleUnpackedMax (so_Limits os) \<in> {1..MaxUnpackedBytes}"
    by (auto split: sum.splits dest: ParseOrg_bundle_max ParseOrg_language)
  assume "storable_org org"
  then have "overlay_org DefaultOrg (Org_JSON org) = org"
    by (simp add: overlay_org_def Org_JSON_def overlay_limits_def DefaultOrg_def storable_org_def overlay_omit)
  with \<open>storable_org org\<close> show "ParseOrg (Blob (Org_JSON org)) = Inr org"
    by (simp add: ParseOrg_def Let_def storable_org_def)
qed

lemma ParseWorkspace_JSON: "ParseWorkspace (Blob (Workspace_JSON w)) = Inr w"
  by (simp add: ParseWorkspace_def Workspace_JSON_def DefaultWorkspace_def)

end
