(* ===== verification/StoreTypes.thy ===== *)
theory StoreTypes
  imports Settings
begin

text \<open>
  The domain model of package store (types.go, errors.go): one record per struct,
  one datatype per string enumeration. Timestamps are Unix seconds, the storage
  representation of every backend; a zero \<^verbatim>\<open>time.Time\<close> in an optional column is
  \<open>None\<close>. The JSON columns are kept decoded: settings as documents, the manifest
  snapshot as \<open>Normalized\<close> with \<open>None\<close> for a snapshot that does not decode.
\<close>

datatype OwnerType = OwnerTypeUser | OwnerTypeWorkspace

datatype Role = RoleAdmin | RoleWorkspaceManager | RoleMember

datatype LoginRuleType =
    LoginRuleTypeEmailDomain | LoginRuleTypeEmailExact | LoginRuleTypeEmailGlob | LoginRuleTypeDefault

datatype LoginRuleAction = LoginRuleActionAllow | LoginRuleActionDeny

datatype Provider = ProviderGoogle | ProviderGitHub

datatype UserStatus = UserStatusActive | UserStatusPending | UserStatusDisabled

datatype store_error = ErrNotFound | ErrConflict | ErrFunctionLimitReached

record Organization =
  org_Name :: string
  org_Settings :: "org_doc blob"
  org_SettingsGen :: int
  org_CreatedAt :: unix
  org_UpdatedAt :: unix

record LoginRule =
  lr_ID :: string
  lr_Ord :: int
  lr_RuleType :: LoginRuleType
  lr_Value :: string
  lr_Action :: LoginRuleAction

record User =
  u_ID :: string
  u_Provider :: Provider
  u_ProviderSubject :: string
  u_Email :: string
  u_Name :: string
  u_Role :: Role
  u_Status :: UserStatus
  u_Language :: string
  u_CreatedAt :: unix
  u_UpdatedAt :: unix

record PublicUserID =
  pu_UserID :: string
  pu_InternalUserID :: string
  pu_CreatedAt :: unix
  pu_UpdatedAt :: unix

record WorkspaceRow =
  ws_ID :: string
  ws_Name :: string
  ws_Settings :: "workspace_doc blob"
  ws_SettingsGen :: int
  ws_CreatedAt :: unix
  ws_UpdatedAt :: unix

record WorkspaceMember =
  wm_WorkspaceID :: string
  wm_UserID :: string
  wm_Role :: Role
  wm_CreatedAt :: unix
  wm_UpdatedAt :: unix

record Function =
  fn_ID :: string
  fn_OwnerType :: OwnerType
  fn_OwnerID :: string
  fn_Name :: string
  fn_Description :: string
  fn_ActiveVersionID :: "string option"
  fn_CreatedBy :: "string option"
  fn_CreatedAt :: unix
  fn_UpdatedAt :: unix

record FunctionVersion =
  fv_ID :: string
  fv_FunctionID :: string
  fv_Manifest :: "Normalized option"
  fv_MainPath :: string
  fv_BundleHash :: string
  fv_BundleSize :: int
  fv_UnpackedSize :: int
  fv_Files :: "(string \<times> int) list"
  fv_CreatedBy :: string
  fv_Note :: string
  fv_CreatedAt :: unix
  fv_UpdatedAt :: unix

record EnvVar =
  ev_FunctionID :: string
  ev_Key :: string
  ev_ValueEnc :: bytes
  ev_CreatedAt :: unix
  ev_UpdatedAt :: unix

record Session =
  se_ID :: string
  se_UserID :: string
  se_ExpiresAt :: unix
  se_CreatedAt :: unix
  se_UpdatedAt :: unix

record InvokeAuthCode =
  iac_ID :: string
  iac_UserID :: string
  iac_FunctionID :: string
  iac_Host :: string
  iac_ReturnTo :: string
  iac_ExpiresAt :: unix
  iac_CreatedAt :: unix

record CLICredential =
  cc_ID :: string
  cc_UserID :: string
  cc_Name :: string
  cc_SecretHash :: string
  cc_CreatedAt :: unix
  cc_UpdatedAt :: unix
  cc_LastUsedAt :: "unix option"

record CLIAuthCode =
  cac_ID :: string
  cac_UserID :: string
  cac_Name :: string
  cac_Challenge :: string
  cac_ExpiresAt :: unix
  cac_CreatedAt :: unix

record OAuthClient =
  oc_ID :: string
  oc_Name :: string
  oc_RedirectURIs :: "string list"
  oc_CreatedAt :: unix
  oc_UpdatedAt :: unix

record OAuthAuthCode =
  oac_ID :: string
  oac_UserID :: string
  oac_ClientID :: string
  oac_RedirectURI :: string
  oac_Challenge :: string
  oac_Resource :: string
  oac_ExpiresAt :: unix
  oac_CreatedAt :: unix

record OAuthGrant =
  og_ID :: string
  og_UserID :: string
  og_ClientID :: string
  og_SecretHash :: string
  og_PrevSecretHash :: string
  og_CreatedAt :: unix
  og_UpdatedAt :: unix
  og_LastUsedAt :: "unix option"

record AuditLog =
  al_ID :: string
  al_ActorID :: string
  al_Action :: string
  al_Target :: string
  al_Detail :: string
  al_CreatedAt :: unix

record FetchDecision =
  fdec_Host :: string
  fdec_Port :: int
  fdec_Allowed :: bool
  fdec_Stage :: string

record InvocationLog =
  il_ID :: string
  il_FunctionID :: string
  il_VersionID :: string
  il_Method :: string
  il_Path :: string
  il_Status :: int
  il_DurationMS :: int
  il_Stdout :: string
  il_Stderr :: string
  il_FetchDecisions :: "FetchDecision list"
  il_CreatedAt :: unix

end
