(* ===== verification/Authz.thy ===== *)
theory Authz
  imports StoreTypes
begin

text \<open>
  Package authz: the authorization matrix. Pure decision functions over the actor's
  organization-wide role, the role within one workspace (\<open>None\<close>: not a member) and
  the settings the operation depends on.
\<close>

record Actor =
  a_UserID :: string
  a_Role :: Role

definition IsOrgAdmin :: "Actor \<Rightarrow> bool" where
  "IsOrgAdmin a = (a_Role a = RoleAdmin)"

definition IsWorkspaceManager :: "Actor \<Rightarrow> bool" where
  "IsWorkspaceManager a = (a_Role a = RoleWorkspaceManager)"

definition CanUpdateOrgSettings :: "Actor \<Rightarrow> bool" where
  "CanUpdateOrgSettings a = IsOrgAdmin a"

definition CanReadAuditLog :: "Actor \<Rightarrow> bool" where
  "CanReadAuditLog a = IsOrgAdmin a"

definition CanManageOrgUsers :: "Actor \<Rightarrow> bool" where
  "CanManageOrgUsers a = IsOrgAdmin a"

definition CanCreateWorkspace :: "Actor \<Rightarrow> bool" where
  "CanCreateWorkspace a = (IsOrgAdmin a \<or> IsWorkspaceManager a)"

definition CanManageWorkspace :: "Actor \<Rightarrow> Role option \<Rightarrow> bool" where
  "CanManageWorkspace a wsRole = (IsOrgAdmin a \<or> wsRole = Some RoleAdmin)"

definition CanDeployToWorkspace :: "Actor \<Rightarrow> Role option \<Rightarrow> bool \<Rightarrow> bool" where
  "CanDeployToWorkspace a wsRole memberCanDeploy =
     (if IsOrgAdmin a then True
      else case wsRole of
        None \<Rightarrow> False
      | Some r \<Rightarrow> if r = RoleAdmin then True else memberCanDeploy)"

definition CanDeployPersonal :: "Actor \<Rightarrow> string \<Rightarrow> bool \<Rightarrow> bool" where
  "CanDeployPersonal a ownerUserID allowUserFunctions =
     (if IsOrgAdmin a then True else allowUserFunctions \<and> a_UserID a = ownerUserID)"

definition CanManageFunction ::
  "Actor \<Rightarrow> OwnerType \<Rightarrow> string \<Rightarrow> Role option \<Rightarrow> bool \<Rightarrow> bool" where
  "CanManageFunction a ownerType ownerUserID wsRole memberCanDeploy =
     (if ownerType = OwnerTypeWorkspace then CanDeployToWorkspace a wsRole memberCanDeploy
      else IsOrgAdmin a \<or> a_UserID a = ownerUserID)"

datatype Action =
    ActionOrgSettingsUpdate | ActionOrgUsersManage | ActionAuditRead | ActionWorkspaceCreate
  | ActionWorkspaceManage | ActionWorkspaceDeploy | ActionPersonalDeploy | ActionFunctionManage
  | ActionOther string

record Target =
  t_AllowUserFunctions :: bool
  t_WorkspaceRole :: "Role option"
  t_MemberCanDeploy :: bool
  t_OwnerType :: OwnerType
  t_OwnerUserID :: string

fun Can :: "Actor \<Rightarrow> Action \<Rightarrow> Target \<Rightarrow> bool" where
  "Can a ActionOrgSettingsUpdate t = CanUpdateOrgSettings a"
| "Can a ActionOrgUsersManage t = CanManageOrgUsers a"
| "Can a ActionAuditRead t = CanReadAuditLog a"
| "Can a ActionWorkspaceCreate t = CanCreateWorkspace a"
| "Can a ActionWorkspaceManage t = CanManageWorkspace a (t_WorkspaceRole t)"
| "Can a ActionWorkspaceDeploy t = CanDeployToWorkspace a (t_WorkspaceRole t) (t_MemberCanDeploy t)"
| "Can a ActionPersonalDeploy t = CanDeployPersonal a (t_OwnerUserID t) (t_AllowUserFunctions t)"
| "Can a ActionFunctionManage t =
     CanManageFunction a (t_OwnerType t) (t_OwnerUserID t) (t_WorkspaceRole t) (t_MemberCanDeploy t)"
| "Can a (ActionOther s) t = False"

lemmas authz_defs = IsOrgAdmin_def IsWorkspaceManager_def CanUpdateOrgSettings_def CanReadAuditLog_def
  CanManageOrgUsers_def CanCreateWorkspace_def CanManageWorkspace_def CanDeployToWorkspace_def
  CanDeployPersonal_def CanManageFunction_def

section \<open>Properties of the matrix\<close>

definition role_rank :: "Role \<Rightarrow> nat" where
  "role_rank r = (case r of RoleMember \<Rightarrow> 0 | RoleWorkspaceManager \<Rightarrow> 1 | RoleAdmin \<Rightarrow> 2)"

text \<open>
  The roles are ordered admin, workspace manager, member: raising an actor's role
  never takes a permission away; an organization admin may do everything the matrix
  names; and workspace managers differ from members only in creating workspaces.
\<close>

lemma Can_role_monotone:
  "(role_rank (a_Role a) \<le> role_rank r \<longrightarrow> Can a act t \<longrightarrow> Can (a\<lparr>a_Role := r\<rparr>) act t)
   \<and> ((\<forall>s. act \<noteq> ActionOther s) \<longrightarrow> Can (a\<lparr>a_Role := RoleAdmin\<rparr>) act t)
   \<and> (Can (a\<lparr>a_Role := RoleWorkspaceManager\<rparr>) act t \<noteq> Can (a\<lparr>a_Role := RoleMember\<rparr>) act t
        \<longrightarrow> act = ActionWorkspaceCreate)"
proof (intro conjI impI)
  show "Can (a\<lparr>a_Role := r\<rparr>) act t" if "role_rank (a_Role a) \<le> role_rank r" "Can a act t"
    using that by (cases act; cases "a_Role a"; cases r) (auto simp: authz_defs role_rank_def split: option.splits)
  show "Can (a\<lparr>a_Role := RoleAdmin\<rparr>) act t" if "\<forall>s. act \<noteq> ActionOther s"
    using that by (cases act) (auto simp: authz_defs)
  show "act = ActionWorkspaceCreate"
    if "Can (a\<lparr>a_Role := RoleWorkspaceManager\<rparr>) act t \<noteq> Can (a\<lparr>a_Role := RoleMember\<rparr>) act t"
    using that by (cases act) (auto simp: authz_defs split: if_splits option.splits)
qed

definition member_actor :: Actor where
  "member_actor = \<lparr>a_UserID = ''u1'', a_Role = RoleMember\<rparr>"

definition own_target :: Target where
  "own_target = \<lparr>t_AllowUserFunctions = True, t_WorkspaceRole = None, t_MemberCanDeploy = False,
     t_OwnerType = OwnerTypeUser, t_OwnerUserID = ''u1''\<rparr>"

text \<open>
  What a caller who is not an organization admin may do: manage exactly the
  personal functions of their own account, touch a workspace's functions only as a
  member of it (as its admin, or as any member when members may deploy), and manage
  the workspace itself only as its admin. Nobody but organization admins reaches
  the organization settings, users and audit log.
\<close>

lemma Can_non_admin:
  assumes "a_Role a \<noteq> RoleAdmin"
  shows "\<not> Can a ActionOrgSettingsUpdate t \<and> \<not> Can a ActionOrgUsersManage t \<and> \<not> Can a ActionAuditRead t
    \<and> (Can a ActionWorkspaceManage t \<longleftrightarrow> t_WorkspaceRole t = Some RoleAdmin)
    \<and> (Can a ActionWorkspaceDeploy t \<longleftrightarrow>
         t_WorkspaceRole t = Some RoleAdmin \<or> t_WorkspaceRole t \<noteq> None \<and> t_MemberCanDeploy t)
    \<and> (Can a ActionPersonalDeploy t \<longleftrightarrow> t_AllowUserFunctions t \<and> a_UserID a = t_OwnerUserID t)
    \<and> (Can a ActionFunctionManage t \<longleftrightarrow>
         (if t_OwnerType t = OwnerTypeUser then a_UserID a = t_OwnerUserID t else Can a ActionWorkspaceDeploy t))"
  using assms by (cases "t_OwnerType t") (auto simp: authz_defs split: option.splits)

end
