(* ===== verification/Store.thy ===== *)
theory Store
  imports Authz
begin

text \<open>
  The SQL repositories of server/internal/store/sqlcommon over an explicit database
  state: one list of rows per table, in insertion order. Every operation takes the
  database and returns the new one with its result; an operation that runs in a
  transaction returns the database unchanged on an error. PRIMARY KEY, UNIQUE and
  FOREIGN KEY violations surface as \<open>ErrConflict\<close> (\<^verbatim>\<open>Dialect.MapErr\<close>), missing rows as
  \<open>ErrNotFound\<close>. The clock (\<open>now\<close>, Unix seconds) and the value \<^verbatim>\<open>store.NewID\<close> would
  return (\<open>fresh\<close>) are arguments. Driver faults are not modelled. Queries that order
  by creation time list rows of equal time in insertion order.
\<close>

record NameClaim =
  nc_Name :: string
  nc_FunctionID :: string
  nc_Active :: bool
  nc_ClaimedAt :: unix
  nc_ReleasedAt :: "unix option"

record DB =
  db_org :: "Organization option"
  db_login_rules :: "LoginRule list"
  db_users :: "User list"
  db_handles :: "PublicUserID list"
  db_workspaces :: "WorkspaceRow list"
  db_members :: "WorkspaceMember list"
  db_functions :: "Function list"
  db_names :: "NameClaim list"
  db_versions :: "FunctionVersion list"
  db_env :: "EnvVar list"
  db_sessions :: "Session list"
  db_invoke_codes :: "InvokeAuthCode list"
  db_cli_creds :: "CLICredential list"
  db_cli_codes :: "CLIAuthCode list"
  db_oauth_clients :: "OAuthClient list"
  db_oauth_codes :: "OAuthAuthCode list"
  db_oauth_grants :: "OAuthGrant list"
  db_audit :: "AuditLog list"
  db_invocation_logs :: "InvocationLog list"

type_synonym 'a db_result = "DB \<times> (store_error + 'a)"

definition empty_db :: DB where
  "empty_db = \<lparr>db_org = None, db_login_rules = [], db_users = [], db_handles = [], db_workspaces = [],
     db_members = [], db_functions = [], db_names = [], db_versions = [], db_env = [], db_sessions = [],
     db_invoke_codes = [], db_cli_creds = [], db_cli_codes = [], db_oauth_clients = [], db_oauth_codes = [],
     db_oauth_grants = [], db_audit = [], db_invocation_logs = []\<rparr>"

definition found :: "'a option \<Rightarrow> store_error + 'a" where
  "found r = (case r of None \<Rightarrow> Inl ErrNotFound | Some x \<Rightarrow> Inr x)"

definition assign_id :: "string \<Rightarrow> string \<Rightarrow> string" where
  "assign_id ident fresh = (if ident = [] then fresh else ident)"

definition has_row :: "('r \<Rightarrow> 'k) \<Rightarrow> 'k \<Rightarrow> 'r list \<Rightarrow> bool" where
  "has_row key k rows = (k \<in> key ` set rows)"

section \<open>Users (users.go)\<close>

definition user_conflict :: "User list \<Rightarrow> User \<Rightarrow> bool" where
  "user_conflict rows u =
     (\<exists>r \<in> set rows. u_ID r = u_ID u \<or> u_Email r = u_Email u
        \<or> (u_Provider r, u_ProviderSubject r) = (u_Provider u, u_ProviderSubject u))"

definition users_Create :: "DB \<Rightarrow> unix \<Rightarrow> string \<Rightarrow> User \<Rightarrow> User db_result" where
  "users_Create db now fresh u0 =
     (let u = u0\<lparr>u_ID := assign_id (u_ID u0) fresh, u_CreatedAt := now, u_UpdatedAt := now\<rparr> in
      if user_conflict (db_users db) u then (db, Inl ErrConflict)
      else (db\<lparr>db_users := db_users db @ [u]\<rparr>, Inr u))"

definition users_ByID :: "DB \<Rightarrow> string \<Rightarrow> store_error + User" where
  "users_ByID db ident = found (lookup_row (\<lambda>u. u_ID u = ident) (db_users db))"

definition users_ByProviderSubject :: "DB \<Rightarrow> Provider \<Rightarrow> string \<Rightarrow> store_error + User" where
  "users_ByProviderSubject db p s =
     found (lookup_row (\<lambda>u. u_Provider u = p \<and> u_ProviderSubject u = s) (db_users db))"

definition users_ByEmail :: "DB \<Rightarrow> string \<Rightarrow> store_error + User" where
  "users_ByEmail db email = found (lookup_row (\<lambda>u. u_Email u = email) (db_users db))"

definition users_Update :: "DB \<Rightarrow> unix \<Rightarrow> User \<Rightarrow> User db_result" where
  "users_Update db now u =
     (case lookup_row (\<lambda>r. u_ID r = u_ID u) (db_users db) of
        None \<Rightarrow> (db, Inl ErrNotFound)
      | Some old \<Rightarrow>
          (let u' = u\<lparr>u_CreatedAt := u_CreatedAt old, u_UpdatedAt := now\<rparr> in
           if user_conflict (filter (\<lambda>r. u_ID r \<noteq> u_ID u) (db_users db)) u' then (db, Inl ErrConflict)
           else (db\<lparr>db_users := update_rows (\<lambda>r. u_ID r = u_ID u) (\<lambda>_. u') (db_users db)\<rparr>, Inr u')))"

definition users_List :: "DB \<Rightarrow> User list" where
  "users_List db = sort_key u_CreatedAt (db_users db)"

section \<open>The organization (organizations.go, aggregate.go)\<close>

definition org_Get :: "DB \<Rightarrow> store_error + Organization" where
  "org_Get db = found (db_org db)"

definition org_Update :: "DB \<Rightarrow> unix \<Rightarrow> Organization \<Rightarrow> Organization db_result" where
  "org_Update db now new =
     (case db_org db of
        None \<Rightarrow> (db, Inl ErrNotFound)
      | Some old \<Rightarrow>
          (let o' = new\<lparr>org_CreatedAt := org_CreatedAt old, org_UpdatedAt := now\<rparr> in
           (db\<lparr>db_org := Some o'\<rparr>, Inr o')))"

definition org_ListLoginRules :: "DB \<Rightarrow> LoginRule list" where
  "org_ListLoginRules db = sort_key lr_Ord (db_login_rules db)"

text \<open>\<open>fresh i\<close> is the identifier generated for the \<open>i\<close>-th rule if it has none.\<close>

fun insert_login_rules ::
  "LoginRule list \<Rightarrow> (nat \<Rightarrow> string) \<Rightarrow> LoginRule list \<Rightarrow> store_error + LoginRule list" where
  "insert_login_rules acc fresh [] = Inr acc"
| "insert_login_rules acc fresh (r # rs) =
     (let r' = r\<lparr>lr_ID := assign_id (lr_ID r) (fresh (length acc))\<rparr> in
      if has_row lr_ID (lr_ID r') acc then Inl ErrConflict
      else insert_login_rules (acc @ [r']) fresh rs)"

definition org_ReplaceLoginRules :: "DB \<Rightarrow> (nat \<Rightarrow> string) \<Rightarrow> LoginRule list \<Rightarrow> unit db_result" where
  "org_ReplaceLoginRules db fresh rules =
     (case insert_login_rules [] fresh rules of
        Inl e \<Rightarrow> (db, Inl e)
      | Inr rs \<Rightarrow> (db\<lparr>db_login_rules := rs\<rparr>, Inr ()))"

definition empty_org_doc :: org_doc where
  "empty_org_doc = \<lparr>od_language = None, od_allow_user_functions = None, od_allow_nodejs_compat = None,
     od_default_visibility = None, od_max_visibility = None, od_fetch_policy = None, od_limits = None,
     od_extra_id_token_audiences = None, od_session_duration_seconds = None, od_log_retention_days = None,
     od_require_approval = None, od_max_functions_per_user = None, od_open_mode = None,
     od_expose_caller_identity = None, od_mcp_enabled = None\<rparr>"

definition BootstrapFirstUser :: "DB \<Rightarrow> unix \<Rightarrow> string \<Rightarrow> User \<Rightarrow> string \<Rightarrow> User db_result" where
  "BootstrapFirstUser db now fresh u0 orgName =
     (if db_users db \<noteq> [] then (db, Inl ErrConflict)
      else
        let db1 = (case db_org db of
              Some _ \<Rightarrow> db
            | None \<Rightarrow> db\<lparr>db_org := Some \<lparr>org_Name = orgName, org_Settings = Blob empty_org_doc,
                org_SettingsGen = 1, org_CreatedAt = now, org_UpdatedAt = now\<rparr>\<rparr>);
            u = u0\<lparr>u_ID := assign_id (u_ID u0) fresh, u_Role := RoleAdmin, u_Status := UserStatusActive,
                u_CreatedAt := now, u_UpdatedAt := now\<rparr> in
        (db1\<lparr>db_users := [u]\<rparr>, Inr u))"

section \<open>Public User IDs (handles.go)\<close>

definition handles_Create :: "DB \<Rightarrow> unix \<Rightarrow> PublicUserID \<Rightarrow> PublicUserID db_result" where
  "handles_Create db now h0 =
     (let h = h0\<lparr>pu_CreatedAt := now, pu_UpdatedAt := now\<rparr> in
      if has_row pu_UserID (pu_UserID h) (db_handles db)
         \<or> has_row pu_InternalUserID (pu_InternalUserID h) (db_handles db) then (db, Inl ErrConflict)
      else (db\<lparr>db_handles := db_handles db @ [h]\<rparr>, Inr h))"

definition handles_ByUserID :: "DB \<Rightarrow> string \<Rightarrow> store_error + PublicUserID" where
  "handles_ByUserID db userID = found (lookup_row (\<lambda>h. pu_UserID h = userID) (db_handles db))"

definition handles_ByOwner :: "DB \<Rightarrow> string \<Rightarrow> store_error + PublicUserID" where
  "handles_ByOwner db internal = found (lookup_row (\<lambda>h. pu_InternalUserID h = internal) (db_handles db))"

definition handles_Rename :: "DB \<Rightarrow> unix \<Rightarrow> string \<Rightarrow> string \<Rightarrow> unit db_result" where
  "handles_Rename db now oldUserID newUserID =
     (if \<not> has_row pu_UserID oldUserID (db_handles db) then (db, Inl ErrNotFound)
      else if newUserID \<noteq> oldUserID \<and> has_row pu_UserID newUserID (db_handles db) then (db, Inl ErrConflict)
      else (db\<lparr>db_handles := update_rows (\<lambda>h. pu_UserID h = oldUserID)
              (\<lambda>h. h\<lparr>pu_UserID := newUserID, pu_UpdatedAt := now\<rparr>) (db_handles db)\<rparr>, Inr ()))"

definition handles_Delete :: "DB \<Rightarrow> string \<Rightarrow> unit db_result" where
  "handles_Delete db userID =
     (db\<lparr>db_handles := delete_rows (\<lambda>h. pu_UserID h = userID) (db_handles db)\<rparr>, Inr ())"

section \<open>Workspaces (workspaces.go, aggregate.go)\<close>

definition workspaces_ByID :: "DB \<Rightarrow> string \<Rightarrow> store_error + WorkspaceRow" where
  "workspaces_ByID db ident = found (lookup_row (\<lambda>w. ws_ID w = ident) (db_workspaces db))"

text \<open>
  The defaults of a new workspace row: an absent settings blob becomes the empty
  document, generation 0 becomes 1.
\<close>

definition empty_workspace_doc :: workspace_doc where
  "empty_workspace_doc = \<lparr>wd_fetch_policy = None, wd_default_visibility = None, wd_max_visibility = None,
     wd_member_can_deploy = None, wd_max_functions_per_member = None\<rparr>"

definition new_workspace :: "unix \<Rightarrow> string \<Rightarrow> WorkspaceRow \<Rightarrow> WorkspaceRow" where
  "new_workspace now fresh w =
     w\<lparr>ws_ID := assign_id (ws_ID w) fresh,
       ws_Settings := (if ws_Settings w = BlobEmpty then Blob empty_workspace_doc else ws_Settings w),
       ws_SettingsGen := (if ws_SettingsGen w = 0 then 1 else ws_SettingsGen w),
       ws_CreatedAt := now, ws_UpdatedAt := now\<rparr>"

definition workspaces_Create :: "DB \<Rightarrow> unix \<Rightarrow> string \<Rightarrow> WorkspaceRow \<Rightarrow> WorkspaceRow db_result" where
  "workspaces_Create db now fresh w0 =
     (let w = new_workspace now fresh w0 in
      if has_row ws_ID (ws_ID w) (db_workspaces db) then (db, Inl ErrConflict)
      else (db\<lparr>db_workspaces := db_workspaces db @ [w]\<rparr>, Inr w))"

definition workspaces_Update :: "DB \<Rightarrow> unix \<Rightarrow> WorkspaceRow \<Rightarrow> unit db_result" where
  "workspaces_Update db now w =
     (if \<not> has_row ws_ID (ws_ID w) (db_workspaces db) then (db, Inl ErrNotFound)
      else (db\<lparr>db_workspaces := update_rows (\<lambda>r. ws_ID r = ws_ID w)
              (\<lambda>r. w\<lparr>ws_CreatedAt := ws_CreatedAt r, ws_UpdatedAt := now\<rparr>) (db_workspaces db)\<rparr>, Inr ()))"

definition workspaces_Delete :: "DB \<Rightarrow> string \<Rightarrow> unit db_result" where
  "workspaces_Delete db ident =
     (db\<lparr>db_members := delete_rows (\<lambda>m. wm_WorkspaceID m = ident) (db_members db),
         db_workspaces := delete_rows (\<lambda>w. ws_ID w = ident) (db_workspaces db)\<rparr>, Inr ())"

definition is_member :: "string \<Rightarrow> string \<Rightarrow> WorkspaceMember \<Rightarrow> bool" where
  "is_member wsID userID m = (wm_WorkspaceID m = wsID \<and> wm_UserID m = userID)"

definition workspaces_AddMember :: "DB \<Rightarrow> unix \<Rightarrow> WorkspaceMember \<Rightarrow> unit db_result" where
  "workspaces_AddMember db now m0 =
     (let m = m0\<lparr>wm_CreatedAt := now, wm_UpdatedAt := now\<rparr> in
      if list_ex (is_member (wm_WorkspaceID m) (wm_UserID m)) (db_members db)
         \<or> \<not> has_row ws_ID (wm_WorkspaceID m) (db_workspaces db)
         \<or> \<not> has_row u_ID (wm_UserID m) (db_users db) then (db, Inl ErrConflict)
      else (db\<lparr>db_members := db_members db @ [m]\<rparr>, Inr ()))"

definition workspaces_RemoveMember :: "DB \<Rightarrow> string \<Rightarrow> string \<Rightarrow> unit db_result" where
  "workspaces_RemoveMember db wsID userID =
     (if \<not> list_ex (is_member wsID userID) (db_members db) then (db, Inl ErrNotFound)
      else (db\<lparr>db_members := delete_rows (is_member wsID userID) (db_members db)\<rparr>, Inr ()))"

definition workspaces_UpdateMemberRole :: "DB \<Rightarrow> unix \<Rightarrow> string \<Rightarrow> string \<Rightarrow> Role \<Rightarrow> unit db_result" where
  "workspaces_UpdateMemberRole db now wsID userID role =
     (if \<not> list_ex (is_member wsID userID) (db_members db) then (db, Inl ErrNotFound)
      else (db\<lparr>db_members := update_rows (is_member wsID userID)
              (\<lambda>m. m\<lparr>wm_Role := role, wm_UpdatedAt := now\<rparr>) (db_members db)\<rparr>, Inr ()))"

definition workspaces_ListMembers :: "DB \<Rightarrow> string \<Rightarrow> WorkspaceMember list" where
  "workspaces_ListMembers db wsID =
     sort_key wm_CreatedAt (filter (\<lambda>m. wm_WorkspaceID m = wsID) (db_members db))"

definition workspaces_ListForUser :: "DB \<Rightarrow> string \<Rightarrow> WorkspaceRow list" where
  "workspaces_ListForUser db userID =
     sort_key ws_CreatedAt
       (filter (\<lambda>w. list_ex (is_member (ws_ID w) userID) (db_members db)) (db_workspaces db))"

definition workspaces_ListAll :: "DB \<Rightarrow> WorkspaceRow list" where
  "workspaces_ListAll db = sort_key ws_CreatedAt (db_workspaces db)"

definition CreateWorkspace :: "DB \<Rightarrow> unix \<Rightarrow> string \<Rightarrow> WorkspaceRow \<Rightarrow> string \<Rightarrow> WorkspaceRow db_result" where
  "CreateWorkspace db now fresh w0 creatorUserID =
     (let w = new_workspace now fresh w0;
          m = \<lparr>wm_WorkspaceID = ws_ID w, wm_UserID = creatorUserID, wm_Role = RoleAdmin,
               wm_CreatedAt = now, wm_UpdatedAt = now\<rparr> in
      if has_row ws_ID (ws_ID w) (db_workspaces db)
         \<or> list_ex (is_member (ws_ID w) creatorUserID) (db_members db)
         \<or> \<not> has_row u_ID creatorUserID (db_users db) then (db, Inl ErrConflict)
      else (db\<lparr>db_workspaces := db_workspaces db @ [w], db_members := db_members db @ [m]\<rparr>, Inr w))"

section \<open>Functions, versions and environment (functions.go, aggregate.go)\<close>

definition owned_by :: "OwnerType \<Rightarrow> string \<Rightarrow> Function \<Rightarrow> bool" where
  "owned_by ownerType ownerID f = (fn_OwnerType f = ownerType \<and> fn_OwnerID f = ownerID)"

definition functions_CountByOwner :: "DB \<Rightarrow> OwnerType \<Rightarrow> string \<Rightarrow> nat" where
  "functions_CountByOwner db ownerType ownerID = length (filter (owned_by ownerType ownerID) (db_functions db))"

definition functions_CountByWorkspaceAndCreator :: "DB \<Rightarrow> string \<Rightarrow> string \<Rightarrow> nat" where
  "functions_CountByWorkspaceAndCreator db wsID userID =
     length (filter (\<lambda>f. owned_by OwnerTypeWorkspace wsID f \<and> fn_CreatedBy f = Some userID) (db_functions db))"

text \<open>
  \<open>functionLimitScopeCond\<close>: which existing rows count against the quota of a new
  function. A comparison with a NULL creator is never true in SQL.
\<close>

definition functionLimitScopeCond :: "Function \<Rightarrow> Function \<Rightarrow> bool" where
  "functionLimitScopeCond f r =
     (if fn_OwnerType f = OwnerTypeWorkspace
      then owned_by (fn_OwnerType f) (fn_OwnerID f) r \<and> fn_CreatedBy f \<noteq> None \<and> fn_CreatedBy r = fn_CreatedBy f
      else owned_by (fn_OwnerType f) (fn_OwnerID f) r)"

definition function_conflict :: "DB \<Rightarrow> Function \<Rightarrow> bool" where
  "function_conflict db f =
     (list_ex (\<lambda>r. fn_ID r = fn_ID f \<or> owned_by (fn_OwnerType f) (fn_OwnerID f) r \<and> fn_Name r = fn_Name f)
        (db_functions db)
      \<or> (case fn_CreatedBy f of None \<Rightarrow> False | Some u \<Rightarrow> \<not> has_row u_ID u (db_users db)))"

definition functions_create :: "DB \<Rightarrow> unix \<Rightarrow> string \<Rightarrow> Function \<Rightarrow> int \<Rightarrow> Function db_result" where
  "functions_create db now fresh f0 limit =
     (let f = f0\<lparr>fn_ID := assign_id (fn_ID f0) fresh, fn_CreatedAt := now, fn_UpdatedAt := now\<rparr>;
          c = \<lparr>nc_Name = fn_Name f, nc_FunctionID = fn_ID f, nc_Active = True, nc_ClaimedAt = now,
               nc_ReleasedAt = None\<rparr> in
      if limit > 0 \<and> \<not> int (length (filter (functionLimitScopeCond f) (db_functions db))) < limit
        then (db, Inl ErrFunctionLimitReached)
      else if function_conflict db f then (db, Inl ErrConflict)
      else if list_ex (\<lambda>r. nc_Name r = nc_Name c \<or> nc_FunctionID r = nc_FunctionID c) (db_names db)
        then (db, Inl ErrConflict)
      else (db\<lparr>db_functions := db_functions db @ [f], db_names := db_names db @ [c]\<rparr>, Inr f))"

definition functions_Create :: "DB \<Rightarrow> unix \<Rightarrow> string \<Rightarrow> Function \<Rightarrow> Function db_result" where
  "functions_Create db now fresh f = functions_create db now fresh f 0"

definition functions_CreateWithinLimit ::
  "DB \<Rightarrow> unix \<Rightarrow> string \<Rightarrow> Function \<Rightarrow> int \<Rightarrow> Function db_result" where
  "functions_CreateWithinLimit db now fresh f limit = functions_create db now fresh f limit"

definition functions_ByID :: "DB \<Rightarrow> string \<Rightarrow> store_error + Function" where
  "functions_ByID db ident = found (lookup_row (\<lambda>f. fn_ID f = ident) (db_functions db))"

definition functions_ByName :: "DB \<Rightarrow> string \<Rightarrow> store_error + Function" where
  "functions_ByName db name =
     (case lookup_row (\<lambda>n. nc_Name n = name \<and> nc_Active n
             \<and> has_row fn_ID (nc_FunctionID n) (db_functions db)) (db_names db) of
        None \<Rightarrow> Inl ErrNotFound
      | Some n \<Rightarrow> functions_ByID db (nc_FunctionID n))"

definition functions_ByOwnerAndName :: "DB \<Rightarrow> OwnerType \<Rightarrow> string \<Rightarrow> string \<Rightarrow> store_error + Function" where
  "functions_ByOwnerAndName db ownerType ownerID name =
     found (lookup_row (\<lambda>f. owned_by ownerType ownerID f \<and> fn_Name f = name) (db_functions db))"

definition functions_ListByOwner :: "DB \<Rightarrow> OwnerType \<Rightarrow> string \<Rightarrow> Function list" where
  "functions_ListByOwner db ownerType ownerID =
     sort_key fn_CreatedAt (filter (owned_by ownerType ownerID) (db_functions db))"

definition functions_ListVisibleTo :: "DB \<Rightarrow> string \<Rightarrow> Function list" where
  "functions_ListVisibleTo db userID =
     sort_key fn_CreatedAt (filter (\<lambda>f. owned_by OwnerTypeUser userID f
        \<or> fn_OwnerType f = OwnerTypeWorkspace \<and> list_ex (is_member (fn_OwnerID f) userID) (db_members db))
       (db_functions db))"

definition functions_ListAll :: "DB \<Rightarrow> Function list" where
  "functions_ListAll db = sort_key fn_CreatedAt (db_functions db)"

definition functions_Update :: "DB \<Rightarrow> unix \<Rightarrow> Function \<Rightarrow> unit db_result" where
  "functions_Update db now f =
     (case functions_ByID db (fn_ID f) of
        Inl e \<Rightarrow> (db, Inl e)
      | Inr existing \<Rightarrow>
          if fn_Name existing \<noteq> fn_Name f then (db, Inl ErrConflict)
          else (db\<lparr>db_functions := update_rows (\<lambda>r. fn_ID r = fn_ID f)
                 (\<lambda>r. r\<lparr>fn_Name := fn_Name f, fn_Description := fn_Description f,
                    fn_ActiveVersionID := fn_ActiveVersionID f, fn_UpdatedAt := now\<rparr>) (db_functions db)\<rparr>, Inr ()))"

text \<open>Deleting a function tombstones its name claim; invoke auth codes go by ON DELETE CASCADE.\<close>

definition functions_Delete :: "DB \<Rightarrow> unix \<Rightarrow> string \<Rightarrow> unit db_result" where
  "functions_Delete db now ident =
     (db\<lparr>db_names := update_rows (\<lambda>n. nc_FunctionID n = ident \<and> nc_Active n)
            (\<lambda>n. n\<lparr>nc_Active := False, nc_ReleasedAt := Some now\<rparr>) (db_names db),
         db_env := delete_rows (\<lambda>e. ev_FunctionID e = ident) (db_env db),
         db_invocation_logs := delete_rows (\<lambda>l. il_FunctionID l = ident) (db_invocation_logs db),
         db_versions := delete_rows (\<lambda>v. fv_FunctionID v = ident) (db_versions db),
         db_functions := delete_rows (\<lambda>f. fn_ID f = ident) (db_functions db),
         db_invoke_codes := delete_rows (\<lambda>c. iac_FunctionID c = ident) (db_invoke_codes db)\<rparr>, Inr ())"

definition functions_CreateVersion :: "DB \<Rightarrow> unix \<Rightarrow> string \<Rightarrow> FunctionVersion \<Rightarrow> FunctionVersion db_result" where
  "functions_CreateVersion db now fresh v0 =
     (let v = v0\<lparr>fv_ID := assign_id (fv_ID v0) fresh, fv_CreatedAt := now, fv_UpdatedAt := now\<rparr> in
      if has_row fv_ID (fv_ID v) (db_versions db) \<or> \<not> has_row fn_ID (fv_FunctionID v) (db_functions db)
         \<or> \<not> has_row u_ID (fv_CreatedBy v) (db_users db) then (db, Inl ErrConflict)
      else (db\<lparr>db_versions := db_versions db @ [v]\<rparr>, Inr v))"

definition functions_Version :: "DB \<Rightarrow> string \<Rightarrow> store_error + FunctionVersion" where
  "functions_Version db ident = found (lookup_row (\<lambda>v. fv_ID v = ident) (db_versions db))"

definition functions_ListVersions :: "DB \<Rightarrow> string \<Rightarrow> int \<Rightarrow> FunctionVersion list" where
  "functions_ListVersions db funcID limit =
     (let rows = rev (sort_key fv_CreatedAt (sort_key fv_ID (filter (\<lambda>v. fv_FunctionID v = funcID) (db_versions db)))) in
      if limit > 0 then take (nat limit) rows else rows)"

definition functions_SetEnv :: "DB \<Rightarrow> unix \<Rightarrow> string \<Rightarrow> string \<Rightarrow> bytes \<Rightarrow> unit db_result" where
  "functions_SetEnv db now funcID key valueEnc =
     (if list_ex (\<lambda>e. ev_FunctionID e = funcID \<and> ev_Key e = key) (db_env db)
      then (db\<lparr>db_env := update_rows (\<lambda>e. ev_FunctionID e = funcID \<and> ev_Key e = key)
              (\<lambda>e. e\<lparr>ev_ValueEnc := valueEnc, ev_UpdatedAt := now\<rparr>) (db_env db)\<rparr>, Inr ())
      else if \<not> has_row fn_ID funcID (db_functions db) then (db, Inl ErrConflict)
      else (db\<lparr>db_env := db_env db @ [\<lparr>ev_FunctionID = funcID, ev_Key = key, ev_ValueEnc = valueEnc,
              ev_CreatedAt = now, ev_UpdatedAt = now\<rparr>]\<rparr>, Inr ()))"

definition functions_DeleteEnv :: "DB \<Rightarrow> string \<Rightarrow> string \<Rightarrow> unit db_result" where
  "functions_DeleteEnv db funcID key =
     (db\<lparr>db_env := delete_rows (\<lambda>e. ev_FunctionID e = funcID \<and> ev_Key e = key) (db_env db)\<rparr>, Inr ())"

definition functions_ListEnv :: "DB \<Rightarrow> string \<Rightarrow> (string \<times> bytes) list" where
  "functions_ListEnv db funcID =
     map (\<lambda>e. (ev_Key e, ev_ValueEnc e)) (filter (\<lambda>e. ev_FunctionID e = funcID) (db_env db))"

definition ActivateVersion :: "DB \<Rightarrow> unix \<Rightarrow> string \<Rightarrow> string \<Rightarrow> unit db_result" where
  "ActivateVersion db now funcID versionID =
     (case lookup_row (\<lambda>v. fv_ID v = versionID) (db_versions db) of
        None \<Rightarrow> (db, Inl ErrNotFound)
      | Some v \<Rightarrow>
          if fv_FunctionID v \<noteq> funcID then (db, Inl ErrNotFound)
          else if \<not> has_row fn_ID funcID (db_functions db) then (db, Inl ErrNotFound)
          else (db\<lparr>db_functions := update_rows (\<lambda>f. fn_ID f = funcID)
                 (\<lambda>f. f\<lparr>fn_ActiveVersionID := Some versionID, fn_UpdatedAt := now\<rparr>) (db_functions db)\<rparr>, Inr ()))"

section \<open>The database invariant\<close>

definition users_ok :: "DB \<Rightarrow> bool" where
  "users_ok db = (unique_on u_ID (db_users db) \<and> unique_on u_Email (db_users db)
     \<and> unique_on (\<lambda>u. (u_Provider u, u_ProviderSubject u)) (db_users db)
     \<and> unique_on pu_UserID (db_handles db) \<and> unique_on pu_InternalUserID (db_handles db))"

definition workspaces_ok :: "DB \<Rightarrow> bool" where
  "workspaces_ok db = (unique_on ws_ID (db_workspaces db)
     \<and> unique_on (\<lambda>m. (wm_WorkspaceID m, wm_UserID m)) (db_members db)
     \<and> refs wm_WorkspaceID (db_members db) ws_ID (db_workspaces db)
     \<and> refs wm_UserID (db_members db) u_ID (db_users db))"

text \<open>
  Name claims: every function holds the active claim of its name, every active claim
  belongs to a function of that name, and tombstoned claims keep their row.
\<close>

definition claims_ok :: "Function list \<Rightarrow> NameClaim list \<Rightarrow> bool" where
  "claims_ok fs ns = (unique_on nc_Name ns \<and> unique_on nc_FunctionID ns
     \<and> (\<forall>f \<in> set fs. \<exists>n \<in> set ns. nc_Active n \<and> nc_FunctionID n = fn_ID f \<and> nc_Name n = fn_Name f)
     \<and> (\<forall>n \<in> set ns. nc_Active n \<longrightarrow> (\<exists>f \<in> set fs. fn_ID f = nc_FunctionID n \<and> fn_Name f = nc_Name n)))"

definition functions_ok :: "DB \<Rightarrow> bool" where
  "functions_ok db = (unique_on fn_ID (db_functions db)
     \<and> unique_on (\<lambda>f. (fn_OwnerType f, fn_OwnerID f, fn_Name f)) (db_functions db)
     \<and> (\<forall>f \<in> set (db_functions db). \<forall>u. fn_CreatedBy f = Some u \<longrightarrow> has_row u_ID u (db_users db))
     \<and> claims_ok (db_functions db) (db_names db)
     \<and> unique_on fv_ID (db_versions db)
     \<and> refs fv_FunctionID (db_versions db) fn_ID (db_functions db)
     \<and> refs fv_CreatedBy (db_versions db) u_ID (db_users db)
     \<and> unique_on (\<lambda>e. (ev_FunctionID e, ev_Key e)) (db_env db)
     \<and> refs ev_FunctionID (db_env db) fn_ID (db_functions db))"

definition credentials_ok :: "DB \<Rightarrow> bool" where
  "credentials_ok db = (unique_on se_ID (db_sessions db) \<and> refs se_UserID (db_sessions db) u_ID (db_users db)
     \<and> unique_on cac_ID (db_cli_codes db) \<and> refs cac_UserID (db_cli_codes db) u_ID (db_users db)
     \<and> unique_on iac_ID (db_invoke_codes db) \<and> refs iac_UserID (db_invoke_codes db) u_ID (db_users db)
     \<and> refs iac_FunctionID (db_invoke_codes db) fn_ID (db_functions db)
     \<and> unique_on cc_ID (db_cli_creds db) \<and> unique_on cc_SecretHash (db_cli_creds db)
     \<and> refs cc_UserID (db_cli_creds db) u_ID (db_users db))"

definition oauth_ok :: "DB \<Rightarrow> bool" where
  "oauth_ok db = (unique_on oc_ID (db_oauth_clients db)
     \<and> unique_on oac_ID (db_oauth_codes db) \<and> refs oac_UserID (db_oauth_codes db) u_ID (db_users db)
     \<and> refs oac_ClientID (db_oauth_codes db) oc_ID (db_oauth_clients db)
     \<and> unique_on og_ID (db_oauth_grants db) \<and> unique_on og_SecretHash (db_oauth_grants db)
     \<and> refs og_UserID (db_oauth_grants db) u_ID (db_users db)
     \<and> refs og_ClientID (db_oauth_grants db) oc_ID (db_oauth_clients db))"

definition logs_ok :: "DB \<Rightarrow> bool" where
  "logs_ok db = (unique_on al_ID (db_audit db) \<and> unique_on il_ID (db_invocation_logs db)
     \<and> refs il_FunctionID (db_invocation_logs db) fn_ID (db_functions db))"

definition db_ok :: "DB \<Rightarrow> bool" where
  "db_ok db = (users_ok db \<and> workspaces_ok db \<and> functions_ok db \<and> credentials_ok db \<and> oauth_ok db \<and> logs_ok db)"

lemmas db_ok_defs = db_ok_def users_ok_def workspaces_ok_def functions_ok_def credentials_ok_def oauth_ok_def
  logs_ok_def

lemma empty_db_ok: "db_ok empty_db"
  by (simp add: db_ok_defs empty_db_def claims_ok_def)

lemma has_row_iff: "has_row key k rows \<longleftrightarrow> (\<exists>r \<in> set rows. key r = k)"
  by (auto simp: has_row_def)

lemma has_row_snoc [simp]: "has_row key k (rows @ [r]) \<longleftrightarrow> has_row key k rows \<or> key r = k"
  by (auto simp: has_row_def)

lemma found_Inr [simp]: "found r = Inr x \<longleftrightarrow> r = Some x" "found r = Inl e \<longleftrightarrow> r = None \<and> e = ErrNotFound"
  by (auto simp: found_def split: option.splits)

lemma user_conflict_iff:
  "\<not> user_conflict rows u \<longleftrightarrow> u_ID u \<notin> u_ID ` set rows \<and> u_Email u \<notin> u_Email ` set rows
     \<and> (u_Provider u, u_ProviderSubject u) \<notin> (\<lambda>u. (u_Provider u, u_ProviderSubject u)) ` set rows"
  by (auto simp: user_conflict_def image_iff)

lemma has_row_update:
  "(\<And>r. r \<in> set rows \<Longrightarrow> key (f r) = key r) \<Longrightarrow> has_row key k (update_rows p f rows) = has_row key k rows"
  by (auto simp: has_row_iff)

subsection \<open>Preservation: users, organization, handles, workspaces\<close>

lemma users_Create_ok: "db_ok db \<Longrightarrow> db_ok (fst (users_Create db now fresh u))"
  by (auto simp: users_Create_def Let_def db_ok_defs user_conflict_iff table_simps)

lemma users_Update_ok:
  assumes ok: "db_ok db"
  shows "db_ok (fst (users_Update db now u))"
proof (cases "lookup_row (\<lambda>r. u_ID r = u_ID u) (db_users db)")
  case None
  then show ?thesis using ok by (simp add: users_Update_def)
next
  case (Some old)
  define u' where "u' = u\<lparr>u_CreatedAt := u_CreatedAt old, u_UpdatedAt := now\<rparr>"
  show ?thesis
  proof (cases "user_conflict (filter (\<lambda>r. u_ID r \<noteq> u_ID u) (db_users db)) u'")
    case True
    then show ?thesis using ok Some by (simp add: users_Update_def Let_def u'_def)
  next
    case False
    let ?rows = "update_rows (\<lambda>r. u_ID r = u_ID u) (\<lambda>_. u') (db_users db)"
    have res: "fst (users_Update db now u) = db\<lparr>db_users := ?rows\<rparr>"
      using Some False by (simp add: users_Update_def Let_def u'_def)
    have id': "u_ID u' = u_ID u" by (simp add: u'_def)
    have keys: "map u_ID ?rows = map u_ID (db_users db)" using id' by (simp add: update_rows_def)
    have ids: "u_ID ` set ?rows = u_ID ` set (db_users db)"
      using keys by (metis list.set_map)
    have rf: "refs fk rows u_ID ?rows = refs fk rows u_ID (db_users db)" for fk :: "'x \<Rightarrow> string" and rows
      using ids by (simp add: refs_def)
    have hr: "has_row u_ID k ?rows = has_row u_ID k (db_users db)" for k
      using ids by (simp add: has_row_def)
    have uid: "unique_on u_ID (db_users db)" using ok by (simp add: db_ok_defs)
    have "unique_on u_ID ?rows" using uid keys unique_on_same_keys by metis
    moreover have "unique_on u_Email ?rows"
      using ok False by (intro unique_on_replace [OF uid]) (auto simp: db_ok_defs user_conflict_def)
    moreover have "unique_on (\<lambda>u. (u_Provider u, u_ProviderSubject u)) ?rows"
      using ok False by (intro unique_on_replace [OF uid]) (auto simp: db_ok_defs user_conflict_def)
    ultimately show ?thesis
      unfolding res using ok by (simp add: db_ok_defs rf hr)
  qed
qed

lemma org_Update_ok: "db_ok db \<Longrightarrow> db_ok (fst (org_Update db now new))"
  by (auto simp: org_Update_def Let_def db_ok_defs split: option.splits)

lemma org_ReplaceLoginRules_ok: "db_ok db \<Longrightarrow> db_ok (fst (org_ReplaceLoginRules db fresh rs))"
  by (auto simp: org_ReplaceLoginRules_def db_ok_defs split: sum.splits)

lemma BootstrapFirstUser_ok: "db_ok db \<Longrightarrow> db_ok (fst (BootstrapFirstUser db now fresh u name))"
  by (auto simp: BootstrapFirstUser_def Let_def db_ok_defs refs_def has_row_def unique_on_def
      split: option.splits)

lemma handles_Create_ok: "db_ok db \<Longrightarrow> db_ok (fst (handles_Create db now h))"
  by (auto simp: handles_Create_def Let_def db_ok_defs has_row_def table_simps)

lemma handles_Rename_ok:
  assumes ok: "db_ok db"
  shows "db_ok (fst (handles_Rename db now a b))"
proof -
  have uid: "unique_on pu_UserID (db_handles db)" using ok by (simp add: db_ok_defs)
  have ui: "unique_on pu_InternalUserID (db_handles db)" using ok by (simp add: db_ok_defs)
  let ?f = "\<lambda>h. h\<lparr>pu_UserID := b, pu_UpdatedAt := now\<rparr>"
  have "unique_on pu_UserID (update_rows (\<lambda>h. pu_UserID h = a) ?f (db_handles db))"
    if "b = a \<or> \<not> has_row pu_UserID b (db_handles db)"
  proof -
    have "map pu_UserID (update_rows (\<lambda>h. pu_UserID h = a) ?f (db_handles db))
        = map (\<lambda>k. if k = a then b else k) (map pu_UserID (db_handles db))"
      by (simp add: update_rows_def)
    moreover have "inj_on (\<lambda>k. if k = a then b else k) (set (map pu_UserID (db_handles db)))"
      using that by (auto simp: inj_on_def has_row_def)
    ultimately show ?thesis using uid by (simp add: unique_on_def distinct_map comp_inj_on)
  qed
  moreover have "unique_on pu_InternalUserID (update_rows (\<lambda>h. pu_UserID h = a) ?f (db_handles db))"
    using ui by (rule unique_on_update [rotated]) simp
  ultimately show ?thesis using ok by (auto simp: handles_Rename_def db_ok_defs)
qed

lemma handles_Delete_ok: "db_ok db \<Longrightarrow> db_ok (fst (handles_Delete db h))"
  by (simp add: handles_Delete_def db_ok_defs unique_on_delete)

lemma ws_ID_new [simp]: "ws_ID (new_workspace now fresh w) = assign_id (ws_ID w) fresh"
  by (simp add: new_workspace_def)

lemma workspaces_Create_ok: "db_ok db \<Longrightarrow> db_ok (fst (workspaces_Create db now fresh w))"
  by (auto simp: workspaces_Create_def Let_def db_ok_defs has_row_def unique_on_snoc refs_target_snoc)

lemma workspaces_Update_ok: "db_ok db \<Longrightarrow> db_ok (fst (workspaces_Update db now w))"
proof -
  assume ok: "db_ok db"
  let ?f = "\<lambda>r. w\<lparr>ws_CreatedAt := ws_CreatedAt r, ws_UpdatedAt := now\<rparr>"
  have "map ws_ID (update_rows (\<lambda>r. ws_ID r = ws_ID w) ?f (db_workspaces db)) = map ws_ID (db_workspaces db)"
    by (simp add: update_rows_def)
  then have k: "unique_on ws_ID (update_rows (\<lambda>r. ws_ID r = ws_ID w) ?f (db_workspaces db))
        = unique_on ws_ID (db_workspaces db)"
    and "ws_ID ` set (update_rows (\<lambda>r. ws_ID r = ws_ID w) ?f (db_workspaces db)) = ws_ID ` set (db_workspaces db)"
    by (rule unique_on_same_keys, metis list.set_map)
  with ok show ?thesis by (simp add: workspaces_Update_def db_ok_defs refs_def)
qed

lemma workspaces_Delete_ok: "db_ok db \<Longrightarrow> db_ok (fst (workspaces_Delete db i))"
  by (auto simp: workspaces_Delete_def db_ok_defs unique_on_delete refs_delete intro!: refs_target_delete)

lemma workspaces_AddMember_ok: "db_ok db \<Longrightarrow> db_ok (fst (workspaces_AddMember db now m))"
  by (auto simp: workspaces_AddMember_def Let_def db_ok_defs has_row_def unique_on_snoc refs_snoc
      is_member_def list_ex_iff)

lemma workspaces_RemoveMember_ok: "db_ok db \<Longrightarrow> db_ok (fst (workspaces_RemoveMember db w u))"
  by (auto simp: workspaces_RemoveMember_def db_ok_defs unique_on_delete refs_delete)

lemma workspaces_UpdateMemberRole_ok: "db_ok db \<Longrightarrow> db_ok (fst (workspaces_UpdateMemberRole db now w u r))"
  by (auto simp: workspaces_UpdateMemberRole_def db_ok_defs intro!: unique_on_update refs_update)

lemma CreateWorkspace_ok: "db_ok db \<Longrightarrow> db_ok (fst (CreateWorkspace db now fresh w u))"
  by (auto simp: CreateWorkspace_def Let_def db_ok_defs has_row_def unique_on_snoc refs_snoc
      refs_target_snoc is_member_def list_ex_iff)

subsection \<open>Preservation: functions\<close>

lemma claims_ok_create:
  assumes "claims_ok fs ns" "fn_ID f = nc_FunctionID c" "fn_Name f = nc_Name c" "nc_Active c"
    and "\<not> list_ex (\<lambda>r. nc_Name r = nc_Name c \<or> nc_FunctionID r = nc_FunctionID c) ns"
  shows "claims_ok (fs @ [f]) (ns @ [c])"
  using assms by (auto simp: claims_ok_def unique_on_snoc list_ex_iff)

lemma functions_create_ok: "db_ok db \<Longrightarrow> db_ok (fst (functions_create db now fresh f limit))"
  by (auto simp: functions_create_def Let_def db_ok_defs unique_on_snoc refs_target_snoc function_conflict_def
      list_ex_iff owned_by_def intro!: claims_ok_create split: option.splits)

lemma claims_ok_same_names:
  assumes "claims_ok fs ns" "map (\<lambda>f. (fn_ID f, fn_Name f)) fs' = map (\<lambda>f. (fn_ID f, fn_Name f)) fs"
  shows "claims_ok fs' ns"
proof -
  let ?p = "\<lambda>f. (fn_ID f, fn_Name f)"
  from assms(2) have same: "?p ` set fs' = ?p ` set fs" by (metis list.set_map)
  have ex: "(\<exists>f \<in> set xs. fn_ID f = i \<and> fn_Name f = n) \<longleftrightarrow> (i, n) \<in> ?p ` set xs" for xs i n by force
  have all: "(\<forall>f \<in> set xs. Q (fn_ID f) (fn_Name f)) \<longleftrightarrow> (\<forall>(i, n) \<in> ?p ` set xs. Q i n)" for xs Q by simp
  show ?thesis
    using assms(1) same unfolding claims_ok_def ex
    by (subst all, subst (asm) all) simp
qed

text \<open>Updates that keep a function's identity, owner, name and creator keep the invariant.\<close>

lemma update_functions_ok:
  assumes ok: "db_ok db"
    and g: "\<And>f. f \<in> set (db_functions db) \<Longrightarrow> fn_ID (g f) = fn_ID f \<and> fn_OwnerType (g f) = fn_OwnerType f
        \<and> fn_OwnerID (g f) = fn_OwnerID f \<and> fn_Name (g f) = fn_Name f \<and> fn_CreatedBy (g f) = fn_CreatedBy f"
  shows "db_ok (db\<lparr>db_functions := update_rows p g (db_functions db)\<rparr>)"
proof -
  let ?fs = "update_rows p g (db_functions db)"
  have cl: "claims_ok ?fs (db_names db)"
  proof (rule claims_ok_same_names)
    show "claims_ok (db_functions db) (db_names db)" using ok by (simp add: db_ok_defs)
    show "map (\<lambda>f. (fn_ID f, fn_Name f)) ?fs = map (\<lambda>f. (fn_ID f, fn_Name f)) (db_functions db)"
      using g by (simp add: update_rows_def)
  qed
  have u1: "unique_on fn_ID ?fs"
    using ok g by (intro unique_on_update) (auto simp: db_ok_defs)
  have u2: "unique_on (\<lambda>f. (fn_OwnerType f, fn_OwnerID f, fn_Name f)) ?fs"
    using ok g by (intro unique_on_update) (auto simp: db_ok_defs)
  have cb: "\<forall>f \<in> set ?fs. \<forall>u. fn_CreatedBy f = Some u \<longrightarrow> has_row u_ID u (db_users db)"
    using ok g by (auto simp: db_ok_defs)
  have rf: "refs fk rows fn_ID (db_functions db) \<Longrightarrow> refs fk rows fn_ID ?fs" for fk :: "'x \<Rightarrow> string" and rows
    using g by (intro refs_target_update) auto
  show ?thesis using ok cl u1 u2 cb by (simp add: db_ok_defs rf)
qed

lemma functions_Update_ok: "db_ok db \<Longrightarrow> db_ok (fst (functions_Update db now f))"
proof -
  assume ok: "db_ok db"
  have uid: "unique_on fn_ID (db_functions db)" using ok by (simp add: db_ok_defs)
  show ?thesis
  proof (cases "functions_ByID db (fn_ID f)")
    case (Inl e)
    then show ?thesis using ok by (simp add: functions_Update_def)
  next
    case (Inr ex)
    then have ex: "ex \<in> set (db_functions db)" "fn_ID ex = fn_ID f"
      by (auto simp: functions_ByID_def dest: lookup_row_Some)
    let ?g = "\<lambda>r. if fn_ID r = fn_ID f then r\<lparr>fn_Name := fn_Name f, fn_Description := fn_Description f,
        fn_ActiveVersionID := fn_ActiveVersionID f, fn_UpdatedAt := now\<rparr> else r"
    have same: "update_rows (\<lambda>r. fn_ID r = fn_ID f) (\<lambda>r. r\<lparr>fn_Name := fn_Name f, fn_Description := fn_Description f,
        fn_ActiveVersionID := fn_ActiveVersionID f, fn_UpdatedAt := now\<rparr>) (db_functions db)
      = update_rows (\<lambda>r. fn_ID r = fn_ID f) ?g (db_functions db)"
      by (auto simp: update_rows_def)
    have "fn_Name r = fn_Name ex" if "r \<in> set (db_functions db)" "fn_ID r = fn_ID f" for r
      using unique_on_inj [OF uid that(1) ex(1)] that(2) ex(2) by simp
    then have "db_ok (db\<lparr>db_functions := update_rows (\<lambda>r. fn_ID r = fn_ID f) ?g (db_functions db)\<rparr>)"
      if "fn_Name ex = fn_Name f" using that by (intro update_functions_ok [OF ok]) auto
    then show ?thesis using ok Inr by (simp add: functions_Update_def same)
  qed
qed

lemma ActivateVersion_ok: "db_ok db \<Longrightarrow> db_ok (fst (ActivateVersion db now i v))"
  by (auto simp: ActivateVersion_def split: option.splits intro: update_functions_ok)

lemma claims_ok_delete:
  assumes "claims_ok fs ns"
  shows "claims_ok (delete_rows (\<lambda>f. fn_ID f = i) fs)
     (update_rows (\<lambda>n. nc_FunctionID n = i \<and> nc_Active n) (\<lambda>n. n\<lparr>nc_Active := False, nc_ReleasedAt := Some now\<rparr>) ns)"
    (is "claims_ok ?fs ?ns")
proof -
  have "unique_on nc_Name ?ns" "unique_on nc_FunctionID ?ns"
    using assms by (auto simp: claims_ok_def intro!: unique_on_update)
  moreover have "\<exists>n \<in> set ?ns. nc_Active n \<and> nc_FunctionID n = fn_ID f \<and> nc_Name n = fn_Name f" if f: "f \<in> set ?fs" for f
  proof -
    from f assms obtain n where "n \<in> set ns" "nc_Active n" "nc_FunctionID n = fn_ID f" "nc_Name n = fn_Name f"
      by (auto simp: claims_ok_def)
    with f show ?thesis by force
  qed
  moreover have "\<exists>f \<in> set ?fs. fn_ID f = nc_FunctionID n \<and> fn_Name f = nc_Name n"
    if n: "n \<in> set ?ns" "nc_Active n" for n
  proof -
    from n(1) obtain r where r: "r \<in> set ns"
      "n = (if nc_FunctionID r = i \<and> nc_Active r then r\<lparr>nc_Active := False, nc_ReleasedAt := Some now\<rparr> else r)"
      unfolding set_update_rows by blast
    with n(2) have m: "n \<in> set ns" "nc_FunctionID n \<noteq> i" by (cases "nc_FunctionID r = i \<and> nc_Active r"; simp)+
    with n(2) assms obtain f where "f \<in> set fs" "fn_ID f = nc_FunctionID n" "fn_Name f = nc_Name n"
      unfolding claims_ok_def by blast
    with m show ?thesis by (intro bexI [of _ f]) auto
  qed
  ultimately show ?thesis unfolding claims_ok_def by blast
qed

lemma functions_Delete_ok: "db_ok db \<Longrightarrow> db_ok (fst (functions_Delete db now i))"
  by (simp add: functions_Delete_def db_ok_defs unique_on_delete refs_delete claims_ok_delete refs_delete_both)
    blast

lemma functions_CreateVersion_ok: "db_ok db \<Longrightarrow> db_ok (fst (functions_CreateVersion db now fresh v))"
  by (auto simp: functions_CreateVersion_def Let_def db_ok_defs has_row_def unique_on_snoc refs_snoc)

lemma functions_SetEnv_ok: "db_ok db \<Longrightarrow> db_ok (fst (functions_SetEnv db now i k v))"
  by (auto simp: functions_SetEnv_def db_ok_defs has_row_def unique_on_snoc refs_snoc list_ex_iff
      intro!: unique_on_update refs_update)

lemma functions_DeleteEnv_ok: "db_ok db \<Longrightarrow> db_ok (fst (functions_DeleteEnv db i k))"
  by (simp add: functions_DeleteEnv_def db_ok_defs unique_on_delete refs_delete)

end
