(* ===== verification/StoreAuth.thy ===== *)
theory StoreAuth
  imports Store
begin

text \<open>
  The credential and log repositories of sqlcommon: sessions, one-time codes (CLI,
  invoke, OAuth), CLI credentials, OAuth clients and grants, the audit log and the
  invocation logs. The single-use contract of the three code repositories and the
  keyset pagination of the two logs are stated once, as locales, and interpreted on
  the repositories.
\<close>

section \<open>Sessions (sessions.go)\<close>

definition sessions_Create :: "DB \<Rightarrow> unix \<Rightarrow> string \<Rightarrow> Session \<Rightarrow> Session db_result" where
  "sessions_Create db now fresh s0 =
     (let s = s0\<lparr>se_ID := assign_id (se_ID s0) fresh, se_CreatedAt := now, se_UpdatedAt := now\<rparr> in
      if has_row se_ID (se_ID s) (db_sessions db) \<or> \<not> has_row u_ID (se_UserID s) (db_users db)
      then (db, Inl ErrConflict)
      else (db\<lparr>db_sessions := db_sessions db @ [s]\<rparr>, Inr s))"

definition sessions_Refresh :: "DB \<Rightarrow> unix \<Rightarrow> string \<Rightarrow> unix \<Rightarrow> unit db_result" where
  "sessions_Refresh db now ident newExpiresAt =
     (if \<not> has_row se_ID ident (db_sessions db) then (db, Inl ErrNotFound)
      else (db\<lparr>db_sessions := update_rows (\<lambda>s. se_ID s = ident)
              (\<lambda>s. s\<lparr>se_ExpiresAt := newExpiresAt, se_UpdatedAt := now\<rparr>) (db_sessions db)\<rparr>, Inr ()))"

definition sessions_Get :: "DB \<Rightarrow> string \<Rightarrow> unix \<Rightarrow> store_error + Session" where
  "sessions_Get db ident now = found (lookup_row (\<lambda>s. se_ID s = ident \<and> se_ExpiresAt s > now) (db_sessions db))"

definition sessions_Delete :: "DB \<Rightarrow> string \<Rightarrow> unit db_result" where
  "sessions_Delete db ident = (db\<lparr>db_sessions := delete_rows (\<lambda>s. se_ID s = ident) (db_sessions db)\<rparr>, Inr ())"

definition sessions_DeleteExpired :: "DB \<Rightarrow> unix \<Rightarrow> nat db_result" where
  "sessions_DeleteExpired db now =
     (db\<lparr>db_sessions := delete_rows (\<lambda>s. se_ExpiresAt s \<le> now) (db_sessions db)\<rparr>,
      Inr (length (filter (\<lambda>s. se_ExpiresAt s \<le> now) (db_sessions db))))"

section \<open>One-time codes (cliauthcodes.go, invokeauthcodes.go, oauthauthcodes.go)\<close>

text \<open>
  \<open>Create\<close> first deletes expired codes, outside any transaction, so that cleanup
  stays even when the insert fails.
\<close>

definition cliAuthCodes_Create :: "DB \<Rightarrow> unix \<Rightarrow> CLIAuthCode \<Rightarrow> CLIAuthCode db_result" where
  "cliAuthCodes_Create db now c0 =
     (let c = c0\<lparr>cac_CreatedAt := now\<rparr>;
          db1 = db\<lparr>db_cli_codes := delete_rows (\<lambda>r. cac_ExpiresAt r \<le> now) (db_cli_codes db)\<rparr> in
      if has_row cac_ID (cac_ID c) (db_cli_codes db1) \<or> \<not> has_row u_ID (cac_UserID c) (db_users db)
      then (db1, Inl ErrConflict)
      else (db1\<lparr>db_cli_codes := db_cli_codes db1 @ [c]\<rparr>, Inr c))"

definition cli_code_live :: "string \<Rightarrow> unix \<Rightarrow> CLIAuthCode \<Rightarrow> bool" where
  "cli_code_live ident now c = (cac_ID c = ident \<and> cac_ExpiresAt c > now)"

definition cliAuthCodes_Consume :: "DB \<Rightarrow> string \<Rightarrow> unix \<Rightarrow> CLIAuthCode db_result" where
  "cliAuthCodes_Consume db ident now =
     (db\<lparr>db_cli_codes := delete_rows (cli_code_live ident now) (db_cli_codes db)\<rparr>,
      found (lookup_row (cli_code_live ident now) (db_cli_codes db)))"

definition cliAuthCodes_DeleteExpired :: "DB \<Rightarrow> unix \<Rightarrow> nat db_result" where
  "cliAuthCodes_DeleteExpired db now =
     (db\<lparr>db_cli_codes := delete_rows (\<lambda>c. cac_ExpiresAt c \<le> now) (db_cli_codes db)\<rparr>,
      Inr (length (filter (\<lambda>c. cac_ExpiresAt c \<le> now) (db_cli_codes db))))"

definition invokeAuthCodes_Create :: "DB \<Rightarrow> unix \<Rightarrow> InvokeAuthCode \<Rightarrow> InvokeAuthCode db_result" where
  "invokeAuthCodes_Create db now c0 =
     (let c = c0\<lparr>iac_CreatedAt := now\<rparr>;
          db1 = db\<lparr>db_invoke_codes := delete_rows (\<lambda>r. iac_ExpiresAt r \<le> now) (db_invoke_codes db)\<rparr> in
      if has_row iac_ID (iac_ID c) (db_invoke_codes db1) \<or> \<not> has_row u_ID (iac_UserID c) (db_users db)
         \<or> \<not> has_row fn_ID (iac_FunctionID c) (db_functions db)
      then (db1, Inl ErrConflict)
      else (db1\<lparr>db_invoke_codes := db_invoke_codes db1 @ [c]\<rparr>, Inr c))"

definition invoke_code_live :: "string \<times> string \<times> string \<Rightarrow> unix \<Rightarrow> InvokeAuthCode \<Rightarrow> bool" where
  "invoke_code_live k now c =
     (case k of (ident, functionID, host) \<Rightarrow>
        iac_ID c = ident \<and> iac_FunctionID c = functionID \<and> iac_Host c = host \<and> iac_ExpiresAt c > now)"

definition invokeAuthCodes_Consume :: "DB \<Rightarrow> string \<times> string \<times> string \<Rightarrow> unix \<Rightarrow> InvokeAuthCode db_result" where
  "invokeAuthCodes_Consume db k now =
     (db\<lparr>db_invoke_codes := delete_rows (invoke_code_live k now) (db_invoke_codes db)\<rparr>,
      found (lookup_row (invoke_code_live k now) (db_invoke_codes db)))"

definition invokeAuthCodes_DeleteExpired :: "DB \<Rightarrow> unix \<Rightarrow> nat db_result" where
  "invokeAuthCodes_DeleteExpired db now =
     (db\<lparr>db_invoke_codes := delete_rows (\<lambda>c. iac_ExpiresAt c \<le> now) (db_invoke_codes db)\<rparr>,
      Inr (length (filter (\<lambda>c. iac_ExpiresAt c \<le> now) (db_invoke_codes db))))"

definition oauthAuthCodes_Create :: "DB \<Rightarrow> unix \<Rightarrow> OAuthAuthCode \<Rightarrow> OAuthAuthCode db_result" where
  "oauthAuthCodes_Create db now c0 =
     (let c = c0\<lparr>oac_CreatedAt := now\<rparr>;
          db1 = db\<lparr>db_oauth_codes := delete_rows (\<lambda>r. oac_ExpiresAt r \<le> now) (db_oauth_codes db)\<rparr> in
      if has_row oac_ID (oac_ID c) (db_oauth_codes db1) \<or> \<not> has_row u_ID (oac_UserID c) (db_users db)
         \<or> \<not> has_row oc_ID (oac_ClientID c) (db_oauth_clients db)
      then (db1, Inl ErrConflict)
      else (db1\<lparr>db_oauth_codes := db_oauth_codes db1 @ [c]\<rparr>, Inr c))"

definition oauth_code_live :: "string \<Rightarrow> unix \<Rightarrow> OAuthAuthCode \<Rightarrow> bool" where
  "oauth_code_live ident now c = (oac_ID c = ident \<and> oac_ExpiresAt c > now)"

definition oauthAuthCodes_Consume :: "DB \<Rightarrow> string \<Rightarrow> unix \<Rightarrow> OAuthAuthCode db_result" where
  "oauthAuthCodes_Consume db ident now =
     (db\<lparr>db_oauth_codes := delete_rows (oauth_code_live ident now) (db_oauth_codes db)\<rparr>,
      found (lookup_row (oauth_code_live ident now) (db_oauth_codes db)))"

definition oauthAuthCodes_DeleteExpired :: "DB \<Rightarrow> unix \<Rightarrow> nat db_result" where
  "oauthAuthCodes_DeleteExpired db now =
     (db\<lparr>db_oauth_codes := delete_rows (\<lambda>c. oac_ExpiresAt c \<le> now) (db_oauth_codes db)\<rparr>,
      Inr (length (filter (\<lambda>c. oac_ExpiresAt c \<le> now) (db_oauth_codes db))))"

section \<open>CLI credentials (clicredentials.go)\<close>

definition cliCredentials_Create :: "DB \<Rightarrow> unix \<Rightarrow> string \<Rightarrow> CLICredential \<Rightarrow> CLICredential db_result" where
  "cliCredentials_Create db now fresh c0 =
     (let c = c0\<lparr>cc_ID := assign_id (cc_ID c0) fresh, cc_CreatedAt := now, cc_UpdatedAt := now, cc_LastUsedAt := None\<rparr> in
      if has_row cc_ID (cc_ID c) (db_cli_creds db) \<or> has_row cc_SecretHash (cc_SecretHash c) (db_cli_creds db)
         \<or> \<not> has_row u_ID (cc_UserID c) (db_users db) then (db, Inl ErrConflict)
      else (db\<lparr>db_cli_creds := db_cli_creds db @ [c]\<rparr>, Inr c))"

definition cliCredentials_ByHash :: "DB \<Rightarrow> string \<Rightarrow> store_error + CLICredential" where
  "cliCredentials_ByHash db secretHash = found (lookup_row (\<lambda>c. cc_SecretHash c = secretHash) (db_cli_creds db))"

definition cliCredentials_ListByUser :: "DB \<Rightarrow> string \<Rightarrow> CLICredential list" where
  "cliCredentials_ListByUser db userID = sort_key cc_CreatedAt (filter (\<lambda>c. cc_UserID c = userID) (db_cli_creds db))"

definition cliCredentials_Touch :: "DB \<Rightarrow> string \<Rightarrow> unix \<Rightarrow> unit db_result" where
  "cliCredentials_Touch db ident now =
     (if \<not> has_row cc_ID ident (db_cli_creds db) then (db, Inl ErrNotFound)
      else (db\<lparr>db_cli_creds := update_rows (\<lambda>c. cc_ID c = ident)
              (\<lambda>c. c\<lparr>cc_LastUsedAt := Some now, cc_UpdatedAt := now\<rparr>) (db_cli_creds db)\<rparr>, Inr ()))"

definition cliCredentials_Delete :: "DB \<Rightarrow> string \<Rightarrow> unit db_result" where
  "cliCredentials_Delete db ident = (db\<lparr>db_cli_creds := delete_rows (\<lambda>c. cc_ID c = ident) (db_cli_creds db)\<rparr>, Inr ())"

section \<open>OAuth clients and grants (oauthclients.go, oauthgrants.go)\<close>

definition oauthClients_Create :: "DB \<Rightarrow> unix \<Rightarrow> string \<Rightarrow> OAuthClient \<Rightarrow> OAuthClient db_result" where
  "oauthClients_Create db now fresh c0 =
     (let c = c0\<lparr>oc_ID := assign_id (oc_ID c0) fresh, oc_CreatedAt := now, oc_UpdatedAt := now\<rparr> in
      if has_row oc_ID (oc_ID c) (db_oauth_clients db) then (db, Inl ErrConflict)
      else (db\<lparr>db_oauth_clients := db_oauth_clients db @ [c]\<rparr>, Inr c))"

definition oauthClients_ByID :: "DB \<Rightarrow> string \<Rightarrow> store_error + OAuthClient" where
  "oauthClients_ByID db ident = found (lookup_row (\<lambda>c. oc_ID c = ident) (db_oauth_clients db))"

definition oauth_client_unused :: "DB \<Rightarrow> unix \<Rightarrow> OAuthClient \<Rightarrow> bool" where
  "oauth_client_unused db cutoff c = (oc_CreatedAt c \<le> cutoff
     \<and> \<not> has_row og_ClientID (oc_ID c) (db_oauth_grants db)
     \<and> \<not> has_row oac_ClientID (oc_ID c) (db_oauth_codes db))"

definition oauthClients_DeleteUnusedOlderThan :: "DB \<Rightarrow> unix \<Rightarrow> nat db_result" where
  "oauthClients_DeleteUnusedOlderThan db cutoff =
     (db\<lparr>db_oauth_clients := delete_rows (oauth_client_unused db cutoff) (db_oauth_clients db)\<rparr>,
      Inr (length (filter (oauth_client_unused db cutoff) (db_oauth_clients db))))"

definition oauthGrants_Create :: "DB \<Rightarrow> unix \<Rightarrow> string \<Rightarrow> OAuthGrant \<Rightarrow> OAuthGrant db_result" where
  "oauthGrants_Create db now fresh g0 =
     (let g = g0\<lparr>og_ID := assign_id (og_ID g0) fresh, og_PrevSecretHash := [], og_CreatedAt := now,
            og_UpdatedAt := now, og_LastUsedAt := None\<rparr> in
      if has_row og_ID (og_ID g) (db_oauth_grants db) \<or> has_row og_SecretHash (og_SecretHash g) (db_oauth_grants db)
         \<or> \<not> has_row u_ID (og_UserID g) (db_users db)
         \<or> \<not> has_row oc_ID (og_ClientID g) (db_oauth_clients db) then (db, Inl ErrConflict)
      else (db\<lparr>db_oauth_grants := db_oauth_grants db @ [g]\<rparr>, Inr g))"

definition oauthGrants_ByHash :: "DB \<Rightarrow> string \<Rightarrow> store_error + OAuthGrant" where
  "oauthGrants_ByHash db secretHash = found (lookup_row (\<lambda>g. og_SecretHash g = secretHash) (db_oauth_grants db))"

definition oauthGrants_ListByUser :: "DB \<Rightarrow> string \<Rightarrow> OAuthGrant list" where
  "oauthGrants_ListByUser db userID = sort_key og_CreatedAt (filter (\<lambda>g. og_UserID g = userID) (db_oauth_grants db))"

definition oauthGrants_Touch :: "DB \<Rightarrow> string \<Rightarrow> unix \<Rightarrow> unit db_result" where
  "oauthGrants_Touch db ident now =
     (if \<not> has_row og_ID ident (db_oauth_grants db) then (db, Inl ErrNotFound)
      else (db\<lparr>db_oauth_grants := update_rows (\<lambda>g. og_ID g = ident)
              (\<lambda>g. g\<lparr>og_LastUsedAt := Some now, og_UpdatedAt := now\<rparr>) (db_oauth_grants db)\<rparr>, Inr ()))"

definition oauthGrants_Delete :: "DB \<Rightarrow> string \<Rightarrow> unit db_result" where
  "oauthGrants_Delete db ident = (db\<lparr>db_oauth_grants := delete_rows (\<lambda>g. og_ID g = ident) (db_oauth_grants db)\<rparr>, Inr ())"

text \<open>
  \<open>Rotate\<close>: a compare-and-swap on the current secret. A new secret hash that another
  grant already carries violates the UNIQUE constraint.
\<close>

definition oauthGrants_Rotate :: "DB \<Rightarrow> string \<Rightarrow> string \<Rightarrow> string \<Rightarrow> unix \<Rightarrow> OAuthGrant db_result" where
  "oauthGrants_Rotate db ident oldHash newHash now =
     (case lookup_row (\<lambda>g. og_ID g = ident \<and> og_SecretHash g = oldHash) (db_oauth_grants db) of
        None \<Rightarrow> (db, Inl ErrConflict)
      | Some g \<Rightarrow>
          if list_ex (\<lambda>r. og_ID r \<noteq> ident \<and> og_SecretHash r = newHash) (db_oauth_grants db) then (db, Inl ErrConflict)
          else
            let g' = g\<lparr>og_SecretHash := newHash, og_PrevSecretHash := oldHash, og_LastUsedAt := Some now,
                  og_UpdatedAt := now\<rparr> in
            (db\<lparr>db_oauth_grants := update_rows (\<lambda>r. og_ID r = ident \<and> og_SecretHash r = oldHash) (\<lambda>_. g')
                 (db_oauth_grants db)\<rparr>, Inr g'))"

definition oauthGrants_RevokeIfPreviousSecret :: "DB \<Rightarrow> string \<Rightarrow> bool db_result" where
  "oauthGrants_RevokeIfPreviousSecret db hash =
     (let p = (\<lambda>g. og_PrevSecretHash g = hash \<and> og_PrevSecretHash g \<noteq> []) in
      (db\<lparr>db_oauth_grants := delete_rows p (db_oauth_grants db)\<rparr>, Inr (list_ex p (db_oauth_grants db))))"

section \<open>Logs (audit.go, invocationlogs.go)\<close>

definition audit_Append :: "DB \<Rightarrow> unix \<Rightarrow> string \<Rightarrow> AuditLog \<Rightarrow> AuditLog db_result" where
  "audit_Append db now fresh a0 =
     (let a = a0\<lparr>al_ID := assign_id (al_ID a0) fresh, al_CreatedAt := now\<rparr> in
      if has_row al_ID (al_ID a) (db_audit db) then (db, Inl ErrConflict)
      else (db\<lparr>db_audit := db_audit db @ [a]\<rparr>, Inr a))"

definition page_limit :: "int \<Rightarrow> nat" where
  "page_limit limit = (if limit \<le> 0 then 50 else nat limit)"

definition audit_List :: "DB \<Rightarrow> string \<Rightarrow> int \<Rightarrow> AuditLog list" where
  "audit_List db cursor limit =
     take (page_limit limit)
       (rev (sort_key al_ID (filter (\<lambda>a. cursor = [] \<or> al_ID a < cursor) (db_audit db))))"

definition invocationLogs_Append :: "DB \<Rightarrow> unix \<Rightarrow> string \<Rightarrow> InvocationLog \<Rightarrow> InvocationLog db_result" where
  "invocationLogs_Append db now fresh l0 =
     (let l = l0\<lparr>il_ID := assign_id (il_ID l0) fresh, il_CreatedAt := now\<rparr> in
      if has_row il_ID (il_ID l) (db_invocation_logs db) \<or> \<not> has_row fn_ID (il_FunctionID l) (db_functions db)
      then (db, Inl ErrConflict)
      else (db\<lparr>db_invocation_logs := db_invocation_logs db @ [l]\<rparr>, Inr l))"

definition invocationLogs_List :: "DB \<Rightarrow> string \<Rightarrow> string \<Rightarrow> int \<Rightarrow> InvocationLog list" where
  "invocationLogs_List db functionID cursor limit =
     take (page_limit limit)
       (rev (sort_key il_ID (filter (\<lambda>l. il_FunctionID l = functionID \<and> (cursor = [] \<or> il_ID l < cursor))
          (db_invocation_logs db))))"

definition invocationLogs_DeleteOlderThan :: "DB \<Rightarrow> unix \<Rightarrow> nat db_result" where
  "invocationLogs_DeleteOlderThan db cutoff =
     (db\<lparr>db_invocation_logs := delete_rows (\<lambda>l. il_CreatedAt l < cutoff) (db_invocation_logs db)\<rparr>,
      Inr (length (filter (\<lambda>l. il_CreatedAt l < cutoff) (db_invocation_logs db))))"

section \<open>Preservation of the database invariant\<close>

lemmas ok_simps = db_ok_defs Let_def has_row_def unique_on_snoc refs_snoc unique_on_delete refs_delete

lemma sessions_Create_ok: "db_ok db \<Longrightarrow> db_ok (fst (sessions_Create db now fresh s))"
  by (simp add: sessions_Create_def ok_simps)

lemma sessions_Refresh_ok: "db_ok db \<Longrightarrow> db_ok (fst (sessions_Refresh db now i t))"
  by (simp add: sessions_Refresh_def ok_simps unique_on_update refs_update)

lemma sessions_Delete_ok: "db_ok db \<Longrightarrow> db_ok (fst (sessions_Delete db i))"
  by (simp add: sessions_Delete_def ok_simps)

lemma sessions_DeleteExpired_ok: "db_ok db \<Longrightarrow> db_ok (fst (sessions_DeleteExpired db now))"
  by (simp add: sessions_DeleteExpired_def ok_simps)

lemma cliAuthCodes_Create_ok: "db_ok db \<Longrightarrow> db_ok (fst (cliAuthCodes_Create db now c))"
  by (simp add: cliAuthCodes_Create_def ok_simps)

lemma cliAuthCodes_Consume_ok: "db_ok db \<Longrightarrow> db_ok (fst (cliAuthCodes_Consume db i now))"
  by (simp add: cliAuthCodes_Consume_def ok_simps)

lemma cliAuthCodes_DeleteExpired_ok: "db_ok db \<Longrightarrow> db_ok (fst (cliAuthCodes_DeleteExpired db now))"
  by (simp add: cliAuthCodes_DeleteExpired_def ok_simps)

lemma invokeAuthCodes_Create_ok: "db_ok db \<Longrightarrow> db_ok (fst (invokeAuthCodes_Create db now c))"
  by (simp add: invokeAuthCodes_Create_def ok_simps)

lemma invokeAuthCodes_Consume_ok: "db_ok db \<Longrightarrow> db_ok (fst (invokeAuthCodes_Consume db k now))"
  by (simp add: invokeAuthCodes_Consume_def ok_simps)

lemma invokeAuthCodes_DeleteExpired_ok: "db_ok db \<Longrightarrow> db_ok (fst (invokeAuthCodes_DeleteExpired db now))"
  by (simp add: invokeAuthCodes_DeleteExpired_def ok_simps)

lemma oauthAuthCodes_Create_ok: "db_ok db \<Longrightarrow> db_ok (fst (oauthAuthCodes_Create db now c))"
  by (simp add: oauthAuthCodes_Create_def ok_simps)

lemma oauthAuthCodes_Consume_ok: "db_ok db \<Longrightarrow> db_ok (fst (oauthAuthCodes_Consume db i now))"
  by (simp add: oauthAuthCodes_Consume_def ok_simps)

lemma oauthAuthCodes_DeleteExpired_ok: "db_ok db \<Longrightarrow> db_ok (fst (oauthAuthCodes_DeleteExpired db now))"
  by (simp add: oauthAuthCodes_DeleteExpired_def ok_simps)

lemma cliCredentials_Create_ok: "db_ok db \<Longrightarrow> db_ok (fst (cliCredentials_Create db now fresh c))"
  by (simp add: cliCredentials_Create_def ok_simps)

lemma cliCredentials_Touch_ok: "db_ok db \<Longrightarrow> db_ok (fst (cliCredentials_Touch db i now))"
  by (simp add: cliCredentials_Touch_def ok_simps unique_on_update refs_update)

lemma cliCredentials_Delete_ok: "db_ok db \<Longrightarrow> db_ok (fst (cliCredentials_Delete db i))"
  by (simp add: cliCredentials_Delete_def ok_simps)

lemma oauthClients_Create_ok: "db_ok db \<Longrightarrow> db_ok (fst (oauthClients_Create db now fresh c))"
  by (simp add: oauthClients_Create_def ok_simps refs_target_snoc)

lemma oauthClients_DeleteUnused_ok: "db_ok db \<Longrightarrow> db_ok (fst (oauthClients_DeleteUnusedOlderThan db t))"
proof -
  assume ok: "db_ok db"
  have "refs og_ClientID (db_oauth_grants db) oc_ID (db_oauth_clients db)"
    "refs oac_ClientID (db_oauth_codes db) oc_ID (db_oauth_clients db)" using ok by (simp_all add: db_ok_defs)
  then have "refs og_ClientID (db_oauth_grants db) oc_ID (delete_rows (oauth_client_unused db t) (db_oauth_clients db))"
    and "refs oac_ClientID (db_oauth_codes db) oc_ID (delete_rows (oauth_client_unused db t) (db_oauth_clients db))"
    by (auto intro!: refs_target_delete simp: oauth_client_unused_def has_row_iff)
  then show ?thesis using ok by (simp add: oauthClients_DeleteUnusedOlderThan_def ok_simps)
qed

lemma oauthGrants_Create_ok: "db_ok db \<Longrightarrow> db_ok (fst (oauthGrants_Create db now fresh g))"
  by (simp add: oauthGrants_Create_def ok_simps)

lemma oauthGrants_Touch_ok: "db_ok db \<Longrightarrow> db_ok (fst (oauthGrants_Touch db i now))"
  by (simp add: oauthGrants_Touch_def ok_simps unique_on_update refs_update)

lemma oauthGrants_Delete_ok: "db_ok db \<Longrightarrow> db_ok (fst (oauthGrants_Delete db i))"
  by (simp add: oauthGrants_Delete_def ok_simps)

lemma oauthGrants_Revoke_ok: "db_ok db \<Longrightarrow> db_ok (fst (oauthGrants_RevokeIfPreviousSecret db h))"
  by (simp add: oauthGrants_RevokeIfPreviousSecret_def ok_simps)

text \<open>The row a successful rotation replaces is the only one with its identifier.\<close>

lemma rotate_rows:
  assumes "unique_on og_ID rows" "g \<in> set rows" "og_ID g = i" "og_SecretHash g = h"
  shows "update_rows (\<lambda>r. og_ID r = i \<and> og_SecretHash r = h) f rows = update_rows (\<lambda>r. og_ID r = i) f rows"
proof -
  have "og_ID r = i \<and> og_SecretHash r = h \<longleftrightarrow> og_ID r = i" if "r \<in> set rows" for r
    using unique_on_inj [OF assms(1) that assms(2)] assms(3,4) by auto
  then show ?thesis by (simp add: update_rows_def)
qed

lemma oauthGrants_Rotate_ok:
  assumes ok: "db_ok db"
  shows "db_ok (fst (oauthGrants_Rotate db i oldh newh now))"
proof (cases "lookup_row (\<lambda>g. og_ID g = i \<and> og_SecretHash g = oldh) (db_oauth_grants db)")
  case None
  then show ?thesis using ok by (simp add: oauthGrants_Rotate_def)
next
  case (Some g)
  then have g: "g \<in> set (db_oauth_grants db)" "og_ID g = i" "og_SecretHash g = oldh"
    by (auto dest: lookup_row_Some)
  define g' where "g' = g\<lparr>og_SecretHash := newh, og_PrevSecretHash := oldh, og_LastUsedAt := Some now, og_UpdatedAt := now\<rparr>"
  let ?rows = "update_rows (\<lambda>r. og_ID r = i) (\<lambda>_. g') (db_oauth_grants db)"
  show ?thesis
  proof (cases "list_ex (\<lambda>r. og_ID r \<noteq> i \<and> og_SecretHash r = newh) (db_oauth_grants db)")
    case True
    then show ?thesis using ok Some by (simp add: oauthGrants_Rotate_def)
  next
    case False
    have uid: "unique_on og_ID (db_oauth_grants db)" using ok by (simp add: db_ok_defs)
    have res: "fst (oauthGrants_Rotate db i oldh newh now) = db\<lparr>db_oauth_grants := ?rows\<rparr>"
      using Some False by (simp add: oauthGrants_Rotate_def Let_def g'_def rotate_rows [OF uid g])
    have same: "og_ID g' = i" "og_UserID g' = og_UserID g" "og_ClientID g' = og_ClientID g" "og_SecretHash g' = newh"
      using g by (simp_all add: g'_def)
    have "unique_on og_ID ?rows"
      by (rule unique_on_replace [OF uid uid]) (simp add: same)
    moreover have "unique_on og_SecretHash ?rows"
      using ok False by (intro unique_on_replace [OF uid]) (auto simp: db_ok_defs list_ex_iff same)
    moreover have "refs og_UserID ?rows u_ID (db_users db)"
      using ok g same by (auto simp: db_ok_defs refs_def)
    moreover have "refs og_ClientID ?rows oc_ID (db_oauth_clients db)"
      using ok g same by (auto simp: db_ok_defs refs_def)
    ultimately show ?thesis unfolding res using ok by (simp add: db_ok_defs)
  qed
qed

lemma audit_Append_ok: "db_ok db \<Longrightarrow> db_ok (fst (audit_Append db now fresh a))"
  by (simp add: audit_Append_def ok_simps)

lemma invocationLogs_Append_ok: "db_ok db \<Longrightarrow> db_ok (fst (invocationLogs_Append db now fresh l))"
  by (simp add: invocationLogs_Append_def ok_simps)

lemma invocationLogs_DeleteOlderThan_ok: "db_ok db \<Longrightarrow> db_ok (fst (invocationLogs_DeleteOlderThan db t))"
  by (simp add: invocationLogs_DeleteOlderThan_def ok_simps)

section \<open>Operation sequences\<close>

text \<open>
  Every statement-level operation that changes the database, with its clock and
  generated identifiers; a run of the control plane is a sequence of them.
\<close>

datatype store_op =
    OpUserCreate unix string User | OpUserUpdate unix User
  | OpOrgUpdate unix Organization | OpReplaceLoginRules "nat \<Rightarrow> string" "LoginRule list"
  | OpBootstrap unix string User string
  | OpHandleCreate unix PublicUserID | OpHandleRename unix string string | OpHandleDelete string
  | OpWorkspaceCreate unix string WorkspaceRow | OpWorkspaceUpdate unix WorkspaceRow | OpWorkspaceDelete string
  | OpAddMember unix WorkspaceMember | OpRemoveMember string string | OpUpdateMemberRole unix string string Role
  | OpCreateWorkspace unix string WorkspaceRow string
  | OpFunctionCreate unix string Function int | OpFunctionUpdate unix Function | OpFunctionDelete unix string
  | OpCreateVersion unix string FunctionVersion | OpActivateVersion unix string string
  | OpSetEnv unix string string bytes | OpDeleteEnv string string
  | OpSessionCreate unix string Session | OpSessionRefresh unix string unix | OpSessionDelete string
  | OpSessionExpire unix
  | OpCliCodeCreate unix CLIAuthCode | OpCliCodeConsume string unix | OpCliCodeExpire unix
  | OpInvokeCodeCreate unix InvokeAuthCode | OpInvokeCodeConsume "string \<times> string \<times> string" unix | OpInvokeCodeExpire unix
  | OpOAuthCodeCreate unix OAuthAuthCode | OpOAuthCodeConsume string unix | OpOAuthCodeExpire unix
  | OpCliCredCreate unix string CLICredential | OpCliCredTouch string unix | OpCliCredDelete string
  | OpOAuthClientCreate unix string OAuthClient | OpOAuthClientSweep unix
  | OpGrantCreate unix string OAuthGrant | OpGrantTouch string unix | OpGrantDelete string
  | OpGrantRotate string string string unix | OpGrantRevoke string
  | OpAuditAppend unix string AuditLog
  | OpLogAppend unix string InvocationLog | OpLogSweep unix

fun store_exec :: "store_op \<Rightarrow> DB \<Rightarrow> DB" where
  "store_exec (OpUserCreate t i u) db = fst (users_Create db t i u)"
| "store_exec (OpUserUpdate t u) db = fst (users_Update db t u)"
| "store_exec (OpOrgUpdate t r) db = fst (org_Update db t r)"
| "store_exec (OpReplaceLoginRules i rs) db = fst (org_ReplaceLoginRules db i rs)"
| "store_exec (OpBootstrap t i u n) db = fst (BootstrapFirstUser db t i u n)"
| "store_exec (OpHandleCreate t h) db = fst (handles_Create db t h)"
| "store_exec (OpHandleRename t a b) db = fst (handles_Rename db t a b)"
| "store_exec (OpHandleDelete a) db = fst (handles_Delete db a)"
| "store_exec (OpWorkspaceCreate t i w) db = fst (workspaces_Create db t i w)"
| "store_exec (OpWorkspaceUpdate t w) db = fst (workspaces_Update db t w)"
| "store_exec (OpWorkspaceDelete i) db = fst (workspaces_Delete db i)"
| "store_exec (OpAddMember t m) db = fst (workspaces_AddMember db t m)"
| "store_exec (OpRemoveMember w u) db = fst (workspaces_RemoveMember db w u)"
| "store_exec (OpUpdateMemberRole t w u r) db = fst (workspaces_UpdateMemberRole db t w u r)"
| "store_exec (OpCreateWorkspace t i w u) db = fst (CreateWorkspace db t i w u)"
| "store_exec (OpFunctionCreate t i f l) db = fst (functions_create db t i f l)"
| "store_exec (OpFunctionUpdate t f) db = fst (functions_Update db t f)"
| "store_exec (OpFunctionDelete t i) db = fst (functions_Delete db t i)"
| "store_exec (OpCreateVersion t i v) db = fst (functions_CreateVersion db t i v)"
| "store_exec (OpActivateVersion t i v) db = fst (ActivateVersion db t i v)"
| "store_exec (OpSetEnv t i k v) db = fst (functions_SetEnv db t i k v)"
| "store_exec (OpDeleteEnv i k) db = fst (functions_DeleteEnv db i k)"
| "store_exec (OpSessionCreate t i s) db = fst (sessions_Create db t i s)"
| "store_exec (OpSessionRefresh t i e) db = fst (sessions_Refresh db t i e)"
| "store_exec (OpSessionDelete i) db = fst (sessions_Delete db i)"
| "store_exec (OpSessionExpire t) db = fst (sessions_DeleteExpired db t)"
| "store_exec (OpCliCodeCreate t c) db = fst (cliAuthCodes_Create db t c)"
| "store_exec (OpCliCodeConsume i t) db = fst (cliAuthCodes_Consume db i t)"
| "store_exec (OpCliCodeExpire t) db = fst (cliAuthCodes_DeleteExpired db t)"
| "store_exec (OpInvokeCodeCreate t c) db = fst (invokeAuthCodes_Create db t c)"
| "store_exec (OpInvokeCodeConsume k t) db = fst (invokeAuthCodes_Consume db k t)"
| "store_exec (OpInvokeCodeExpire t) db = fst (invokeAuthCodes_DeleteExpired db t)"
| "store_exec (OpOAuthCodeCreate t c) db = fst (oauthAuthCodes_Create db t c)"
| "store_exec (OpOAuthCodeConsume i t) db = fst (oauthAuthCodes_Consume db i t)"
| "store_exec (OpOAuthCodeExpire t) db = fst (oauthAuthCodes_DeleteExpired db t)"
| "store_exec (OpCliCredCreate t i c) db = fst (cliCredentials_Create db t i c)"
| "store_exec (OpCliCredTouch i t) db = fst (cliCredentials_Touch db i t)"
| "store_exec (OpCliCredDelete i) db = fst (cliCredentials_Delete db i)"
| "store_exec (OpOAuthClientCreate t i c) db = fst (oauthClients_Create db t i c)"
| "store_exec (OpOAuthClientSweep t) db = fst (oauthClients_DeleteUnusedOlderThan db t)"
| "store_exec (OpGrantCreate t i g) db = fst (oauthGrants_Create db t i g)"
| "store_exec (OpGrantTouch i t) db = fst (oauthGrants_Touch db i t)"
| "store_exec (OpGrantDelete i) db = fst (oauthGrants_Delete db i)"
| "store_exec (OpGrantRotate i a b t) db = fst (oauthGrants_Rotate db i a b t)"
| "store_exec (OpGrantRevoke h) db = fst (oauthGrants_RevokeIfPreviousSecret db h)"
| "store_exec (OpAuditAppend t i a) db = fst (audit_Append db t i a)"
| "store_exec (OpLogAppend t i l) db = fst (invocationLogs_Append db t i l)"
| "store_exec (OpLogSweep t) db = fst (invocationLogs_DeleteOlderThan db t)"

definition store_run :: "store_op list \<Rightarrow> DB \<Rightarrow> DB" where
  "store_run ops db = foldl (\<lambda>d op. store_exec op d) db ops"

lemma store_run_simps [simp]:
  "store_run [] db = db" "store_run (op # ops) db = store_run ops (store_exec op db)"
  "store_run (ops @ ops') db = store_run ops' (store_run ops db)"
  by (simp_all add: store_run_def)

lemmas store_ok = users_Create_ok users_Update_ok org_Update_ok org_ReplaceLoginRules_ok BootstrapFirstUser_ok
  handles_Create_ok handles_Rename_ok handles_Delete_ok workspaces_Create_ok workspaces_Update_ok
  workspaces_Delete_ok workspaces_AddMember_ok workspaces_RemoveMember_ok workspaces_UpdateMemberRole_ok
  CreateWorkspace_ok functions_create_ok functions_Update_ok functions_Delete_ok functions_CreateVersion_ok
  ActivateVersion_ok functions_SetEnv_ok functions_DeleteEnv_ok sessions_Create_ok sessions_Refresh_ok
  sessions_Delete_ok sessions_DeleteExpired_ok cliAuthCodes_Create_ok cliAuthCodes_Consume_ok
  cliAuthCodes_DeleteExpired_ok invokeAuthCodes_Create_ok invokeAuthCodes_Consume_ok
  invokeAuthCodes_DeleteExpired_ok oauthAuthCodes_Create_ok oauthAuthCodes_Consume_ok
  oauthAuthCodes_DeleteExpired_ok cliCredentials_Create_ok cliCredentials_Touch_ok cliCredentials_Delete_ok
  oauthClients_Create_ok oauthClients_DeleteUnused_ok oauthGrants_Create_ok oauthGrants_Touch_ok
  oauthGrants_Delete_ok oauthGrants_Rotate_ok oauthGrants_Revoke_ok audit_Append_ok invocationLogs_Append_ok
  invocationLogs_DeleteOlderThan_ok

lemma store_exec_ok: "db_ok db \<Longrightarrow> db_ok (store_exec op db)"
  by (cases op) (simp_all add: store_ok)

lemma store_run_ok: "db_ok db \<Longrightarrow> db_ok (store_run ops db)"
  by (induction ops arbitrary: db) (simp_all add: store_exec_ok)

text \<open>
  C15. Data integrity of the store: starting from an empty database, every sequence of
  repository operations keeps every uniqueness constraint (ids, e-mail, provider
  subject, public User IDs, function owner and name, name claims, secret hashes) and
  every reference between tables valid.
\<close>

theorem store_integrity: "db_ok (store_run ops empty_db)"
  by (rule store_run_ok) (rule empty_db_ok)

section \<open>Function names\<close>

lemmas store_op_defs = users_Create_def users_Update_def org_Update_def org_ReplaceLoginRules_def
  BootstrapFirstUser_def handles_Create_def handles_Rename_def handles_Delete_def workspaces_Create_def
  workspaces_Update_def workspaces_Delete_def workspaces_AddMember_def workspaces_RemoveMember_def
  workspaces_UpdateMemberRole_def CreateWorkspace_def functions_Update_def functions_CreateVersion_def
  ActivateVersion_def functions_SetEnv_def functions_DeleteEnv_def sessions_Create_def sessions_Refresh_def
  sessions_Delete_def sessions_DeleteExpired_def cliAuthCodes_Create_def cliAuthCodes_Consume_def
  cliAuthCodes_DeleteExpired_def invokeAuthCodes_Create_def invokeAuthCodes_Consume_def
  invokeAuthCodes_DeleteExpired_def oauthAuthCodes_Create_def oauthAuthCodes_Consume_def
  oauthAuthCodes_DeleteExpired_def cliCredentials_Create_def cliCredentials_Touch_def cliCredentials_Delete_def
  oauthClients_Create_def oauthClients_DeleteUnusedOlderThan_def oauthGrants_Create_def oauthGrants_Touch_def
  oauthGrants_Delete_def oauthGrants_Rotate_def oauthGrants_RevokeIfPreviousSecret_def audit_Append_def
  invocationLogs_Append_def invocationLogs_DeleteOlderThan_def

definition claims :: "DB \<Rightarrow> (string \<times> string) set" where
  "claims db = (\<lambda>n. (nc_Name n, nc_FunctionID n)) ` set (db_names db)"

lemma claims_mono_exec: "claims db \<subseteq> claims (store_exec op db)"
proof (cases op)
  case (OpFunctionCreate t i f l)
  then show ?thesis by (auto simp: claims_def functions_create_def Let_def)
next
  case (OpFunctionDelete t i)
  have "map (\<lambda>n. (nc_Name n, nc_FunctionID n)) (db_names (store_exec op db))
      = map (\<lambda>n. (nc_Name n, nc_FunctionID n)) (db_names db)"
    by (simp add: OpFunctionDelete functions_Delete_def update_rows_def)
  then have "set (map (\<lambda>n. (nc_Name n, nc_FunctionID n)) (db_names (store_exec op db)))
      = set (map (\<lambda>n. (nc_Name n, nc_FunctionID n)) (db_names db))" by (rule arg_cong)
  then show ?thesis by (simp add: claims_def)
qed (simp_all add: claims_def store_op_defs Let_def split: option.splits sum.splits)

lemma claims_mono_run: "claims db \<subseteq> claims (store_run ops db)"
proof (induction ops arbitrary: db)
  case Nil
  then show ?case by simp
next
  case (Cons op ops)
  from Cons [of "store_exec op db"] claims_mono_exec [of db op] show ?case by (auto simp: store_run_simps)
qed

lemma ByName_claim: "functions_ByName db n = Inr f \<Longrightarrow> (n, fn_ID f) \<in> claims db"
  by (auto simp: functions_ByName_def functions_ByID_def claims_def split: option.splits
      dest!: lookup_row_Some)

lemma claims_unique: "db_ok db \<Longrightarrow> (n, i) \<in> claims db \<Longrightarrow> (n, j) \<in> claims db \<Longrightarrow> i = j"
  by (auto simp: claims_def db_ok_def functions_ok_def claims_ok_def dest: unique_on_inj)

lemma create_taken_name:
  "(n, i) \<in> claims db \<Longrightarrow> fn_Name g = n \<Longrightarrow> \<exists>e. functions_create db now fresh g limit = (db, Inl e)"
  by (auto simp: functions_create_def Let_def claims_def list_ex_iff)

text \<open>
  C29. A function name is claimed for ever: once a name resolves to a function, no later
  sequence of store operations (deletion, renames of users, new deployments) makes it
  resolve to a different function, and creating another function under it fails for
  good, whoever the owner is, so a URL can never be taken over after a deletion. The README calls a name
  unique per owner; the store claims it for the whole installation.
\<close>

theorem function_name_permanent:
  assumes "functions_ByName (store_run ops empty_db) n = Inr f"
  shows "(case functions_ByName (store_run (ops @ later) empty_db) n of
            Inl _ \<Rightarrow> True | Inr f' \<Rightarrow> fn_ID f' = fn_ID f)
    \<and> (fn_Name g = n \<longrightarrow> (\<exists>e. functions_create (store_run (ops @ later) empty_db) now fresh g limit
         = (store_run (ops @ later) empty_db, Inl e)))"
proof -
  let ?db = "store_run (ops @ later) empty_db"
  have ok: "db_ok ?db" by (rule store_run_ok) (rule empty_db_ok)
  have c: "(n, fn_ID f) \<in> claims ?db"
    using ByName_claim [OF assms] claims_mono_run [of "store_run ops empty_db" later] by auto
  have "fn_ID f' = fn_ID f" if "functions_ByName ?db n = Inr f'" for f'
    using claims_unique [OF ok ByName_claim [OF that] c] by simp
  moreover have "\<exists>e. functions_create ?db now fresh g limit = (?db, Inl e)" if "fn_Name g = n"
    using create_taken_name [OF c that] .
  ultimately show ?thesis by (cases "functions_ByName ?db n") simp_all
qed

definition fn_example :: Function where
  "fn_example = \<lparr>fn_ID = ''f1'', fn_OwnerType = OwnerTypeUser, fn_OwnerID = ''u1'', fn_Name = ''hello'',
     fn_Description = [], fn_ActiveVersionID = None, fn_CreatedBy = None, fn_CreatedAt = 0, fn_UpdatedAt = 0\<rparr>"

definition ops_example :: "store_op list" where
  "ops_example = [OpFunctionCreate 7 ''x'' fn_example 0]"

lemma ByName_example:
  "functions_ByName (store_run ops_example empty_db) ''hello'' = Inr (fn_example\<lparr>fn_CreatedAt := 7, fn_UpdatedAt := 7\<rparr>)"
  by (simp add: ops_example_def fn_example_def empty_db_def functions_create_def assign_id_def function_conflict_def
      Let_def functions_ByName_def functions_ByID_def lookup_row_def has_row_def found_def)

theorem function_name_permanent_witness:
  "\<exists>e. functions_create (store_run (ops_example @ [OpFunctionDelete 8 ''f1'']) empty_db) 9 ''f2'' fn_example 0
     = (store_run (ops_example @ [OpFunctionDelete 8 ''f1'']) empty_db, Inl e)"
  using function_name_permanent [OF ByName_example, of "[OpFunctionDelete 8 ''f1'']" fn_example 9 "''f2''" 0]
  by (simp add: fn_example_def del: store_run_simps)

section \<open>Quota, bootstrap and activation\<close>

definition quota_count :: "DB \<Rightarrow> Function \<Rightarrow> nat" where
  "quota_count db f = length (filter (functionLimitScopeCond f) (db_functions db))"

lemma quota_count_scopes:
  "fn_OwnerType f = OwnerTypeUser \<Longrightarrow> quota_count db f = functions_CountByOwner db OwnerTypeUser (fn_OwnerID f)"
  "fn_OwnerType f = OwnerTypeWorkspace \<Longrightarrow> fn_CreatedBy f = Some u
     \<Longrightarrow> quota_count db f = functions_CountByWorkspaceAndCreator db (fn_OwnerID f) u"
  by (auto simp: quota_count_def functions_CountByOwner_def functions_CountByWorkspaceAndCreator_def
      functionLimitScopeCond_def intro!: arg_cong [where f = length] filter_cong)

text \<open>
  The function quota is exact: with a positive limit, a creation is refused for quota
  exactly when the owner (for a workspace: the creating member) already has that many
  functions, and after a successful creation the count has grown by one and is still
  within the limit; a refused creation changes nothing.
\<close>

lemma CreateWithinLimit_quota:
  assumes "0 < limit" and "fn_OwnerType f = OwnerTypeUser \<or> fn_CreatedBy f \<noteq> None"
  shows "(snd (functions_CreateWithinLimit db now fresh f limit) = Inl ErrFunctionLimitReached
            \<longleftrightarrow> limit \<le> int (quota_count db f))
    \<and> (case functions_CreateWithinLimit db now fresh f limit of
         (db', Inl _) \<Rightarrow> db' = db
       | (db', Inr f') \<Rightarrow> quota_count db' f = quota_count db f + 1 \<and> int (quota_count db' f) \<le> limit)"
proof -
  have same: "functionLimitScopeCond (f\<lparr>fn_ID := i, fn_CreatedAt := now, fn_UpdatedAt := now\<rparr>) = functionLimitScopeCond f" for i
    by (rule ext) (simp add: functionLimitScopeCond_def)
  have self: "functionLimitScopeCond f (f\<lparr>fn_ID := i, fn_CreatedAt := now, fn_UpdatedAt := now\<rparr>)" for i
    using assms(2) by (cases "fn_OwnerType f") (auto simp: functionLimitScopeCond_def owned_by_def)
  show ?thesis
    using assms(1) self
    by (auto simp: functions_CreateWithinLimit_def functions_create_def Let_def quota_count_def same)
qed

lemma users_kept_exec: "db_users db \<noteq> [] \<Longrightarrow> db_users (store_exec op db) \<noteq> []"
  by (cases op) (simp_all add: store_op_defs functions_create_def functions_Delete_def Let_def update_rows_def
      split: option.splits sum.splits)

lemma users_kept_run: "db_users db \<noteq> [] \<Longrightarrow> db_users (store_run ops db) \<noteq> []"
  by (induction ops arbitrary: db) (simp_all add: users_kept_exec)

text \<open>
  Only the first user is ever bootstrapped: a successful bootstrap creates an active
  organization admin in an organization that exists from then on, and after it no
  sequence of operations lets a second bootstrap succeed (it fails with a conflict and
  changes nothing).
\<close>

lemma bootstrap_once:
  assumes "BootstrapFirstUser db now fresh u name = (db', Inr admin)"
  shows "u_Role admin = RoleAdmin \<and> u_Status admin = UserStatusActive \<and> db_users db' = [admin] \<and> db_org db' \<noteq> None
    \<and> BootstrapFirstUser (store_run ops db') now2 fresh2 u2 name2 = (store_run ops db', Inl ErrConflict)"
proof -
  from assms have a: "u_Role admin = RoleAdmin \<and> u_Status admin = UserStatusActive \<and> db_users db' = [admin] \<and> db_org db' \<noteq> None"
    by (auto simp: BootstrapFirstUser_def Let_def split: if_splits option.splits)
  then have "db_users (store_run ops db') \<noteq> []" by (intro users_kept_run) simp
  with a show ?thesis by (simp add: BootstrapFirstUser_def)
qed

definition user_example :: User where
  "user_example = \<lparr>u_ID = ''u1'', u_Provider = ProviderGoogle, u_ProviderSubject = ''s1'', u_Email = ''a@example.com'',
     u_Name = ''A'', u_Role = RoleMember, u_Status = UserStatusPending, u_Language = [], u_CreatedAt = 0, u_UpdatedAt = 0\<rparr>"

text \<open>
  Activation (deploy and rollback) can only point a function at one of its own
  versions: it succeeds exactly when the function exists and the version belongs to it,
  then changes that function's active version and no other function; otherwise it
  reports not-found and changes nothing.
\<close>

lemma ActivateVersion_own:
  assumes "db_ok db"
  shows "(snd (ActivateVersion db now i v) = Inr () \<longleftrightarrow>
            has_row fn_ID i (db_functions db) \<and> (\<exists>r \<in> set (db_versions db). fv_ID r = v \<and> fv_FunctionID r = i))
    \<and> (snd (ActivateVersion db now i v) \<noteq> Inr () \<longrightarrow> ActivateVersion db now i v = (db, Inl ErrNotFound))
    \<and> (snd (ActivateVersion db now i v) = Inr () \<longrightarrow>
         functions_ByID (fst (ActivateVersion db now i v)) i
           = map_sum id (\<lambda>f. f\<lparr>fn_ActiveVersionID := Some v, fn_UpdatedAt := now\<rparr>) (functions_ByID db i))
    \<and> (j \<noteq> i \<longrightarrow> functions_ByID (fst (ActivateVersion db now i v)) j = functions_ByID db j)"
proof -
  have uv: "unique_on fv_ID (db_versions db)" using assms by (simp add: db_ok_defs)
  have own: "(\<exists>r \<in> set (db_versions db). fv_ID r = v \<and> fv_FunctionID r = i) \<longleftrightarrow>
      (\<exists>r. lookup_row (\<lambda>r. fv_ID r = v) (db_versions db) = Some r \<and> fv_FunctionID r = i)"
  proof
    assume "\<exists>r \<in> set (db_versions db). fv_ID r = v \<and> fv_FunctionID r = i"
    then show "\<exists>r. lookup_row (\<lambda>r. fv_ID r = v) (db_versions db) = Some r \<and> fv_FunctionID r = i"
      using lookup_row_key [OF uv] by blast
  qed (auto dest: lookup_row_Some)
  let ?g = "\<lambda>f. f\<lparr>fn_ActiveVersionID := Some v, fn_UpdatedAt := now\<rparr>"
  have lk: "lookup_row (\<lambda>f. fn_ID f = k) (update_rows (\<lambda>f. fn_ID f = i) ?g rows)
      = map_option (\<lambda>f. if fn_ID f = i then ?g f else f) (lookup_row (\<lambda>f. fn_ID f = k) rows)" for k rows
    by (induction rows) (auto simp: lookup_row_def update_rows_def)
  have hit: "fn_ID f = k" if "lookup_row (\<lambda>f. fn_ID f = k) rows = Some f" for k f rows
    using that by (auto dest: lookup_row_Some)
  show ?thesis
    unfolding own
    by (auto simp: ActivateVersion_def functions_ByID_def lk found_def split: option.splits if_splits dest: hit)
qed

definition version_example :: FunctionVersion where
  "version_example = \<lparr>fv_ID = ''v1'', fv_FunctionID = ''f1'', fv_Manifest = None, fv_MainPath = ''index.js'',
     fv_BundleHash = ''h'', fv_BundleSize = 1, fv_UnpackedSize = 1, fv_Files = [], fv_CreatedBy = ''u1'',
     fv_Note = [], fv_CreatedAt = 0, fv_UpdatedAt = 0\<rparr>"

definition db_example :: DB where
  "db_example = store_run [OpBootstrap 5 ''x'' user_example ''Org'', OpFunctionCreate 7 ''x'' fn_example 0,
     OpCreateVersion 8 ''x'' version_example] empty_db"

lemma db_example_ok: "db_ok db_example"
  unfolding db_example_def by (rule store_run_ok) (rule empty_db_ok)

lemma db_example_rows:
  "db_functions db_example = [fn_example\<lparr>fn_CreatedAt := 7, fn_UpdatedAt := 7\<rparr>]"
  "db_versions db_example = [version_example\<lparr>fv_CreatedAt := 8, fv_UpdatedAt := 8\<rparr>]"
  "map u_ID (db_users db_example) = [''u1'']"
  by (simp_all add: db_example_def empty_db_def BootstrapFirstUser_def functions_create_def functions_CreateVersion_def
      fn_example_def version_example_def user_example_def assign_id_def function_conflict_def has_row_def Let_def)

section \<open>Single use of one-time codes\<close>

text \<open>
  The contract the three code repositories share: consuming deletes every live code
  that matches and returns one; a code that is live at some time was live at every
  earlier time (codes only expire).
\<close>

locale single_use =
  fixes consume :: "DB \<Rightarrow> 'k \<Rightarrow> unix \<Rightarrow> DB \<times> (store_error + 'c)"
    and codes :: "DB \<Rightarrow> 'c list"
    and live :: "'k \<Rightarrow> unix \<Rightarrow> 'c \<Rightarrow> bool"
  assumes consume_result: "snd (consume db k t) = found (lookup_row (live k t) (codes db))"
    and consume_deletes: "codes (fst (consume db k t)) = delete_rows (live k t) (codes db)"
    and expiry: "live k t' c \<Longrightarrow> t \<le> t' \<Longrightarrow> live k t c"
begin

lemma second_fails:
  assumes "snd (consume db k t) = Inr c" and "t \<le> t'" and "set (codes db') \<subseteq> set (codes (fst (consume db k t)))"
  shows "snd (consume db' k t') = Inl ErrNotFound"
proof -
  have "\<not> live k t' r" if "r \<in> set (codes db')" for r
    using that assms(3) expiry [OF _ assms(2)] by (auto simp: consume_deletes)
  then have "lookup_row (live k t') (codes db') = None" by (simp add: lookup_row_None)
  then show ?thesis by (simp add: consume_result found_def)
qed

lemma consume_live: "snd (consume db k t) = Inr c \<Longrightarrow> c \<in> set (codes db) \<and> live k t c"
  by (auto simp: consume_result dest: lookup_row_Some)

end

interpretation cli_codes: single_use cliAuthCodes_Consume db_cli_codes cli_code_live
  by unfold_locales (auto simp: cliAuthCodes_Consume_def cli_code_live_def)

interpretation invoke_codes: single_use invokeAuthCodes_Consume db_invoke_codes invoke_code_live
  by unfold_locales (auto simp: invokeAuthCodes_Consume_def invoke_code_live_def)

interpretation oauth_codes: single_use oauthAuthCodes_Consume db_oauth_codes oauth_code_live
  by unfold_locales (auto simp: oauthAuthCodes_Consume_def oauth_code_live_def)

text \<open>
  Between two redemption attempts other operations run; none of them but issuing a
  code with the same hash can bring a consumed code back.
\<close>

definition issues_oauth_code :: "string \<Rightarrow> store_op \<Rightarrow> bool" where
  "issues_oauth_code ident op = (case op of OpOAuthCodeCreate t c \<Rightarrow> oac_ID c = ident | _ \<Rightarrow> False)"

lemma oauth_codes_exec:
  "\<not> issues_oauth_code i op \<Longrightarrow> r \<in> set (db_oauth_codes (store_exec op db)) \<Longrightarrow> oac_ID r = i
     \<Longrightarrow> r \<in> set (db_oauth_codes db)"
  by (cases op) (auto simp: issues_oauth_code_def store_op_defs functions_create_def functions_Delete_def Let_def
      split: option.splits sum.splits if_splits)

lemma oauth_codes_run:
  "list_all (\<lambda>op. \<not> issues_oauth_code i op) ops \<Longrightarrow> r \<in> set (db_oauth_codes (store_run ops db)) \<Longrightarrow> oac_ID r = i
     \<Longrightarrow> r \<in> set (db_oauth_codes db)"
  by (induction ops arbitrary: db) (auto dest: oauth_codes_exec)

text \<open>
  An OAuth authorization code is redeemed at most once: a successful redemption
  returns a stored, unexpired code with that hash, and after it every later attempt
  fails, whatever other operations run in between, as long as no new code with the same
  hash is issued.
\<close>

lemma oauth_code_single_use:
  assumes "oauthAuthCodes_Consume db i t = (db', Inr c)" and "t \<le> t'"
    and "list_all (\<lambda>op. \<not> issues_oauth_code i op) ops"
  shows "c \<in> set (db_oauth_codes db) \<and> oac_ID c = i \<and> t < oac_ExpiresAt c
    \<and> snd (oauthAuthCodes_Consume (store_run ops db') i t') = Inl ErrNotFound"
proof -
  have first: "snd (oauthAuthCodes_Consume db i t) = Inr c" and db': "db' = fst (oauthAuthCodes_Consume db i t)"
    using assms(1) by simp_all
  have "\<not> oauth_code_live i t' r" if "r \<in> set (db_oauth_codes (store_run ops db'))" for r
  proof
    assume l: "oauth_code_live i t' r"
    then have "oac_ID r = i" by (simp add: oauth_code_live_def)
    with oauth_codes_run [OF assms(3) that] have "r \<in> set (db_oauth_codes db')" by simp
    with db' have "\<not> oauth_code_live i t r" by (simp add: oauth_codes.consume_deletes)
    with oauth_codes.expiry [OF l assms(2)] show False by simp
  qed
  then have "lookup_row (oauth_code_live i t') (db_oauth_codes (store_run ops db')) = None"
    by (simp add: lookup_row_None)
  with oauth_codes.consume_live [OF first] show ?thesis
    by (simp add: oauth_codes.consume_result oauth_code_live_def)
qed

definition oauth_code_example :: OAuthAuthCode where
  "oauth_code_example = \<lparr>oac_ID = ''c1'', oac_UserID = ''u1'', oac_ClientID = ''cl'', oac_RedirectURI = ''https://a/cb'',
     oac_Challenge = ''ch'', oac_Resource = [], oac_ExpiresAt = 100, oac_CreatedAt = 0\<rparr>"

text \<open>
  The browser and CLI hand-off codes are single use too, and bound to their
  audience: redeeming an invoke code requires the very function and host it was issued
  for, a redemption for another host or function leaves it untouched, and replaying a
  redeemed code fails.
\<close>

lemma handoff_codes_single_use:
  "(snd (invokeAuthCodes_Consume db (i, fid, host) t) = Inr c \<longrightarrow>
      iac_ID c = i \<and> iac_FunctionID c = fid \<and> iac_Host c = host \<and> t < iac_ExpiresAt c
      \<and> (t \<le> t' \<longrightarrow> snd (invokeAuthCodes_Consume (fst (invokeAuthCodes_Consume db (i, fid, host) t)) (i, fid, host) t') = Inl ErrNotFound))
   \<and> (snd (invokeAuthCodes_Consume db (i, fid, host) t) = Inl ErrNotFound \<longrightarrow>
        db_invoke_codes (fst (invokeAuthCodes_Consume db (i, fid, host) t)) = db_invoke_codes db)
   \<and> (snd (cliAuthCodes_Consume db j t) = Inr d \<longrightarrow> cac_ID d = j \<and> t < cac_ExpiresAt d
      \<and> (t \<le> t' \<longrightarrow> snd (cliAuthCodes_Consume (fst (cliAuthCodes_Consume db j t)) j t') = Inl ErrNotFound))"
proof (intro conjI impI)
  assume r: "snd (invokeAuthCodes_Consume db (i, fid, host) t) = Inr c"
  show "iac_ID c = i" "iac_FunctionID c = fid" "iac_Host c = host" "t < iac_ExpiresAt c"
    using invoke_codes.consume_live [OF r] by (simp_all add: invoke_code_live_def)
  show "snd (invokeAuthCodes_Consume (fst (invokeAuthCodes_Consume db (i, fid, host) t)) (i, fid, host) t') = Inl ErrNotFound"
    if "t \<le> t'" using invoke_codes.second_fails [OF r that] by simp
next
  assume "snd (invokeAuthCodes_Consume db (i, fid, host) t) = Inl ErrNotFound"
  then have "\<forall>r \<in> set (db_invoke_codes db). \<not> invoke_code_live (i, fid, host) t r"
    by (simp add: invoke_codes.consume_result lookup_row_None)
  then show "db_invoke_codes (fst (invokeAuthCodes_Consume db (i, fid, host) t)) = db_invoke_codes db"
    by (simp add: invoke_codes.consume_deletes delete_rows_def)
next
  assume r: "snd (cliAuthCodes_Consume db j t) = Inr d"
  show "cac_ID d = j" "t < cac_ExpiresAt d" using cli_codes.consume_live [OF r] by (simp_all add: cli_code_live_def)
  show "snd (cliAuthCodes_Consume (fst (cliAuthCodes_Consume db j t)) j t') = Inl ErrNotFound"
    if "t \<le> t'" using cli_codes.second_fails [OF r that] by simp
qed

definition invoke_code_example :: InvokeAuthCode where
  "invoke_code_example = \<lparr>iac_ID = ''c1'', iac_UserID = ''u1'', iac_FunctionID = ''f1'', iac_Host = ''hello.example.com'',
     iac_ReturnTo = ''/'', iac_ExpiresAt = 100, iac_CreatedAt = 0\<rparr>"

end
