(* ===== verification/StoreLogs.thy ===== *)
theory StoreLogs
  imports StoreAuth
begin

text \<open>
  Properties of the remaining repositories: refresh-token rotation with reuse
  detection (oauthgrants.go), sliding sessions (sessions.go) and the keyset pagination
  of the audit and invocation logs (audit.go, invocationlogs.go), the latter through a
  locale both logs interpret.
\<close>

section \<open>Refresh-token rotation\<close>

lemma lookup_unique:
  "unique_on key rows \<Longrightarrow> r \<in> set rows \<Longrightarrow> key r = k \<Longrightarrow> lookup_row (\<lambda>x. key x = k) rows = Some r"
  by (auto dest: lookup_row_key)

lemma Rotate_Inr:
  assumes ok: "db_ok db" and rot: "oauthGrants_Rotate db i oldh newh now = (db', Inr g)"
  obtains g0 where "g0 \<in> set (db_oauth_grants db)" "og_ID g0 = i" "og_SecretHash g0 = oldh"
    "g = g0\<lparr>og_SecretHash := newh, og_PrevSecretHash := oldh, og_LastUsedAt := Some now, og_UpdatedAt := now\<rparr>"
    "set (db_oauth_grants db') = insert g {r \<in> set (db_oauth_grants db). og_ID r \<noteq> i}"
proof -
  from rot obtain g0 where l: "lookup_row (\<lambda>g. og_ID g = i \<and> og_SecretHash g = oldh) (db_oauth_grants db) = Some g0"
    by (auto simp: oauthGrants_Rotate_def split: option.splits)
  then have g0: "g0 \<in> set (db_oauth_grants db)" "og_ID g0 = i" "og_SecretHash g0 = oldh"
    by (auto dest: lookup_row_Some)
  have u: "unique_on og_ID (db_oauth_grants db)" using ok by (simp add: db_ok_defs)
  from rot l have g: "g = g0\<lparr>og_SecretHash := newh, og_PrevSecretHash := oldh, og_LastUsedAt := Some now, og_UpdatedAt := now\<rparr>"
    and db': "db' = db\<lparr>db_oauth_grants := update_rows (\<lambda>r. og_ID r = i) (\<lambda>_. g) (db_oauth_grants db)\<rparr>"
    by (auto simp: oauthGrants_Rotate_def Let_def rotate_rows [OF u g0] split: if_splits)
  have "set (db_oauth_grants db') = insert g {r \<in> set (db_oauth_grants db). og_ID r \<noteq> i}"
    using g0 unfolding db' by auto
  with g0 g that show thesis by blast
qed

text \<open>
  Refresh-token rotation is a compare-and-swap with theft detection. After a
  successful rotation only the new secret authenticates the grant, which keeps its
  identity, user, client and creation time; a second rotation with the same old secret
  loses; and presenting the superseded secret deletes the whole grant, so that the new
  secret is dead too.
\<close>

lemma rotation_and_reuse:
  assumes "db_ok db" and "oauthGrants_Rotate db i oldh newh now = (db', Inr g)" and "oldh \<noteq> newh" and "oldh \<noteq> []"
  shows "oauthGrants_ByHash db' newh = Inr g \<and> oauthGrants_ByHash db' oldh = Inl ErrNotFound
    \<and> map_sum id (\<lambda>g0. (og_ID g0, og_UserID g0, og_ClientID g0, og_CreatedAt g0)) (oauthGrants_ByHash db oldh)
       = Inr (og_ID g, og_UserID g, og_ClientID g, og_CreatedAt g)
    \<and> snd (oauthGrants_Rotate db' i oldh newh2 now2) = Inl ErrConflict
    \<and> snd (oauthGrants_RevokeIfPreviousSecret db' oldh) = Inr True
    \<and> oauthGrants_ByHash (fst (oauthGrants_RevokeIfPreviousSecret db' oldh)) newh = Inl ErrNotFound"
proof -
  obtain g0 where g0: "g0 \<in> set (db_oauth_grants db)" "og_ID g0 = i" "og_SecretHash g0 = oldh"
    and g: "g = g0\<lparr>og_SecretHash := newh, og_PrevSecretHash := oldh, og_LastUsedAt := Some now, og_UpdatedAt := now\<rparr>"
    and rows: "set (db_oauth_grants db') = insert g {r \<in> set (db_oauth_grants db). og_ID r \<noteq> i}"
    using Rotate_Inr [OF assms(1,2)] .
  have us: "unique_on og_SecretHash (db_oauth_grants db)" using assms(1) by (simp add: db_ok_defs)
  have ok': "db_ok db'" using oauthGrants_Rotate_ok [OF assms(1), of i oldh newh now] assms(2) by simp
  then have us': "unique_on og_SecretHash (db_oauth_grants db')" by (simp add: db_ok_defs)
  have gin: "g \<in> set (db_oauth_grants db')" "og_SecretHash g = newh" "og_PrevSecretHash g = oldh" "og_ID g = i"
    using rows g g0 by simp_all
  have old: "og_SecretHash r \<noteq> oldh" if "r \<in> set (db_oauth_grants db')" for r
    using that rows gin assms(3) unique_on_inj [OF us _ g0(1)] g0(2,3) by auto
  have new: "r = g" if "r \<in> set (db_oauth_grants db')" "og_SecretHash r = newh" for r
    using unique_on_inj [OF us' that(1) gin(1)] that(2) gin(2) by simp
  have h1: "oauthGrants_ByHash db' newh = Inr g"
    using lookup_unique [OF us' gin(1,2)] by (simp add: oauthGrants_ByHash_def)
  have h2: "oauthGrants_ByHash db' oldh = Inl ErrNotFound"
    using old by (simp add: oauthGrants_ByHash_def lookup_row_None)
  have h3: "oauthGrants_ByHash db oldh = Inr g0"
    using lookup_unique [OF us g0(1,3)] by (simp add: oauthGrants_ByHash_def)
  have "lookup_row (\<lambda>g. og_ID g = i \<and> og_SecretHash g = oldh) (db_oauth_grants db') = None"
    using old by (simp add: lookup_row_None)
  then have h4: "snd (oauthGrants_Rotate db' i oldh newh2 now2) = Inl ErrConflict"
    by (simp add: oauthGrants_Rotate_def)
  have h5: "snd (oauthGrants_RevokeIfPreviousSecret db' oldh) = Inr True"
    using gin assms(4) by (auto simp: oauthGrants_RevokeIfPreviousSecret_def Let_def list_ex_iff)
  have "lookup_row (\<lambda>g. og_SecretHash g = newh)
      (delete_rows (\<lambda>g. og_PrevSecretHash g = oldh \<and> og_PrevSecretHash g \<noteq> []) (db_oauth_grants db')) = None"
    unfolding lookup_row_None set_delete_rows using new gin(3) assms(4) by blast
  then have h6: "oauthGrants_ByHash (fst (oauthGrants_RevokeIfPreviousSecret db' oldh)) newh = Inl ErrNotFound"
    by (simp add: oauthGrants_RevokeIfPreviousSecret_def oauthGrants_ByHash_def Let_def)
  show ?thesis using h1 h2 h3 h4 h5 h6 g by simp
qed

definition grant_example :: OAuthGrant where
  "grant_example = \<lparr>og_ID = ''g1'', og_UserID = ''u1'', og_ClientID = ''cl'', og_SecretHash = ''s1'', og_PrevSecretHash = [],
     og_CreatedAt = 1, og_UpdatedAt = 1, og_LastUsedAt = None\<rparr>"

definition client_example :: OAuthClient where
  "client_example = \<lparr>oc_ID = ''cl'', oc_Name = ''C'', oc_RedirectURIs = [''https://a/cb''], oc_CreatedAt = 0, oc_UpdatedAt = 0\<rparr>"

definition grant_db :: DB where
  "grant_db = store_run [OpBootstrap 5 ''x'' user_example ''Org'', OpOAuthClientCreate 6 ''x'' client_example,
     OpGrantCreate 7 ''x'' grant_example] empty_db"

lemma grant_db_ok: "db_ok grant_db"
  unfolding grant_db_def by (rule store_run_ok) (rule empty_db_ok)

lemma grant_db_rows: "db_oauth_grants grant_db = [grant_example\<lparr>og_CreatedAt := 7, og_UpdatedAt := 7\<rparr>]"
  by (simp add: grant_db_def empty_db_def BootstrapFirstUser_def oauthClients_Create_def oauthGrants_Create_def
      grant_example_def client_example_def user_example_def assign_id_def has_row_def Let_def)

section \<open>Keyset pagination\<close>

text \<open>
  A client reading a log page by page: each request passes the key of the last row it
  has. The first argument bounds the number of requests.
\<close>

fun read_pages :: "nat \<Rightarrow> (string \<Rightarrow> 'r list) \<Rightarrow> ('r \<Rightarrow> string) \<Rightarrow> string \<Rightarrow> 'r list" where
  "read_pages 0 page key cursor = []"
| "read_pages (Suc n) page key cursor =
     (let p = page cursor in if p = [] then [] else p @ read_pages n page key (key (last p)))"

definition newest_first :: "('r \<Rightarrow> string) \<Rightarrow> 'r list \<Rightarrow> 'r list" where
  "newest_first key rows = rev (sort_key key rows)"

lemma newest_first_filter: "newest_first key (filter P rows) = filter P (newest_first key rows)"
  by (simp add: newest_first_def filter_sort [symmetric] rev_filter)

lemma newest_first_decreasing:
  assumes "unique_on key rows"
  shows "sorted_wrt (\<lambda>a b. key b < key a) (newest_first key rows)"
proof -
  have "mset (map key (sort_key key rows)) = mset (map key rows)" by simp
  then have "distinct (map key (sort_key key rows))"
    using assms unfolding unique_on_def by (metis mset_eq_imp_distinct_iff)
  then have "sorted_wrt (<) (map key (sort_key key rows))" by (simp add: strict_sorted_iff)
  then show ?thesis by (simp add: newest_first_def sorted_wrt_rev sorted_wrt_map)
qed

lemma filter_below_nth:
  assumes "sorted_wrt (\<lambda>a b. key b < (key a :: string)) s" "i < length s"
  shows "filter (\<lambda>r. key r < key (s ! i)) s = drop (Suc i) s"
proof -
  have split: "s = take (Suc i) s @ drop (Suc i) s" by simp
  have "filter (\<lambda>r. key r < key (s ! i)) (take (Suc i) s) = []"
  proof (rule filter_False, rule ballI)
    fix r assume "r \<in> set (take (Suc i) s)"
    then obtain j where "j < Suc i" "r = s ! j" using assms(2) by (auto simp: in_set_conv_nth)
    then have "j \<le> i" "r = s ! j" by simp_all
    then show "\<not> key r < key (s ! i)"
      using assms sorted_wrt_nth_less [OF assms(1), of j i] by (cases "j = i") auto
  qed
  moreover have "filter (\<lambda>r. key r < key (s ! i)) (drop (Suc i) s) = drop (Suc i) s"
  proof (rule filter_True, rule ballI)
    fix r assume "r \<in> set (drop (Suc i) s)"
    then obtain l where "l < length (drop (Suc i) s)" "drop (Suc i) s ! l = r"
      unfolding in_set_conv_nth by blast
    then have "i < Suc i + l" "Suc i + l < length s" "r = s ! (Suc i + l)" by simp_all
    then obtain j where "i < j" "j < length s" "r = s ! j" by blast
    then show "key r < key (s ! i)" using sorted_wrt_nth_less [OF assms(1), of i j] by simp
  qed
  ultimately show ?thesis by (subst (2) split, simp only: filter_append append_Nil)
qed

locale keyset_log =
  fixes page :: "'s \<Rightarrow> string \<Rightarrow> int \<Rightarrow> 'r list"
    and rows :: "'s \<Rightarrow> 'r list"
    and key :: "'r \<Rightarrow> string"
    and ok :: "'s \<Rightarrow> bool"
  assumes page_def: "page s cursor limit =
      take (page_limit limit) (newest_first key (filter (\<lambda>r. cursor = [] \<or> key r < cursor) (rows s)))"
    and keys_unique: "ok s \<Longrightarrow> unique_on key (rows s)"
begin

lemma read_from:
  assumes "ok s" "[] \<notin> key ` set (rows s)" "length (rows s) - k < n"
    and "newest_first key (filter (\<lambda>r. cursor = [] \<or> key r < cursor) (rows s)) = drop k (newest_first key (rows s))"
  shows "read_pages n (\<lambda>c. page s c limit) key cursor = drop k (newest_first key (rows s))"
  using assms(3,4)
proof (induction n arbitrary: k cursor)
  case 0
  then show ?case by simp
next
  case (Suc n)
  let ?s = "newest_first key (rows s)"
  let ?p = "take (page_limit limit) (drop k ?s)"
  have len: "length ?s = length (rows s)" by (simp add: newest_first_def)
  have lim: "0 < page_limit limit" by (simp add: page_limit_def)
  have p: "page s cursor limit = ?p" using Suc.prems(2) by (simp add: page_def)
  show ?case
  proof (cases "k < length ?s")
    case False
    then show ?thesis by (simp add: p)
  next
    case True
    define m where "m = k + length ?p"
    have pne: "?p \<noteq> []" using True lim by simp
    then have m: "k < m" "m \<le> length ?s" by (auto simp: m_def)
    have lst: "last ?p = ?s ! (m - 1)"
      using pne True by (simp add: last_conv_nth m_def min_def split: if_splits)
    have "?s ! (m - 1) \<in> set ?s" using m by (intro nth_mem) simp
    then have "?s ! (m - 1) \<in> set (rows s)" by (simp add: newest_first_def)
    with assms(2) have "key (?s ! (m - 1)) \<noteq> []" by (metis imageI)
    then have "newest_first key (filter (\<lambda>r. key (last ?p) = [] \<or> key r < key (last ?p)) (rows s)) = drop m ?s"
      using filter_below_nth [OF newest_first_decreasing [OF keys_unique [OF assms(1)]], of "m - 1"] m
      by (simp add: newest_first_filter lst)
    moreover have "length (rows s) - m < n" using Suc.prems(1) m len by linarith
    ultimately have "read_pages n (\<lambda>c. page s c limit) key (key (last ?p)) = drop m ?s" by (rule Suc.IH [rotated])
    moreover have "?p @ drop m ?s = drop k ?s"
    proof -
      have "drop m ?s = drop (page_limit limit) (drop k ?s)" unfolding m_def by (simp add: min_def add.commute)
      then show ?thesis by (metis append_take_drop_id)
    qed
    ultimately show ?thesis using pne by (simp add: p Let_def)
  qed
qed

lemma read_all:
  assumes "ok s" "[] \<notin> key ` set (rows s)" "length (rows s) < n"
  shows "read_pages n (\<lambda>c. page s c limit) key [] = newest_first key (rows s)"
  using read_from [OF assms(1,2), of 0 n "[]" limit] assms(3) by simp

end

interpretation audit_log: keyset_log audit_List db_audit al_ID db_ok
  by unfold_locales (simp_all add: audit_List_def newest_first_def db_ok_defs)

definition function_logs :: "DB \<times> string \<Rightarrow> InvocationLog list" where
  "function_logs s = filter (\<lambda>l. il_FunctionID l = snd s) (db_invocation_logs (fst s))"

interpretation invocation_log: keyset_log "\<lambda>s. invocationLogs_List (fst s) (snd s)" function_logs il_ID "\<lambda>s. db_ok (fst s)"
proof unfold_locales
  fix s :: "DB \<times> string" and cursor limit
  have "filter (\<lambda>l. il_FunctionID l = snd s \<and> (cursor = [] \<or> il_ID l < cursor)) (db_invocation_logs (fst s))
      = filter (\<lambda>r. cursor = [] \<or> il_ID r < cursor) (function_logs s)"
    by (simp add: function_logs_def conj_commute)
  then show "invocationLogs_List (fst s) (snd s) cursor limit =
      take (page_limit limit) (newest_first il_ID (filter (\<lambda>r. cursor = [] \<or> il_ID r < cursor) (function_logs s)))"
    by (simp add: invocationLogs_List_def newest_first_def)
  assume "db_ok (fst s)"
  then show "unique_on il_ID (function_logs s)"
    by (simp add: function_logs_def db_ok_defs unique_on_def distinct_map_filter)
qed

text \<open>
  Paging through the logs is complete: with any page size, following the cursors
  (the identifier of the last row received) returns every audit entry, and every
  invocation log of a function, exactly once and newest first, in at most one request
  more than there are rows.
\<close>

lemma paging_complete:
  assumes "db_ok db" and "[] \<notin> al_ID ` set (db_audit db)" and "[] \<notin> il_ID ` set (db_invocation_logs db)"
    and "length (db_audit db) < n" and "length (db_invocation_logs db) < n"
  shows "read_pages n (\<lambda>c. audit_List db c limit) al_ID [] = rev (sort_key al_ID (db_audit db))
    \<and> read_pages n (\<lambda>c. invocationLogs_List db fid c limit) il_ID []
       = rev (sort_key il_ID (filter (\<lambda>l. il_FunctionID l = fid) (db_invocation_logs db)))"
proof
  show "read_pages n (\<lambda>c. audit_List db c limit) al_ID [] = rev (sort_key al_ID (db_audit db))"
    using audit_log.read_all [OF assms(1,2,4)] by (simp add: newest_first_def)
  have "[] \<notin> il_ID ` set (function_logs (db, fid))" using assms(3) by (auto simp: function_logs_def)
  moreover have "length (function_logs (db, fid)) < n"
    using le_less_trans [OF length_filter_le assms(5)] by (simp add: function_logs_def)
  ultimately show "read_pages n (\<lambda>c. invocationLogs_List db fid c limit) il_ID []
       = rev (sort_key il_ID (filter (\<lambda>l. il_FunctionID l = fid) (db_invocation_logs db)))"
    using invocation_log.read_all [of "(db, fid)" n limit] assms(1)
    by (simp add: newest_first_def function_logs_def)
qed

definition audit_example :: "string \<Rightarrow> AuditLog" where
  "audit_example i = \<lparr>al_ID = i, al_ActorID = ''u1'', al_Action = ''function.deploy'', al_Target = ''t'', al_Detail = [], al_CreatedAt = 0\<rparr>"

end
