(* ===== verification/Runtime.thy ===== *)
theory Runtime
  imports Settings
begin

text \<open>
  Package runtime and enginepool: the permission hooks (hooks.go), the warm-pool
  manager with its LRU cap (manager.go), the bundle module loader (loader.go), the
  scan for node core imports (nodedetect.go) and the env preamble (env.go,
  nodecompat.go). The JavaScript engine itself is not modelled: a warmed pool is an
  opaque value.
\<close>

section \<open>Permission hooks (hooks.go)\<close>

record FetchHooks =
  AllowHost :: "string \<Rightarrow> int \<Rightarrow> bool"
  AllowIP :: "string \<Rightarrow> bool"

definition ResolveHook :: "FetchHooks option \<Rightarrow> string \<Rightarrow> bool" where
  "ResolveHook policy host = (case policy of None \<Rightarrow> False | Some p \<Rightarrow> AllowHost p host 0)"

definition DialHook :: "FetchHooks option \<Rightarrow> string \<Rightarrow> string \<Rightarrow> string \<Rightarrow> int \<Rightarrow> bool" where
  "DialHook policy network host ip port =
     (case policy of
        None \<Rightarrow> False
      | Some p \<Rightarrow>
          (let matchHost = (if host = [] then ip else host) in
           if \<not> AllowHost p matchHost port then False else AllowIP p ip))"

text \<open>
  The contract hooks.go states for a fetch policy: port 0 stands for a port not yet
  known, so whatever is allowed for a real port is allowed for port 0.
\<close>

locale fetch_hooks =
  fixes allow_host :: "string \<Rightarrow> int \<Rightarrow> bool" and allow_ip :: "string \<Rightarrow> bool"
  assumes port0: "allow_host host port \<Longrightarrow> allow_host host 0"
begin

lemma dial_resolves:
  "host \<noteq> [] \<Longrightarrow> DialHook (Some \<lparr>AllowHost = allow_host, AllowIP = allow_ip\<rparr>) nw host ip port
     \<Longrightarrow> ResolveHook (Some \<lparr>AllowHost = allow_host, AllowIP = allow_ip\<rparr>) host"
  by (auto simp: DialHook_def ResolveHook_def Let_def split: if_splits intro: port0)

lemma dial_guarded:
  "DialHook (Some \<lparr>AllowHost = allow_host, AllowIP = allow_ip\<rparr>) nw host ip port \<longleftrightarrow>
     allow_host (if host = [] then ip else host) port \<and> allow_ip ip"
  by (auto simp: DialHook_def Let_def)

end

lemma DialHook_None [simp]: "\<not> DialHook None nw host ip port"
  by (simp add: DialHook_def)

lemma ResolveHook_None [simp]: "\<not> ResolveHook None host"
  by (simp add: ResolveHook_def)

section \<open>The pool manager (manager.go)\<close>

text \<open>
  A managed pool is an object with identity: HandlerFor callers, eviction goroutines
  and the map may all hold it. Objects live in a list and are named by their index.
  \<open>mgr_closing\<close> are the goroutines (of evictAsync, Invalidate and the loop of Close)
  waiting for an object to become ready before closing it, with whether they report
  an eviction; \<open>mgr_closed\<close> and \<open>mgr_evicted\<close> record the calls to \<^verbatim>\<open>Pool.Close\<close> and to
  the eviction hook.
\<close>

datatype 'p build = Building | Built 'p | BuildFailed string

record 'p managedPool =
  mp_key :: string
  mp_state :: "'p build"
  mp_elem :: bool

record 'p Manager =
  mgr_objs :: "'p managedPool list"
  mgr_pools :: "(string \<times> nat) list"
  mgr_lru :: "nat list"
  mgr_maxPools :: int
  mgr_closing :: "(nat \<times> bool) list"
  mgr_closed :: "nat list"
  mgr_evicted :: "string list"

definition NewManager :: "int \<Rightarrow> 'p Manager" where
  "NewManager maxPools = \<lparr>mgr_objs = [], mgr_pools = [], mgr_lru = [], mgr_maxPools = maxPools,
     mgr_closing = [], mgr_closed = [], mgr_evicted = []\<rparr>"

text \<open>\<^verbatim>\<open>list.MoveToFront\<close> does nothing for an element that is not in the list.\<close>

definition touchLocked :: "'p Manager \<Rightarrow> nat \<Rightarrow> 'p Manager" where
  "touchLocked m i =
     (if mgr_maxPools m \<le> 0 then m
      else if mp_elem (mgr_objs m ! i)
        then (if i \<in> set (mgr_lru m) then m\<lparr>mgr_lru := i # remove1 i (mgr_lru m)\<rparr> else m)
      else m\<lparr>mgr_lru := i # mgr_lru m,
             mgr_objs := (mgr_objs m)[i := (mgr_objs m ! i)\<lparr>mp_elem := True\<rparr>]\<rparr>)"

definition evictIfOverCapLocked :: "'p Manager \<Rightarrow> nat option \<times> 'p Manager" where
  "evictIfOverCapLocked m =
     (if mgr_maxPools m \<le> 0 \<or> int (length (mgr_lru m)) \<le> mgr_maxPools m then (None, m)
      else
        let victim = last (mgr_lru m) in
        (Some victim, m\<lparr>mgr_lru := butlast (mgr_lru m),
           mgr_pools := filter (\<lambda>e. fst e \<noteq> mp_key (mgr_objs m ! victim)) (mgr_pools m)\<rparr>))"

definition evictAsync :: "'p Manager \<Rightarrow> nat option \<Rightarrow> 'p Manager" where
  "evictAsync m v = (case v of None \<Rightarrow> m | Some i \<Rightarrow> m\<lparr>mgr_closing := mgr_closing m @ [(i, True)]\<rparr>)"

text \<open>
  The critical section of \<open>HandlerFor\<close> with the start of the eviction goroutine: the
  object for the key, and whether this caller must run the build.
\<close>

definition HandlerFor_lock :: "'p Manager \<Rightarrow> string \<Rightarrow> nat \<times> bool \<times> 'p Manager" where
  "HandlerFor_lock m key =
     (case map_of (mgr_pools m) key of
        Some i \<Rightarrow> (i, False, touchLocked m i)
      | None \<Rightarrow>
          (let i = length (mgr_objs m);
               m1 = m\<lparr>mgr_objs := mgr_objs m @ [\<lparr>mp_key = key, mp_state = Building, mp_elem = False\<rparr>],
                      mgr_pools := mgr_pools m @ [(key, i)]\<rparr>;
               (v, m2) = evictIfOverCapLocked (touchLocked m1 i) in
           (i, True, evictAsync m2 v)))"

text \<open>The builder stores the result and closes \<open>ready\<close>.\<close>

definition HandlerFor_built :: "'p Manager \<Rightarrow> nat \<Rightarrow> 'p build \<Rightarrow> 'p Manager" where
  "HandlerFor_built m i r = m\<lparr>mgr_objs := (mgr_objs m)[i := (mgr_objs m ! i)\<lparr>mp_state := r\<rparr>]\<rparr>"

text \<open>What \<open>HandlerFor\<close> returns once the object is ready or the context is done.\<close>

datatype 'p handler_result = HandlerPool 'p | HandlerBuildErr string | HandlerCtxErr

definition HandlerFor_return :: "'p Manager \<Rightarrow> nat \<Rightarrow> bool \<Rightarrow> 'p handler_result option" where
  "HandlerFor_return m i ctx_done =
     (case mp_state (mgr_objs m ! i) of
        Built p \<Rightarrow> Some (HandlerPool p)
      | BuildFailed e \<Rightarrow> Some (HandlerBuildErr e)
      | Building \<Rightarrow> if ctx_done then Some HandlerCtxErr else None)"

text \<open>One goroutine started by evictAsync, Invalidate or Close runs to its end.\<close>

definition close_goroutine :: "'p Manager \<Rightarrow> nat \<times> bool \<Rightarrow> 'p Manager" where
  "close_goroutine m g =
     (let i = fst g; o1 = mgr_objs m ! i in
      m\<lparr>mgr_closing := remove1 g (mgr_closing m),
        mgr_closed := (case mp_state o1 of Built _ \<Rightarrow> mgr_closed m @ [i] | _ \<Rightarrow> mgr_closed m),
        mgr_evicted := (if snd g then mgr_evicted m @ [mp_key o1] else mgr_evicted m)\<rparr>)"

definition Invalidate :: "'p Manager \<Rightarrow> string \<Rightarrow> 'p Manager" where
  "Invalidate m key =
     (case map_of (mgr_pools m) key of
        None \<Rightarrow> m
      | Some i \<Rightarrow> m\<lparr>mgr_pools := filter (\<lambda>e. fst e \<noteq> key) (mgr_pools m),
          mgr_lru := (if mp_elem (mgr_objs m ! i) then remove1 i (mgr_lru m) else mgr_lru m),
          mgr_closing := mgr_closing m @ [(i, False)]\<rparr>)"

definition Manager_Close :: "'p Manager \<Rightarrow> 'p Manager" where
  "Manager_Close m = m\<lparr>mgr_pools := [], mgr_lru := [],
     mgr_closing := mgr_closing m @ map (\<lambda>e. (snd e, False)) (mgr_pools m)\<rparr>"

text \<open>Interleavings: every critical section and every goroutine end is one step.\<close>

inductive manager_step :: "'p Manager \<Rightarrow> 'p Manager \<Rightarrow> bool" where
  handler: "HandlerFor_lock m key = (i, b, m') \<Longrightarrow> manager_step m m'"
| built: "i < length (mgr_objs m) \<Longrightarrow> mp_state (mgr_objs m ! i) = Building \<Longrightarrow> r \<noteq> Building
    \<Longrightarrow> manager_step m (HandlerFor_built m i r)"
| closing: "g \<in> set (mgr_closing m) \<Longrightarrow> mp_state (mgr_objs m ! fst g) \<noteq> Building
    \<Longrightarrow> manager_step m (close_goroutine m g)"
| invalidate: "manager_step m (Invalidate m key)"
| close: "manager_step m (Manager_Close m)"

inductive manager_reachable :: "int \<Rightarrow> 'p Manager \<Rightarrow> bool" for cap where
  init: "manager_reachable cap (NewManager cap)"
| step: "manager_reachable cap m \<Longrightarrow> manager_step m m' \<Longrightarrow> manager_reachable cap m'"

subsection \<open>The invariant\<close>

definition tracked :: "'p Manager \<Rightarrow> nat list" where
  "tracked m = map snd (mgr_pools m)"

definition lru_keys :: "'p Manager \<Rightarrow> string list" where
  "lru_keys m = map (\<lambda>i. mp_key (mgr_objs m ! i)) (mgr_lru m)"

definition owners :: "'p Manager \<Rightarrow> nat list" where
  "owners m = tracked m @ map fst (mgr_closing m) @ mgr_closed m"

definition pools_ok :: "'p Manager \<Rightarrow> bool" where
  "pools_ok m = (distinct (map fst (mgr_pools m)) \<and>
     (\<forall>e \<in> set (mgr_pools m). snd e < length (mgr_objs m) \<and> mp_key (mgr_objs m ! snd e) = fst e))"

definition lru_ok :: "'p Manager \<Rightarrow> bool" where
  "lru_ok m = (if mgr_maxPools m \<le> 0 then mgr_lru m = []
     else distinct (mgr_lru m) \<and> set (mgr_lru m) = set (tracked m)
       \<and> (\<forall>i \<in> set (tracked m). mp_elem (mgr_objs m ! i)))"

definition owners_ok :: "'p Manager \<Rightarrow> bool" where
  "owners_ok m = (distinct (owners m) \<and> (\<forall>i \<in> set (owners m). i < length (mgr_objs m)) \<and>
     (\<forall>i < length (mgr_objs m). i \<in> set (owners m) \<or> (\<exists>e. mp_state (mgr_objs m ! i) = BuildFailed e)) \<and>
     (\<forall>i \<in> set (mgr_closed m). \<exists>p. mp_state (mgr_objs m ! i) = Built p))"

definition manager_inv :: "'p Manager \<Rightarrow> bool" where
  "manager_inv m = (pools_ok m \<and> lru_ok m \<and> owners_ok m
     \<and> (0 < mgr_maxPools m \<longrightarrow> int (length (mgr_lru m)) \<le> mgr_maxPools m))"

lemmas manager_inv_defs = manager_inv_def pools_ok_def lru_ok_def owners_ok_def owners_def tracked_def

lemma manager_inv_New: "manager_inv (NewManager cap)"
  by (simp add: manager_inv_defs NewManager_def)

text \<open>Dropping the entry of one key drops exactly one object from the tracked ones.\<close>

lemma drop_key:
  assumes "distinct (map fst es)" "distinct (map snd es)" "(k, i) \<in> set es"
  shows "set (map snd (filter (\<lambda>e. fst e \<noteq> k) es)) = set (map snd es) - {i}"
    and "distinct (map snd (filter (\<lambda>e. fst e \<noteq> k) es))"
proof -
  have key: "fst e = k \<longleftrightarrow> snd e = i" if "e \<in> set es" for e
  proof -
    have "fst e = fst (k, i) \<Longrightarrow> e = (k, i)" "snd e = snd (k, i) \<Longrightarrow> e = (k, i)"
      using assms that by (auto simp: distinct_map inj_on_def)
    then show ?thesis by (metis fst_conv snd_conv)
  qed
  then show "set (map snd (filter (\<lambda>e. fst e \<noteq> k) es)) = set (map snd es) - {i}" by auto
  show "distinct (map snd (filter (\<lambda>e. fst e \<noteq> k) es))"
    using assms(2) by (simp add: distinct_map_filter)
qed

lemma touch_tracked:
  assumes "manager_inv m" "i \<in> set (tracked m)"
  shows "touchLocked m i = (if mgr_maxPools m \<le> 0 then m else m\<lparr>mgr_lru := i # remove1 i (mgr_lru m)\<rparr>)"
  using assms by (auto simp: touchLocked_def manager_inv_def lru_ok_def)

lemma touch_inv: "manager_inv m \<Longrightarrow> i \<in> set (tracked m) \<Longrightarrow> manager_inv (touchLocked m i)"
  by (subst touch_tracked)
    (auto simp: manager_inv_defs length_remove1 dest: in_set_remove1 [THEN iffD1, rotated])

definition insert_entry :: "'p Manager \<Rightarrow> string \<Rightarrow> 'p Manager" where
  "insert_entry m key = m\<lparr>
     mgr_objs := mgr_objs m @ [\<lparr>mp_key = key, mp_state = Building, mp_elem = 0 < mgr_maxPools m\<rparr>],
     mgr_pools := mgr_pools m @ [(key, length (mgr_objs m))],
     mgr_lru := (if 0 < mgr_maxPools m then length (mgr_objs m) # mgr_lru m else mgr_lru m)\<rparr>"

lemma touch_new:
  "touchLocked (m\<lparr>mgr_objs := mgr_objs m @ [\<lparr>mp_key = key, mp_state = Building, mp_elem = False\<rparr>],
     mgr_pools := mgr_pools m @ [(key, length (mgr_objs m))]\<rparr>) (length (mgr_objs m)) = insert_entry m key"
  by (cases m) (simp add: touchLocked_def insert_entry_def)

lemma HandlerFor_lock_miss:
  "map_of (mgr_pools m) key = None \<Longrightarrow> HandlerFor_lock m key =
     (length (mgr_objs m), True,
      evictAsync (snd (evictIfOverCapLocked (insert_entry m key))) (fst (evictIfOverCapLocked (insert_entry m key))))"
  by (simp add: HandlerFor_lock_def touch_new Let_def case_prod_beta)

definition pre_inv :: "'p Manager \<Rightarrow> bool" where
  "pre_inv m = (pools_ok m \<and> lru_ok m \<and> owners_ok m)"

lemma manager_inv_pre: "manager_inv m \<longleftrightarrow> pre_inv m \<and> (0 < mgr_maxPools m \<longrightarrow> int (length (mgr_lru m)) \<le> mgr_maxPools m)"
  by (simp add: manager_inv_def pre_inv_def)

lemma nth_snoc: "i < length xs \<Longrightarrow> (xs @ [x]) ! i = xs ! i" "(xs @ [x]) ! length xs = x"
  by (simp_all add: nth_append)

lemma insert_entry_pre:
  assumes inv: "pre_inv m" and new: "map_of (mgr_pools m) key = None"
  shows "pre_inv (insert_entry m key)"
proof -
  have p: "pools_ok m" and l: "lru_ok m" and ow: "owners_ok m" using inv by (simp_all add: pre_inv_def)
  have bound: "i < length (mgr_objs m)" if "i \<in> set (owners m)" for i
    using ow that by (simp add: owners_ok_def)
  have tr: "i < length (mgr_objs m)" if "i \<in> set (tracked m)" for i
    using bound that by (simp add: owners_def)
  have "pools_ok (insert_entry m key)"
    using p new by (auto simp: pools_ok_def insert_entry_def nth_snoc map_of_eq_None_iff)
  moreover have "lru_ok (insert_entry m key)"
    using l tr by (auto simp: lru_ok_def insert_entry_def tracked_def nth_append split: if_splits)
  moreover have "owners_ok (insert_entry m key)"
    using ow bound
    by (force simp: owners_ok_def insert_entry_def owners_def tracked_def nth_append less_Suc_eq)
  ultimately show ?thesis by (simp add: pre_inv_def)
qed

lemma evict_inv:
  assumes inv: "pre_inv m" and len: "int (length (mgr_lru m)) \<le> mgr_maxPools m + 1"
  shows "manager_inv (evictAsync (snd (evictIfOverCapLocked m)) (fst (evictIfOverCapLocked m)))"
proof (cases "mgr_maxPools m \<le> 0 \<or> int (length (mgr_lru m)) \<le> mgr_maxPools m")
  case True
  then show ?thesis
    using inv by (auto simp: evictIfOverCapLocked_def evictAsync_def manager_inv_pre)
next
  case False
  define v where "v = last (mgr_lru m)"
  define k where "k = mp_key (mgr_objs m ! v)"
  define es where "es = filter (\<lambda>e. fst e \<noteq> k) (mgr_pools m)"
  have res: "evictAsync (snd (evictIfOverCapLocked m)) (fst (evictIfOverCapLocked m))
     = m\<lparr>mgr_lru := butlast (mgr_lru m), mgr_pools := es, mgr_closing := mgr_closing m @ [(v, True)]\<rparr>"
    using False by (simp add: evictIfOverCapLocked_def evictAsync_def Let_def v_def k_def es_def)
  have p: "pools_ok m" and l: "lru_ok m" and ow: "owners_ok m" using inv by (simp_all add: pre_inv_def)
  have ne: "mgr_lru m \<noteq> []" using False by auto
  then have split: "mgr_lru m = butlast (mgr_lru m) @ [v]" by (simp add: v_def)
  have dl: "distinct (mgr_lru m)" and sl: "set (mgr_lru m) = set (tracked m)"
    using l False by (auto simp: lru_ok_def)
  have sb: "set (butlast (mgr_lru m)) = set (tracked m) - {v}" and db: "distinct (butlast (mgr_lru m))"
    using dl sl by (subst (asm) (1 2) split, auto)+
  have "v \<in> set (tracked m)" using last_in_set [OF ne] sl by (simp add: v_def)
  then obtain e where "e \<in> set (mgr_pools m)" "snd e = v" by (auto simp: tracked_def)
  then have kv: "(k, v) \<in> set (mgr_pools m)"
    using p by (cases e) (auto simp: pools_ok_def k_def)
  have do: "distinct (map snd (mgr_pools m))" using ow by (simp add: owners_ok_def owners_def tracked_def)
  have dp: "distinct (map fst (mgr_pools m))" using p by (simp add: pools_ok_def)
  note dk = drop_key [OF dp do kv, folded es_def]
  have es: "set es \<subseteq> set (mgr_pools m)" by (auto simp: es_def)
  show ?thesis
    unfolding res manager_inv_def
  proof (intro conjI impI)
    show "pools_ok (m\<lparr>mgr_lru := butlast (mgr_lru m), mgr_pools := es, mgr_closing := mgr_closing m @ [(v, True)]\<rparr>)"
      using p es dp by (auto simp: pools_ok_def es_def distinct_map_filter)
    show "lru_ok (m\<lparr>mgr_lru := butlast (mgr_lru m), mgr_pools := es, mgr_closing := mgr_closing m @ [(v, True)]\<rparr>)"
      using l sb db dk(1) False by (auto simp: lru_ok_def tracked_def)
    show "owners_ok (m\<lparr>mgr_lru := butlast (mgr_lru m), mgr_pools := es, mgr_closing := mgr_closing m @ [(v, True)]\<rparr>)"
      using ow dk \<open>v \<in> set (tracked m)\<close> by (auto simp: owners_ok_def owners_def tracked_def)
    show "int (length (mgr_lru (m\<lparr>mgr_lru := butlast (mgr_lru m), mgr_pools := es,
        mgr_closing := mgr_closing m @ [(v, True)]\<rparr>)))
      \<le> mgr_maxPools (m\<lparr>mgr_lru := butlast (mgr_lru m), mgr_pools := es, mgr_closing := mgr_closing m @ [(v, True)]\<rparr>)"
      using len ne by (simp add: of_nat_diff Suc_leI)
  qed
qed

lemma HandlerFor_lock_inv:
  assumes "manager_inv m" "HandlerFor_lock m key = (i, b, m')"
  shows "manager_inv m'"
proof (cases "map_of (mgr_pools m) key")
  case None
  have "int (length (mgr_lru (insert_entry m key))) \<le> mgr_maxPools (insert_entry m key) + 1
      \<or> mgr_maxPools m \<le> 0"
    using assms(1) by (auto simp: manager_inv_pre insert_entry_def)
  then show ?thesis
  proof
    assume "int (length (mgr_lru (insert_entry m key))) \<le> mgr_maxPools (insert_entry m key) + 1"
    with assms None show ?thesis
      by (auto simp: HandlerFor_lock_miss manager_inv_pre
          intro!: evict_inv [simplified manager_inv_pre] insert_entry_pre)
  next
    assume "mgr_maxPools m \<le> 0"
    with assms None insert_entry_pre [of m key] show ?thesis
      by (auto simp: HandlerFor_lock_miss manager_inv_pre evictIfOverCapLocked_def evictAsync_def insert_entry_def)
  qed
next
  case (Some j)
  then have "j \<in> set (tracked m)" by (force simp: tracked_def dest: map_of_SomeD)
  with assms Some show ?thesis by (auto simp: HandlerFor_lock_def touch_inv)
qed

lemma nth_list_update_field: "j < length xs \<Longrightarrow> (xs[i := x]) ! j = (if i = j then x else xs ! j)"
  by (simp add: nth_list_update)

lemma built_inv:
  assumes inv: "manager_inv m" and i: "i < length (mgr_objs m)" and b: "mp_state (mgr_objs m ! i) = Building"
    and r: "r \<noteq> Building"
  shows "manager_inv (HandlerFor_built m i r)"
proof -
  have p: "pools_ok m" and l: "lru_ok m" and ow: "owners_ok m"
    and c: "0 < mgr_maxPools m \<longrightarrow> int (length (mgr_lru m)) \<le> mgr_maxPools m"
    using inv by (simp_all add: manager_inv_def)
  have nc: "i \<notin> set (mgr_closed m)" using ow b by (auto simp: owners_ok_def)
  have own: "i \<in> set (owners m)" using ow i b by (auto simp: owners_ok_def)
  have bd: "j < length (mgr_objs m)" if "j \<in> set (owners m)" for j using ow that by (simp add: owners_ok_def)
  have "pools_ok (HandlerFor_built m i r)"
    using p by (auto simp: pools_ok_def HandlerFor_built_def nth_list_update_field)
  moreover have "lru_ok (HandlerFor_built m i r)"
    using l bd by (auto simp: lru_ok_def HandlerFor_built_def tracked_def owners_def nth_list_update_field split: if_splits)
  moreover have "owners_ok (HandlerFor_built m i r)"
    using ow nc own
    by (auto simp: owners_ok_def HandlerFor_built_def owners_def tracked_def nth_list_update)
  ultimately show ?thesis using c by (simp add: manager_inv_def HandlerFor_built_def)
qed

lemma close_goroutine_inv:
  assumes inv: "manager_inv m" and g: "g \<in> set (mgr_closing m)"
    and st: "mp_state (mgr_objs m ! fst g) \<noteq> Building"
  shows "manager_inv (close_goroutine m g)"
proof -
  have p: "pools_ok m" and l: "lru_ok m" and ow: "owners_ok m"
    and c: "0 < mgr_maxPools m \<longrightarrow> int (length (mgr_lru m)) \<le> mgr_maxPools m"
    using inv by (simp_all add: manager_inv_def)
  have dc: "distinct (map fst (mgr_closing m))" using ow by (simp add: owners_ok_def owners_def)
  then have d: "distinct (mgr_closing m)" by (simp add: distinct_map)
  have sc: "fst ` set (remove1 g (mgr_closing m)) = fst ` set (mgr_closing m) - {fst g}"
    using dc g d by (auto simp: distinct_map inj_on_def)
  have dr: "distinct (map fst (remove1 g (mgr_closing m)))"
    using dc d by (auto simp: distinct_map inj_on_def)
  have gi: "fst g \<in> fst ` set (mgr_closing m)" using g by simp
  show ?thesis
    unfolding manager_inv_def
  proof (intro conjI)
    show "pools_ok (close_goroutine m g)" using p by (simp add: pools_ok_def close_goroutine_def Let_def)
    show "lru_ok (close_goroutine m g)" using l by (simp add: lru_ok_def close_goroutine_def Let_def tracked_def)
    show "owners_ok (close_goroutine m g)"
    proof (cases "mp_state (mgr_objs m ! fst g)")
      case Building
      with st show ?thesis by simp
    next
      case (Built q)
      then show ?thesis
        using ow sc dr gi
        by (auto simp: owners_ok_def close_goroutine_def Let_def owners_def tracked_def)
    next
      case (BuildFailed e)
      then show ?thesis
        using ow sc dr
        by (auto simp: owners_ok_def close_goroutine_def Let_def owners_def tracked_def)
    qed
    show "0 < mgr_maxPools (close_goroutine m g) \<longrightarrow>
        int (length (mgr_lru (close_goroutine m g))) \<le> mgr_maxPools (close_goroutine m g)"
      using c by (simp add: close_goroutine_def Let_def)
  qed
qed

lemma Invalidate_inv:
  assumes inv: "manager_inv m"
  shows "manager_inv (Invalidate m key)"
proof (cases "map_of (mgr_pools m) key")
  case None
  then show ?thesis using inv by (simp add: Invalidate_def)
next
  case (Some i)
  have p: "pools_ok m" and l: "lru_ok m" and ow: "owners_ok m"
    and c: "0 < mgr_maxPools m \<longrightarrow> int (length (mgr_lru m)) \<le> mgr_maxPools m"
    using inv by (simp_all add: manager_inv_def)
  have ki: "(key, i) \<in> set (mgr_pools m)" using Some by (rule map_of_SomeD)
  have do: "distinct (map snd (mgr_pools m))" using ow by (simp add: owners_ok_def owners_def tracked_def)
  have dp: "distinct (map fst (mgr_pools m))" using p by (simp add: pools_ok_def)
  note dk = drop_key [OF dp do ki]
  have it: "i \<in> set (tracked m)" using ki by (force simp: tracked_def)
  show ?thesis
    unfolding manager_inv_def
  proof (intro conjI)
    show "pools_ok (Invalidate m key)"
      using p Some by (auto simp: pools_ok_def Invalidate_def distinct_map_filter)
    show "lru_ok (Invalidate m key)"
      using l dk(1) it Some by (auto simp: lru_ok_def Invalidate_def tracked_def split: if_splits)
    show "owners_ok (Invalidate m key)"
      using ow dk it Some by (auto simp: owners_ok_def Invalidate_def owners_def tracked_def)
    show "0 < mgr_maxPools (Invalidate m key) \<longrightarrow>
        int (length (mgr_lru (Invalidate m key))) \<le> mgr_maxPools (Invalidate m key)"
      using c Some by (auto simp: Invalidate_def length_remove1)
  qed
qed

lemma Manager_Close_inv: "manager_inv m \<Longrightarrow> manager_inv (Manager_Close m)"
  by (auto simp: manager_inv_defs Manager_Close_def comp_def)

lemma mgr_maxPools_New [simp]: "mgr_maxPools (NewManager cap) = cap"
  by (simp add: NewManager_def)

lemma manager_step_inv: "manager_step m m' \<Longrightarrow> manager_inv m \<Longrightarrow> manager_inv m'"
  by (induction rule: manager_step.induct)
    (auto intro: HandlerFor_lock_inv built_inv close_goroutine_inv Invalidate_inv Manager_Close_inv)

lemma manager_step_cap: "manager_step m m' \<Longrightarrow> mgr_maxPools m' = mgr_maxPools m"
  by (induction rule: manager_step.induct)
    (auto simp: HandlerFor_lock_def HandlerFor_built_def close_goroutine_def Invalidate_def Manager_Close_def
      touchLocked_def evictIfOverCapLocked_def evictAsync_def Let_def
      split: option.splits prod.splits if_splits)

lemma manager_reachable_inv: "manager_reachable cap m \<Longrightarrow> manager_inv m \<and> mgr_maxPools m = cap"
  by (induction rule: manager_reachable.induct)
    (auto simp: manager_inv_New dest: manager_step_inv manager_step_cap)

text \<open>
  C27. Safety of the pool manager under every interleaving of HandlerFor, builds,
  Invalidate, Close and the closing goroutines. With a positive cap, never more than
  that many pools are tracked; every tracked key has exactly one pool; no pool is
  closed, or queued to be closed, while it is tracked, and none is closed twice; and
  nothing leaks: every pool that was built is tracked, queued for closing, or
  closed.
\<close>

theorem manager_safe:
  assumes "manager_reachable cap m"
  shows "(0 < cap \<longrightarrow> int (length (mgr_pools m)) \<le> cap)
    \<and> distinct (map fst (mgr_pools m))
    \<and> distinct (map snd (mgr_pools m) @ map fst (mgr_closing m) @ mgr_closed m)
    \<and> (\<forall>i < length (mgr_objs m). \<forall>p. mp_state (mgr_objs m ! i) = Built p \<longrightarrow>
         i \<in> set (map snd (mgr_pools m) @ map fst (mgr_closing m) @ mgr_closed m))"
proof -
  have inv: "manager_inv m" and cap: "mgr_maxPools m = cap"
    using manager_reachable_inv [OF assms] by auto
  have ow: "distinct (owners m)" using inv by (simp add: manager_inv_def owners_ok_def)
  have len: "length (mgr_lru m) = length (mgr_pools m)" if "0 < cap"
  proof -
    have "distinct (mgr_lru m)" "set (mgr_lru m) = set (tracked m)"
      using inv cap that by (auto simp: manager_inv_def lru_ok_def)
    moreover have "distinct (tracked m)" using ow by (simp add: owners_def)
    ultimately have "length (mgr_lru m) = length (tracked m)" by (metis distinct_card)
    then show ?thesis by (simp add: tracked_def)
  qed
  have "\<forall>i < length (mgr_objs m). \<forall>p. mp_state (mgr_objs m ! i) = Built p \<longrightarrow> i \<in> set (owners m)"
    using inv by (fastforce simp: manager_inv_def owners_ok_def)
  with inv cap ow len show ?thesis
    by (simp add: manager_inv_def pools_ok_def owners_def tracked_def)
qed

lemma manager_safe_example:
  "manager_reachable 1 (snd (snd (HandlerFor_lock (HandlerFor_built
      (snd (snd (HandlerFor_lock (NewManager 1) ''a''))) 0 (Built ())) ''b'')))"
proof -
  have "manager_reachable 1 (snd (snd (HandlerFor_lock (NewManager 1) ''a'')) :: unit Manager)"
    by (rule manager_reachable.step [OF manager_reachable.init]) (rule manager_step.handler, simp add: prod_eq_iff)
  then have "manager_reachable 1 (HandlerFor_built (snd (snd (HandlerFor_lock (NewManager 1) ''a''))) 0 (Built ()))"
    by (rule manager_reachable.step) (rule manager_step.built; code_simp)
  then show ?thesis
    by (rule manager_reachable.step) (rule manager_step.handler, simp add: prod_eq_iff)
qed

theorem manager_safe_witness:
  "int (length (mgr_pools (snd (snd (HandlerFor_lock (HandlerFor_built
      (snd (snd (HandlerFor_lock (NewManager 1) ''a''))) 0 (Built ())) ''b''))))) \<le> 1"
  using manager_safe [OF manager_safe_example] by simp

subsection \<open>Refinement of an abstract LRU cache\<close>

text \<open>
  The abstract cache is the list of keys, most recently used first: a request moves
  its key to the front, and the list is cut at the capacity.
\<close>

definition lru_request :: "int \<Rightarrow> string \<Rightarrow> string list \<Rightarrow> string list" where
  "lru_request cap key ks = take (nat cap) (key # removeAll key ks)"

lemma lru_keys_tracked:
  assumes "manager_inv m" "0 < mgr_maxPools m"
  shows "set (lru_keys m) = fst ` set (mgr_pools m)" "distinct (lru_keys m)"
proof -
  have p: "pools_ok m" and l: "set (mgr_lru m) = snd ` set (mgr_pools m)" and d: "distinct (mgr_lru m)"
    using assms by (auto simp: manager_inv_def lru_ok_def tracked_def)
  have k: "mp_key (mgr_objs m ! snd e) = fst e" if "e \<in> set (mgr_pools m)" for e
    using p that by (simp add: pools_ok_def)
  show "set (lru_keys m) = fst ` set (mgr_pools m)"
    using l k by (force simp: lru_keys_def)
  have "inj_on (\<lambda>i. mp_key (mgr_objs m ! i)) (snd ` set (mgr_pools m))"
    using p by (auto simp: pools_ok_def inj_on_def distinct_map)
  with l d show "distinct (lru_keys m)" by (simp add: lru_keys_def distinct_map)
qed

lemma map_remove1_distinct:
  "inj_on f (set xs) \<Longrightarrow> x \<in> set xs \<Longrightarrow> distinct xs \<Longrightarrow> map f (remove1 x xs) = removeAll (f x) (map f xs)"
proof (induction xs)
  case Nil
  then show ?case by simp
next
  case (Cons y ys)
  show ?case
  proof (cases "x = y")
    case True
    have "f y \<notin> set (map f ys)" using Cons.prems by (auto simp: inj_on_def)
    with True show ?thesis by simp
  next
    case False
    with Cons show ?thesis by (auto simp: inj_on_def)
  qed
qed

lemma lru_hit:
  assumes inv: "manager_inv m" and cap: "0 < mgr_maxPools m" and hit: "map_of (mgr_pools m) key = Some i"
  shows "lru_keys (touchLocked m i) = lru_request (mgr_maxPools m) key (lru_keys m)"
proof -
  let ?f = "\<lambda>i. mp_key (mgr_objs m ! i)"
  have e: "(key, i) \<in> set (mgr_pools m)" using hit by (rule map_of_SomeD)
  have it: "i \<in> set (tracked m)" using e by (force simp: tracked_def)
  have d: "distinct (mgr_lru m)" and sl: "set (mgr_lru m) = set (tracked m)"
    and len: "int (length (mgr_lru m)) \<le> mgr_maxPools m" and p: "pools_ok m"
    using inv cap by (auto simp: manager_inv_def lru_ok_def)
  have key: "?f i = key" using p e by (auto simp: pools_ok_def)
  have inj: "inj_on ?f (set (mgr_lru m))"
    using lru_keys_tracked(2) [OF inv cap] by (simp add: lru_keys_def distinct_map)
  have il: "i \<in> set (mgr_lru m)" using it sl by simp
  have "lru_keys (touchLocked m i) = key # map ?f (remove1 i (mgr_lru m))"
    using cap key by (simp add: touch_tracked [OF inv it] lru_keys_def)
  also have "\<dots> = key # removeAll key (lru_keys m)"
    using map_remove1_distinct [OF inj il d] key by (simp add: lru_keys_def)
  finally have eq: "lru_keys (touchLocked m i) = key # removeAll key (lru_keys m)" .
  have "length (lru_keys (touchLocked m i)) = length (mgr_lru m)"
    using cap il length_pos_if_in_set [OF il] by (simp add: touch_tracked [OF inv it] lru_keys_def length_remove1)
  with eq len show ?thesis by (simp add: lru_request_def nat_le_iff)
qed

lemma lru_insert:
  assumes inv: "manager_inv m" and cap: "0 < mgr_maxPools m"
  shows "lru_keys (insert_entry m key) = key # lru_keys m"
proof -
  have "i < length (mgr_objs m)" if "i \<in> set (mgr_lru m)" for i
    using inv cap that by (auto simp: manager_inv_def lru_ok_def owners_ok_def owners_def)
  then show ?thesis using cap by (simp add: lru_keys_def insert_entry_def nth_append)
qed

lemma lru_evict:
  assumes "0 < mgr_maxPools m" "int (length (mgr_lru m)) \<le> mgr_maxPools m + 1"
  shows "lru_keys (evictAsync (snd (evictIfOverCapLocked m)) (fst (evictIfOverCapLocked m)))
     = take (nat (mgr_maxPools m)) (lru_keys m)"
proof (cases "int (length (mgr_lru m)) \<le> mgr_maxPools m")
  case True
  then have "length (lru_keys m) \<le> nat (mgr_maxPools m)" by (simp add: lru_keys_def nat_le_iff)
  with True show ?thesis by (simp add: evictIfOverCapLocked_def evictAsync_def)
next
  case False
  with assms have "length (mgr_lru m) = Suc (nat (mgr_maxPools m))" by linarith
  then have "butlast (mgr_lru m) = take (nat (mgr_maxPools m)) (mgr_lru m)" by (simp add: butlast_conv_take)
  with False assms show ?thesis
    by (simp add: evictIfOverCapLocked_def evictAsync_def Let_def lru_keys_def take_map)
qed

lemma lru_miss:
  assumes inv: "manager_inv m" and cap: "0 < mgr_maxPools m" and miss: "map_of (mgr_pools m) key = None"
  shows "lru_keys (snd (snd (HandlerFor_lock m key))) = lru_request (mgr_maxPools m) key (lru_keys m)"
proof -
  have "key \<notin> set (lru_keys m)"
    using lru_keys_tracked(1) [OF inv cap] miss by (simp add: map_of_eq_None_iff)
  moreover have "mgr_maxPools (insert_entry m key) = mgr_maxPools m" by (simp add: insert_entry_def)
  moreover have "int (length (mgr_lru (insert_entry m key))) \<le> mgr_maxPools m + 1"
    using inv cap by (simp add: manager_inv_def insert_entry_def)
  ultimately show ?thesis
    using cap lru_evict [of "insert_entry m key"]
    by (simp add: HandlerFor_lock_miss [OF miss] lru_insert [OF inv cap] lru_request_def removeAll_id)
qed

text \<open>
  C28. The manager refines an LRU cache: for a positive cap, a HandlerFor call on any
  reachable state moves its key to the front of the recency order and drops exactly
  the least recently used key when the cap is exceeded; the tracked pools are
  exactly those keys, so the pool just requested is never the one evicted.
\<close>

theorem HandlerFor_lru:
  assumes "manager_reachable cap m" and "0 < cap" and "HandlerFor_lock m key = (i, b, m')"
  shows "lru_keys m' = lru_request cap key (lru_keys m)
    \<and> fst ` set (mgr_pools m') = set (lru_keys m') \<and> key \<in> set (lru_keys m')"
proof -
  have inv: "manager_inv m" and cap: "mgr_maxPools m = cap"
    using manager_reachable_inv [OF assms(1)] by auto
  have "manager_reachable cap m'"
    using assms(1,3) by (auto intro: manager_reachable.step manager_step.handler)
  then have inv': "manager_inv m'" "mgr_maxPools m' = cap" using manager_reachable_inv by auto
  have "lru_keys m' = lru_request cap key (lru_keys m)"
  proof (cases "map_of (mgr_pools m) key")
    case None
    then show ?thesis using lru_miss [OF inv _ None] assms(2,3) cap by simp
  next
    case (Some j)
    then show ?thesis using lru_hit [OF inv _ Some] assms(2,3) cap by (auto simp: HandlerFor_lock_def)
  qed
  moreover have "key \<in> set (lru_request cap key (lru_keys m))"
    using assms(2) by (cases "nat cap") (auto simp: lru_request_def)
  ultimately show ?thesis
    using lru_keys_tracked(1) [OF inv'(1)] assms(2) inv'(2) by auto
qed

theorem HandlerFor_lru_witness:
  "lru_keys (snd (snd (HandlerFor_lock (HandlerFor_built (snd (snd (HandlerFor_lock (NewManager 1) ''a''))) 0
     (Built ())) ''b''))) = [''b'']"
proof -
  let ?m1 = "HandlerFor_built (snd (snd (HandlerFor_lock (NewManager 1) ''a''))) 0 (Built ())"
  have r0: "manager_reachable 1 (snd (snd (HandlerFor_lock (NewManager 1) ''a'')) :: unit Manager)"
    by (rule manager_reachable.step [OF manager_reachable.init]) (rule manager_step.handler, simp add: prod_eq_iff)
  have "manager_reachable 1 ?m1"
    by (rule manager_reachable.step [OF r0]) (rule manager_step.built; code_simp)
  moreover have "HandlerFor_lock ?m1 ''b'' = (1, True, snd (snd (HandlerFor_lock ?m1 ''b'')))" by code_simp
  moreover have "lru_keys ?m1 = [''a'']" by code_simp
  ultimately show ?thesis using HandlerFor_lru [of 1 ?m1 "''b''"] by (simp add: lru_request_def)
qed

section \<open>The module loader (loader.go)\<close>

text \<open>\<^verbatim>\<open>path.Ext\<close>: the suffix from the last dot of the last path element.\<close>

definition path_ext :: "string \<Rightarrow> string" where
  "path_ext p =
     (let tail = takeWhile (\<lambda>c. c \<noteq> CHR ''/'') (rev p) in
      if CHR ''.'' \<in> set tail then CHR ''.'' # rev (takeWhile (\<lambda>c. c \<noteq> CHR ''.'') tail) else [])"

datatype loader_error = LoaderNoExtension | LoaderEscapes | LoaderNotFound

definition NewLoader :: "files \<Rightarrow> string \<Rightarrow> loader_error + bytes" where
  "NewLoader bundle specifier =
     (if path_ext specifier = [] then Inl LoaderNoExtension
      else let clean = trim_prefix specifier ''/'' in
        if clean = ''..'' \<or> prefix ''../'' clean then Inl LoaderEscapes
        else case map_of bundle clean of None \<Rightarrow> Inl LoaderNotFound | Some src \<Rightarrow> Inr src)"

section \<open>The env preamble (enginepool/env.go, nodecompat.go)\<close>

definition wrapLoaderWithEnv ::
  "string \<Rightarrow> (string \<Rightarrow> 'e + bytes) option \<Rightarrow> (string \<Rightarrow> 'e + bytes) option" where
  "wrapLoaderWithEnv envPreamble inner =
     (case inner of
        None \<Rightarrow> None
      | Some f \<Rightarrow> Some (\<lambda>specifier. case f specifier of Inl e \<Rightarrow> Inl e | Inr src \<Rightarrow> Inr (envPreamble @ src)))"

definition shouldInjectEnvPath :: "string \<Rightarrow> bool" where
  "shouldInjectEnvPath name =
     (if str_contains name ''node_modules/'' then False
      else path_ext name = ''.js'' \<or> path_ext name = ''.mjs'')"

section \<open>Node core imports (nodedetect.go)\<close>

text \<open>
  The regular expression is deterministic: a keyword at a word boundary, blanks, a
  quote, \<^verbatim>\<open>node:\<close> and at least one character, up to the next quote. The matcher
  returns the captured specifier and the text after the match.
\<close>

definition re_space :: "char \<Rightarrow> bool" where
  "re_space c = (c \<in> {CHR '' '', CHR 0x09, CHR 0x0A, CHR 0x0C, CHR 0x0D})"

definition word_char :: "char \<Rightarrow> bool" where
  "word_char c = (is_alnum c \<or> c = CHR ''_'')"

definition is_quote :: "char \<Rightarrow> bool" where
  "is_quote c = (c = CHR 0x27 \<or> c = CHR 0x22)"

definition match_spec :: "string \<Rightarrow> (string \<times> string) option" where
  "match_spec s =
     (case s of
        [] \<Rightarrow> None
      | q # r \<Rightarrow>
          if \<not> is_quote q \<or> \<not> prefix ''node:'' r then None
          else
            let nm = takeWhile (\<lambda>c. \<not> is_quote c) (drop 5 r);
                rest = dropWhile (\<lambda>c. \<not> is_quote c) (drop 5 r) in
            if nm = [] \<or> rest = [] then None else Some (''node:'' @ nm, tl rest))"

definition match_paren :: "string \<Rightarrow> (string \<times> string) option" where
  "match_paren s =
     (case dropWhile re_space s of
        [] \<Rightarrow> None
      | c # r \<Rightarrow> if c = CHR ''('' then match_spec (dropWhile re_space r) else None)"

definition match_import :: "string \<Rightarrow> (string \<times> string) option" where
  "match_import s =
     (if prefix ''from'' s then match_spec (dropWhile re_space (drop 4 s))
      else if prefix ''require'' s then match_paren (drop 7 s)
      else if prefix ''import'' s then
        (case match_paren (drop 6 s) of
           Some r \<Rightarrow> Some r
         | None \<Rightarrow>
             (case drop 6 s of
                c # _ \<Rightarrow> if re_space c then match_spec (dropWhile re_space (drop 6 s)) else None
              | [] \<Rightarrow> None))
      else None)"

lemma match_spec_shorter: "match_spec s = Some (x, r) \<Longrightarrow> length r < length s"
  by (auto simp: match_spec_def Let_def split: list.splits if_splits)
    (metis (no_types, lifting) diff_le_self dual_order.strict_trans2 le_less_trans length_dropWhile_le
      length_drop length_tl less_Suc_eq_le)

lemma match_paren_shorter: "match_paren s = Some (x, r) \<Longrightarrow> length r < length s"
proof -
  assume m: "match_paren s = Some (x, r)"
  then obtain c t where t: "dropWhile re_space s = c # t" "match_spec (dropWhile re_space t) = Some (x, r)"
    by (auto simp: match_paren_def split: list.splits if_splits)
  have "length t < length s" using length_dropWhile_le [of re_space s] t(1) by simp
  with match_spec_shorter [OF t(2)] length_dropWhile_le [of re_space t] show ?thesis by linarith
qed

lemma match_import_shorter: "match_import s = Some (x, r) \<Longrightarrow> length r < length s"
proof -
  assume m: "match_import s = Some (x, r)"
  have d: "length r < length s" if "match_spec (dropWhile re_space (drop n s)) = Some (x, r)" for n
    using match_spec_shorter [OF that] length_dropWhile_le [of re_space "drop n s"] by simp
  have p: "length r < length s" if "match_paren (drop n s) = Some (x, r)" for n
    using match_paren_shorter [OF that] by simp
  have e: "length r < length s"
    if "drop 6 s = c # t" "match_spec (dropWhile re_space t) = Some (x, r)" for c t
  proof -
    have "length t < length s" using arg_cong [OF that(1), of length] by simp
    with match_spec_shorter [OF that(2)] length_dropWhile_le [of re_space t] show ?thesis by linarith
  qed
  from m show ?thesis
    by (auto simp: match_import_def split: if_splits option.splits list.splits intro: d p e)
qed

text \<open>
  \<^verbatim>\<open>FindAllStringSubmatch\<close>: leftmost matches, scanning on after each match. The first
  argument is the character before the current position.
\<close>

function find_imports :: "char option \<Rightarrow> string \<Rightarrow> string list" where
  "find_imports prev s =
     (case s of
        [] \<Rightarrow> []
      | c # t \<Rightarrow>
          (case (if (case prev of Some p \<Rightarrow> word_char p | None \<Rightarrow> False) then None else match_import s) of
             Some (x, r) \<Rightarrow> x # find_imports (Some (CHR 0x22)) r
           | None \<Rightarrow> find_imports (Some c) t))"
  by pat_completeness auto
termination
  by (relation "measure (\<lambda>(_, s). length s)") (auto split: if_splits dest: match_import_shorter)

declare find_imports.simps [simp del]

definition DetectNodeCoreImports :: "string \<Rightarrow> string list" where
  "DetectNodeCoreImports source =
     rev (foldl (\<lambda>acc x. if x \<in> set acc then acc else x # acc) [] (find_imports None source))"

subsection \<open>Facts\<close>

lemma match_spec_node: "match_spec s = Some (x, r) \<Longrightarrow> prefix ''node:'' x"
  by (auto simp: match_spec_def Let_def split: list.splits if_splits)

lemma match_import_node: "match_import s = Some (x, r) \<Longrightarrow> prefix ''node:'' x"
  by (auto simp: match_import_def match_paren_def split: if_splits option.splits list.splits dest: match_spec_node)

lemma find_imports_node: "x \<in> set (find_imports prev s) \<Longrightarrow> prefix ''node:'' x"
proof (induction s arbitrary: prev rule: length_induct)
  case (1 s)
  then have IH: "prefix ''node:'' x" if "length t < length s" "x \<in> set (find_imports p t)" for t p
    using that by blast
  let ?m = "if (case prev of Some p \<Rightarrow> word_char p | None \<Rightarrow> False) then None else match_import s"
  show ?case
  proof (cases s)
    case Nil
    with "1.prems" show ?thesis by (simp add: find_imports.simps)
  next
    case (Cons c t)
    show ?thesis
    proof (cases ?m)
      case None
      then have "find_imports prev s = find_imports (Some c) t"
        unfolding find_imports.simps [of prev s] using Cons by simp
      with "1.prems" have "x \<in> set (find_imports (Some c) t)" by simp
      then show ?thesis using Cons by (intro IH [of t]) auto
    next
      case (Some y)
      then obtain z r where m: "match_import s = Some (z, r)" "y = (z, r)" by (cases y) (auto split: if_splits)
      have "find_imports prev s = z # find_imports (Some (CHR 0x22)) r"
        unfolding find_imports.simps [of prev s] using Cons Some m(2) by simp
      with "1.prems" have "x = z \<or> x \<in> set (find_imports (Some (CHR 0x22)) r)" by simp
      then show ?thesis using match_import_node [OF m(1)] match_import_shorter [OF m(1)] IH by blast
    qed
  qed
qed

lemma dedup_foldl:
  "distinct acc \<Longrightarrow> distinct (foldl (\<lambda>acc x. if x \<in> set acc then acc else x # acc) acc xs)
     \<and> set (foldl (\<lambda>acc x. if x \<in> set acc then acc else x # acc) acc xs) = set acc \<union> set xs"
  by (induction xs arbitrary: acc) auto

lemma DetectNodeCoreImports_spec:
  "distinct (DetectNodeCoreImports source)"
  "set (DetectNodeCoreImports source) = set (find_imports None source)"
  "x \<in> set (DetectNodeCoreImports source) \<Longrightarrow> prefix ''node:'' x"
  using dedup_foldl [of "[]" "find_imports None source"] find_imports_node
  by (auto simp: DetectNodeCoreImports_def)

lemma NewLoader_in_bundle: "NewLoader fs sp = Inr src \<Longrightarrow> src \<in> snd ` set fs"
  by (force simp: NewLoader_def Let_def split: if_splits option.splits dest: map_of_SomeD)

end
