(* ===== verification/UserID.thy ===== *)
theory UserID
  imports StoreLogs
begin

text \<open>
  Derivation of a public User ID from an e-mail address (package auth, user_id.go).
  The retry loop has no bound in the code: it is a partial function whose value \<open>None\<close>
  is a loop that never returns; its counter is a 64-bit integer that wraps around. Strings are handled as ASCII, where bytes and runes and
  the two notions of lower case agree.
\<close>

definition maxUserIDLength :: nat where
  "maxUserIDLength = 63"

definition user_id_char :: "char \<Rightarrow> bool" where
  "user_id_char c = (is_lower c \<or> is_digit c \<or> c = CHR ''-'')"

text \<open>\<open>userIDSanitizeRE.ReplaceAllString(s, "-")\<close>: every maximal run of other characters becomes one hyphen.\<close>

function userIDSanitizeRE_replace :: "string \<Rightarrow> string" where
  "userIDSanitizeRE_replace [] = []"
| "userIDSanitizeRE_replace (c # s) =
     (if user_id_char c then c # userIDSanitizeRE_replace s
      else CHR ''-'' # userIDSanitizeRE_replace (dropWhile (\<lambda>x. \<not> user_id_char x) s))"
  by pat_completeness auto

termination
  by (relation "measure length") (auto simp: less_Suc_eq_le length_dropWhile_le)

definition sanitizeUserID :: "string \<Rightarrow> string" where
  "sanitizeUserID local_part =
     (let s = trim_char CHR ''-'' (userIDSanitizeRE_replace (to_lower local_part)) in
      if length s > maxUserIDLength then trim_right_char CHR ''-'' (take maxUserIDLength s) else s)"

definition suffixUserID :: "string \<Rightarrow> int \<Rightarrow> string" where
  "suffixUserID base n =
     (let suffix = CHR ''-'' # int_str n;
          trimmed = (if length base + length suffix > maxUserIDLength
                     then trim_right_char CHR ''-'' (take (maxUserIDLength - length suffix) base) else base) in
      trimmed @ suffix)"

definition user_id_base :: "string \<Rightarrow> string" where
  "user_id_base email =
     (let base = sanitizeUserID (fst (cut CHR ''@'' email)) in if base = [] then ''user'' else base)"

definition int64_succ :: "int \<Rightarrow> int" where
  "int64_succ n = (if n = 2 ^ 63 - 1 then - (2 ^ 63) else n + 1)"

partial_function (option) derive_loop :: "DB \<Rightarrow> string \<Rightarrow> string \<Rightarrow> int \<Rightarrow> string option" where
  "derive_loop db base candidate n =
     (if ValidateUserID candidate = Inr () \<and> handles_ByUserID db candidate = Inl ErrNotFound then Some candidate
      else derive_loop db base (suffixUserID base n) (int64_succ n))"

declare derive_loop.simps [code]

definition DeriveUserID :: "DB \<Rightarrow> string \<Rightarrow> string option" where
  "DeriveUserID db email = derive_loop db (user_id_base email) (user_id_base email) 2"

section \<open>Shape of the candidates\<close>

definition claimed :: "DB \<Rightarrow> string set" where
  "claimed db = pu_UserID ` set (db_handles db)"

definition available :: "DB \<Rightarrow> string \<Rightarrow> bool" where
  "available db s = (public_label s \<and> s \<notin> claimed db)"

definition base_ok :: "string \<Rightarrow> bool" where
  "base_ok b = (b \<noteq> [] \<and> length b \<le> 63 \<and> list_all user_id_char b \<and> hd b \<noteq> CHR ''-'' \<and> last b \<noteq> CHR ''-'')"

lemma loop_guard: "(ValidateUserID s = Inr () \<and> handles_ByUserID db s = Inl ErrNotFound) = available db s"
  by (auto simp: available_def claimed_def ValidateUserID_ok handles_ByUserID_def found_def lookup_row_None
      dest: lookup_row_Some split: option.splits)

lemma sanitize_chars: "list_all user_id_char (userIDSanitizeRE_replace s)"
  by (induction s rule: userIDSanitizeRE_replace.induct) (simp_all add: user_id_char_def)

lemma trim_right_keeps: "s \<noteq> [] \<Longrightarrow> hd s \<noteq> c \<Longrightarrow> trim_right_char c s \<noteq> [] \<and> hd (trim_right_char c s) = hd s"
proof -
  assume s: "s \<noteq> []" "hd s \<noteq> c"
  then obtain h t where "s = h # t" "h \<noteq> c" by (cases s) auto
  then have "trim_right_char c s \<noteq> []" by (simp add: trim_right_char_def dropWhile_eq_Nil_conv)
  moreover from trim_right_char_prefix [of c s] obtain zs where "s = trim_right_char c s @ zs" by (auto simp: prefix_def)
  ultimately show ?thesis by (metis hd_append2)
qed

lemma base_trim:
  assumes "b \<noteq> []" "hd b \<noteq> CHR ''-''" "list_all user_id_char b" "length b \<le> 63"
  shows "base_ok (trim_right_char CHR ''-'' b)"
proof -
  have ne: "trim_right_char CHR ''-'' b \<noteq> []" "hd (trim_right_char CHR ''-'' b) = hd b"
    using trim_right_keeps assms(1,2) by auto
  moreover have "prefix (trim_right_char CHR ''-'' b) b" by (rule trim_right_char_prefix)
  ultimately show ?thesis
    using assms last_trim_right_char [OF ne(1)]
    by (auto simp: base_ok_def list_all_iff dest: prefix_length_le set_mono_prefix)
qed

lemma user_id_base_ok: "base_ok (user_id_base email)"
proof -
  define s where "s = trim_char CHR ''-'' (userIDSanitizeRE_replace (to_lower (fst (cut CHR ''@'' email))))"
  have chars: "list_all user_id_char s"
    using set_trim_char sanitize_chars unfolding s_def list_all_iff by blast
  show ?thesis
  proof (cases "s = []")
    case True
    then have "user_id_base email = ''user''" by (simp add: user_id_base_def sanitizeUserID_def s_def)
    moreover have "base_ok ''user''" by (simp add: base_ok_def user_id_char_def is_lower_def)
    ultimately show ?thesis by simp
  next
    case False
    then have h: "hd s \<noteq> CHR ''-''" and l: "last s \<noteq> CHR ''-''"
      using hd_trim_char last_trim_right_char unfolding s_def trim_char_def by blast+
    let ?t = "trim_right_char CHR ''-'' (take 63 s)"
    have "base_ok ?t"
      using False h chars by (intro base_trim) (auto simp: hd_take list_all_iff dest: in_set_takeD)
    moreover have "length s \<le> 63 \<Longrightarrow> base_ok s" using False h l chars by (simp add: base_ok_def)
    moreover have "user_id_base email = (if 63 < length s then ?t else s)"
      using False calculation(1) by (simp add: user_id_base_def sanitizeUserID_def Let_def maxUserIDLength_def base_ok_def flip: s_def)
    ultimately show ?thesis by auto
  qed
qed

lemma suffix_trimmed:
  assumes "base_ok b" "length (int_str n) < 62"
  obtains t where "suffixUserID b n = t @ CHR ''-'' # int_str n" "prefix t b" "base_ok t"
    "length t + length (int_str n) < 63" "length b + length (int_str n) < 63 \<Longrightarrow> t = b"
proof (cases "length b + Suc (length (int_str n)) > 63")
  case True
  let ?k = "63 - Suc (length (int_str n))"
  let ?t = "trim_right_char CHR ''-'' (take ?k b)"
  have "0 < ?k" using assms(2) by simp
  then have ok: "base_ok ?t"
    using assms(1) by (intro base_trim) (auto simp: base_ok_def hd_take list_all_iff dest: in_set_takeD)
  have p: "prefix ?t (take ?k b)" by (rule trim_right_char_prefix)
  then have "length ?t \<le> ?k" using prefix_length_le by fastforce
  then show ?thesis
    using True ok assms(2) prefix_order.order_trans [OF p take_is_prefix]
    by (intro that [of ?t]) (auto simp: suffixUserID_def Let_def maxUserIDLength_def)
next
  case False
  then show ?thesis using assms by (intro that [of b]) (auto simp: suffixUserID_def Let_def maxUserIDLength_def)
qed

lemma length_nat_str: "n < 10 ^ k \<Longrightarrow> 0 < k \<Longrightarrow> length (nat_str n) \<le> k"
proof (induction n arbitrary: k rule: nat_str.induct)
  case (1 n)
  show ?case
  proof (cases "n < 10")
    case True
    then show ?thesis using 1(3) by (simp add: nat_str.simps [of n])
  next
    case False
    with 1(2) obtain j where k: "k = Suc j" "0 < j" using 1(3) by (cases k) (auto, cases "k - 1", auto)
    then have "n div 10 < 10 ^ j" using 1(2) by (simp add: less_mult_imp_div_less mult.commute)
    then show ?thesis using 1(1) False k by (simp add: nat_str.simps [of n])
  qed
qed

lemma length_int64_str:
  assumes "- (2 ^ 63) \<le> n" "n < 2 ^ 63"
  shows "length (int_str n) \<le> 20"
proof -
  have "length (nat_str (nat n)) \<le> 19" by (rule length_nat_str) (use assms in \<open>simp_all add: nat_less_iff\<close>)
  moreover have "length (nat_str (nat (- n))) \<le> 19" by (rule length_nat_str) (use assms in \<open>simp_all add: nat_less_iff\<close>)
  ultimately show ?thesis by (auto simp: int_str_def)
qed

text \<open>Numbered candidates of an unreserved base are valid and pairwise different.\<close>

lemma suffix_label:
  assumes "base_ok b" "\<not> prefix ''xn--'' b" "0 \<le> n" "n < 2 ^ 63"
  shows "public_label (suffixUserID b n)"
proof -
  have len: "length (int_str n) < 62" using length_int64_str [of n] assms(3,4) by simp
  have digs: "\<forall>c \<in> set (int_str n). is_digit c" "int_str n \<noteq> []"
    using assms(3) nat_str_digits by (auto simp: int_str_def)
  obtain t where t: "suffixUserID b n = t @ CHR ''-'' # int_str n" "prefix t b" "base_ok t"
    "length t + length (int_str n) < 63" using suffix_trimmed [OF assms(1) len] by metis
  have chars: "list_all (\<lambda>c. label_char c \<or> c = CHR ''-'') (suffixUserID b n)"
    using t(3) digs(1) by (auto simp: t(1) base_ok_def user_id_char_def label_char_def list_all_iff)
  have "CHR ''-'' \<in> set (suffixUserID b n)" by (simp add: t(1))
  then have res: "suffixUserID b n \<notin> set ReservedNames" by (auto simp: ReservedNames_def)
  have "is_digit (last (int_str n))" using digs by simp
  then have last: "last (suffixUserID b n) \<noteq> CHR ''-''" using digs(2) by (auto simp: t(1) is_digit_def)
  have "\<not> prefix ''xn--'' (suffixUserID b n)"
  proof
    assume p: "prefix ''xn--'' (suffixUserID b n)"
    obtain d ds where d: "int_str n = d # ds" "is_digit d" using digs by (cases "int_str n") auto
    have "d \<noteq> CHR ''-''" using d(2) by (auto simp: is_digit_def)
    then have "prefix ''xn--'' t \<or> t = ''xn-'' \<or> t = []"
      using p d(1) by (cases t; cases "tl t"; cases "tl (tl t)"; cases "tl (tl (tl t))") (auto simp: t(1))
    then show False using t(2,3) assms(2) prefix_order.order_trans [of "''xn--''" t b] by (auto simp: base_ok_def)
  qed
  then show ?thesis using t(3,4) chars res last
    by (auto simp: public_label_def t(1) base_ok_def hd_append)
qed

lemma suffix_inj:
  assumes "base_ok b" "0 \<le> m" "m < 2 ^ 63" "0 \<le> n" "n < 2 ^ 63" "suffixUserID b m = suffixUserID b n"
  shows "m = n"
proof -
  have nd: "CHR ''-'' \<notin> set (int_str k)" if "0 \<le> k" for k
    using that nat_str_digits [of "CHR ''-''" "nat k"] by (auto simp: is_digit_def int_str_def)
  have cut: "takeWhile (\<lambda>c. c \<noteq> CHR ''-'') (rev (s @ CHR ''-'' # int_str k)) = rev (int_str k)" if "0 \<le> k" for s k
    using nd [OF that] by (subst rev_append, subst rev.simps, subst append_assoc, subst takeWhile_append2) auto
  have len: "length (int_str m) < 62" "length (int_str n) < 62"
    using length_int64_str [of m] length_int64_str [of n] assms by simp_all
  obtain s t where "suffixUserID b m = s @ CHR ''-'' # int_str m" "suffixUserID b n = t @ CHR ''-'' # int_str n"
    using suffix_trimmed [OF assms(1) len(1)] suffix_trimmed [OF assms(1) len(2)] by metis
  then have "rev (int_str m) = rev (int_str n)" using cut [OF assms(2)] cut [OF assms(4)] assms(6) by metis
  then show ?thesis using int_str_inj by simp
qed

section \<open>The loop\<close>

lemma derive_loop_sound: "derive_loop db b c n = Some s \<Longrightarrow> available db s"
  by (rule derive_loop.raw_induct [rotated]) (auto simp: loop_guard split: if_splits)

lemma derive_loop_reaches:
  assumes "available db (suffixUserID b (n + int j))" "n + int j < 2 ^ 63"
  shows "derive_loop db b c n \<noteq> None"
  using assms
proof (induction j arbitrary: c n)
  case 0
  then show ?case by (simp add: derive_loop.simps [of db b c] derive_loop.simps [of db b "suffixUserID b n"] loop_guard)
next
  case (Suc j)
  then have "int64_succ n = n + 1" by (simp add: int64_succ_def)
  moreover have "derive_loop db b (suffixUserID b n) (n + 1) \<noteq> None"
    using Suc.prems by (intro Suc.IH) (simp_all add: algebra_simps)
  ultimately show ?case by (simp add: derive_loop.simps [of db b c])
qed

text \<open>With \<open>k\<close> claimed IDs, one of the first \<open>k + 1\<close> numbered candidates is free.\<close>

lemma some_candidate_free:
  assumes "base_ok b" "\<not> prefix ''xn--'' b" "int (length (db_handles db)) < 10 ^ 18"
  shows "\<exists>j \<le> length (db_handles db). available db (suffixUserID b (2 + int j))"
proof (rule ccontr)
  let ?k = "length (db_handles db)" and ?f = "\<lambda>j. suffixUserID b (2 + int j)"
  assume "\<not> ?thesis"
  moreover have "public_label (?f j)" if "j \<le> ?k" for j
    using suffix_label [OF assms(1,2)] assms(3) that by simp
  ultimately have "?f ` {..?k} \<subseteq> claimed db" by (auto simp: available_def)
  then have "card (?f ` {..?k}) \<le> card (claimed db)" by (rule card_mono [rotated]) (simp add: claimed_def)
  also have "\<dots> \<le> ?k" unfolding claimed_def using card_image_le card_length le_trans by blast
  finally have "card (?f ` {..?k}) \<le> ?k" .
  moreover have "inj_on ?f {..?k}"
    by (rule inj_onI) (use suffix_inj [OF assms(1), of "2 + int _" "2 + int _"] assms(3) in simp)
  ultimately show False by (simp add: card_image)
qed

lemma derive_loop_stuck:
  assumes "prefix ''xn--'' b" "length b \<le> 42" "prefix ''xn--'' c" "- (2 ^ 63) \<le> n" "n < 2 ^ 63"
  shows "derive_loop db b c n = None"
proof -
  have "length b \<le> 42 \<longrightarrow> prefix ''xn--'' b \<longrightarrow> prefix ''xn--'' c \<longrightarrow> - (2 ^ 63) \<le> n \<longrightarrow> n < 2 ^ 63 \<longrightarrow> False"
    if "derive_loop db b c n = Some s" for s
    using that
  proof (rule derive_loop.raw_induct [rotated], goal_cases)
    case (1 f db b c n s)
    show ?case
    proof (intro impI)
      assume b: "length b \<le> 42" "prefix ''xn--'' b" and c: "prefix ''xn--'' c" and n: "- (2 ^ 63) \<le> n" "n < 2 ^ 63"
      have "\<not> available db c" using c by (simp add: available_def public_label_def)
      then have next_round: "f db b (suffixUserID b n) (int64_succ n) = Some s" using 1(2) by (simp add: loop_guard)
      have "suffixUserID b n = b @ CHR ''-'' # int_str n"
        using length_int64_str [OF n] b(1) by (simp add: suffixUserID_def Let_def maxUserIDLength_def)
      then have "prefix ''xn--'' (suffixUserID b n)" using b(2) by (simp only: prefix_prefix)
      moreover have "- (2 ^ 63) \<le> int64_succ n" "int64_succ n < 2 ^ 63" using n by (auto simp: int64_succ_def)
      ultimately show False using 1(1) [OF next_round] b by blast
    qed
  qed
  with assms show ?thesis by (cases "derive_loop db b c n") auto
qed

text \<open>
  C34. Deriving a User ID, with fewer than 10 to the 18 IDs stored: a result is always a valid, unreserved DNS label that no one
  has claimed, so storing it for a user without an ID succeeds. The search ends
  for every e-mail address whose sanitized local part does not start with
  \<^verbatim>\<open>xn--\<close>. For a sanitized local part that starts with it and has at most 42 characters, the search never ends:
  every candidate keeps the reserved prefix. For longer ones nothing is said: a suffix may cut the
  prefix's last hyphen off, and then the search can end.
\<close>

theorem DeriveUserID_outcome:
  assumes "int (length (db_handles db)) < 10 ^ 18"
  shows "(\<forall>s. DeriveUserID db email = Some s \<longrightarrow> ValidateUserID s = Inr ()
        \<and> handles_ByUserID db s = Inl ErrNotFound
        \<and> (handles_ByOwner db i = Inl ErrNotFound \<longrightarrow>
             is_ok (snd (handles_Create db now \<lparr>pu_UserID = s, pu_InternalUserID = i, pu_CreatedAt = 0, pu_UpdatedAt = 0\<rparr>))))
    \<and> (\<not> prefix ''xn--'' (user_id_base email) \<longrightarrow> (\<exists>s. DeriveUserID db email = Some s))
    \<and> (prefix ''xn--'' (user_id_base email) \<and> length (user_id_base email) \<le> 42 \<longrightarrow> DeriveUserID db email = None)"
proof (intro conjI allI impI)
  fix s assume "DeriveUserID db email = Some s"
  then have av: "available db s" unfolding DeriveUserID_def by (rule derive_loop_sound)
  then show "ValidateUserID s = Inr ()" "handles_ByUserID db s = Inl ErrNotFound" using loop_guard by blast+
  assume "handles_ByOwner db i = Inl ErrNotFound"
  then have "\<not> has_row pu_InternalUserID i (db_handles db)"
    by (auto simp: handles_ByOwner_def found_def lookup_row_None has_row_def split: option.splits)
  then show "is_ok (snd (handles_Create db now \<lparr>pu_UserID = s, pu_InternalUserID = i, pu_CreatedAt = 0, pu_UpdatedAt = 0\<rparr>))"
    using av by (simp add: handles_Create_def Let_def has_row_def available_def claimed_def)
next
  assume "\<not> prefix ''xn--'' (user_id_base email)"
  then obtain j where "j \<le> length (db_handles db)" "available db (suffixUserID (user_id_base email) (2 + int j))"
    using some_candidate_free [OF user_id_base_ok _ assms] by blast
  then show "\<exists>s. DeriveUserID db email = Some s"
    using derive_loop_reaches [of db "user_id_base email" 2 j] assms by (simp add: DeriveUserID_def)
next
  assume "prefix ''xn--'' (user_id_base email) \<and> length (user_id_base email) \<le> 42"
  then show "DeriveUserID db email = None" by (simp add: DeriveUserID_def derive_loop_stuck)
qed

text \<open>A base with the prefix, too long to keep it: the search ends.\<close>

lemma DeriveUserID_long_base:
  "DeriveUserID empty_db (''xn'' @ replicate 60 (CHR ''-'') @ ''a@example.com'') = Some ''xn-2''"
  by code_simp

theorem DeriveUserID_outcome_witness:
  "(\<exists>s. DeriveUserID empty_db ''Jane.Doe@example.com'' = Some s) \<and> DeriveUserID empty_db ''xn--a@example.com'' = None"
proof
  have "user_id_base ''Jane.Doe@example.com'' = ''jane-doe''" "user_id_base ''xn--a@example.com'' = ''xn--a''"
    by code_simp+
  moreover have "int (length (db_handles empty_db)) < 10 ^ 18" by (simp add: empty_db_def)
  note DeriveUserID_outcome [OF this]
  ultimately show "\<exists>s. DeriveUserID empty_db ''Jane.Doe@example.com'' = Some s"
    "DeriveUserID empty_db ''xn--a@example.com'' = None" by auto
qed

end
