(* ===== verification/GoGlob.thy ===== *)
theory GoGlob
  imports Prelude
begin

text \<open>
  \<^verbatim>\<open>filepath.Match\<close> of the Go standard library on a Unix system, for ASCII patterns and
  names: \<open>*\<close> and \<open>?\<close> do not match the separator, character classes may be negated, a
  backslash quotes the next character, and a malformed pattern is an error (\<open>None\<close>).
\<close>

section \<open>Chunks\<close>

text \<open>\<open>scanChunk\<close>: leading stars, then the text up to the next star outside a class.\<close>

fun scan_len :: "bool \<Rightarrow> string \<Rightarrow> nat" where
  "scan_len inrange [] = 0"
| "scan_len inrange (c # p) =
     (if c = CHR 0x5C then (case p of [] \<Rightarrow> 1 | _ # q \<Rightarrow> 2 + scan_len inrange q)
      else if c = CHR ''['' then 1 + scan_len True p
      else if c = CHR '']'' then 1 + scan_len False p
      else if c = CHR ''*'' \<and> \<not> inrange then 0
      else 1 + scan_len inrange p)"

definition scanChunk :: "string \<Rightarrow> bool \<times> string \<times> string" where
  "scanChunk pattern =
     (let p = dropWhile (\<lambda>c. c = CHR ''*'') pattern; i = scan_len False p in
      (prefix ''*'' pattern, take i p, drop i p))"

definition getEsc :: "string \<Rightarrow> (char \<times> string) option" where
  "getEsc chunk =
     (if chunk = [] \<or> hd chunk = CHR ''-'' \<or> hd chunk = CHR '']'' then None
      else let c = (if hd chunk = CHR 0x5C then tl chunk else chunk) in
        if c = [] \<or> tl c = [] then None else Some (hd c, tl c))"

lemma getEsc_shorter: "getEsc chunk = Some (r, rest) \<Longrightarrow> length rest < length chunk"
  by (cases chunk) (auto simp: getEsc_def Let_def split: if_splits)

text \<open>The ranges of a character class for the character \<open>r\<close>: whether one matched, and the rest.\<close>

function class_ranges :: "char \<Rightarrow> bool \<Rightarrow> bool \<Rightarrow> string \<Rightarrow> (bool \<times> string) option" where
  "class_ranges r matched some_range chunk =
     (if chunk \<noteq> [] \<and> hd chunk = CHR '']'' \<and> some_range then Some (matched, tl chunk)
      else case getEsc chunk of
        None \<Rightarrow> None
      | Some (lo, c1) \<Rightarrow>
          (if hd c1 = CHR ''-'' then
             (case getEsc (tl c1) of
                None \<Rightarrow> None
              | Some (hi, c2) \<Rightarrow> class_ranges r (matched \<or> lo \<le> r \<and> r \<le> hi) True c2)
           else class_ranges r (matched \<or> lo = r) True c1))"
  by pat_completeness auto

termination
proof (relation "measure (\<lambda>(r, m, b, chunk). length chunk)", goal_cases)
  case (2 r matched some_range chunk x lo c1 y hi c2)
  then have "length c1 < length chunk" "length c2 < length (tl c1)" by (auto dest: getEsc_shorter)
  then show ?case by simp
qed (auto dest: getEsc_shorter)

declare class_ranges.simps [simp del]

lemma class_ranges_shorter: "class_ranges r m b chunk = Some (m', rest) \<Longrightarrow> length rest < length chunk"
proof (induction r m b chunk rule: class_ranges.induct)
  case (1 r m b chunk)
  show ?case
  proof (cases "chunk \<noteq> [] \<and> hd chunk = CHR '']'' \<and> b")
    case True
    then show ?thesis using 1(3) by (cases chunk) (simp_all add: class_ranges.simps)
  next
    case False
    then obtain lo c1 where e: "getEsc chunk = Some (lo, c1)"
      using 1(3) by (auto simp: class_ranges.simps [of r m b] split: option.splits)
    show ?thesis
    proof (cases "hd c1 = CHR ''-''")
      case True
      then obtain hi c2 where f: "getEsc (tl c1) = Some (hi, c2)"
        using 1(3) False e by (auto simp: class_ranges.simps [of r m b] split: option.splits)
      then have "length rest < length c2"
        using 1(3) False e True by (intro 1(1)) (auto simp: class_ranges.simps [of r m b])
      then show ?thesis using getEsc_shorter [OF e] getEsc_shorter [OF f] by simp
    next
      case neq: False
      then have "length rest < length c1"
        using 1(3) False e by (intro 1(2)) (auto simp: class_ranges.simps [of r m b])
      then show ?thesis using getEsc_shorter [OF e] by simp
    qed
  qed
qed

text \<open>
  \<open>matchChunk\<close>: the rest of the name after the chunk, \<open>Some None\<close> when it does not match
  and \<open>None\<close> for a bad pattern, which is found even after a mismatch. In \<open>failed\<close> mode the
  name is no longer read and a class is checked against the zero rune.
\<close>

function matchChunk :: "string \<Rightarrow> string \<Rightarrow> bool \<Rightarrow> string option option" where
  "matchChunk chunk s failed0 =
     (if chunk = [] then Some (if failed0 then None else Some s)
      else
        let failed = failed0 \<or> s = []; c = hd chunk; rest = tl chunk in
        if c = CHR ''['' then
          (let r = (if failed then CHR 0x00 else hd s); s' = (if failed then s else tl s);
               negated = prefix ''^'' rest in
           case class_ranges r False False (if negated then tl rest else rest) of
             None \<Rightarrow> None
           | Some (m, rest') \<Rightarrow> matchChunk rest' s' (failed \<or> m = negated))
        else if c = CHR ''?'' then
          matchChunk rest (if failed then s else tl s) (failed \<or> hd s = CHR ''/'')
        else if c = CHR 0x5C \<and> rest = [] then None
        else
          (let d = (if c = CHR 0x5C then hd rest else c); rest' = (if c = CHR 0x5C then tl rest else rest) in
           matchChunk rest' (if failed then s else tl s) (failed \<or> d \<noteq> hd s)))"
  by pat_completeness auto

termination
proof (relation "measure (\<lambda>(chunk, s, f). length chunk)", goal_cases)
  case (2 chunk s failed0 failed c rest r s' negated x m rest')
  then have "length rest' < length (if negated then tl rest else rest)" by (auto dest: class_ranges_shorter)
  also have "\<dots> \<le> length rest" by simp
  finally show ?case using 2 by (cases chunk) auto
qed (auto simp: length_greater_0_conv [symmetric] simp del: length_greater_0_conv)

declare matchChunk.simps [simp del]

section \<open>Matching\<close>

text \<open>Skipping \<open>i + 1\<close> bytes after a star, never across a separator.\<close>

fun star_skip :: "string \<Rightarrow> bool \<Rightarrow> string \<Rightarrow> string option option" where
  "star_skip chunk is_last [] = Some None"
| "star_skip chunk is_last (c # name) =
     (if c = CHR ''/'' then Some None
      else case matchChunk chunk name False of
        None \<Rightarrow> None
      | Some (Some t) \<Rightarrow> if is_last \<and> t \<noteq> [] then star_skip chunk is_last name else Some (Some t)
      | Some None \<Rightarrow> star_skip chunk is_last name)"

lemma scan_len_pos: "p \<noteq> [] \<Longrightarrow> hd p \<noteq> CHR ''*'' \<Longrightarrow> 0 < scan_len False p"
  by (cases p) (auto split: list.splits)

lemma scanChunk_shorter: "pattern \<noteq> [] \<Longrightarrow> scanChunk pattern = (star, chunk, rest) \<Longrightarrow> length rest < length pattern"
proof -
  assume ne: "pattern \<noteq> []" and s: "scanChunk pattern = (star, chunk, rest)"
  let ?p = "dropWhile (\<lambda>c. c = CHR ''*'') pattern"
  have rest: "rest = drop (scan_len False ?p) ?p" using s by (simp add: scanChunk_def Let_def)
  have le: "length ?p \<le> length pattern" by (rule length_dropWhile_le)
  show "length rest < length pattern"
  proof (cases "?p = []")
    case True
    then have "rest = []" unfolding rest by (simp only: drop_Nil)
    then show ?thesis using ne by simp
  next
    case False
    then have "hd ?p \<noteq> CHR ''*''" using hd_dropWhile [of "\<lambda>c. c = CHR ''*''" pattern] by simp
    then have "0 < scan_len False ?p" using False scan_len_pos by blast
    moreover have "0 < length ?p" using False by (simp only: length_greater_0_conv not_False_eq_True)
    ultimately show ?thesis unfolding rest length_drop using le by linarith
  qed
qed

text \<open>Before reporting a mismatch the rest of the pattern is checked for errors.\<close>

function pattern_ok :: "string \<Rightarrow> bool" where
  "pattern_ok pattern =
     (if pattern = [] then True
      else case scanChunk pattern of (_, chunk, rest) \<Rightarrow> if matchChunk chunk [] False = None then False else pattern_ok rest)"
  by pat_completeness auto

termination
  by (relation "measure length") (auto intro: scanChunk_shorter [OF _ sym])

definition mismatch :: "string \<Rightarrow> bool option" where
  "mismatch rest = (if pattern_ok rest then Some False else None)"

function filepath_Match :: "string \<Rightarrow> string \<Rightarrow> bool option" where
  "filepath_Match pattern name =
     (if pattern = [] then Some (name = [])
      else case scanChunk pattern of (star, chunk, rest) \<Rightarrow>
        if star \<and> chunk = [] then Some (CHR ''/'' \<notin> set name)
        else case matchChunk chunk name False of
          None \<Rightarrow> None
        | Some first \<Rightarrow>
            (case (if first \<noteq> None \<and> (first = Some [] \<or> rest \<noteq> []) then Some first
                   else if star then star_skip chunk (rest = []) name else Some None) of
               None \<Rightarrow> None
             | Some (Some t) \<Rightarrow> filepath_Match rest t
             | Some None \<Rightarrow> mismatch rest))"
  by pat_completeness auto

termination
  by (relation "measure (\<lambda>(pattern, name). length pattern)") (auto intro: scanChunk_shorter [OF _ sym])

section \<open>Patterns without special characters\<close>

definition plain_char :: "char \<Rightarrow> bool" where
  "plain_char c = (c \<notin> {CHR ''*'', CHR ''?'', CHR ''['', CHR '']'', CHR 0x5C})"

lemma scan_len_plain: "list_all plain_char p \<Longrightarrow> scan_len False (p @ rest) = length p + scan_len False rest"
  by (induction p) (auto simp: plain_char_def)

lemma matchChunk_plain:
  "list_all plain_char p \<Longrightarrow> matchChunk p s f = Some (if \<not> f \<and> prefix p s then Some (drop (length p) s) else None)"
proof (induction p arbitrary: s f)
  case Nil
  then show ?case by (simp add: matchChunk.simps)
next
  case (Cons c p)
  have "matchChunk (c # p) s f = matchChunk p (if f \<or> s = [] then s else tl s) (f \<or> s = [] \<or> c \<noteq> hd s)"
    using Cons.prems by (subst matchChunk.simps) (simp add: plain_char_def Let_def)
  with Cons show ?case by (cases s) auto
qed

lemma plain_not_star: "list_all plain_char p \<Longrightarrow> \<not> prefix ''*'' p \<and> dropWhile (\<lambda>c. c = CHR ''*'') p = p"
  by (cases p) (auto simp: plain_char_def)

text \<open>A literal pattern matches exactly itself.\<close>

lemma filepath_Match_literal:
  assumes "list_all plain_char p"
  shows "filepath_Match p name = Some (name = p)"
proof (cases "p = []")
  case True
  then show ?thesis by (simp add: filepath_Match.simps)
next
  case False
  have "scanChunk p = (False, p, [])"
    using plain_not_star [OF assms] scan_len_plain [OF assms, of "[]"] by (simp add: scanChunk_def Let_def)
  then show ?thesis using False
    by (subst filepath_Match.simps)
       (auto simp: matchChunk_plain [OF assms] mismatch_def pattern_ok.simps filepath_Match.simps [of "[]"] prefix_def)
qed

text \<open>A star before a literal matches what ends in the literal, with no separator before it.\<close>

lemma star_skip_plain:
  assumes "list_all plain_char p" "p \<noteq> []"
  shows "star_skip p True name =
    Some (if \<exists>pre. pre \<noteq> [] \<and> name = pre @ p \<and> CHR ''/'' \<notin> set pre then Some [] else None)"
proof (induction name)
  case Nil
  then show ?case by auto
next
  case (Cons c name)
  define ends where "ends = (\<lambda>n. \<exists>pre. pre \<noteq> [] \<and> n = pre @ p \<and> CHR ''/'' \<notin> set pre)"
  have step: "ends (c # name) = (c \<noteq> CHR ''/'' \<and> (name = p \<or> ends name))"
    unfolding ends_def by (auto simp: Cons_eq_append_conv)
  have "matchChunk p name False = Some (if prefix p name then Some (drop (length p) name) else None)"
    using matchChunk_plain [OF assms(1)] by simp
  moreover have "prefix p name \<and> drop (length p) name = [] \<longleftrightarrow> name = p" by (auto simp: prefix_def)
  ultimately have "star_skip p True (c # name) = (if c = CHR ''/'' then Some None
      else if name = p then Some (Some []) else star_skip p True name)"
    by (cases "prefix p name") auto
  also have "star_skip p True name = Some (if ends name then Some [] else None)"
    using Cons.IH by (simp only: ends_def)
  finally have "star_skip p True (c # name) = Some (if ends (c # name) then Some [] else None)"
    by (simp add: step)
  then show ?case by (simp only: ends_def)
qed

lemma filepath_Match_star:
  assumes "list_all plain_char p" "p \<noteq> []"
  shows "filepath_Match (CHR ''*'' # p) name = Some (\<exists>pre. name = pre @ p \<and> CHR ''/'' \<notin> set pre)"
proof -
  have sc: "scanChunk (CHR ''*'' # p) = (True, p, [])"
    using plain_not_star [OF assms(1)] scan_len_plain [OF assms(1), of "[]"] by (simp add: scanChunk_def Let_def)
  have ex: "(\<exists>pre. name = pre @ p \<and> CHR ''/'' \<notin> set pre) \<longleftrightarrow>
      name = p \<or> (\<exists>pre. pre \<noteq> [] \<and> name = pre @ p \<and> CHR ''/'' \<notin> set pre)"
    by (metis append_Nil empty_iff list.set(1))
  have exact: "prefix p name \<and> drop (length p) name = [] \<longleftrightarrow> name = p" by (auto simp: prefix_def)
  show ?thesis
    using ex exact assms(2)
    by (subst filepath_Match.simps)
       (auto simp: sc matchChunk_plain [OF assms(1)] star_skip_plain [OF assms] mismatch_def pattern_ok.simps
         filepath_Match.simps [of "[]"] split: if_splits)
qed

end
