(* ===== verification/GoEncoding.thy ===== *)
theory GoEncoding
  imports Prelude
begin

text \<open>
  The byte encodings of the Go standard library the servers use for secrets, tokens and
  cookies: \<^verbatim>\<open>hex.EncodeToString\<close> and \<^verbatim>\<open>base64.RawURLEncoding\<close> (URL alphabet, no
  padding). Decoding follows the library: carriage returns and line feeds are skipped,
  the unused low bits of a final short group are ignored, and a single left-over
  character is an error.
\<close>

section \<open>Hexadecimal\<close>

definition hex_digit :: "nat \<Rightarrow> char" where
  "hex_digit n = (if n < 10 then char_of (48 + n) else char_of (87 + n))"

definition hex_encode :: "bytes \<Rightarrow> string" where
  "hex_encode b = concat (map (\<lambda>c. [hex_digit (of_char c div 16), hex_digit (of_char c mod 16)]) b)"

section \<open>Base64, URL alphabet, unpadded\<close>

definition b64_char :: "nat \<Rightarrow> char" where
  "b64_char n =
     (if n < 26 then char_of (65 + n) else if n < 52 then char_of (71 + n)
      else if n < 62 then char_of (n - 4) else if n = 62 then CHR ''-'' else CHR ''_'')"

definition b64_val :: "char \<Rightarrow> nat option" where
  "b64_val c =
     (if is_upper c then Some (of_char c - 65) else if is_lower c then Some (of_char c - 71)
      else if is_digit c then Some (of_char c + 4) else if c = CHR ''-'' then Some 62
      else if c = CHR ''_'' then Some 63 else None)"

fun b64_encode :: "bytes \<Rightarrow> string" where
  "b64_encode (a # b # c # bs) =
     (let n = of_char a * 65536 + of_char b * 256 + (of_char c :: nat) in
      b64_char (n div 262144) # b64_char (n div 4096 mod 64) # b64_char (n div 64 mod 64) # b64_char (n mod 64)
        # b64_encode bs)"
| "b64_encode [a, b] =
     (let n = of_char a * 1024 + of_char b * (4 :: nat) in
      [b64_char (n div 4096), b64_char (n div 64 mod 64), b64_char (n mod 64)])"
| "b64_encode [a] = (let n = of_char a * (16 :: nat) in [b64_char (n div 64), b64_char (n mod 64)])"
| "b64_encode [] = []"

fun b64_groups :: "nat list \<Rightarrow> bytes option" where
  "b64_groups (a # b # c # d # vs) =
     (let n = a * 262144 + b * 4096 + c * 64 + d in
      map_option (\<lambda>bs. char_of (n div 65536) # char_of (n div 256 mod 256) # char_of (n mod 256) # bs) (b64_groups vs))"
| "b64_groups [a, b, c] =
     (let n = a * 4096 + b * 64 + c in Some [char_of (n div 1024), char_of (n div 4 mod 256)])"
| "b64_groups [a, b] = (let n = a * 64 + b in Some [char_of (n div 16)])"
| "b64_groups [a] = None"
| "b64_groups [] = Some []"

definition b64_decode :: "string \<Rightarrow> bytes option" where
  "b64_decode s =
     (case those (map b64_val (filter (\<lambda>c. c \<noteq> CHR 0x0D \<and> c \<noteq> CHR 0x0A) s)) of
        None \<Rightarrow> None | Some vs \<Rightarrow> b64_groups vs)"

text \<open>Decoding inverts encoding, and the alphabet avoids the separators of the tokens.\<close>

lemma b64_char_val: "n < 64 \<Longrightarrow> b64_val (b64_char n) = Some n"
proof -
  have "list_all (\<lambda>n. b64_val (b64_char n) = Some n) [0..<64]" by code_simp
  then show "n < 64 \<Longrightarrow> ?thesis" by (simp add: list_all_iff)
qed

lemma of_char_less [simp]: "(of_char c :: nat) < 256"
  by simp

fun b64_vals :: "bytes \<Rightarrow> nat list" where
  "b64_vals (a # b # c # bs) =
     (let n = of_char a * 65536 + of_char b * 256 + (of_char c :: nat) in
      n div 262144 # n div 4096 mod 64 # n div 64 mod 64 # n mod 64 # b64_vals bs)"
| "b64_vals [a, b] = (let n = of_char a * 1024 + of_char b * (4 :: nat) in [n div 4096, n div 64 mod 64, n mod 64])"
| "b64_vals [a] = (let n = of_char a * (16 :: nat) in [n div 64, n mod 64])"
| "b64_vals [] = []"

lemma b64_encode_vals: "b64_encode b = map b64_char (b64_vals b)"
  by (induction b rule: b64_encode.induct) (simp_all add: Let_def)

lemma div_mod_step: "n div (k * 64) * 64 + n div k mod 64 = n div (k :: nat)"
  by (simp add: div_mult2_eq)

lemma b64_recompose:
  fixes n :: nat
  shows "n div 262144 * 262144 + n div 4096 mod 64 * 4096 + n div 64 mod 64 * 64 + n mod 64 = n"
    and "n div 4096 * 4096 + n div 64 mod 64 * 64 + n mod 64 = n"
proof -
  note steps = div_mult_mod_eq [of n 64] div_mod_step [of n 64, simplified] div_mod_step [of n 4096, simplified]
  show "n div 4096 * 4096 + n div 64 mod 64 * 64 + n mod 64 = n" using steps(1,2) by linarith
  then show "n div 262144 * 262144 + n div 4096 mod 64 * 4096 + n div 64 mod 64 * 64 + n mod 64 = n"
    using steps(3) by linarith
qed

lemma b64_triple:
  fixes a b c :: nat
  assumes "a < 256" "b < 256" "c < 256"
  defines "n \<equiv> a * 65536 + b * 256 + c"
  shows "n div 262144 < 64" "n div 65536 = a" "n div 256 mod 256 = b" "n mod 256 = c"
proof -
  have q: "n div 256 = a * 256 + b" using assms by simp
  then have r: "n div 65536 = a" using assms(2) div_mult2_eq [of n 256 256] by simp
  then show "n div 65536 = a" "n div 256 mod 256 = b" using q assms(2) by simp_all
  show "n mod 256 = c" using assms(3) by (simp add: n_def mod_add_eq flip: mod_add_left_eq)
  show "n div 262144 < 64" using r assms(1) div_mult2_eq [of n 65536 4] by simp
qed

lemma b64_pair:
  fixes a b :: nat
  assumes "a < 256" "b < 256"
  defines "n \<equiv> a * 1024 + b * 4"
  shows "n div 4096 < 64" "n div 1024 = a" "n div 4 mod 256 = b"
proof -
  have q: "n div 4 = a * 256 + b" unfolding n_def by simp
  then have r: "n div 1024 = a" using assms(2) div_mult2_eq [of n 4 256] by simp
  then show "n div 1024 = a" "n div 4 mod 256 = b" using q assms(2) by simp_all
  show "n div 4096 < 64" using r assms(1) div_mult2_eq [of n 1024 4] by simp
qed

lemma char_of_mod: "n mod 256 = of_char c \<Longrightarrow> char_of (n :: nat) = c"
  by (simp add: char_of_eq_iff take_bit_eq_mod)

lemma b64_vals_less: "v \<in> set (b64_vals b) \<Longrightarrow> v < 64"
proof (induction b rule: b64_vals.induct)
  case (1 a b c bs)
  then show ?case using b64_triple(1) [of "of_char a" "of_char b" "of_char c"] by (auto simp: Let_def)
next
  case (2 a b)
  then show ?case using b64_pair(1) [of "of_char a" "of_char b"] by (auto simp: Let_def)
next
  case (3 a)
  have "(of_char a :: nat) < 256" by simp
  then have "of_char a * (16 :: nat) div 64 < 64" by linarith
  with 3 show ?case by (auto simp: Let_def)
qed simp

lemma b64_groups_vals: "b64_groups (b64_vals b) = Some b"
proof (induction b rule: b64_vals.induct)
  case (1 a b c bs)
  then show ?case using b64_triple(2-) [of "of_char a" "of_char b" "of_char c"]
    by (simp add: Let_def b64_recompose char_of_mod)
next
  case (2 a b)
  then show ?case using b64_pair(2-) [of "of_char a" "of_char b"]
    by (simp add: Let_def b64_recompose char_of_mod)
next
  case (3 a)
  have "of_char a * (16 :: nat) div 64 * 64 + of_char a * 16 mod 64 = of_char a * 16" by (rule div_mult_mod_eq)
  then have "(of_char a * (16 :: nat) div 64 * 64 + of_char a * 16 mod 64) div 16 = of_char a" by simp
  then show ?case by (simp add: Let_def del: div_mult_mult1)
qed simp

lemma those_map_Some: "(\<And>x. x \<in> set xs \<Longrightarrow> f x = Some (g x)) \<Longrightarrow> those (map f xs) = Some (map g xs)"
  by (induction xs) simp_all

lemma b64_val_separators: "b64_val CHR 0x0D = None" "b64_val CHR 0x0A = None" "b64_val CHR ''.'' = None"
  by code_simp+

lemma b64_char_plain: "n < 64 \<Longrightarrow> b64_char n \<noteq> CHR 0x0D \<and> b64_char n \<noteq> CHR 0x0A \<and> b64_char n \<noteq> CHR ''.''"
  using b64_char_val [of n] b64_val_separators by force

lemma b64_decode_encode [simp]: "b64_decode (b64_encode b) = Some b"
proof -
  have "filter (\<lambda>c. c \<noteq> CHR 0x0D \<and> c \<noteq> CHR 0x0A) (b64_encode b) = b64_encode b"
    using b64_vals_less b64_char_plain by (simp add: b64_encode_vals filter_True)
  moreover have "those (map b64_val (b64_encode b)) = Some (b64_vals b)"
    using those_map_Some [of "b64_vals b" "b64_val \<circ> b64_char" id] b64_vals_less b64_char_val
    by (simp add: b64_encode_vals)
  ultimately show ?thesis by (simp add: b64_decode_def b64_groups_vals)
qed

lemma b64_encode_no_dot: "CHR ''.'' \<notin> set (b64_encode b)"
  using b64_vals_less [of _ b] b64_char_plain by (force simp: b64_encode_vals)

lemma b64_encode_inj: "b64_encode a = b64_encode b \<longleftrightarrow> a = b"
  by (metis b64_decode_encode option.inject)

lemma length_b64_encode: "length (b64_encode b) = (length b * 4 + 2) div 3"
  by (induction b rule: b64_encode.induct) (simp_all add: Let_def)

lemma cut_dot: "CHR ''.'' \<notin> set p \<Longrightarrow> cut CHR ''.'' (p @ CHR ''.'' # s) = (p, s, True)"
  by (induction p) (auto simp: cut_def)

end
