(* ===== verification/Login.thy ===== *)
theory Login
  imports UserID GoGlob GoEncoding
begin

text \<open>
  Package auth, the browser side: login rules (loginrules.go), resolving an identity to
  a user at login (login.go), server-side sessions, the authentication checks every
  credential goes through, and CSRF protection (session.go, audit.go).

  Times are nanoseconds, the resolution of \<^verbatim>\<open>time.Time\<close>; the store keeps whole seconds.
  SHA-256 and HMAC are parameters: the theorems hold for every such function. The
  random values of the code (tokens, identifiers) are arguments.
\<close>

section \<open>Time\<close>

definition toUnix :: "int \<Rightarrow> unix" where
  "toUnix t = t div 10 ^ 9"

definition int64_wrap :: "int \<Rightarrow> int" where
  "int64_wrap x = (x + 2 ^ 63) mod 2 ^ 64 - 2 ^ 63"

lemma int64_wrap_id: "- (2 ^ 63) \<le> x \<Longrightarrow> x < 2 ^ 63 \<Longrightarrow> int64_wrap x = x"
  by (simp add: int64_wrap_def)

section \<open>Login rules (loginrules.go)\<close>

definition equal_fold :: "string \<Rightarrow> string \<Rightarrow> bool" where
  "equal_fold a b = (to_lower a = to_lower b)"

definition ruleMatches :: "LoginRule \<Rightarrow> string \<Rightarrow> bool" where
  "ruleMatches r email =
     (case lr_RuleType r of
        LoginRuleTypeDefault \<Rightarrow> True
      | LoginRuleTypeEmailExact \<Rightarrow> equal_fold (trim_space (lr_Value r)) email
      | LoginRuleTypeEmailDomain \<Rightarrow>
          (case cut CHR ''@'' email of (_, domain, ok) \<Rightarrow>
             ok \<and> equal_fold (trim_prefix (trim_space (lr_Value r)) ''@'') domain)
      | LoginRuleTypeEmailGlob \<Rightarrow> filepath_Match (to_lower (trim_space (lr_Value r))) email = Some True)"

fun first_match :: "LoginRule list \<Rightarrow> string \<Rightarrow> bool" where
  "first_match [] email = False"
| "first_match (r # rules) email =
     (if ruleMatches r email then lr_Action r = LoginRuleActionAllow else first_match rules email)"

definition EvaluateLoginRules :: "LoginRule list \<Rightarrow> string \<Rightarrow> bool" where
  "EvaluateLoginRules rules email = first_match rules (to_lower (trim_space email))"

definition checkLoginRules :: "DB \<Rightarrow> string \<Rightarrow> bool" where
  "checkLoginRules db email = EvaluateLoginRules (org_ListLoginRules db) email"

section \<open>The service and its errors (config.go, session.go)\<close>

datatype auth_error =
    ErrUnauthenticated | ErrInvokeForbidden | ErrLoginDenied
  | ErrCLIAuthInvalidRequest | ErrCLIAuthCodeInvalid | ErrPKCEMismatch | ErrCLICredentialInvalid
  | ErrAuthStore store_error | ErrAuthSettings settings_error

record Crypto =
  cr_sha256 :: "bytes \<Rightarrow> bytes"
  cr_hmac :: "bytes \<Rightarrow> bytes \<Rightarrow> bytes"

record AuthService =
  as_BaseURL :: string
  as_ControlOrigin :: string
  as_FunctionDomain :: string
  as_ClientID :: string
  as_OpenMode :: bool
  as_csrfKey :: bytes
  as_invokeKey :: bytes
  as_accessKey :: bytes
  as_controlHost :: string
  as_controlPort :: string

datatype AuthMethod = MethodSession | MethodAccessToken

record AuthActor =
  aa_User :: User
  aa_Method :: AuthMethod
  aa_csrfCookie :: string

text \<open>What the handlers read of a request; a missing header is the empty string.\<close>

record Request =
  rq_Method :: string
  rq_Authorization :: string
  rq_Origin :: string
  rq_CSRFHeader :: string
  rq_Cookies :: "(string \<times> string) list"

definition Cookie :: "Request \<Rightarrow> string \<Rightarrow> string option" where
  "Cookie r name = map_of (rq_Cookies r) name"

definition sha256Hex :: "Crypto \<Rightarrow> bytes \<Rightarrow> string" where
  "sha256Hex c b = hex_encode (cr_sha256 c b)"

definition hmacHex :: "Crypto \<Rightarrow> bytes \<Rightarrow> bytes \<Rightarrow> string" where
  "hmacHex c key d = hex_encode (cr_hmac c key d)"

definition secureCookies :: "AuthService \<Rightarrow> bool" where
  "secureCookies a = (\<not> prefix ''http://'' (as_BaseURL a))"

definition sessionCookieName :: "AuthService \<Rightarrow> string" where
  "sessionCookieName a = (if secureCookies a then ''__Host-fbx_session'' else ''fbx_session_insecure'')"

definition csrfCookieName :: "AuthService \<Rightarrow> string" where
  "csrfCookieName a = (if secureCookies a then ''__Host-fbx_csrf'' else ''fbx_csrf_insecure'')"

section \<open>Checks on a resolved user (session.go)\<close>

definition validateActiveUser :: "DB \<Rightarrow> User \<Rightarrow> auth_error + User" where
  "validateActiveUser db u =
     (if u_Status u \<noteq> UserStatusActive then Inl ErrInvokeForbidden
      else if \<not> checkLoginRules db (u_Email u) then Inl ErrInvokeForbidden
      else Inr u)"

definition validateAuthenticatable :: "DB \<Rightarrow> User \<Rightarrow> auth_error + User" where
  "validateAuthenticatable db u =
     (if u_Status u = UserStatusDisabled then Inl ErrUnauthenticated
      else if \<not> checkLoginRules db (u_Email u) then Inl ErrUnauthenticated
      else Inr u)"

definition loadActiveUser :: "DB \<Rightarrow> string \<Rightarrow> auth_error + User" where
  "loadActiveUser db userID =
     (case users_ByID db userID of Inl _ \<Rightarrow> Inl ErrUnauthenticated | Inr u \<Rightarrow> validateAuthenticatable db u)"

definition loadActiveUserByEmail :: "DB \<Rightarrow> string \<Rightarrow> auth_error + User" where
  "loadActiveUserByEmail db email =
     (case users_ByEmail db email of Inl _ \<Rightarrow> Inl ErrUnauthenticated | Inr u \<Rightarrow> validateActiveUser db u)"

section \<open>Sessions (session.go)\<close>

definition DefaultSessionDuration :: int where
  "DefaultSessionDuration = 7 * 24 * 3600 * 10 ^ 9"

definition sessionDuration :: "DB \<Rightarrow> int" where
  "sessionDuration db =
     (case org_Get db of
        Inl _ \<Rightarrow> DefaultSessionDuration
      | Inr org \<Rightarrow>
          (case ParseOrg (org_Settings org) of
             Inl _ \<Rightarrow> DefaultSessionDuration
           | Inr s \<Rightarrow>
               if so_SessionDurationSeconds s \<le> 0 then DefaultSessionDuration
               else int64_wrap (so_SessionDurationSeconds s * 10 ^ 9)))"

definition createSession :: "Crypto \<Rightarrow> DB \<Rightarrow> int \<Rightarrow> bytes \<Rightarrow> string \<Rightarrow> DB \<times> (auth_error + Session \<times> string)" where
  "createSession c db now raw userID =
     (let s = \<lparr>se_ID = sha256Hex c raw, se_UserID = userID, se_ExpiresAt = toUnix (now + sessionDuration db),
               se_CreatedAt = 0, se_UpdatedAt = 0\<rparr> in
      case sessions_Create db (toUnix now) [] s of
        (db', Inl e) \<Rightarrow> (db', Inl (ErrAuthStore e))
      | (db', Inr s') \<Rightarrow> (db', Inr (s', b64_encode raw)))"

definition authenticateSession :: "Crypto \<Rightarrow> DB \<Rightarrow> int \<Rightarrow> string \<Rightarrow> string \<Rightarrow> DB \<times> (auth_error + AuthActor)" where
  "authenticateSession c db now rawCookie csrfCookie =
     (case b64_decode rawCookie of
        None \<Rightarrow> (db, Inl ErrUnauthenticated)
      | Some raw \<Rightarrow>
          (case sessions_Get db (sha256Hex c raw) (toUnix now) of
             Inl _ \<Rightarrow> (db, Inl ErrUnauthenticated)
           | Inr sess \<Rightarrow>
               (case loadActiveUser db (se_UserID sess) of
                  Inl e \<Rightarrow> (db, Inl e)
                | Inr u \<Rightarrow>
                    (fst (sessions_Refresh db (toUnix now) (se_ID sess) (toUnix (now + sessionDuration db))),
                     Inr \<lparr>aa_User = u, aa_Method = MethodSession, aa_csrfCookie = csrfCookie\<rparr>))))"

definition AuthenticateSessionCookie :: "Crypto \<Rightarrow> AuthService \<Rightarrow> DB \<Rightarrow> int \<Rightarrow> Request \<Rightarrow> DB \<times> (auth_error + AuthActor)" where
  "AuthenticateSessionCookie c a db now r =
     (case Cookie r (sessionCookieName a) of
        None \<Rightarrow> (db, Inl ErrUnauthenticated)
      | Some v \<Rightarrow> authenticateSession c db now v
          (case Cookie r (csrfCookieName a) of None \<Rightarrow> [] | Some cc \<Rightarrow> cc))"

definition handleLogout :: "Crypto \<Rightarrow> AuthService \<Rightarrow> DB \<Rightarrow> Request \<Rightarrow> DB" where
  "handleLogout c a db r =
     (case Cookie r (sessionCookieName a) of
        None \<Rightarrow> db
      | Some v \<Rightarrow>
          (case b64_decode v of None \<Rightarrow> db | Some raw \<Rightarrow> fst (sessions_Delete db (sha256Hex c raw))))"

section \<open>CSRF (session.go)\<close>

datatype csrf_result = CsrfPass | CsrfOriginFailed | CsrfTokenFailed

definition isSafeMethod :: "string \<Rightarrow> bool" where
  "isSafeMethod m = (m = ''GET'' \<or> m = ''HEAD'' \<or> m = ''OPTIONS'')"

definition RequireCSRF :: "AuthService \<Rightarrow> AuthActor option \<Rightarrow> Request \<Rightarrow> csrf_result" where
  "RequireCSRF a actor r =
     (if isSafeMethod (rq_Method r) then CsrfPass
      else case actor of
        None \<Rightarrow> CsrfPass
      | Some act \<Rightarrow>
          if aa_Method act \<noteq> MethodSession then CsrfPass
          else if rq_Origin r = [] \<or> rq_Origin r = ''null'' \<or> rq_Origin r \<noteq> as_ControlOrigin a then CsrfOriginFailed
          else if rq_CSRFHeader r = [] \<or> aa_csrfCookie act = [] \<or> rq_CSRFHeader r \<noteq> aa_csrfCookie act then CsrfTokenFailed
          else CsrfPass)"

section \<open>Signing in (login.go)\<close>

text \<open>
  A handler that never returns has the result \<open>None\<close>; the database is the one it has
  written up to there.
\<close>

definition claimUserID :: "DB \<Rightarrow> int \<Rightarrow> User \<Rightarrow> DB \<times> (auth_error + unit) option" where
  "claimUserID db now u =
     (case DeriveUserID db (u_Email u) of
        None \<Rightarrow> (db, None)
      | Some s \<Rightarrow>
          (case handles_Create db (toUnix now)
                  \<lparr>pu_UserID = s, pu_InternalUserID = u_ID u, pu_CreatedAt = 0, pu_UpdatedAt = 0\<rparr> of
             (db', Inl e) \<Rightarrow> (db', Some (Inl (ErrAuthStore e)))
           | (db', Inr _) \<Rightarrow> (db', Some (Inr ()))))"

definition applyBootstrapOpenMode :: "DB \<Rightarrow> int \<Rightarrow> DB \<times> (auth_error + unit)" where
  "applyBootstrapOpenMode db now =
     (case org_Get db of
        Inl e \<Rightarrow> (db, Inl (ErrAuthStore e))
      | Inr org \<Rightarrow>
          (case ParseOrg (org_Settings org) of
             Inl e \<Rightarrow> (db, Inl (ErrAuthSettings e))
           | Inr os \<Rightarrow>
               (case org_Update db (toUnix now)
                       (org\<lparr>org_Settings := Blob (Org_JSON (os\<lparr>so_OpenMode := True\<rparr>)),
                            org_SettingsGen := org_SettingsGen org + 1\<rparr>) of
                  (db', Inl e) \<Rightarrow> (db', Inl (ErrAuthStore e))
                | (db', Inr _) \<Rightarrow> (db', Inr ()))))"

definition login_rule :: "int \<Rightarrow> LoginRuleType \<Rightarrow> string \<Rightarrow> LoginRuleAction \<Rightarrow> LoginRule" where
  "login_rule ord t v act = \<lparr>lr_ID = [], lr_Ord = ord, lr_RuleType = t, lr_Value = v, lr_Action = act\<rparr>"

definition replace_rules :: "DB \<Rightarrow> (nat \<Rightarrow> string) \<Rightarrow> LoginRule list \<Rightarrow> DB \<times> (auth_error + unit)" where
  "replace_rules db fresh rules =
     (case org_ReplaceLoginRules db fresh rules of
        (db', Inl e) \<Rightarrow> (db', Inl (ErrAuthStore e)) | (db', Inr _) \<Rightarrow> (db', Inr ()))"

definition seedBootstrapLoginRule ::
  "AuthService \<Rightarrow> DB \<Rightarrow> int \<Rightarrow> (nat \<Rightarrow> string) \<Rightarrow> string \<Rightarrow> DB \<times> (auth_error + unit)" where
  "seedBootstrapLoginRule a db now fresh email =
     (if as_OpenMode a then
        (case applyBootstrapOpenMode db now of
           (db', Inl e) \<Rightarrow> (db', Inl e)
         | (db', Inr _) \<Rightarrow> replace_rules db' fresh [login_rule 0 LoginRuleTypeDefault [] LoginRuleActionAllow])
      else replace_rules db fresh
        [login_rule 0 LoginRuleTypeEmailExact email LoginRuleActionAllow,
         login_rule 1 LoginRuleTypeDefault [] LoginRuleActionDeny])"

definition requireApprovalEnabled :: "DB \<Rightarrow> bool" where
  "requireApprovalEnabled db =
     (case org_Get db of
        Inl _ \<Rightarrow> False
      | Inr org \<Rightarrow> (case ParseOrg (org_Settings org) of Inl _ \<Rightarrow> False | Inr os \<Rightarrow> so_RequireApproval os))"

definition initialUserStatus :: "DB \<Rightarrow> UserStatus" where
  "initialUserStatus db = (if requireApprovalEnabled db then UserStatusPending else UserStatusActive)"

definition new_user :: "string \<Rightarrow> string \<Rightarrow> string \<Rightarrow> Role \<Rightarrow> UserStatus \<Rightarrow> User" where
  "new_user sub email name role st = \<lparr>u_ID = [], u_Provider = ProviderGoogle, u_ProviderSubject = sub, u_Email = email,
     u_Name = name, u_Role = role, u_Status = st, u_Language = [], u_CreatedAt = 0, u_UpdatedAt = 0\<rparr>"

text \<open>The branches of \<open>upsertUser\<close>: a known identity, the first identity, any other identity.\<close>

definition upsert_known :: "DB \<Rightarrow> int \<Rightarrow> User \<Rightarrow> string \<Rightarrow> string \<Rightarrow> DB \<times> (auth_error + User)" where
  "upsert_known db now u email name =
     (if u_Status u = UserStatusDisabled then (db, Inl ErrLoginDenied)
      else if \<not> checkLoginRules db email then (db, Inl ErrLoginDenied)
      else if u_Email u \<noteq> email \<or> (name \<noteq> [] \<and> u_Name u \<noteq> name) then
        (case users_Update db (toUnix now) (u\<lparr>u_Email := email, u_Name := (if name \<noteq> [] then name else u_Name u)\<rparr>) of
           (db', Inl e) \<Rightarrow> (db', Inl (ErrAuthStore e))
         | (db', Inr u') \<Rightarrow> (db', Inr u'))
      else (db, Inr u))"

definition upsert_member :: "DB \<Rightarrow> int \<Rightarrow> string \<Rightarrow> string \<Rightarrow> string \<Rightarrow> string \<Rightarrow> DB \<times> (auth_error + User) option" where
  "upsert_member db now fresh sub email name =
     (if \<not> checkLoginRules db email then (db, Some (Inl ErrLoginDenied))
      else case users_Create db (toUnix now) fresh (new_user sub email name RoleMember (initialUserStatus db)) of
        (db', Inl e) \<Rightarrow>
          (case users_ByProviderSubject db' ProviderGoogle sub of
             Inr u \<Rightarrow> if e = ErrConflict then (db', Some (Inr u)) else (db', Some (Inl (ErrAuthStore e)))
           | Inl _ \<Rightarrow> (db', Some (Inl (ErrAuthStore e))))
      | (db', Inr u) \<Rightarrow>
          (case claimUserID db' now u of
             (db2, None) \<Rightarrow> (db2, None)
           | (db2, Some (Inl e)) \<Rightarrow> (db2, Some (Inl e))
           | (db2, Some (Inr _)) \<Rightarrow> (db2, Some (Inr u))))"

definition upsert_first ::
  "AuthService \<Rightarrow> DB \<Rightarrow> int \<Rightarrow> string \<Rightarrow> (nat \<Rightarrow> string) \<Rightarrow> string \<Rightarrow> string \<Rightarrow> string \<Rightarrow> DB \<times> (auth_error + User) option" where
  "upsert_first a db now fresh fresh_rules sub email name =
     (case BootstrapFirstUser db (toUnix now) fresh (new_user sub email name RoleMember UserStatusActive) ''funcbox'' of
        (db', Inl ErrConflict) \<Rightarrow> upsert_member db' now fresh sub email name
      | (db', Inl e) \<Rightarrow> (db', Some (Inl (ErrAuthStore e)))
      | (db', Inr u) \<Rightarrow>
          (case claimUserID db' now u of
             (db2, None) \<Rightarrow> (db2, None)
           | (db2, Some (Inl e)) \<Rightarrow> (db2, Some (Inl e))
           | (db2, Some (Inr _)) \<Rightarrow>
               (case seedBootstrapLoginRule a db2 now fresh_rules email of
                  (db3, Inl e) \<Rightarrow> (db3, Some (Inl e))
                | (db3, Inr _) \<Rightarrow> (db3, Some (Inr u)))))"

definition upsertUser ::
  "AuthService \<Rightarrow> DB \<Rightarrow> int \<Rightarrow> string \<Rightarrow> (nat \<Rightarrow> string) \<Rightarrow> string \<Rightarrow> string \<Rightarrow> string \<Rightarrow> DB \<times> (auth_error + User) option" where
  "upsertUser a db now fresh fresh_rules sub email name =
     (case users_ByProviderSubject db ProviderGoogle sub of
        Inr u \<Rightarrow> (case upsert_known db now u email name of (db', r) \<Rightarrow> (db', Some r))
      | Inl e \<Rightarrow>
          if e \<noteq> ErrNotFound then (db, Some (Inl (ErrAuthStore e)))
          else if users_List db = [] then upsert_first a db now fresh fresh_rules sub email name
          else upsert_member db now fresh sub email name)"

definition Audit :: "DB \<Rightarrow> int \<Rightarrow> string \<Rightarrow> string \<Rightarrow> string \<Rightarrow> string \<Rightarrow> string \<Rightarrow> DB" where
  "Audit db now fresh actorID action target detail =
     fst (audit_Append db (toUnix now) fresh \<lparr>al_ID = [], al_ActorID = actorID, al_Action = action, al_Target = target,
       al_Detail = detail, al_CreatedAt = 0\<rparr>)"

section \<open>Lemmas\<close>

lemma found_simps [simp]: "found None = Inl ErrNotFound" "found (Some x) = Inr x"
  by (simp_all add: found_def)

lemma checkLoginRules_cong: "db_login_rules db' = db_login_rules db \<Longrightarrow> checkLoginRules db' = checkLoginRules db"
  by (simp add: checkLoginRules_def org_ListLoginRules_def fun_eq_iff)

lemma claimUserID_frame:
  assumes "claimUserID db now u = (db', r)"
  shows "db_users db' = db_users db" "db_login_rules db' = db_login_rules db" "db_org db' = db_org db"
  using assms by (auto simp: claimUserID_def handles_Create_def Let_def split: option.splits sum.splits prod.splits if_splits)

lemma replace_rules_Inr:
  assumes "replace_rules db fresh rules = (db', Inr ())"
  shows "\<exists>rs. insert_login_rules [] fresh rules = Inr rs \<and> db' = db\<lparr>db_login_rules := rs\<rparr>"
  using assms by (auto simp: replace_rules_def org_ReplaceLoginRules_def split: sum.splits prod.splits)

text \<open>The rules seeded at bootstrap, and whom they admit.\<close>

lemma seed_rules:
  assumes "seedBootstrapLoginRule a db now fresh email = (db', Inr ())"
  shows "db_users db' = db_users db
    \<and> (checkLoginRules db' e \<longleftrightarrow> as_OpenMode a \<or> to_lower (trim_space e) = to_lower (trim_space email))"
proof (cases "as_OpenMode a")
  case True
  then obtain db1 rs where "applyBootstrapOpenMode db now = (db1, Inr ())"
    and "insert_login_rules [] fresh [login_rule 0 LoginRuleTypeDefault [] LoginRuleActionAllow] = Inr rs"
    and "db' = db1\<lparr>db_login_rules := rs\<rparr>"
    using assms by (auto simp: seedBootstrapLoginRule_def dest!: replace_rules_Inr split: prod.splits sum.splits)
  moreover from this(1) have "db_users db1 = db_users db"
    by (auto simp: applyBootstrapOpenMode_def org_Update_def Let_def split: prod.splits sum.splits option.splits)
  ultimately show ?thesis using True
    by (auto simp: checkLoginRules_def org_ListLoginRules_def EvaluateLoginRules_def login_rule_def ruleMatches_def
        Let_def split: if_splits)
next
  case False
  then obtain rs where "insert_login_rules [] fresh [login_rule 0 LoginRuleTypeEmailExact email LoginRuleActionAllow,
      login_rule 1 LoginRuleTypeDefault [] LoginRuleActionDeny] = Inr rs" and "db' = db\<lparr>db_login_rules := rs\<rparr>"
    using assms by (auto simp: seedBootstrapLoginRule_def dest!: replace_rules_Inr)
  then show ?thesis using False
    by (auto simp: checkLoginRules_def org_ListLoginRules_def EvaluateLoginRules_def login_rule_def ruleMatches_def
        equal_fold_def Let_def split: if_splits)
qed

lemma users_List_Nil [simp]: "users_List db = [] \<longleftrightarrow> db_users db = []"
proof -
  have "length (users_List db) = length (db_users db)" by (simp add: users_List_def)
  then show ?thesis by (metis length_0_conv)
qed

text \<open>
  The first login. On an organization without users, the account that signs in
  becomes its active administrator, and the login rules written with it let that very
  account back in on its next request. Outside open mode they admit no other e-mail
  address; in open mode they admit every address.
\<close>

lemma first_login:
  assumes "db_users db = []" and "upsertUser a db now fresh fresh_rules sub email name = (db', Some (Inr u))"
  shows "db_users db' = [u] \<and> u_Role u = RoleAdmin \<and> u_Status u = UserStatusActive \<and> u_Email u = email
    \<and> loadActiveUser db' (u_ID u) = Inr u
    \<and> (checkLoginRules db' e \<longleftrightarrow> as_OpenMode a \<or> to_lower (trim_space e) = to_lower (trim_space email))"
proof -
  have "users_ByProviderSubject db ProviderGoogle sub = Inl ErrNotFound"
    using assms(1) by (simp add: users_ByProviderSubject_def lookup_row_def)
  then have "upsert_first a db now fresh fresh_rules sub email name = (db', Some (Inr u))"
    using assms by (simp add: upsertUser_def)
  then obtain db1 db2 where b: "BootstrapFirstUser db (toUnix now) fresh (new_user sub email name RoleMember UserStatusActive) ''funcbox'' = (db1, Inr u)"
    and c: "claimUserID db1 now u = (db2, Some (Inr ()))"
    and s: "seedBootstrapLoginRule a db2 now fresh_rules email = (db', Inr ())"
    using assms(1) by (auto simp: upsert_first_def BootstrapFirstUser_def Let_def split: prod.splits sum.splits option.splits)
  from b have u: "db_users db1 = [u]" "u_Role u = RoleAdmin" "u_Status u = UserStatusActive" "u_Email u = email"
    using assms(1) by (auto simp: BootstrapFirstUser_def Let_def new_user_def split: option.splits)
  have users: "db_users db' = [u]" using seed_rules [OF s] claimUserID_frame [OF c] u(1) by simp
  moreover have rules: "checkLoginRules db' x \<longleftrightarrow> as_OpenMode a \<or> to_lower (trim_space x) = to_lower (trim_space email)" for x
    using seed_rules [OF s] by blast
  moreover have "loadActiveUser db' (u_ID u) = Inr u"
    using users u rules by (simp add: loadActiveUser_def users_ByID_def lookup_row_def validateAuthenticatable_def)
  ultimately show ?thesis using u by simp
qed

definition svc_example :: AuthService where
  "svc_example = \<lparr>as_BaseURL = ''https://fb.example'', as_ControlOrigin = ''https://fb.example'', as_FunctionDomain = [],
     as_ClientID = ''cid'', as_OpenMode = False, as_csrfKey = ''k1'', as_invokeKey = ''k2'', as_accessKey = ''k3'',
     as_controlHost = ''fb.example'', as_controlPort = []\<rparr>"

definition first_example :: "DB \<times> (auth_error + User) option" where
  "first_example = upsertUser svc_example empty_db 0 ''u1'' nat_str ''s'' ''a@b'' ''A''"

lemma first_example_user: "snd first_example = Some (Inr ((new_user ''s'' ''a@b'' ''A'' RoleAdmin UserStatusActive)\<lparr>u_ID := ''u1''\<rparr>))"
  by code_simp

section \<open>Later logins\<close>

definition standing :: "User \<Rightarrow> string \<times> Provider \<times> string \<times> Role \<times> UserStatus" where
  "standing u = (u_ID u, u_Provider u, u_ProviderSubject u, u_Role u, u_Status u)"

text \<open>What signing in may do to the row of an account it is not a new account for.\<close>

definition relogged :: "string \<Rightarrow> string \<Rightarrow> string \<Rightarrow> User \<Rightarrow> User \<Rightarrow> bool" where
  "relogged sub email name u u' \<longleftrightarrow> u' = u \<or> u_Provider u = ProviderGoogle \<and> u_ProviderSubject u = sub
     \<and> (\<exists>n t. n \<in> {u_Name u, name} \<and> u' = u\<lparr>u_Email := email, u_Name := n, u_UpdatedAt := t\<rparr>)"

lemma users_Update_relog:
  assumes "users_Update db now (u\<lparr>u_Email := e, u_Name := n\<rparr>) = (db', r)" "unique_on u_ID (db_users db)" "u \<in> set (db_users db)"
  shows "\<exists>f. db' = db\<lparr>db_users := map f (db_users db)\<rparr>
    \<and> (\<forall>x \<in> set (db_users db). f x = x \<or> x = u \<and> f x = u\<lparr>u_Email := e, u_Name := n, u_UpdatedAt := now\<rparr>)"
proof (cases "db' = db")
  case True
  then show ?thesis by (intro exI [of _ id]) simp
next
  case False
  let ?u = "u\<lparr>u_Email := e, u_Name := n, u_UpdatedAt := now\<rparr>"
  obtain old where old: "lookup_row (\<lambda>r. u_ID r = u_ID u) (db_users db) = Some old"
    using False assms(1) by (auto simp: users_Update_def split: option.splits)
  from lookup_row_Some [OF this] have "old = u" using unique_on_inj [OF assms(2) _ assms(3)] by blast
  with old have "db' = db\<lparr>db_users := map (\<lambda>x. if u_ID x = u_ID u then ?u else x) (db_users db)\<rparr>"
    using False assms(1) by (auto simp: users_Update_def update_rows_def Let_def split: if_splits)
  moreover have "x = u" if "x \<in> set (db_users db)" "u_ID x = u_ID u" for x
    using unique_on_inj [OF assms(2) that(1) assms(3) that(2)] .
  ultimately show ?thesis by (intro exI [of _ "\<lambda>x. if u_ID x = u_ID u then ?u else x"]) auto
qed

lemma claimUserID_handles:
  assumes "claimUserID db now u = (db', r)"
  shows "\<exists>hs. db' = db\<lparr>db_handles := db_handles db @ hs\<rparr> \<and> (\<forall>h \<in> set hs. pu_InternalUserID h = u_ID u)"
proof (cases "db' = db")
  case True
  then show ?thesis by (intro exI [of _ "[]"]) simp
next
  case False
  then show ?thesis using assms
    by (auto simp: claimUserID_def handles_Create_def Let_def split: option.splits if_splits)
qed

lemma ByProviderSubject_Inr: "users_ByProviderSubject db p s = Inr u \<Longrightarrow> u \<in> set (db_users db) \<and> u_Provider u = p \<and> u_ProviderSubject u = s"
  by (auto simp: users_ByProviderSubject_def found_def dest: lookup_row_Some split: option.splits)

text \<open>A new account is a plain member in the initial status, under the identity that signed in.\<close>

definition new_member :: "DB \<Rightarrow> string \<Rightarrow> string \<Rightarrow> string \<Rightarrow> User \<Rightarrow> bool" where
  "new_member db fresh sub email u \<longleftrightarrow> u_ID u = fresh \<and> u_Provider u = ProviderGoogle \<and> u_ProviderSubject u = sub \<and> u_Email u = email
     \<and> u_Role u = RoleMember \<and> u_Status u = initialUserStatus db"

lemma upsert_member_effect:
  assumes "upsert_member db now fresh sub email name = (db', r)" "users_ByProviderSubject db ProviderGoogle sub = Inl ErrNotFound"
  shows "(\<exists>new hs. db' = db\<lparr>db_users := db_users db @ new, db_handles := db_handles db @ hs\<rparr>
        \<and> length new \<le> 1 \<and> (\<forall>n \<in> set new. new_member db fresh sub email n) \<and> (\<forall>h \<in> set hs. pu_InternalUserID h = fresh))
    \<and> (r = Some (Inl ErrLoginDenied) \<longrightarrow> db' = db)
    \<and> (\<forall>u. r = Some (Inr u) \<longrightarrow> checkLoginRules db email \<and> u_Status u \<noteq> UserStatusDisabled)"
    (is "?effect \<and> _")
proof (cases "checkLoginRules db email")
  case False
  then show ?thesis using assms(1) by (auto simp: upsert_member_def intro!: exI [of _ "[]"])
next
  case True
  let ?n = "new_user sub email name RoleMember (initialUserStatus db)"
  let ?u = "?n\<lparr>u_ID := fresh, u_CreatedAt := toUnix now, u_UpdatedAt := toUnix now\<rparr>"
  have init: "initialUserStatus db \<noteq> UserStatusDisabled" by (simp add: initialUserStatus_def)
  show ?thesis
  proof (cases "user_conflict (db_users db) ?u")
    case conflict: True
    then have "users_Create db (toUnix now) fresh ?n = (db, Inl ErrConflict)"
      by (simp add: users_Create_def Let_def assign_id_def new_user_def)
    then have "db' = db \<and> r = Some (Inl (ErrAuthStore ErrConflict))"
      using assms True by (auto simp: upsert_member_def)
    then show ?thesis by (auto intro!: exI [of _ "[]"])
  next
    case False
    let ?db1 = "db\<lparr>db_users := db_users db @ [?u]\<rparr>"
    have "users_Create db (toUnix now) fresh ?n = (?db1, Inr ?u)"
      using False by (simp add: users_Create_def Let_def assign_id_def new_user_def)
    then obtain q where c: "claimUserID ?db1 now ?u = (db', q)" "r = map_option (map_sum id (\<lambda>_. ?u)) q"
      using assms(1) True by (auto simp: upsert_member_def split: prod.splits option.splits sum.splits)
    have "r \<noteq> Some (Inl ErrLoginDenied)"
      using c by (auto simp: claimUserID_def split: option.splits prod.splits sum.splits)
    moreover have "u_Status v \<noteq> UserStatusDisabled" if "r = Some (Inr v)" for v
      using c(2) that init by (cases q; cases "the q") (auto simp: new_user_def)
    moreover obtain hs where "db' = ?db1\<lparr>db_handles := db_handles ?db1 @ hs\<rparr>" "\<forall>h \<in> set hs. pu_InternalUserID h = u_ID ?u"
      using claimUserID_handles [OF c(1)] by blast
    then have ?effect
      by (intro exI [of _ "[?u]"] exI [of _ hs]) (simp add: new_member_def new_user_def)
    ultimately show ?thesis using True by blast
  qed
qed


text \<open>Signing in keeps the store's integrity.\<close>

lemma claimUserID_ok: "db_ok db \<Longrightarrow> db_ok (fst (claimUserID db now u))"
  by (auto simp: claimUserID_def split: option.splits prod.splits sum.splits) (metis fst_conv handles_Create_ok)+

lemma seedBootstrapLoginRule_ok: "db_ok db \<Longrightarrow> db_ok (fst (seedBootstrapLoginRule a db now fresh email))"
proof -
  have rr: "db_ok d \<Longrightarrow> db_ok (fst (replace_rules d fresh rules))" for d rules
    by (auto simp: replace_rules_def split: prod.splits sum.splits) (metis fst_conv org_ReplaceLoginRules_ok)+
  have "db_ok db \<Longrightarrow> db_ok (fst (applyBootstrapOpenMode db now))"
    by (auto simp: applyBootstrapOpenMode_def split: prod.splits sum.splits) (metis fst_conv org_Update_ok)+
  then show "db_ok db \<Longrightarrow> ?thesis"
    by (auto simp: seedBootstrapLoginRule_def rr split: prod.splits sum.splits)
qed

lemma upsert_member_ok: "db_ok db \<Longrightarrow> db_ok (fst (upsert_member db now fresh sub email name))"
  using users_Create_ok [of db "toUnix now" fresh "new_user sub email name RoleMember (initialUserStatus db)"]
  by (auto simp: upsert_member_def split: prod.splits sum.splits option.splits) (metis fst_conv claimUserID_ok)+

lemma upsert_first_ok: "db_ok db \<Longrightarrow> db_ok (fst (upsert_first a db now fresh fresh_rules sub email name))"
  using BootstrapFirstUser_ok [of db "toUnix now" fresh "new_user sub email name RoleMember UserStatusActive" "''funcbox''"]
  by (auto simp: upsert_first_def upsert_member_ok split: prod.splits sum.splits option.splits store_error.splits)
    (metis fst_conv claimUserID_ok seedBootstrapLoginRule_ok)+

lemma upsertUser_ok: "db_ok db \<Longrightarrow> db_ok (fst (upsertUser a db now fresh fresh_rules sub email name))"
  by (auto simp: upsertUser_def upsert_known_def upsert_member_ok upsert_first_ok split: prod.splits sum.splits if_splits)
    (metis fst_conv users_Update_ok)+

lemma first_example_ok: "db_ok (fst first_example)"
  unfolding first_example_def by (rule upsertUser_ok) (rule empty_db_ok)


section \<open>Session life cycle\<close>

lemma createSession_Inr:
  assumes "createSession c db now raw uid = (db1, Inr (s, cookie))"
  shows "db1 = db\<lparr>db_sessions := db_sessions db @ [s]\<rparr>" "se_ID s = sha256Hex c raw" "se_UserID s = uid"
    "se_ExpiresAt s = toUnix (now + sessionDuration db)" "cookie = b64_encode raw" "\<not> has_row se_ID (se_ID s) (db_sessions db)"
  using assms by (auto simp: createSession_def sessions_Create_def assign_id_def Let_def split: if_splits)

lemma lookup_row_snoc:
  "lookup_row p (rows @ [x]) = (case lookup_row p rows of Some r \<Rightarrow> Some r | None \<Rightarrow> if p x then Some x else None)"
  by (induction rows) (simp_all add: lookup_row_def)

lemma sessions_Get_new:
  assumes "createSession c db now raw uid = (db1, Inr (s, cookie))"
  shows "sessions_Get db1 (sha256Hex c raw) t = (if t < se_ExpiresAt s then Inr s else Inl ErrNotFound)"
proof -
  have "lookup_row (\<lambda>x. se_ID x = sha256Hex c raw \<and> se_ExpiresAt x > t) (db_sessions db) = None"
    using createSession_Inr(2,6) [OF assms] by (force simp: lookup_row_None has_row_def)
  then show ?thesis
    using createSession_Inr(1,2) [OF assms] by (simp add: sessions_Get_def lookup_row_snoc)
qed

lemma sessions_Get_deleted: "sessions_Get (fst (sessions_Delete db i)) i t = Inl ErrNotFound"
  by (auto simp: sessions_Get_def sessions_Delete_def lookup_row_None found_def split: option.splits dest!: lookup_row_Some)

lemma lookup_session_refreshed:
  "lookup_row (\<lambda>s. se_ID s = i \<and> t < se_ExpiresAt s) (update_rows (\<lambda>s. se_ID s = i) (\<lambda>s. s\<lparr>se_ExpiresAt := e, se_UpdatedAt := now\<rparr>) rows)
     = (if t < e then map_option (\<lambda>s. s\<lparr>se_ExpiresAt := e, se_UpdatedAt := now\<rparr>) (lookup_row (\<lambda>s. se_ID s = i) rows) else None)"
  by (induction rows) (simp_all add: lookup_row_def update_rows_def)

lemma sessions_Get_refreshed:
  assumes "lookup_row (\<lambda>s. se_ID s = i) (db_sessions db) = Some s"
  shows "sessions_Get (fst (sessions_Refresh db now i e)) i t
    = (if t < e then Inr (s\<lparr>se_ExpiresAt := e, se_UpdatedAt := now\<rparr>) else Inl ErrNotFound)"
proof -
  have "has_row se_ID i (db_sessions db)" using lookup_row_Some [OF assms] by (auto simp: has_row_def)
  then show ?thesis using assms by (simp add: sessions_Refresh_def sessions_Get_def lookup_session_refreshed)
qed

lemma loadActiveUser_refreshed: "loadActiveUser (fst (sessions_Refresh db now i e)) uid = loadActiveUser db uid"
  by (simp add: sessions_Refresh_def loadActiveUser_def validateAuthenticatable_def users_ByID_def
      checkLoginRules_def org_ListLoginRules_def split: sum.split)

text \<open>
  C24. Life cycle of a browser session. The cookie handed out at login authenticates its
  user until the stored expiry and not a second longer, and at every use exactly when
  the account exists, is not disabled and passes the current login rules. A
  successful use moves the expiry to one session duration from then: the next use authenticates the user exactly if it comes
  before that moment, under the same conditions on the account. After a logout the cookie is dead.
\<close>

theorem session_lifecycle:
  assumes "createSession c db now raw uid = (db1, Inr (s, cookie))"
  shows "(toUnix t < toUnix (now + sessionDuration db) \<longrightarrow>
        map_sum id aa_User (snd (authenticateSession c db1 t cookie csrf)) = loadActiveUser db1 uid)
    \<and> (toUnix (now + sessionDuration db) \<le> toUnix t \<longrightarrow>
        authenticateSession c db1 t cookie csrf = (db1, Inl ErrUnauthenticated))
    \<and> (is_ok (snd (authenticateSession c db1 t cookie csrf)) \<longrightarrow>
        map_sum id aa_User (snd (authenticateSession c (fst (authenticateSession c db1 t cookie csrf)) t' cookie csrf))
          = (if toUnix t' < toUnix (t + sessionDuration db1) then loadActiveUser db1 uid else Inl ErrUnauthenticated))
    \<and> (Cookie r (sessionCookieName a) = Some cookie \<longrightarrow>
        snd (authenticateSession c (handleLogout c a db1 r) t cookie csrf) = Inl ErrUnauthenticated)"
proof -
  note new = createSession_Inr [OF assms]
  note get = sessions_Get_new [OF assms, of "toUnix t"]
  have auth: "authenticateSession c db1 t cookie csrf =
      (if toUnix t < se_ExpiresAt s then
         (case loadActiveUser db1 uid of
            Inl e \<Rightarrow> (db1, Inl e)
          | Inr u \<Rightarrow> (fst (sessions_Refresh db1 (toUnix t) (se_ID s) (toUnix (t + sessionDuration db1))),
                     Inr \<lparr>aa_User = u, aa_Method = MethodSession, aa_csrfCookie = csrf\<rparr>))
       else (db1, Inl ErrUnauthenticated))"
    by (simp add: authenticateSession_def new(3,5) get)
  have dead: "snd (authenticateSession c d t2 cookie csrf) = Inl ErrUnauthenticated"
    if "sessions_Get d (sha256Hex c raw) (toUnix t2) = Inl ErrNotFound" for d t2
    using that by (simp add: authenticateSession_def new(5))
  have row: "lookup_row (\<lambda>x. se_ID x = sha256Hex c raw) (db_sessions db1) = Some s"
  proof -
    have "lookup_row (\<lambda>x. se_ID x = sha256Hex c raw) (db_sessions db) = None"
      using new(2,6) by (force simp: lookup_row_None has_row_def)
    then show ?thesis using new(1,2) by (simp add: lookup_row_snoc)
  qed
  have slid: "map_sum id aa_User (snd (authenticateSession c (fst (authenticateSession c db1 t cookie csrf)) t' cookie csrf))
      = (if toUnix t' < toUnix (t + sessionDuration db1) then loadActiveUser db1 uid else Inl ErrUnauthenticated)"
    if "is_ok (snd (authenticateSession c db1 t cookie csrf))"
  proof -
    have "toUnix t < se_ExpiresAt s" and u: "\<exists>u. loadActiveUser db1 uid = Inr u"
      using that by (auto simp: auth split: if_splits sum.splits)
    then have "fst (authenticateSession c db1 t cookie csrf)
        = fst (sessions_Refresh db1 (toUnix t) (sha256Hex c raw) (toUnix (t + sessionDuration db1)))"
      by (auto simp: auth new(2))
    then show ?thesis
      by (simp add: authenticateSession_def new(3,5) sessions_Get_refreshed [OF row] loadActiveUser_refreshed split: sum.split)
  qed
  show ?thesis
  proof (intro conjI impI)
    assume "toUnix t < toUnix (now + sessionDuration db)"
    then show "map_sum id aa_User (snd (authenticateSession c db1 t cookie csrf)) = loadActiveUser db1 uid"
      unfolding auth new(4) by (simp split: sum.split)
  next
    assume "toUnix (now + sessionDuration db) \<le> toUnix t"
    then show "authenticateSession c db1 t cookie csrf = (db1, Inl ErrUnauthenticated)" unfolding auth new(4) by simp
  next
    assume "Cookie r (sessionCookieName a) = Some cookie"
    then show "snd (authenticateSession c (handleLogout c a db1 r) t cookie csrf) = Inl ErrUnauthenticated"
      by (intro dead) (simp add: handleLogout_def new(5) sessions_Get_deleted)
  qed (use slid in blast)
qed

definition hash_example :: Crypto where
  "hash_example = \<lparr>cr_sha256 = id, cr_hmac = (\<lambda>k d. k @ d)\<rparr>"

definition session_db :: DB where
  "session_db = fst (createSession hash_example (fst first_example) 0 ''raw'' ''u1'')"

lemma first_example_rows:
  "db_sessions (fst first_example) = []" "has_row u_ID ''u1'' (db_users (fst first_example))"
  "toUnix (0 + sessionDuration (fst first_example)) = 604800" "is_ok (loadActiveUser (fst first_example) ''u1'')"
  by code_simp+

theorem session_lifecycle_witness:
  "is_ok (snd (authenticateSession hash_example session_db (10 ^ 9) (b64_encode ''raw'') ''x''))
   \<and> \<not> is_ok (snd (authenticateSession hash_example session_db (604800 * 10 ^ 9) (b64_encode ''raw'') ''x''))"
proof -
  obtain s where s: "createSession hash_example (fst first_example) 0 ''raw'' ''u1'' = (session_db, Inr (s, b64_encode ''raw''))"
    using first_example_rows(1,2) by (simp add: session_db_def createSession_def sessions_Create_def Let_def has_row_def)
  note life = session_lifecycle [OF s]
  have "loadActiveUser session_db ''u1'' = loadActiveUser (fst first_example) ''u1''"
    by (simp add: createSession_Inr(1) [OF s] loadActiveUser_def validateAuthenticatable_def users_ByID_def
        checkLoginRules_def org_ListLoginRules_def split: sum.split)
  then obtain u where u: "loadActiveUser session_db ''u1'' = Inr u" using first_example_rows(4) by (auto simp: is_ok_def split: sum.splits)
  have "toUnix (10 ^ 9) = 1" "toUnix (604800 * 10 ^ 9) = 604800" by code_simp+
  then have "map_sum id aa_User (snd (authenticateSession hash_example session_db (10 ^ 9) (b64_encode ''raw'') ''x'')) = Inr u"
    and "authenticateSession hash_example session_db (604800 * 10 ^ 9) (b64_encode ''raw'') ''x'' = (session_db, Inl ErrUnauthenticated)"
    using life first_example_rows(3) u by simp_all
  then show ?thesis by (cases "snd (authenticateSession hash_example session_db (10 ^ 9) (b64_encode ''raw'') ''x'')") simp_all
qed

end
