(* ===== verification/BlobStore.thy ===== *)
theory BlobStore
  imports Bundle
begin

text \<open>
  Package blob: the rules for blob keys (server/internal/blob/blob.go) and the filesystem
  backend (server/internal/blob/fs/fs.go). The files below the store's root are a list of
  paths with their contents; a temporary file of an unfinished \<open>Put\<close> is a path of that list
  too. Failures of the operating system and cancelled contexts are not modelled, and the
  content of a file is whatever its reader delivers.
\<close>

section \<open>Keys (blob.go)\<close>

definition isValidKeyRune :: "char \<Rightarrow> bool" where
  "isValidKeyRune r = (CHR ''a'' \<le> r \<and> r \<le> CHR ''z'' \<or> CHR ''A'' \<le> r \<and> r \<le> CHR ''Z''
     \<or> CHR ''0'' \<le> r \<and> r \<le> CHR ''9'' \<or> r = CHR ''_'' \<or> r = CHR ''.'' \<or> r = CHR ''-'')"

datatype blob_error = ErrInvalidKey | ErrNotExist

fun validate_segments :: "string list \<Rightarrow> blob_error + unit" where
  "validate_segments [] = Inr ()"
| "validate_segments (seg # segs) =
     (if seg = [] then Inl ErrInvalidKey
      else if seg = ''.'' \<or> seg = ''..'' then Inl ErrInvalidKey
      else if \<not> list_all isValidKeyRune seg then Inl ErrInvalidKey
      else validate_segments segs)"

definition ValidateKey :: "string \<Rightarrow> blob_error + unit" where
  "ValidateKey key =
     (if key = [] then Inl ErrInvalidKey
      else if prefix ''/'' key then Inl ErrInvalidKey
      else validate_segments (split_on (CHR ''/'') key))"

section \<open>The filesystem backend (fs/fs.go)\<close>

text \<open>\<^verbatim>\<open>filepath.Join\<close> of two elements ignores empty ones and cleans the result.\<close>

definition filepath_Join :: "string \<Rightarrow> string \<Rightarrow> string" where
  "filepath_Join a b =
     (if a = [] \<and> b = [] then [] else if a = [] then path_clean b else if b = [] then path_clean a
      else path_clean (a @ CHR ''/'' # b))"

definition fs_path :: "string \<Rightarrow> string \<Rightarrow> blob_error + string" where
  "fs_path root key = (case ValidateKey key of Inl e \<Rightarrow> Inl e | Inr _ \<Rightarrow> Inr (filepath_Join root key))"

type_synonym 'c fs_files = "(string \<times> 'c) list"

definition fs_Put :: "string \<Rightarrow> 'c fs_files \<Rightarrow> string \<Rightarrow> 'c \<Rightarrow> blob_error + 'c fs_files" where
  "fs_Put root fs key c =
     (case fs_path root key of
        Inl e \<Rightarrow> Inl e
      | Inr dst \<Rightarrow> Inr ((dst, c) # filter (\<lambda>f. fst f \<noteq> dst) fs))"

definition fs_Get :: "string \<Rightarrow> 'c fs_files \<Rightarrow> string \<Rightarrow> blob_error + 'c" where
  "fs_Get root fs key =
     (case fs_path root key of
        Inl e \<Rightarrow> Inl e
      | Inr p \<Rightarrow> (case map_of fs p of None \<Rightarrow> Inl ErrNotExist | Some c \<Rightarrow> Inr c))"

definition fs_Exists :: "string \<Rightarrow> 'c fs_files \<Rightarrow> string \<Rightarrow> blob_error + bool" where
  "fs_Exists root fs key =
     (case fs_path root key of Inl e \<Rightarrow> Inl e | Inr p \<Rightarrow> Inr (map_of fs p \<noteq> None))"

definition fs_Delete :: "string \<Rightarrow> 'c fs_files \<Rightarrow> string \<Rightarrow> blob_error + 'c fs_files" where
  "fs_Delete root fs key =
     (case fs_path root key of Inl e \<Rightarrow> Inl e | Inr p \<Rightarrow> Inr (filter (\<lambda>f. fst f \<noteq> p) fs))"

text \<open>
  The walk visits the files below the root. \<open>under_root\<close> is the text every such path starts
  with, and what follows it is what \<^verbatim>\<open>filepath.Rel\<close> returns.
\<close>

definition under_root :: "string \<Rightarrow> string" where
  "under_root root =
     (let r = (if root = [] then ''.'' else path_clean root) in
      if r = ''.'' then [] else if r = ''/'' then ''/'' else r @ ''/'')"

definition base_name :: "string \<Rightarrow> string" where
  "base_name p = last (split_on (CHR ''/'') p)"

definition fs_List :: "string \<Rightarrow> 'c fs_files \<Rightarrow> string \<Rightarrow> string list" where
  "fs_List root fs pre =
     filter (\<lambda>key. pre = [] \<or> prefix pre key)
       (map (\<lambda>p. drop (length (under_root root)) p)
         (filter (\<lambda>p. prefix (under_root root) p \<and> \<not> prefix ''.tmp-'' (base_name p)) (map fst fs)))"

section \<open>Keys stay below the root\<close>

lemma validate_segments_iff:
  "validate_segments segs = Inr () \<longleftrightarrow>
     (\<forall>seg \<in> set segs. seg \<noteq> [] \<and> seg \<noteq> ''.'' \<and> seg \<noteq> ''..'' \<and> list_all isValidKeyRune seg)"
  by (induction segs) auto

lemma ValidateKey_iff:
  "ValidateKey key = Inr () \<longleftrightarrow> list_all plain_comp (split_on (CHR ''/'') key)
     \<and> list_all (list_all isValidKeyRune) (split_on (CHR ''/'') key)" (is "?l \<longleftrightarrow> ?r")
proof
  assume ?l
  then show ?r
    by (auto simp: ValidateKey_def validate_segments_iff list_all_iff plain_comp_def split_on_parts split: if_splits)
next
  assume r: ?r
  then have "key \<noteq> []" "\<not> prefix ''/'' key" by (cases key; auto simp: plain_comp_def)+
  with r show ?l by (auto simp: ValidateKey_def validate_segments_iff list_all_iff plain_comp_def)
qed

lemma split_on_join2: "split_on c (a @ c # b) = split_on c a @ split_on c b"
proof (induction a)
  case (Cons x a)
  then show ?case by (cases "split_on c a") auto
qed simp

lemma join_with_append:
  "as \<noteq> [] \<Longrightarrow> bs \<noteq> [] \<Longrightarrow> join_with c (as @ bs) = join_with c as @ c # join_with c bs"
  by (induction c as rule: join_with.induct) (auto simp: join_with_Cons)

lemma clean_stack_comps:
  assumes "\<And>c. c \<in> set cs \<Longrightarrow> CHR ''/'' \<notin> set c"
    and "\<And>c. c \<in> set st \<Longrightarrow> c \<noteq> [] \<and> c \<noteq> ''.'' \<and> CHR ''/'' \<notin> set c"
  shows "c \<in> set (foldl (clean_step r) st cs) \<Longrightarrow> c \<noteq> [] \<and> c \<noteq> ''.'' \<and> CHR ''/'' \<notin> set c"
  using assms
proof (induction cs arbitrary: st)
  case (Cons d ds)
  have "e \<noteq> [] \<and> e \<noteq> ''.'' \<and> CHR ''/'' \<notin> set e" if "e \<in> set (clean_step r st d)" for e
    using that Cons.prems(2) [of d] Cons.prems(3) [of e]
    by (auto simp: clean_step_def split: if_splits list.splits dest: Cons.prems(3))
  with Cons.IH [of "clean_step r st d"] Cons.prems(1,2) show ?case by simp
qed simp

lemma join_comps:
  assumes "ps \<noteq> []" "\<And>c. c \<in> set ps \<Longrightarrow> c \<noteq> [] \<and> c \<noteq> ''.'' \<and> CHR ''/'' \<notin> set c"
  shows "join_with (CHR ''/'') ps \<noteq> []" "join_with (CHR ''/'') ps \<noteq> ''.''" "join_with (CHR ''/'') ps \<noteq> ''/''"
proof -
  have sp: "split_on (CHR ''/'') (join_with (CHR ''/'') ps) = ps" using assms by (intro split_join) auto
  show "join_with (CHR ''/'') ps \<noteq> []" using sp assms(2) by (force simp del: join_with.simps)
  show "join_with (CHR ''/'') ps \<noteq> ''.''" using sp assms(2) by (force simp del: join_with.simps)
  show "join_with (CHR ''/'') ps \<noteq> ''/''" using sp assms(2) by (force simp del: join_with.simps)
qed

text \<open>A valid key is appended below the root as it is.\<close>

lemma fs_path_below:
  assumes "ValidateKey key = Inr ()"
  shows "fs_path root key = Inr (under_root root @ key)"
proof -
  let ?r = "prefix ''/'' root" let ?st = "foldl (clean_step ?r) [] (split_on (CHR ''/'') root)"
  let ?sl = "CHR ''/''"
  have pk: "list_all plain_comp (split_on ?sl key)" using assms by (simp add: ValidateKey_iff)
  then have k: "key \<noteq> []" "\<not> prefix ''/'' key" by (cases key; auto simp: plain_comp_def)+
  have fold: "foldl (clean_step ?r) [] (split_on ?sl (root @ ?sl # key)) = rev (split_on ?sl key) @ ?st"
    by (simp add: split_on_join2 foldl_clean_plain [OF pk])
  show ?thesis
  proof (cases "root = []")
    case True
    with assms k show ?thesis
      by (simp add: fs_path_def filepath_Join_def under_root_def path_clean_id [OF pk])
  next
    case False
    then have pre: "prefix ''/'' (root @ ?sl # key) = ?r" by (cases root) auto
    have j: "join_with ?sl (split_on ?sl key) = key" by (rule join_split)
    have "path_clean (root @ ?sl # key) = under_root root @ key"
    proof (cases "?st = []")
      case True
      then show ?thesis using False fold pre j
        by (cases ?r) (simp_all add: path_clean_def under_root_def Let_def)
    next
      case st: False
      have joined: "path_clean (root @ ?sl # key) = path_clean root @ ?sl # key"
        using st fold pre j by (cases ?r) (simp_all add: path_clean_def Let_def join_with_append)
      have comps: "c \<noteq> [] \<and> c \<noteq> ''.'' \<and> ?sl \<notin> set c" if "c \<in> set (rev ?st)" for c
        using clean_stack_comps [of "split_on ?sl root" "[]" c ?r] that by (auto simp: split_on_parts)
      have "rev ?st \<noteq> []" using st by simp
      from join_comps [OF this comps] have "path_clean root \<noteq> ''.''" "path_clean root \<noteq> ''/''"
        using st by (cases ?r; simp add: path_clean_def Let_def)+
      with joined False show ?thesis by (simp add: under_root_def Let_def)
    qed
    with False k assms show ?thesis by (simp add: fs_path_def filepath_Join_def)
  qed
qed

section \<open>The contract of a blob store\<close>

text \<open>
  What callers rely on (the interface of blob.go): valid keys can be written, a written
  key reads back, deleting a key removes it, and operations on one key leave the others.
\<close>

locale blob_store =
  fixes put :: "'b \<Rightarrow> string \<Rightarrow> 'c \<Rightarrow> blob_error + 'b" and get :: "'b \<Rightarrow> string \<Rightarrow> blob_error + 'c"
    and delete :: "'b \<Rightarrow> string \<Rightarrow> blob_error + 'b"
  assumes put_ok: "ValidateKey k = Inr () \<Longrightarrow> \<exists>b'. put b k c = Inr b'"
    and put_get: "put b k c = Inr b' \<Longrightarrow> get b' k = Inr c"
    and put_other: "put b k c = Inr b' \<Longrightarrow> k' \<noteq> k \<Longrightarrow> get b' k' = get b k'"
    and delete_get: "delete b k = Inr b' \<Longrightarrow> get b' k = Inl ErrNotExist"
    and delete_other: "delete b k = Inr b' \<Longrightarrow> k' \<noteq> k \<Longrightarrow> get b' k' = get b k'"
begin

lemma put_again: "put b k c = Inr b1 \<Longrightarrow> put b1 k c = Inr b2 \<Longrightarrow> get b2 k' = get b1 k'"
  by (cases "k' = k") (simp_all add: put_get put_other)

lemma put_kept: "put b k c = Inr b' \<Longrightarrow> get b k' = Inr d \<Longrightarrow> k' = k \<Longrightarrow> d = c \<Longrightarrow> get b' k' = Inr d"
  by (simp add: put_get)

text \<open>Deleting a list of keys, going on after a failure, as garbage collection does.\<close>

lemma delete_many:
  "k \<notin> set ks \<Longrightarrow> get (foldl (\<lambda>b k. case delete b k of Inl _ \<Rightarrow> b | Inr b' \<Rightarrow> b') b ks) k = get b k"
  by (induction ks arbitrary: b) (auto split: sum.splits simp: delete_other)

end

lemma fs_path_inj:
  "fs_path root k = Inr p \<Longrightarrow> fs_path root k' = Inr p \<Longrightarrow> k' = k"
proof -
  assume a: "fs_path root k = Inr p" "fs_path root k' = Inr p"
  then have "ValidateKey k = Inr ()" "ValidateKey k' = Inr ()" by (auto simp: fs_path_def split: sum.splits)
  with a show "k' = k" by (auto simp: fs_path_below)
qed

lemma map_of_filter_other: "map_of (filter (\<lambda>f. fst f \<noteq> p) fs) q = (if q = p then None else map_of fs q)"
  by (induction fs) auto

interpretation fs: blob_store "fs_Put root" "fs_Get root" "fs_Delete root" for root
proof (unfold_locales, goal_cases)
  case (1 k b c)
  then show ?case by (simp add: fs_Put_def fs_path_below)
next
  case (2 b k c b')
  then show ?case by (auto simp: fs_Put_def fs_Get_def split: sum.splits)
next
  case (3 b k c b' k')
  then show ?case
    by (auto simp: fs_Put_def fs_Get_def map_of_filter_other dest: fs_path_inj split: sum.splits)
next
  case (4 b k b')
  then show ?case by (auto simp: fs_Delete_def fs_Get_def map_of_filter_other split: sum.splits)
next
  case (5 b k b' k')
  then show ?case
    by (auto simp: fs_Delete_def fs_Get_def map_of_filter_other dest: fs_path_inj split: sum.splits)
qed

end
