(* ===== verification/Service.thy ===== *)
theory Service
  imports StoreLogs Runtime Authz Login BlobStore
begin

text \<open>
  Package service, the deploy use case (server/internal/service/deploy.go, errors.go): from
  an uploaded archive to a validated manifest, a content-addressed bundle in the blob store,
  a function row within its quota and a new active version. The state is the database, the
  blob store and the pool manager; the two fresh identifiers the store draws and the clock
  are arguments. Texts of errors and warnings are not modelled, their codes and figures are.
\<close>

section \<open>Errors (errors.go)\<close>

record service_error =
  err_Status :: int
  err_Code :: string

definition BadRequest :: "string \<Rightarrow> service_error" where
  "BadRequest code = \<lparr>err_Status = 400, err_Code = code\<rparr>"

definition TooLarge :: service_error where
  "TooLarge = \<lparr>err_Status = 413, err_Code = ''too_large''\<rparr>"

definition NotFoundErr :: service_error where
  "NotFoundErr = \<lparr>err_Status = 404, err_Code = ''not_found''\<rparr>"

definition Forbidden :: service_error where
  "Forbidden = \<lparr>err_Status = 403, err_Code = ''forbidden''\<rparr>"

definition Unauthorized :: service_error where
  "Unauthorized = \<lparr>err_Status = 401, err_Code = ''unauthorized''\<rparr>"

definition FunctionNameTaken :: service_error where
  "FunctionNameTaken = \<lparr>err_Status = 409, err_Code = ''function_name_taken''\<rparr>"

definition FunctionLimitExceeded :: service_error where
  "FunctionLimitExceeded = \<lparr>err_Status = 403, err_Code = ''function_limit_exceeded''\<rparr>"

definition Internal :: service_error where
  "Internal = \<lparr>err_Status = 500, err_Code = ''internal''\<rparr>"

definition mapBundleErr :: "bundle_error \<Rightarrow> service_error" where
  "mapBundleErr e =
     (case e of
        ErrTooLarge \<Rightarrow> TooLarge
      | ErrTooManyFiles \<Rightarrow> BadRequest ''too_many_files''
      | ErrBadPath \<Rightarrow> BadRequest ''bad_path''
      | ErrBadEntryType \<Rightarrow> BadRequest ''bad_entry_type''
      | _ \<Rightarrow> BadRequest ''bad_bundle'')"

definition mapManifestErr :: "manifest_error \<Rightarrow> service_error" where
  "mapManifestErr e = BadRequest
     (case e of
        ErrReservedName \<Rightarrow> ''reserved_name''
      | ErrInvalidName \<Rightarrow> ''invalid_name''
      | ErrInvalidOwner \<Rightarrow> ''invalid_name''
      | ErrDescriptionTooLong \<Rightarrow> ''description_too_long''
      | ErrInvalidEnv \<Rightarrow> ''invalid_env''
      | ErrParse \<Rightarrow> ''manifest_parse_error''
      | ErrInvalidTimeout \<Rightarrow> ''invalid_timeout''
      | ErrInvalidMemory \<Rightarrow> ''invalid_memory''
      | ErrInvalidFetchPolicy \<Rightarrow> ''invalid_fetch_policy''
      | ErrBadVisibility \<Rightarrow> ''invalid_visibility''
      | _ \<Rightarrow> ''invalid_manifest'')"

section \<open>Inputs and results (deploy.go)\<close>

definition BundleBlobKey :: "string \<Rightarrow> string" where
  "BundleBlobKey sha256Hex' = ''bundles/sha256/'' @ sha256Hex' @ ''.tar.gz''"

record DeployParams =
  dp_Bundle :: archive
  dp_Owner :: string
  dp_Name :: string
  dp_Note :: string
  dp_DryRun :: bool
  dp_Actor :: "User option"

datatype warning = NoManifestFile | EmptyAllowlist | NodejsCompatDisabled | LimitReached int int

record DeployResult =
  dr_DryRun :: bool
  dr_Function :: "Function option"
  dr_Version :: "FunctionVersion option"
  dr_Manifest :: Normalized
  dr_Warnings :: "warning list"

text \<open>
  \<open>de_wire\<close> is the byte sequence gzip and tar make of an archive; the other fields are the
  parameters of the manifest parser.
\<close>

record 'f deploy_env =
  de_unmarshal :: "bytes \<Rightarrow> rawManifest option"
  de_parse_duration :: "string \<Rightarrow> int option"
  de_float :: "'f float_ops"
  de_duration_str :: "int \<Rightarrow> string"
  de_wire :: "archive \<Rightarrow> bytes"

record ('b, 'p) service_state =
  sv_db :: DB
  sv_blobs :: 'b
  sv_runtime :: "'p Manager option"

section \<open>The helpers of Deploy (deploy.go)\<close>

definition looksLikeJSModule :: "string \<Rightarrow> bool" where
  "looksLikeJSModule path = list_ex (\<lambda>ext. suffix ext path) [''.js'', ''.mjs'', ''.cjs'']"

definition detectNodeCoreImports :: "files \<Rightarrow> string list" where
  "detectNodeCoreImports fs =
     foldl (\<lambda>out spec. if spec \<in> set out then out else out @ [spec]) []
       (concat (map (\<lambda>n. DetectNodeCoreImports (case map_of fs n of Some d \<Rightarrow> d | None \<Rightarrow> []))
          (filter looksLikeJSModule (sort (map fst fs)))))"

definition bundleFilesMeta :: "files \<Rightarrow> (string \<times> int) list" where
  "bundleFilesMeta fs = sort_key fst (map (\<lambda>f. (fst f, int (length (snd f)))) fs)"

definition buildWarnings :: "Manifest \<Rightarrow> Org \<Rightarrow> warning list" where
  "buildWarnings m orgSet =
     (if m_Source m = [] then [NoManifestFile] else []) @
     (if fetch_mode_String (fperm_Mode (m_Fetch m)) = ''allowlist'' \<and> fperm_Allow (m_Fetch m) = []
        then [EmptyAllowlist] else []) @
     (if m_Nodejs m \<and> \<not> so_AllowNodejsCompat orgSet then [NodejsCompatDisabled] else [])"

definition deploy_loadOrgSettings :: "DB \<Rightarrow> service_error + Org" where
  "deploy_loadOrgSettings db =
     (case org_Get db of
        Inr org \<Rightarrow> (case ParseOrg (org_Settings org) of Inl _ \<Rightarrow> Inl Internal | Inr orgSet \<Rightarrow> Inr orgSet)
      | Inl ErrNotFound \<Rightarrow> Inr DefaultOrg
      | Inl _ \<Rightarrow> Inl Internal)"

definition deploy_resolveOwner :: "DB \<Rightarrow> string \<Rightarrow> service_error + OwnerType \<times> string" where
  "deploy_resolveOwner db owner =
     (case handles_ByUserID db owner of
        Inr h \<Rightarrow> Inr (OwnerTypeUser, pu_InternalUserID h)
      | Inl e \<Rightarrow>
          if e \<noteq> ErrNotFound then Inl Internal
          else case workspaces_ByID db owner of
            Inr ws \<Rightarrow> Inr (OwnerTypeWorkspace, ws_ID ws)
          | Inl e' \<Rightarrow>
              if e' \<noteq> ErrNotFound then Inl Internal
              else case ValidateUserID owner of
                Inl me \<Rightarrow> Inl (mapManifestErr me)
              | Inr _ \<Rightarrow> Inl NotFoundErr)"

definition workspaceRole :: "DB \<Rightarrow> string \<Rightarrow> string \<Rightarrow> Role option" where
  "workspaceRole db wsID userID =
     map_option wm_Role (find (\<lambda>m. wm_UserID m = userID) (workspaces_ListMembers db wsID))"

definition authorizeDeploy :: "DB \<Rightarrow> User \<Rightarrow> OwnerType \<Rightarrow> string \<Rightarrow> Org \<Rightarrow> service_error + unit" where
  "authorizeDeploy db actor ownerType ownerID orgSet =
     (let a = \<lparr>a_UserID = u_ID actor, a_Role = u_Role actor\<rparr> in
      if ownerType = OwnerTypeUser then
        (if \<not> CanDeployPersonal a ownerID (so_AllowUserFunctions orgSet) then Inl Forbidden else Inr ())
      else case workspaces_ByID db ownerID of
        Inl e \<Rightarrow> Inl (if e = ErrNotFound then NotFoundErr else Internal)
      | Inr ws \<Rightarrow>
          (case ParseWorkspace (ws_Settings ws) of
             Inl _ \<Rightarrow> Inl Internal
           | Inr wsSet \<Rightarrow>
               if \<not> CanDeployToWorkspace a (workspaceRole db ownerID (u_ID actor)) (sw_MemberCanDeploy wsSet)
               then Inl Forbidden else Inr ()))"

definition checkFunctionLimit :: "DB \<Rightarrow> OwnerType \<Rightarrow> string \<Rightarrow> string \<Rightarrow> Org \<Rightarrow> service_error + int \<times> int" where
  "checkFunctionLimit db ownerType ownerID actorID orgSet =
     (case ownerType of
        OwnerTypeUser \<Rightarrow>
          if so_MaxFunctionsPerUser orgSet \<le> 0 then Inr (0, 0)
          else Inr (int (functions_CountByOwner db OwnerTypeUser ownerID), so_MaxFunctionsPerUser orgSet)
      | OwnerTypeWorkspace \<Rightarrow>
          (case workspaces_ByID db ownerID of
             Inl _ \<Rightarrow> Inl Internal
           | Inr ws \<Rightarrow>
               (case ParseWorkspace (ws_Settings ws) of
                  Inl _ \<Rightarrow> Inl Internal
                | Inr wsSet \<Rightarrow>
                    if sw_MaxFunctionsPerMember wsSet \<le> 0 then Inr (0, 0)
                    else Inr (int (functions_CountByWorkspaceAndCreator db ownerID actorID),
                              sw_MaxFunctionsPerMember wsSet))))"

definition functionLimitDryRunWarning :: "DB \<Rightarrow> string \<Rightarrow> string \<Rightarrow> string \<Rightarrow> Org \<Rightarrow> warning option" where
  "functionLimitDryRunWarning db owner name actorID orgSet =
     (case deploy_resolveOwner db owner of
        Inl _ \<Rightarrow> None
      | Inr (ownerType, ownerID) \<Rightarrow>
          if functions_ByName db name \<noteq> Inl ErrNotFound then None
          else case checkFunctionLimit db ownerType ownerID actorID orgSet of
            Inl _ \<Rightarrow> None
          | Inr (current, limit) \<Rightarrow>
              if limit \<le> 0 \<or> current < limit then None else Some (LimitReached current limit))"

section \<open>Deploy (deploy.go)\<close>

text \<open>The part of \<open>Deploy\<close> before the dry-run return: nothing of it writes.\<close>

record deploy_plan =
  pl_org :: Org
  pl_files :: files
  pl_manifest :: Manifest

definition deploy_name :: "Manifest \<Rightarrow> string \<Rightarrow> service_error + Manifest" where
  "deploy_name m reqName =
     (if m_Name m \<noteq> [] \<and> reqName \<noteq> [] \<and> m_Name m \<noteq> reqName then Inl (BadRequest ''name_mismatch'')
      else let name = (if m_Name m = [] then reqName else m_Name m) in
        if name = [] then Inl (BadRequest ''missing_name'') else Inr (m\<lparr>m_Name := name\<rparr>))"

definition open_mode_visibility :: "Org \<Rightarrow> Manifest \<Rightarrow> bool" where
  "open_mode_visibility orgSet m =
     (so_OpenMode orgSet \<and>
      ParseVisibility (case m_Visibility m of Some v \<Rightarrow> visibility_String v | None \<Rightarrow> so_DefaultVisibility orgSet)
        = Inr VisibilityWorkspace)"

definition deploy_validate :: "'f deploy_env \<Rightarrow> DB \<Rightarrow> DeployParams \<Rightarrow> service_error + deploy_plan" where
  "deploy_validate env db p =
     (if dp_Owner p = [] then Inl (BadRequest ''missing_owner'')
      else if \<not> dp_DryRun p \<and> dp_Actor p = None then Inl Unauthorized
      else if \<not> is_ok (ValidateUserID (dp_Owner p)) \<and> dp_Owner p = to_lower (dp_Owner p)
        then Inl (case ValidateUserID (dp_Owner p) of Inl e \<Rightarrow> mapManifestErr e | Inr _ \<Rightarrow> Internal)
      else case deploy_loadOrgSettings db of
        Inl e \<Rightarrow> Inl e
      | Inr orgSet \<Rightarrow>
      (case Unpack (dp_Bundle p) of
        Inl e \<Rightarrow> Inl (mapBundleErr e)
      | Inr fs \<Rightarrow>
      (case Parse (de_unmarshal env) (de_parse_duration env) (de_float env) fs of
        Inl e \<Rightarrow> Inl (mapManifestErr e)
      | Inr m0 \<Rightarrow>
      (case deploy_name m0 (dp_Name p) of
        Inl e \<Rightarrow> Inl e
      | Inr m \<Rightarrow>
      (case Validate (Some m) of
        Inl e \<Rightarrow> Inl (mapManifestErr e)
      | Inr _ \<Rightarrow>
        if open_mode_visibility orgSet m then Inl (BadRequest ''workspace_visibility_disabled'')
        else case ResolveMain (m_Main m) fs of
          Inl _ \<Rightarrow> Inl (BadRequest ''main_not_found'')
        | Inr mainPath \<Rightarrow>
            if \<not> m_Nodejs m \<and> detectNodeCoreImports fs \<noteq> [] then Inl (BadRequest ''node_core_import'')
            else Inr \<lparr>pl_org = orgSet, pl_files = fs, pl_manifest = m\<lparr>m_Main := mainPath\<rparr>\<rparr>)))))"

definition deploy_dry_run :: "'f deploy_env \<Rightarrow> DB \<Rightarrow> DeployParams \<Rightarrow> deploy_plan \<Rightarrow> DeployResult" where
  "deploy_dry_run env db p pl =
     \<lparr>dr_DryRun = True, dr_Function = None, dr_Version = None,
      dr_Manifest = Manifest_Normalized (de_duration_str env) (pl_manifest pl),
      dr_Warnings = buildWarnings (pl_manifest pl) (pl_org pl) @
        (case dp_Actor p of
           None \<Rightarrow> []
         | Some actor \<Rightarrow>
             (case functionLimitDryRunWarning db (dp_Owner p) (m_Name (pl_manifest pl)) (u_ID actor) (pl_org pl) of
                None \<Rightarrow> [] | Some w \<Rightarrow> [w]))\<rparr>"

text \<open>Steps 5 and 6: the canonical archive and an owner the actor may deploy to.\<close>

definition deploy_place ::
  "DB \<Rightarrow> DeployParams \<Rightarrow> User \<Rightarrow> deploy_plan \<Rightarrow> service_error + archive \<times> OwnerType \<times> string" where
  "deploy_place db p actor pl =
     (case Pack (pl_files pl) of
        Inl _ \<Rightarrow> Inl Internal
      | Inr packed \<Rightarrow>
          (case deploy_resolveOwner db (dp_Owner p) of
             Inl e \<Rightarrow> Inl e
           | Inr (ownerType, ownerID) \<Rightarrow>
               if so_OpenMode (pl_org pl) \<and> ownerType = OwnerTypeWorkspace
                 then Inl (BadRequest ''workspace_owner_disabled'')
               else case authorizeDeploy db actor ownerType ownerID (pl_org pl) of
                 Inl e \<Rightarrow> Inl e
               | Inr _ \<Rightarrow> Inr (packed, ownerType, ownerID)))"

text \<open>Step 8: the function row, new within the quota or the owner's existing one.\<close>

definition deploy_function ::
  "DB \<Rightarrow> unix \<Rightarrow> string \<Rightarrow> User \<Rightarrow> deploy_plan \<Rightarrow> OwnerType \<Rightarrow> string \<Rightarrow> DB \<times> (service_error + Function)" where
  "deploy_function db now fid actor pl ownerType ownerID =
     (let m = pl_manifest pl in
      case functions_ByName db (m_Name m) of
        Inl ErrNotFound \<Rightarrow>
          (case checkFunctionLimit db ownerType ownerID (u_ID actor) (pl_org pl) of
             Inl e \<Rightarrow> (db, Inl e)
           | Inr (current, limit) \<Rightarrow>
               if limit > 0 \<and> current \<ge> limit then (db, Inl FunctionLimitExceeded)
               else case functions_CreateWithinLimit db now fid
                   \<lparr>fn_ID = [], fn_OwnerType = ownerType, fn_OwnerID = ownerID, fn_Name = m_Name m,
                    fn_Description = m_Description m, fn_ActiveVersionID = None,
                    fn_CreatedBy = Some (u_ID actor), fn_CreatedAt = 0, fn_UpdatedAt = 0\<rparr> limit of
                 (db', Inr fn) \<Rightarrow> (db', Inr fn)
               | (db', Inl ErrFunctionLimitReached) \<Rightarrow>
                   (case checkFunctionLimit db' ownerType ownerID (u_ID actor) (pl_org pl) of
                      Inl e \<Rightarrow> (db', Inl e) | Inr _ \<Rightarrow> (db', Inl FunctionLimitExceeded))
               | (db', Inl ErrConflict) \<Rightarrow> (db', Inl FunctionNameTaken)
               | (db', Inl ErrNotFound) \<Rightarrow> (db', Inl Internal))
      | Inl _ \<Rightarrow> (db, Inl Internal)
      | Inr fn \<Rightarrow>
          if fn_OwnerType fn \<noteq> ownerType \<or> fn_OwnerID fn \<noteq> ownerID then (db, Inl FunctionNameTaken)
          else if fn_Description fn \<noteq> m_Description m then
            (case functions_Update db now (fn\<lparr>fn_Description := m_Description m\<rparr>) of
               (db', Inl _) \<Rightarrow> (db', Inl Internal)
             | (db', Inr _) \<Rightarrow> (db', Inr (fn\<lparr>fn_Description := m_Description m, fn_UpdatedAt := now\<rparr>)))
          else (db, Inr fn))"

text \<open>Step 9: the version row and its activation.\<close>

definition deploy_version ::
  "DB \<Rightarrow> unix \<Rightarrow> string \<Rightarrow> FunctionVersion \<Rightarrow> Function \<Rightarrow> DB \<times> (service_error + Function \<times> FunctionVersion)" where
  "deploy_version db now vid v0 fn =
     (case functions_CreateVersion db now vid v0 of
        (db', Inl _) \<Rightarrow> (db', Inl Internal)
      | (db', Inr v) \<Rightarrow>
          (case ActivateVersion db' now (fn_ID fn) (fv_ID v) of
             (db'', Inl _) \<Rightarrow> (db'', Inl Internal)
           | (db'', Inr _) \<Rightarrow> (db'', Inr (fn\<lparr>fn_ActiveVersionID := Some (fv_ID v)\<rparr>, v))))"

definition new_version :: "Crypto \<Rightarrow> 'f deploy_env \<Rightarrow> DeployParams \<Rightarrow> User \<Rightarrow> deploy_plan \<Rightarrow> archive \<Rightarrow> string \<Rightarrow> FunctionVersion" where
  "new_version c env p actor pl packed funcID =
     \<lparr>fv_ID = [], fv_FunctionID = funcID,
      fv_Manifest = Some (Manifest_Normalized (de_duration_str env) (pl_manifest pl)),
      fv_MainPath = m_Main (pl_manifest pl), fv_BundleHash = sha256Hex c (de_wire env packed),
      fv_BundleSize = int (length (de_wire env packed)),
      fv_UnpackedSize = total_size (pl_files pl), fv_Files = bundleFilesMeta (pl_files pl),
      fv_CreatedBy = u_ID actor, fv_Note = dp_Note p, fv_CreatedAt = 0, fv_UpdatedAt = 0\<rparr>"

definition invalidate_old :: "'p Manager option \<Rightarrow> string option \<Rightarrow> 'p Manager option" where
  "invalidate_old rt old =
     (case (rt, old) of (Some m, Some v) \<Rightarrow> Some (Invalidate m v) | _ \<Rightarrow> rt)"

text \<open>
  The writing part after the blob is stored (steps 8 to 10), on the state in which the
  plan was checked or on a later one.
\<close>

definition deploy_commit ::
  "Crypto \<Rightarrow> 'f deploy_env \<Rightarrow> unix \<Rightarrow> string \<Rightarrow> string \<Rightarrow> DeployParams \<Rightarrow> User \<Rightarrow> deploy_plan
     \<Rightarrow> archive \<times> OwnerType \<times> string \<Rightarrow> ('b, 'p) service_state
     \<Rightarrow> ('b, 'p) service_state \<times> (service_error + DeployResult)" where
  "deploy_commit c env now fid vid p actor pl place st =
     (case deploy_function (sv_db st) now fid actor pl (fst (snd place)) (snd (snd place)) of
        (db1, Inl e) \<Rightarrow> (st\<lparr>sv_db := db1\<rparr>, Inl e)
      | (db1, Inr fn) \<Rightarrow>
          (case deploy_version db1 now vid (new_version c env p actor pl (fst place) (fn_ID fn)) fn of
             (db2, Inl e) \<Rightarrow> (st\<lparr>sv_db := db2\<rparr>, Inl e)
           | (db2, Inr (fn', v)) \<Rightarrow>
               (st\<lparr>sv_db := db2, sv_runtime := invalidate_old (sv_runtime st) (fn_ActiveVersionID fn)\<rparr>,
                Inr \<lparr>dr_DryRun = dp_DryRun p, dr_Function = Some fn', dr_Version = Some v,
                  dr_Manifest = Manifest_Normalized (de_duration_str env) (pl_manifest pl),
                  dr_Warnings = buildWarnings (pl_manifest pl) (pl_org pl)\<rparr>)))"

definition Deploy ::
  "Crypto \<Rightarrow> 'f deploy_env \<Rightarrow> ('b \<Rightarrow> string \<Rightarrow> archive \<Rightarrow> blob_error + 'b) \<Rightarrow> unix \<Rightarrow> string \<Rightarrow> string
     \<Rightarrow> ('b, 'p) service_state \<Rightarrow> DeployParams \<Rightarrow> ('b, 'p) service_state \<times> (service_error + DeployResult)" where
  "Deploy c env blob_Put now fid vid st p =
     (case deploy_validate env (sv_db st) p of
        Inl e \<Rightarrow> (st, Inl e)
      | Inr pl \<Rightarrow>
          if dp_DryRun p then (st, Inr (deploy_dry_run env (sv_db st) p pl))
          else case dp_Actor p of
            None \<Rightarrow> (st, Inl Unauthorized)
          | Some actor \<Rightarrow>
              (case deploy_place (sv_db st) p actor pl of
                 Inl e \<Rightarrow> (st, Inl e)
               | Inr place \<Rightarrow>
                   (case blob_Put (sv_blobs st) (BundleBlobKey (sha256Hex c (de_wire env (fst place)))) (fst place) of
                      Inl _ \<Rightarrow> (st, Inl Internal)
                    | Inr blobs \<Rightarrow> deploy_commit c env now fid vid p actor pl place (st\<lparr>sv_blobs := blobs\<rparr>))))"

text \<open>
  The function row, the version row and the activation are three transactions of the store (deploy.go, from the look-up
  of the function to \<open>ActivateVersion\<close>), and nothing is rolled back when a later one fails. These are the databases a
  deploy whose store fails before the activation is committed may stop at.
\<close>

definition deploy_cut ::
  "Crypto \<Rightarrow> 'f deploy_env \<Rightarrow> unix \<Rightarrow> string \<Rightarrow> string \<Rightarrow> DeployParams \<Rightarrow> User \<Rightarrow> deploy_plan
     \<Rightarrow> archive \<times> OwnerType \<times> string \<Rightarrow> DB \<Rightarrow> DB list" where
  "deploy_cut c env now fid vid p actor pl place db =
     (case deploy_function db now fid actor pl (fst (snd place)) (snd (snd place)) of
        (db1, Inl e) \<Rightarrow> [db, db1]
      | (db1, Inr fn) \<Rightarrow>
          [db, db1, fst (functions_CreateVersion db1 now vid (new_version c env p actor pl (fst place) (fn_ID fn)))])"

text \<open>What the database says is being served: the active version of every function that has one.\<close>

definition live_versions :: "DB \<Rightarrow> (string \<times> string) set" where
  "live_versions db = {(i, v). (i, Some v) \<in> (\<lambda>f. (fn_ID f, fn_ActiveVersionID f)) ` set (db_functions db)}"

section \<open>What a deploy may write\<close>

lemma ByName_member:
  assumes "db_ok db" and "f \<in> set (db_functions db)"
  shows "functions_ByName db (fn_Name f) = Inr f"
proof -
  have cl: "claims_ok (db_functions db) (db_names db)" and uf: "unique_on fn_ID (db_functions db)"
    using assms(1) by (simp_all add: db_ok_defs)
  from cl assms(2) obtain n where n: "n \<in> set (db_names db)" "nc_Active n" "nc_FunctionID n = fn_ID f"
      "nc_Name n = fn_Name f" by (auto simp: claims_ok_def)
  let ?p = "\<lambda>n. nc_Name n = fn_Name f \<and> nc_Active n \<and> has_row fn_ID (nc_FunctionID n) (db_functions db)"
  have "?p n" using n assms(2) by (auto simp: has_row_iff)
  then obtain n' where n': "lookup_row ?p (db_names db) = Some n'"
    using n(1) lookup_row_None [of ?p "db_names db"] by (cases "lookup_row ?p (db_names db)") auto
  from lookup_row_Some [OF this] have "n' = n"
    using cl n unique_on_inj [of nc_Name "db_names db" n' n] by (auto simp: claims_ok_def)
  with n' n show ?thesis
    using lookup_row_key [OF uf assms(2)] by (simp add: functions_ByName_def functions_ByID_def)
qed

lemma ByName_found:
  "functions_ByName db n = Inr f \<Longrightarrow> f \<in> set (db_functions db)"
  by (auto simp: functions_ByName_def functions_ByID_def split: option.splits dest: lookup_row_Some)

lemma ByName_name: "db_ok db \<Longrightarrow> functions_ByName db n = Inr f \<Longrightarrow> fn_Name f = n"
proof -
  assume ok: "db_ok db" and f: "functions_ByName db n = Inr f"
  then obtain k where k: "k \<in> set (db_names db)" "nc_Name k = n" "nc_Active k" "nc_FunctionID k = fn_ID f"
    and mem: "f \<in> set (db_functions db)"
    by (auto simp: functions_ByName_def functions_ByID_def split: option.splits dest!: lookup_row_Some)
  from ok k obtain g where "g \<in> set (db_functions db)" "fn_ID g = fn_ID f" "fn_Name g = n"
    by (fastforce simp: db_ok_defs claims_ok_def)
  with ok mem show "fn_Name f = n" using unique_on_inj [of fn_ID "db_functions db" g f] by (auto simp: db_ok_defs)
qed

text \<open>Everything but the row of one function is as before.\<close>

definition only_function :: "string \<Rightarrow> DB \<Rightarrow> DB \<Rightarrow> bool" where
  "only_function fid db db' =
     (filter (\<lambda>f. fn_ID f \<noteq> fid) (db_functions db') = filter (\<lambda>f. fn_ID f \<noteq> fid) (db_functions db)
      \<and> set (db_versions db) \<subseteq> set (db_versions db')
      \<and> filter (\<lambda>v. fv_FunctionID v \<noteq> fid) (db_versions db') = filter (\<lambda>v. fv_FunctionID v \<noteq> fid) (db_versions db)
      \<and> filter (\<lambda>n. nc_FunctionID n \<noteq> fid) (db_names db') = filter (\<lambda>n. nc_FunctionID n \<noteq> fid) (db_names db)
      \<and> db'\<lparr>db_functions := db_functions db, db_versions := db_versions db, db_names := db_names db\<rparr> = db)"

lemma only_function_refl [simp]: "only_function i db db"
  by (simp add: only_function_def)

lemma only_function_trans:
  assumes "only_function i a b" "only_function i b c"
  shows "only_function i a c"
proof -
  let ?u = "\<lambda>x. x\<lparr>db_functions := db_functions a, db_versions := db_versions a, db_names := db_names a\<rparr>"
  have "?u c = ?u (c\<lparr>db_functions := db_functions b, db_versions := db_versions b, db_names := db_names b\<rparr>)" by simp
  also have "\<dots> = ?u b" using assms(2) by (simp only: only_function_def)
  also have "\<dots> = a" using assms(1) by (simp only: only_function_def)
  finally show ?thesis using assms unfolding only_function_def by (simp only:) blast
qed

lemma only_function_users: "only_function i a b \<Longrightarrow> db_users b = db_users a"
  unfolding only_function_def by (elim conjE, drule arg_cong [where f = db_users]) simp

lemma filter_update_rows:
  "(\<And>r. p r \<Longrightarrow> \<not> q r \<and> \<not> q (f r)) \<Longrightarrow> filter q (update_rows p f rows) = filter q rows"
  by (induction rows) (auto simp: update_rows_def)

lemma create_only:
  "functions_create db now fid f limit = (db', Inr fn) \<Longrightarrow>
     only_function (fn_ID fn) db db' \<and> fn \<in> set (db_functions db') \<and> fn_OwnerType fn = fn_OwnerType f
     \<and> fn_OwnerID fn = fn_OwnerID f \<and> fn_Name fn = fn_Name f \<and> db_versions db' = db_versions db
     \<and> fn_ID fn \<notin> fn_ID ` set (db_functions db)"
  by (auto simp: functions_create_def function_conflict_def list_ex_iff Let_def only_function_def split: if_splits)

lemma Update_only:
  assumes "db_ok db" "fn \<in> set (db_functions db)" "functions_Update db now (fn\<lparr>fn_Description := d\<rparr>) = (db', r)"
  shows "only_function (fn_ID fn) db db' \<and> r = Inr () \<and> fn\<lparr>fn_Description := d, fn_UpdatedAt := now\<rparr> \<in> set (db_functions db')
    \<and> db_versions db' = db_versions db"
proof -
  have u: "unique_on fn_ID (db_functions db)" using assms(1) by (simp add: db_ok_defs)
  have by_id: "functions_ByID db (fn_ID fn) = Inr fn"
    using lookup_row_key [OF u assms(2)] by (simp add: functions_ByID_def)
  let ?g = "\<lambda>r. r\<lparr>fn_Name := fn_Name fn, fn_Description := d,
     fn_ActiveVersionID := fn_ActiveVersionID fn, fn_UpdatedAt := now\<rparr>"
  have db': "db' = db\<lparr>db_functions := update_rows (\<lambda>r. fn_ID r = fn_ID fn) ?g (db_functions db)\<rparr>" "r = Inr ()"
    using assms(3) by_id by (auto simp: functions_Update_def)
  have "?g fn \<in> set (update_rows (\<lambda>r. fn_ID r = fn_ID fn) ?g (db_functions db))"
    using assms(2) by (auto simp: image_iff intro!: bexI [of _ fn])
  then show ?thesis
    using db' by (simp add: only_function_def filter_update_rows)
qed

lemma deploy_function_Inl: "deploy_function db now fid actor pl ot oid = (db', Inl e) \<Longrightarrow> db' = db"
  by (auto simp: deploy_function_def functions_CreateWithinLimit_def functions_create_def functions_Update_def Let_def
      split: sum.splits store_error.splits if_splits prod.splits)

lemma deploy_function_Inr:
  assumes "db_ok db" and "deploy_function db now fid actor pl ot oid = (db', Inr fn)"
  shows "only_function (fn_ID fn) db db' \<and> fn \<in> set (db_functions db') \<and> db_ok db' \<and> fn_OwnerType fn = ot
    \<and> fn_OwnerID fn = oid \<and> fn_Name fn = m_Name (pl_manifest pl) \<and> db_versions db' = db_versions db
    \<and> (\<forall>f \<in> set (db_functions db). fn_ID f = fn_ID fn \<longrightarrow> owned_by ot oid f \<and> fn_Name f = fn_Name fn)"
proof (cases "functions_ByName db (m_Name (pl_manifest pl))")
  case (Inl e)
  let ?f = "\<lparr>fn_ID = [], fn_OwnerType = ot, fn_OwnerID = oid, fn_Name = m_Name (pl_manifest pl),
      fn_Description = m_Description (pl_manifest pl), fn_ActiveVersionID = None,
      fn_CreatedBy = Some (u_ID actor), fn_CreatedAt = 0, fn_UpdatedAt = 0\<rparr>"
  from Inl assms(2) obtain limit where "functions_create db now fid ?f limit = (db', Inr fn)"
    by (auto simp: deploy_function_def functions_CreateWithinLimit_def Let_def
        split: sum.splits store_error.splits if_splits prod.splits)
  with create_only [OF this] functions_create_ok [OF assms(1), of now fid ?f limit] show ?thesis by (auto simp: image_iff)
next
  case (Inr f)
  have f: "f \<in> set (db_functions db)" "fn_Name f = m_Name (pl_manifest pl)"
    using ByName_found [OF Inr] ByName_name [OF assms(1) Inr] by auto
  from Inr assms(2) have own: "fn_OwnerType f = ot" "fn_OwnerID f = oid"
    by (auto simp: deploy_function_def Let_def split: if_splits prod.splits sum.splits)
  have mine: "\<forall>g \<in> set (db_functions db). fn_ID g = fn_ID f \<longrightarrow> owned_by ot oid g \<and> fn_Name g = fn_Name f"
    using unique_on_inj [of fn_ID "db_functions db" _ f] assms(1) f(1) own by (auto simp: db_ok_defs owned_by_def)
  show ?thesis
  proof (cases "fn_Description f = m_Description (pl_manifest pl)")
    case True
    with Inr own assms have eq: "db' = db" "fn = f" by (auto simp: deploy_function_def Let_def)
    show ?thesis unfolding eq using own assms(1) f mine only_function_refl by blast
  next
    case False
    obtain db1 r where u: "functions_Update db now (f\<lparr>fn_Description := m_Description (pl_manifest pl)\<rparr>) = (db1, r)"
      by fastforce
    note o1 = Update_only [OF assms(1) f(1) u]
    have "db_ok db1" using functions_Update_ok [OF assms(1)] u by (metis fst_conv)
    moreover have eq: "db' = db1" "fn = f\<lparr>fn_Description := m_Description (pl_manifest pl), fn_UpdatedAt := now\<rparr>"
      using Inr own assms(2) False u o1 by (auto simp: deploy_function_def Let_def split: prod.splits sum.splits)
    moreover have "fn_ID fn = fn_ID f" "fn_Name fn = fn_Name f" "fn_OwnerType fn = ot" "fn_OwnerID fn = oid"
      using eq(2) own by simp_all
    ultimately show ?thesis using o1 f(2) mine by metis
  qed
qed

lemma lookup_row_appended: "(\<And>r. r \<in> set rows \<Longrightarrow> \<not> q r) \<Longrightarrow> q x \<Longrightarrow> lookup_row q (rows @ [x]) = Some x"
  by (induction rows) (auto simp: lookup_row_def)

lemma deploy_version_Inr:
  assumes ok: "db_ok db" and mem: "fn \<in> set (db_functions db)" and v0: "fv_ID v0 = []" "fv_FunctionID v0 = fn_ID fn"
    and dv: "deploy_version db now vid v0 fn = (db', Inr (fn', v))"
  shows "v = v0\<lparr>fv_ID := vid, fv_CreatedAt := now, fv_UpdatedAt := now\<rparr> \<and> fn' = fn\<lparr>fn_ActiveVersionID := Some vid\<rparr>
    \<and> db_ok db' \<and> only_function (fn_ID fn) db db' \<and> functions_Version db' vid = Inr v
    \<and> fn\<lparr>fn_ActiveVersionID := Some vid, fn_UpdatedAt := now\<rparr> \<in> set (db_functions db')"
proof -
  let ?v = "v0\<lparr>fv_ID := vid, fv_CreatedAt := now, fv_UpdatedAt := now\<rparr>"
  let ?g = "\<lambda>f. f\<lparr>fn_ActiveVersionID := Some vid, fn_UpdatedAt := now\<rparr>"
  let ?d1 = "db\<lparr>db_versions := db_versions db @ [?v]\<rparr>"
  let ?d2 = "?d1\<lparr>db_functions := update_rows (\<lambda>f. fn_ID f = fn_ID fn) ?g (db_functions db)\<rparr>"
  have cv: "functions_CreateVersion db now vid v0 = (?d1, Inr ?v)" "\<not> has_row fv_ID vid (db_versions db)"
    using dv v0 by (auto simp: deploy_version_def functions_CreateVersion_def Let_def assign_id_def
        split: if_splits prod.splits sum.splits)
  have ok1: "db_ok ?d1" using functions_CreateVersion_ok [OF ok, of now vid v0] cv by simp
  have look: "lookup_row (\<lambda>v. fv_ID v = vid) (db_versions db @ [?v]) = Some ?v"
    using lookup_row_key [of fv_ID "db_versions ?d1" ?v] ok1 by (simp add: db_ok_defs)
  have act: "ActivateVersion ?d1 now (fn_ID fn) vid = (?d2, Inr ())"
    using look v0 mem by (auto simp: ActivateVersion_def has_row_iff)
  have ok2: "db_ok ?d2" using ActivateVersion_ok [OF ok1, of now "fn_ID fn" vid] act by simp
  have eq: "db' = ?d2" "v = ?v" "fn' = fn\<lparr>fn_ActiveVersionID := Some vid\<rparr>"
    using dv cv act by (auto simp: deploy_version_def)
  have "only_function (fn_ID fn) db ?d2"
    using v0 by (simp add: only_function_def filter_update_rows subset_iff)
  moreover have "?g fn \<in> set (db_functions ?d2)"
    using mem by (auto simp: image_iff intro!: bexI [of _ fn])
  ultimately show ?thesis using eq ok2 look by (simp add: functions_Version_def)
qed

lemma deploy_version_total:
  assumes "fn \<in> set (db_functions db)" "fv_ID v0 = []" "fv_FunctionID v0 = fn_ID fn"
    and "\<not> has_row fv_ID vid (db_versions db)" "has_row u_ID (fv_CreatedBy v0) (db_users db)"
  shows "\<exists>db' fn' v. deploy_version db now vid v0 fn = (db', Inr (fn', v))"
proof -
  let ?v = "v0\<lparr>fv_ID := vid, fv_CreatedAt := now, fv_UpdatedAt := now\<rparr>"
  have "lookup_row (\<lambda>v. fv_ID v = vid) (db_versions db @ [?v]) = Some ?v"
    using assms(4) lookup_row_appended [of "db_versions db" "\<lambda>v. fv_ID v = vid" ?v] by (auto simp: has_row_iff)
  with assms show ?thesis
    by (auto simp: deploy_version_def functions_CreateVersion_def ActivateVersion_def Let_def assign_id_def has_row_iff)
qed

lemma new_version_fields [simp]:
  "fv_ID (new_version c env p actor pl packed i) = []" "fv_FunctionID (new_version c env p actor pl packed i) = i"
  "fv_CreatedBy (new_version c env p actor pl packed i) = u_ID actor"
  by (simp_all add: new_version_def)

lemma deploy_commit_Inl:
  assumes "db_ok (sv_db st)" "\<not> has_row fv_ID vid (db_versions (sv_db st))" "has_row u_ID (u_ID actor) (db_users (sv_db st))"
    and "deploy_commit c env now fid vid p actor pl place st = (st', Inl e)"
  shows "st' = st"
proof (cases "deploy_function (sv_db st) now fid actor pl (fst (snd place)) (snd (snd place))")
  case (Pair db1 r)
  show ?thesis
  proof (cases r)
    case (Inl e1)
    with Pair assms(4) deploy_function_Inl [of "sv_db st" now fid actor pl _ _ db1] show ?thesis
      by (auto simp: deploy_commit_def)
  next
    case (Inr fn)
    note df = deploy_function_Inr [OF assms(1), of now fid actor pl "fst (snd place)" "snd (snd place)" db1 fn]
    have "db_users db1 = db_users (sv_db st)"
      using df Pair Inr by (auto dest: only_function_users)
    with df Pair Inr assms(2,3)
    obtain db2 fn' v where "deploy_version db1 now vid (new_version c env p actor pl (fst place) (fn_ID fn)) fn = (db2, Inr (fn', v))"
      using deploy_version_total [of fn db1 "new_version c env p actor pl (fst place) (fn_ID fn)" vid now] by auto
    with Pair Inr assms(4) show ?thesis by (simp add: deploy_commit_def)
  qed
qed

lemma deploy_commit_Inr:
  assumes "db_ok (sv_db st)" and "deploy_commit c env now fid vid p actor pl (packed, ot, oid) st = (st', Inr res)"
  obtains fn v f where "dr_Function res = Some fn" "dr_Version res = Some v"
    "dr_Manifest res = Manifest_Normalized (de_duration_str env) (pl_manifest pl)"
    "dr_Warnings res = buildWarnings (pl_manifest pl) (pl_org pl)"
    "fn_OwnerType fn = ot" "fn_OwnerID fn = oid" "fn_Name fn = m_Name (pl_manifest pl)"
    "v = (new_version c env p actor pl packed (fn_ID fn))\<lparr>fv_ID := vid, fv_CreatedAt := now, fv_UpdatedAt := now\<rparr>"
    "fn_ActiveVersionID fn = Some vid" "sv_blobs st' = sv_blobs st"
    "db_ok (sv_db st')" "only_function (fn_ID fn) (sv_db st) (sv_db st')" "functions_Version (sv_db st') vid = Inr v"
    "functions_ByName (sv_db st') (fn_Name fn) = Inr (fn\<lparr>fn_UpdatedAt := now\<rparr>)"
    "\<forall>f \<in> set (db_functions (sv_db st)). fn_ID f = fn_ID fn \<longrightarrow> owned_by ot oid f \<and> fn_Name f = fn_Name fn"
proof -
  from assms(2) obtain db1 fn0 where f: "deploy_function (sv_db st) now fid actor pl ot oid = (db1, Inr fn0)"
    by (auto simp: deploy_commit_def split: prod.splits sum.splits)
  note df = deploy_function_Inr [OF assms(1) f]
  let ?v0 = "new_version c env p actor pl packed (fn_ID fn0)"
  from assms(2) f obtain db2 fn v where dv: "deploy_version db1 now vid ?v0 fn0 = (db2, Inr (fn, v))"
    and st': "st' = st\<lparr>sv_db := db2, sv_runtime := invalidate_old (sv_runtime st) (fn_ActiveVersionID fn0)\<rparr>"
    and res: "res = \<lparr>dr_DryRun = dp_DryRun p, dr_Function = Some fn, dr_Version = Some v,
                  dr_Manifest = Manifest_Normalized (de_duration_str env) (pl_manifest pl),
                  dr_Warnings = buildWarnings (pl_manifest pl) (pl_org pl)\<rparr>"
    by (auto simp: deploy_commit_def split: prod.splits sum.splits)
  have dv': "v = ?v0\<lparr>fv_ID := vid, fv_CreatedAt := now, fv_UpdatedAt := now\<rparr>" "fn = fn0\<lparr>fn_ActiveVersionID := Some vid\<rparr>"
    "db_ok db2" "only_function (fn_ID fn0) db1 db2" "functions_Version db2 vid = Inr v"
    "fn0\<lparr>fn_ActiveVersionID := Some vid, fn_UpdatedAt := now\<rparr> \<in> set (db_functions db2)"
    using deploy_version_Inr [OF _ _ _ _ dv] df by auto
  have "functions_ByName db2 (fn_Name fn) = Inr (fn\<lparr>fn_UpdatedAt := now\<rparr>)"
    using ByName_member [OF dv'(3,6)] dv'(2) by simp
  moreover have "only_function (fn_ID fn) (sv_db st) db2"
    using only_function_trans [of "fn_ID fn0" "sv_db st" db1 db2] df dv'(2,4) by simp
  ultimately show thesis
    using st' res dv' df by (intro that [of fn v]) simp_all
qed

text \<open>The plan holds the uploaded manifest, with the name of the request and the resolved entry point filled in.\<close>

lemma deploy_validate_uploaded:
  "deploy_validate env db p = Inr pl \<Longrightarrow>
     \<exists>m0 m entry. Parse (de_unmarshal env) (de_parse_duration env) (de_float env) (pl_files pl) = Inr m0
       \<and> deploy_name m0 (dp_Name p) = Inr m \<and> ResolveMain (m_Main m) (pl_files pl) = Inr entry
       \<and> pl_manifest pl = m\<lparr>m_Main := entry\<rparr>"
  by (auto simp: deploy_validate_def split: if_splits sum.splits)

lemma deploy_validate_Inr:
  assumes "deploy_validate env db p = Inr pl"
  shows "deploy_loadOrgSettings db = Inr (pl_org pl) \<and> Unpack (dp_Bundle p) = Inr (pl_files pl)
    \<and> validateName (m_Name (pl_manifest pl)) = Inr () \<and> has_file (pl_files pl) (m_Main (pl_manifest pl))
    \<and> (m_Nodejs (pl_manifest pl) \<or> detectNodeCoreImports (pl_files pl) = []) \<and> manifest_wf (pl_manifest pl)"
proof -
  from assms obtain m0 m mainPath where
      p: "Parse (de_unmarshal env) (de_parse_duration env) (de_float env) (pl_files pl) = Inr m0"
      "deploy_name m0 (dp_Name p) = Inr m" and
      a: "deploy_loadOrgSettings db = Inr (pl_org pl)" "Unpack (dp_Bundle p) = Inr (pl_files pl)"
      "Validate (Some m) = Inr ()" "ResolveMain (m_Main m) (pl_files pl) = Inr mainPath"
      "pl_manifest pl = m\<lparr>m_Main := mainPath\<rparr>" "m_Nodejs m \<or> detectNodeCoreImports (pl_files pl) = []"
    by (auto simp: deploy_validate_def split: if_splits sum.splits)
  moreover have "validateName (m_Name m) = Inr ()" using a(3) by (auto simp: Validate_def split: sum.splits)
  moreover have "manifest_wf (m\<lparr>m_Main := mainPath\<rparr>)"
    using Parse_Inr_wf [OF p(1)] p(2) by (auto simp: deploy_name_def manifest_wf_def Let_def split: if_splits)
  moreover have "has_file (pl_files pl) mainPath"
    using a(4) by (auto simp: ResolveMain_def find_Some_iff split: if_splits option.splits)
  ultimately show ?thesis by simp
qed

text \<open>Who may deploy, in terms of roles and membership.\<close>

definition may_deploy :: "DB \<Rightarrow> User \<Rightarrow> OwnerType \<Rightarrow> string \<Rightarrow> bool" where
  "may_deploy db actor ot oid =
     (u_Role actor = RoleAdmin \<or>
      (case ot of
         OwnerTypeUser \<Rightarrow> u_ID actor = oid \<and> (\<exists>orgSet. deploy_loadOrgSettings db = Inr orgSet \<and> so_AllowUserFunctions orgSet)
       | OwnerTypeWorkspace \<Rightarrow> (\<exists>m \<in> set (db_members db). wm_WorkspaceID m = oid \<and> wm_UserID m = u_ID actor
           \<and> (wm_Role m = RoleAdmin \<or> (\<exists>ws wsSet. workspaces_ByID db oid = Inr ws
                \<and> ParseWorkspace (ws_Settings ws) = Inr wsSet \<and> sw_MemberCanDeploy wsSet)))))"

lemma workspaceRole_member:
  "workspaceRole db wsID u = Some r \<Longrightarrow>
     \<exists>m \<in> set (db_members db). wm_WorkspaceID m = wsID \<and> wm_UserID m = u \<and> wm_Role m = r"
  by (auto simp: workspaceRole_def workspaces_ListMembers_def dest!: lookup_row_Some [unfolded lookup_row_def])

lemma authorizeDeploy_may:
  assumes "authorizeDeploy db actor ot oid orgSet = Inr ()" and "deploy_loadOrgSettings db = Inr orgSet"
  shows "may_deploy db actor ot oid"
proof (cases ot)
  case OwnerTypeUser
  with assms show ?thesis
    by (auto simp: authorizeDeploy_def may_deploy_def CanDeployPersonal_def IsOrgAdmin_def split: if_splits)
next
  case OwnerTypeWorkspace
  with assms(1) obtain ws wsSet where ws: "workspaces_ByID db oid = Inr ws" "ParseWorkspace (ws_Settings ws) = Inr wsSet"
    and can: "CanDeployToWorkspace \<lparr>a_UserID = u_ID actor, a_Role = u_Role actor\<rparr>
      (workspaceRole db oid (u_ID actor)) (sw_MemberCanDeploy wsSet)"
    by (auto simp: authorizeDeploy_def split: if_splits sum.splits)
  show ?thesis
  proof (cases "u_Role actor = RoleAdmin")
    case False
    with can obtain r where "workspaceRole db oid (u_ID actor) = Some r" "r = RoleAdmin \<or> sw_MemberCanDeploy wsSet"
      by (auto simp: CanDeployToWorkspace_def IsOrgAdmin_def split: option.splits if_splits)
    with ws workspaceRole_member [of db oid "u_ID actor" r] OwnerTypeWorkspace show ?thesis
      by (auto simp: may_deploy_def)
  qed (simp add: may_deploy_def)
qed

lemma Deploy_commits:
  assumes "Deploy c env put now fid vid st p = (st', Inr res)" and "\<not> dp_DryRun p"
  obtains actor pl packed ot oid blobs where "dp_Actor p = Some actor" "deploy_validate env (sv_db st) p = Inr pl"
    "Pack (pl_files pl) = Inr packed" "deploy_resolveOwner (sv_db st) (dp_Owner p) = Inr (ot, oid)"
    "may_deploy (sv_db st) actor ot oid"
    "put (sv_blobs st) (BundleBlobKey (sha256Hex c (de_wire env packed))) packed = Inr blobs"
    "deploy_commit c env now fid vid p actor pl (packed, ot, oid) (st\<lparr>sv_blobs := blobs\<rparr>) = (st', Inr res)"
proof -
  from assms obtain pl actor place blobs where
      pl: "deploy_validate env (sv_db st) p = Inr pl" and ac: "dp_Actor p = Some actor"
    and place: "deploy_place (sv_db st) p actor pl = Inr place"
    and bl: "put (sv_blobs st) (BundleBlobKey (sha256Hex c (de_wire env (fst place)))) (fst place) = Inr blobs"
    and cm: "deploy_commit c env now fid vid p actor pl place (st\<lparr>sv_blobs := blobs\<rparr>) = (st', Inr res)"
    by (auto simp: Deploy_def split: sum.splits if_splits option.splits)
  from place obtain packed ot oid where pp: "place = (packed, ot, oid)" "Pack (pl_files pl) = Inr packed"
      "deploy_resolveOwner (sv_db st) (dp_Owner p) = Inr (ot, oid)"
      "authorizeDeploy (sv_db st) actor ot oid (pl_org pl) = Inr ()"
    by (auto simp: deploy_place_def split: sum.splits if_splits)
  with deploy_validate_Inr [OF pl] have "may_deploy (sv_db st) actor ot oid"
    by (blast intro: authorizeDeploy_may)
  with pl ac bl cm pp show thesis by (intro that) simp_all
qed

text \<open>
  C3. Deploys are authorized and contained: a successful deploy was made by a signed-in
  actor who is an organization admin, deploys under the own user ID while user functions
  are allowed, or is a member of the workspace with deploy rights; the function it wrote
  belongs to the owner the request named and carries a valid, unreserved name; a function
  row that existed before with that identity had the same owner and name; no other
  function, version, name claim or table changed, and the database invariant is kept.
\<close>

theorem deploy_authorized:
  assumes "db_ok (sv_db st)" and "Deploy c env put now fid vid st p = (st', Inr res)" and "\<not> dp_DryRun p"
  shows "\<exists>actor fn. dp_Actor p = Some actor \<and> dr_Function res = Some fn
    \<and> deploy_resolveOwner (sv_db st) (dp_Owner p) = Inr (fn_OwnerType fn, fn_OwnerID fn)
    \<and> may_deploy (sv_db st) actor (fn_OwnerType fn) (fn_OwnerID fn)
    \<and> nameRE (fn_Name fn) \<and> \<not> IsReserved (fn_Name fn)
    \<and> (\<forall>f \<in> set (db_functions (sv_db st)). fn_ID f = fn_ID fn
         \<longrightarrow> owned_by (fn_OwnerType fn) (fn_OwnerID fn) f \<and> fn_Name f = fn_Name fn)
    \<and> only_function (fn_ID fn) (sv_db st) (sv_db st') \<and> db_ok (sv_db st')"
proof (rule Deploy_commits [OF assms(2,3)])
  fix actor pl packed ot oid blobs
  assume a: "dp_Actor p = Some actor" "deploy_validate env (sv_db st) p = Inr pl"
    "deploy_resolveOwner (sv_db st) (dp_Owner p) = Inr (ot, oid)" "may_deploy (sv_db st) actor ot oid"
    and cm: "deploy_commit c env now fid vid p actor pl (packed, ot, oid) (st\<lparr>sv_blobs := blobs\<rparr>) = (st', Inr res)"
  have n: "nameRE (m_Name (pl_manifest pl))" "\<not> IsReserved (m_Name (pl_manifest pl))"
    using deploy_validate_Inr [OF a(2)] by (auto simp: validateName_def validateDNSLabel_def split: if_splits)
  show ?thesis
  proof (rule deploy_commit_Inr [OF _ cm])
    show "db_ok (sv_db (st\<lparr>sv_blobs := blobs\<rparr>))" using assms(1) by simp
  next
    fix fn
    assume fn: "dr_Function res = Some fn" "fn_OwnerType fn = ot" "fn_OwnerID fn = oid"
        "fn_Name fn = m_Name (pl_manifest pl)" "db_ok (sv_db st')"
        "only_function (fn_ID fn) (sv_db (st\<lparr>sv_blobs := blobs\<rparr>)) (sv_db st')"
        "\<forall>f \<in> set (db_functions (sv_db (st\<lparr>sv_blobs := blobs\<rparr>))). fn_ID f = fn_ID fn
           \<longrightarrow> owned_by ot oid f \<and> fn_Name f = fn_Name fn"
    show ?thesis
      by (rule exI [of _ actor], rule exI [of _ fn]) (use a n fn in simp)
  qed
qed

lemmas service_error_defs = BadRequest_def TooLarge_def NotFoundErr_def Forbidden_def Unauthorized_def
  FunctionNameTaken_def FunctionLimitExceeded_def Internal_def

lemma mapErr_not_limit: "mapManifestErr e \<noteq> FunctionLimitExceeded" "mapBundleErr b \<noteq> FunctionLimitExceeded"
  by (simp_all add: mapManifestErr_def mapBundleErr_def service_error_defs split: bundle_error.splits)

lemma resolveOwner_not_limit: "deploy_resolveOwner db owner \<noteq> Inl FunctionLimitExceeded"
  using mapErr_not_limit by (auto simp: deploy_resolveOwner_def service_error_defs split: sum.splits if_splits)

lemma authorize_not_limit: "authorizeDeploy db actor ot oid orgSet \<noteq> Inl FunctionLimitExceeded"
  by (auto simp: authorizeDeploy_def service_error_defs Let_def split: sum.splits if_splits)

lemma validate_not_limit: "deploy_validate env db p \<noteq> Inl FunctionLimitExceeded"
proof -
  have "deploy_loadOrgSettings db \<noteq> Inl FunctionLimitExceeded"
    by (auto simp: deploy_loadOrgSettings_def service_error_defs split: sum.splits store_error.splits)
  moreover have "deploy_name m n \<noteq> Inl FunctionLimitExceeded" for m n
    by (auto simp: deploy_name_def service_error_defs Let_def)
  ultimately show ?thesis
    using mapErr_not_limit unfolding deploy_validate_def
    by (auto simp: service_error_defs split: sum.splits)
qed

lemma place_not_limit: "deploy_place db p actor pl \<noteq> Inl FunctionLimitExceeded"
  using resolveOwner_not_limit authorize_not_limit
  by (auto simp: deploy_place_def service_error_defs split: sum.splits if_splits)

lemma checkLimit_not_limit: "checkFunctionLimit db ot oid u orgSet \<noteq> Inl FunctionLimitExceeded"
  by (auto simp: checkFunctionLimit_def service_error_defs split: OwnerType.splits sum.splits if_splits)

text \<open>The quick check and the check inside the creating transaction count the same rows.\<close>

lemma checkFunctionLimit_quota:
  assumes "checkFunctionLimit db ot oid u orgSet = Inr (current, limit)" and "limit > 0"
    and "fn_OwnerType f = ot" "fn_OwnerID f = oid" "fn_CreatedBy f = Some u"
  shows "current = int (quota_count db f)"
  using assms by (auto simp: checkFunctionLimit_def quota_count_scopes split: OwnerType.splits sum.splits if_splits)

lemma deploy_function_limit:
  assumes "deploy_function db now fid actor pl ot oid = (db', Inl FunctionLimitExceeded)"
  shows "\<exists>current limit. functions_ByName db (m_Name (pl_manifest pl)) = Inl ErrNotFound
    \<and> checkFunctionLimit db ot oid (u_ID actor) (pl_org pl) = Inr (current, limit) \<and> 0 < limit \<and> limit \<le> current"
proof -
  let ?f = "\<lparr>fn_ID = [], fn_OwnerType = ot, fn_OwnerID = oid, fn_Name = m_Name (pl_manifest pl),
      fn_Description = m_Description (pl_manifest pl), fn_ActiveVersionID = None,
      fn_CreatedBy = Some (u_ID actor), fn_CreatedAt = 0, fn_UpdatedAt = 0\<rparr>"
  have ne: "FunctionNameTaken \<noteq> FunctionLimitExceeded" "Internal \<noteq> FunctionLimitExceeded"
    by (simp_all add: service_error_defs)
  have nf: "functions_ByName db (m_Name (pl_manifest pl)) = Inl ErrNotFound"
    using assms ne by (auto simp: deploy_function_def Let_def split: sum.splits store_error.splits if_splits prod.splits)
  obtain current limit where cl: "checkFunctionLimit db ot oid (u_ID actor) (pl_org pl) = Inr (current, limit)"
    using assms nf checkLimit_not_limit [of db ot oid "u_ID actor" "pl_org pl"]
    by (auto simp: deploy_function_def Let_def split: sum.splits)
  have "0 < limit \<and> limit \<le> current"
  proof (rule ccontr)
    assume neg: "\<not> (0 < limit \<and> limit \<le> current)"
    have "snd (functions_create db now fid ?f limit) = Inl ErrFunctionLimitReached"
      using assms nf cl neg ne checkLimit_not_limit
      by (auto simp: deploy_function_def functions_CreateWithinLimit_def Let_def split: sum.splits store_error.splits if_splits prod.splits)
    moreover have scope: "functionLimitScopeCond (?f\<lparr>fn_ID := assign_id [] fid, fn_CreatedAt := now, fn_UpdatedAt := now\<rparr>)
        = functionLimitScopeCond ?f"
      by (simp add: functionLimitScopeCond_def fun_eq_iff)
    ultimately have "limit > 0" "\<not> int (quota_count db ?f) < limit"
      unfolding quota_count_def scope [symmetric] by (auto simp: functions_create_def Let_def split: if_splits)
    with checkFunctionLimit_quota [OF cl, of ?f] neg show False by simp
  qed
  with nf cl show ?thesis by blast
qed

lemma deploy_validate_dry: "deploy_validate env db p = Inr pl \<Longrightarrow> deploy_validate env db (p\<lparr>dp_DryRun := True\<rparr>) = Inr pl"
  by (auto simp: deploy_validate_def split: if_splits sum.splits)

lemma Deploy_dry:
  "deploy_validate env (sv_db st) p = Inr pl \<Longrightarrow>
     Deploy c env put now fid vid st (p\<lparr>dp_DryRun := True\<rparr>)
       = (st, Inr (deploy_dry_run env (sv_db st) (p\<lparr>dp_DryRun := True\<rparr>) pl))"
  by (simp add: Deploy_def deploy_validate_dry)

lemma Deploy_limit:
  assumes "Deploy c env put now fid vid st p = (st', Inl FunctionLimitExceeded)" and "\<not> dp_DryRun p"
  shows "\<exists>dry current limit. Deploy c env put now fid vid st (p\<lparr>dp_DryRun := True\<rparr>) = (st, Inr dry)
    \<and> LimitReached current limit \<in> set (dr_Warnings dry) \<and> limit \<le> current"
proof -
  have ne: "Internal \<noteq> FunctionLimitExceeded" "Unauthorized \<noteq> FunctionLimitExceeded" by (simp_all add: service_error_defs)
  obtain pl where pl: "deploy_validate env (sv_db st) p = Inr pl"
    using assms validate_not_limit [of env "sv_db st" p] by (auto simp: Deploy_def split: sum.splits)
  obtain actor where ac: "dp_Actor p = Some actor"
    using assms pl ne by (auto simp: Deploy_def split: option.splits)
  obtain packed ot oid where place: "deploy_place (sv_db st) p actor pl = Inr (packed, ot, oid)"
    using assms pl ac place_not_limit [of "sv_db st" p actor pl] by (auto simp: Deploy_def split: sum.splits)
  obtain db' where "deploy_function (sv_db st) now fid actor pl ot oid = (db', Inl FunctionLimitExceeded)"
    using assms pl ac place ne
    by (auto simp: Deploy_def deploy_commit_def deploy_version_def split: sum.splits prod.splits)
  then obtain current limit where fl: "functions_ByName (sv_db st) (m_Name (pl_manifest pl)) = Inl ErrNotFound"
      "checkFunctionLimit (sv_db st) ot oid (u_ID actor) (pl_org pl) = Inr (current, limit)" "0 < limit" "limit \<le> current"
    by (blast dest: deploy_function_limit)
  have "deploy_resolveOwner (sv_db st) (dp_Owner p) = Inr (ot, oid)"
    using place by (auto simp: deploy_place_def split: sum.splits if_splits)
  with fl have "functionLimitDryRunWarning (sv_db st) (dp_Owner p) (m_Name (pl_manifest pl)) (u_ID actor) (pl_org pl)
      = Some (LimitReached current limit)"
    by (simp add: functionLimitDryRunWarning_def)
  with ac fl(4) Deploy_dry [OF pl] show ?thesis
    by (auto simp: deploy_dry_run_def)
qed

lemma live_versions_cong:
  assumes "map (\<lambda>f. (fn_ID f, fn_ActiveVersionID f)) (db_functions db') = map (\<lambda>f. (fn_ID f, fn_ActiveVersionID f)) (db_functions db)"
  shows "live_versions db' = live_versions db"
  by (simp only: live_versions_def set_map [symmetric] assms)

lemma update_description_live:
  assumes "db_ok db" "f \<in> set (db_functions db)" "functions_Update db now (f\<lparr>fn_Description := d\<rparr>) = (db', r)"
  shows "live_versions db' = live_versions db"
proof -
  have u: "unique_on fn_ID (db_functions db)" using assms(1) by (simp add: db_ok_defs)
  have by_id: "functions_ByID db (fn_ID f) = Inr f"
    using lookup_row_key [OF u assms(2)] by (simp add: functions_ByID_def)
  have same: "fn_ActiveVersionID f = fn_ActiveVersionID g" if "g \<in> set (db_functions db)" "fn_ID g = fn_ID f" for g
    using unique_on_inj [OF u that(1) assms(2) that(2)] by simp
  show ?thesis
    by (rule live_versions_cong) (use assms(3) by_id same in \<open>auto simp: functions_Update_def update_rows_def split: if_splits\<close>)
qed

lemma deploy_function_live:
  assumes "db_ok db" and "deploy_function db now fid actor pl ot oid = (db', r)"
  shows "live_versions db' = live_versions db"
proof (cases r)
  case (Inl e)
  then show ?thesis using deploy_function_Inl assms(2) by metis
next
  case (Inr fn)
  show ?thesis
  proof (cases "functions_ByName db (m_Name (pl_manifest pl))")
    case Inl
    with Inr assms(2) show ?thesis
      by (auto simp: deploy_function_def functions_CreateWithinLimit_def functions_create_def live_versions_def Let_def
          split: sum.splits store_error.splits if_splits prod.splits)
  next
    case found: (Inr f)
    from Inr found assms(2) consider "db' = db"
      | x where "functions_Update db now (f\<lparr>fn_Description := m_Description (pl_manifest pl)\<rparr>) = (db', x)"
      by (auto simp: deploy_function_def Let_def split: if_splits prod.splits sum.splits)
    then show ?thesis using update_description_live [OF assms(1) ByName_found [OF found]] by cases auto
  qed
qed

lemma functions_CreateVersion_live:
  "live_versions (fst (functions_CreateVersion db now vid v)) = live_versions db"
  "set (db_versions db) \<subseteq> set (db_versions (fst (functions_CreateVersion db now vid v)))"
  by (auto simp: functions_CreateVersion_def live_versions_def Let_def)

lemma deploy_cut_live:
  assumes "db_ok db" and "d \<in> set (deploy_cut c env now fid vid p actor pl place db)"
  shows "live_versions d = live_versions db \<and> set (db_versions db) \<subseteq> set (db_versions d)"
proof (cases "deploy_function db now fid actor pl (fst (snd place)) (snd (snd place))")
  case (Pair db1 x)
  note fl = deploy_function_live [OF assms(1) Pair]
  show ?thesis
  proof (cases x)
    case (Inl e)
    then have "db1 = db" using Pair deploy_function_Inl by metis
    with Inl Pair assms(2) show ?thesis by (auto simp: deploy_cut_def)
  next
    case (Inr fn)
    then have "db_versions db1 = db_versions db" using deploy_function_Inr [OF assms(1)] Pair by blast
    with Inr Pair assms(2) fl show ?thesis
      using functions_CreateVersion_live [of db1 now vid "new_version c env p actor pl (fst place) (fn_ID fn)"]
      by (auto simp: deploy_cut_def)
  qed
qed

lemma deploy_commit_cut:
  assumes "deploy_commit c env now fid vid p actor pl place st = (st', Inl e)"
  shows "\<exists>d \<in> set (deploy_cut c env now fid vid p actor pl place (sv_db st)). st' = st\<lparr>sv_db := d\<rparr>"
proof -
  have act: "ActivateVersion db now i v = (db', Inl e') \<Longrightarrow> db' = db" for db i v db' e'
    by (auto simp: ActivateVersion_def split: if_splits option.splits)
  show ?thesis using assms
    by (auto simp: deploy_commit_def deploy_cut_def deploy_version_def dest: act split: prod.splits sum.splits)
qed

lemma Deploy_Inl:
  assumes "Deploy c env put now fid vid st p = (st', Inl e)"
  shows "st' = st \<or> (\<exists>actor pl place b. dp_Actor p = Some actor
    \<and> deploy_commit c env now fid vid p actor pl place (st\<lparr>sv_blobs := b\<rparr>) = (st', Inl e))"
  using assms by (auto simp: Deploy_def split: sum.splits if_splits option.splits)

text \<open>
  C10. What a deploy leaves behind. A dry run writes nothing; whenever a real deploy succeeds the dry run
  of the same request succeeds with the same manifest snapshot and at least the same
  warnings; and a deploy refused for the function quota is one whose dry run warns that
  the limit is reached. A refused deploy never changes what is served: pools stay, every function keeps its active version, and all
  versions are kept; and if no store operation fails (the new version's identifier is not in use and the actor
  has a user row) it leaves the database unchanged. A deploy is not one transaction: when the store fails before the
  version is activated, the function row (new, with its name, or with the new description) and the version row may
  already be committed and stay, but even then what is served is unchanged. Bundles stored before a refusal stay for the collection.
\<close>

theorem deploy_all_or_nothing:
  assumes "db_ok (sv_db st)" and "Deploy c env put now fid vid st p = (st', r)"
  shows "(dp_DryRun p \<longrightarrow> st' = st)
    \<and> (\<forall>e. r = Inl e \<longrightarrow> sv_runtime st' = sv_runtime st \<and> live_versions (sv_db st') = live_versions (sv_db st)
         \<and> set (db_versions (sv_db st)) \<subseteq> set (db_versions (sv_db st'))
         \<and> (\<not> has_row fv_ID vid (db_versions (sv_db st)) \<and> (\<forall>a. dp_Actor p = Some a \<longrightarrow> has_row u_ID (u_ID a) (db_users (sv_db st)))
              \<longrightarrow> sv_db st' = sv_db st))
    \<and> (\<forall>actor pl place d. d \<in> set (deploy_cut c env now fid vid p actor pl place (sv_db st)) \<longrightarrow>
         live_versions d = live_versions (sv_db st) \<and> set (db_versions (sv_db st)) \<subseteq> set (db_versions d))
    \<and> (\<forall>res. r = Inr res \<longrightarrow> (\<exists>dry. Deploy c env put now fid vid st (p\<lparr>dp_DryRun := True\<rparr>) = (st, Inr dry)
         \<and> dr_Manifest dry = dr_Manifest res \<and> set (dr_Warnings res) \<subseteq> set (dr_Warnings dry)))
    \<and> (\<not> dp_DryRun p \<and> r = Inl FunctionLimitExceeded \<longrightarrow>
         (\<exists>dry current limit. Deploy c env put now fid vid st (p\<lparr>dp_DryRun := True\<rparr>) = (st, Inr dry)
            \<and> LimitReached current limit \<in> set (dr_Warnings dry) \<and> limit \<le> current))"
proof (intro conjI impI allI)
  show "st' = st" if "dp_DryRun p" using assms(2) that by (auto simp: Deploy_def split: sum.splits)
next
  fix e assume e: "r = Inl e"
  note cases = Deploy_Inl [OF assms(2) [unfolded e]]
  have "\<exists>d b. st' = st\<lparr>sv_blobs := b, sv_db := d\<rparr> \<and> live_versions d = live_versions (sv_db st) \<and> set (db_versions (sv_db st)) \<subseteq> set (db_versions d)"
    using cases
  proof (elim disjE exE conjE)
    assume "st' = st"
    then show ?thesis by (intro exI [of _ "sv_db st"] exI [of _ "sv_blobs st"]) simp
  next
    fix actor pl place b
    assume cm: "deploy_commit c env now fid vid p actor pl place (st\<lparr>sv_blobs := b\<rparr>) = (st', Inl e)"
    obtain d where d: "d \<in> set (deploy_cut c env now fid vid p actor pl place (sv_db st))" "st' = st\<lparr>sv_blobs := b, sv_db := d\<rparr>"
      using deploy_commit_cut [OF cm] by auto
    from d(2) deploy_cut_live [OF assms(1) d(1)] show ?thesis by blast
  qed
  then show "sv_runtime st' = sv_runtime st" "live_versions (sv_db st') = live_versions (sv_db st)"
    "set (db_versions (sv_db st)) \<subseteq> set (db_versions (sv_db st'))" by auto
  show "sv_db st' = sv_db st"
    if "\<not> has_row fv_ID vid (db_versions (sv_db st)) \<and> (\<forall>a. dp_Actor p = Some a \<longrightarrow> has_row u_ID (u_ID a) (db_users (sv_db st)))"
    using cases
  proof (elim disjE exE conjE)
    fix actor pl place b
    assume "dp_Actor p = Some actor"
      and cm: "deploy_commit c env now fid vid p actor pl place (st\<lparr>sv_blobs := b\<rparr>) = (st', Inl e)"
    with that assms(1) have "st' = st\<lparr>sv_blobs := b\<rparr>" by (intro deploy_commit_Inl [OF _ _ _ cm]) simp_all
    then show ?thesis by simp
  qed simp
next
  fix actor pl place d
  assume "d \<in> set (deploy_cut c env now fid vid p actor pl place (sv_db st))"
  from deploy_cut_live [OF assms(1) this] show "live_versions d = live_versions (sv_db st)" "set (db_versions (sv_db st)) \<subseteq> set (db_versions d)"
    by blast+
next
  fix res assume r: "r = Inr res"
  show "\<exists>dry. Deploy c env put now fid vid st (p\<lparr>dp_DryRun := True\<rparr>) = (st, Inr dry)
         \<and> dr_Manifest dry = dr_Manifest res \<and> set (dr_Warnings res) \<subseteq> set (dr_Warnings dry)"
  proof (cases "dp_DryRun p")
    case True
    then have "p\<lparr>dp_DryRun := True\<rparr> = p" by simp
    moreover from True assms(2) r have "st' = st" by (auto simp: Deploy_def split: sum.splits)
    ultimately show ?thesis using assms(2) r by (intro exI [of _ res]) (simp del: DeployParams.update_convs)
  next
    case False
    from assms(2) r have "Deploy c env put now fid vid st p = (st', Inr res)" by simp
    then obtain pl where pl: "deploy_validate env (sv_db st) p = Inr pl"
      and "dr_Manifest res = Manifest_Normalized (de_duration_str env) (pl_manifest pl)
        \<and> dr_Warnings res = buildWarnings (pl_manifest pl) (pl_org pl)"
      using False by (auto simp: Deploy_def deploy_commit_def split: sum.splits if_splits option.splits prod.splits)
    then show ?thesis using Deploy_dry [OF pl] by (auto simp: deploy_dry_run_def)
  qed
next
  assume "\<not> dp_DryRun p \<and> r = Inl FunctionLimitExceeded"
  with assms(2) Deploy_limit show "\<exists>dry current limit. Deploy c env put now fid vid st (p\<lparr>dp_DryRun := True\<rparr>) = (st, Inr dry)
            \<and> LimitReached current limit \<in> set (dr_Warnings dry) \<and> limit \<le> current" by blast
qed

section \<open>A deploy\<close>

text \<open>The first user of an installation deploys a bundle of two files without a manifest.\<close>

definition deploy_env_example :: "unit deploy_env" where
  "deploy_env_example = \<lparr>de_unmarshal = (\<lambda>_. None), de_parse_duration = (\<lambda>_. None),
     de_float = \<lparr>parse_float = (\<lambda>_. None), float_negative = (\<lambda>_. False), float_scale = (\<lambda>_ _. 0)\<rparr>,
     de_duration_str = (\<lambda>_. []), de_wire = (\<lambda>_. ''z'')\<rparr>"

definition deploy_crypto :: Crypto where
  "deploy_crypto = \<lparr>cr_sha256 = (\<lambda>b. b), cr_hmac = (\<lambda>k b. b)\<rparr>"

definition deploy_db :: DB where
  "deploy_db = store_run [OpBootstrap 5 ''x'' user_example ''Org'',
     OpHandleCreate 6 \<lparr>pu_UserID = ''alice'', pu_InternalUserID = ''u1'', pu_CreatedAt = 0, pu_UpdatedAt = 0\<rparr>] empty_db"

definition deploy_state :: "(archive fs_files, unit) service_state" where
  "deploy_state = \<lparr>sv_db = deploy_db, sv_blobs = [], sv_runtime = Some (NewManager 2)\<rparr>"

definition deploy_request :: DeployParams where
  "deploy_request = \<lparr>dp_Bundle = archive_example, dp_Owner = ''alice'', dp_Name = ''hello'', dp_Note = [], dp_DryRun = False,
     dp_Actor = Some user_example\<rparr>"

definition deploy_files :: files where
  "deploy_files = [(''lib/util.js'', ''u''), (''index.js'', ''i'')]"

definition deploy_packed :: archive where
  "deploy_packed = Archive [canonical_entry ''index.js'' ''i'', canonical_entry ''lib/util.js'' ''u''] False"

definition deploy_plan_example :: deploy_plan where
  "deploy_plan_example = \<lparr>pl_org = DefaultOrg, pl_files = deploy_files,
     pl_manifest = zero_manifest\<lparr>m_Name := ''hello'', m_Main := ''index.js''\<rparr>\<rparr>"

lemma deploy_db_ok: "db_ok deploy_db"
  unfolding deploy_db_def by (rule store_run_ok) (rule empty_db_ok)

lemma Unpack_deploy: "Unpack archive_example = Inr deploy_files"
  by (simp add: deploy_files_def Unpack_example)

lemma Pack_deploy: "Pack deploy_files = Inr deploy_packed"
  by code_simp

lemma deploy_parts:
  "deploy_loadOrgSettings deploy_db = Inr DefaultOrg" "ValidateUserID ''alice'' = Inr ()"
  "Parse (de_unmarshal deploy_env_example) (de_parse_duration deploy_env_example) (de_float deploy_env_example) deploy_files
     = Inr zero_manifest"
  "deploy_name zero_manifest ''hello'' = Inr (zero_manifest\<lparr>m_Name := ''hello''\<rparr>)"
  "Validate (Some (zero_manifest\<lparr>m_Name := ''hello''\<rparr>)) = Inr ()"
  "\<not> open_mode_visibility DefaultOrg (zero_manifest\<lparr>m_Name := ''hello''\<rparr>)"
  "ResolveMain (m_Main zero_manifest) deploy_files = Inr ''index.js''"
  "detectNodeCoreImports deploy_files = []"
  by code_simp+

lemma deploy_validate_example: "deploy_validate deploy_env_example deploy_db deploy_request = Inr deploy_plan_example"
  by (simp add: deploy_validate_def deploy_request_def deploy_parts Unpack_deploy deploy_plan_example_def)

lemma deploy_place_example:
  "deploy_place deploy_db deploy_request user_example deploy_plan_example = Inr (deploy_packed, OwnerTypeUser, ''u1'')"
  by code_simp

lemma deploy_put_example:
  "fs_Put ''/data'' [] (BundleBlobKey (sha256Hex deploy_crypto (de_wire deploy_env_example deploy_packed))) deploy_packed
     = Inr [(''/data/bundles/sha256/7a.tar.gz'', deploy_packed)]"
  by code_simp

definition deploy_stored :: "(archive fs_files, unit) service_state" where
  "deploy_stored = deploy_state\<lparr>sv_blobs := [(''/data/bundles/sha256/7a.tar.gz'', deploy_packed)]\<rparr>"

definition deploy_done :: "(archive fs_files, unit) service_state \<times> (service_error + DeployResult)" where
  "deploy_done = deploy_commit deploy_crypto deploy_env_example 9 ''f1'' ''v1'' deploy_request user_example deploy_plan_example
     (deploy_packed, OwnerTypeUser, ''u1'') deploy_stored"

lemma Deploy_example:
  "Deploy deploy_crypto deploy_env_example (fs_Put ''/data'') 9 ''f1'' ''v1'' deploy_state deploy_request = deploy_done"
proof -
  have "dp_Actor deploy_request = Some user_example" "\<not> dp_DryRun deploy_request"
    "sv_db deploy_state = deploy_db" "sv_blobs deploy_state = []"
    by (simp_all add: deploy_request_def deploy_state_def)
  then show ?thesis
    by (simp add: Deploy_def deploy_validate_example deploy_place_example deploy_put_example
        deploy_done_def deploy_stored_def)
qed

lemma deploy_done_ok: "is_ok (snd deploy_done)"
  by code_simp

lemma deploy_done_Inr: obtains st' res where "deploy_done = (st', Inr res)"
  using deploy_done_ok by (metis is_ok_simps(1) obj_sumE prod.collapse)

theorem deploy_authorized_witness:
  "\<exists>fn. dr_Function (projr (snd deploy_done)) = Some fn \<and> fn_OwnerID fn = ''u1'' \<and> db_ok (sv_db (fst deploy_done))"
proof -
  obtain st' res where d: "deploy_done = (st', Inr res)" by (rule deploy_done_Inr)
  have "deploy_resolveOwner deploy_db ''alice'' = Inr (OwnerTypeUser, ''u1'')" by code_simp
  moreover have "sv_db deploy_state = deploy_db" "\<not> dp_DryRun deploy_request" "dp_Owner deploy_request = ''alice''"
    by (simp_all add: deploy_state_def deploy_request_def)
  ultimately show ?thesis
    using deploy_authorized [of deploy_state deploy_crypto deploy_env_example "fs_Put ''/data''" 9 "''f1''" "''v1''" deploy_request st' res]
      deploy_db_ok Deploy_example by (auto simp: d)
qed

theorem deploy_all_or_nothing_witness:
  "\<exists>dry. Deploy deploy_crypto deploy_env_example (fs_Put ''/data'') 9 ''f1'' ''v1'' deploy_state (deploy_request\<lparr>dp_DryRun := True\<rparr>)
     = (deploy_state, Inr dry) \<and> dr_Manifest dry = dr_Manifest (projr (snd deploy_done))"
proof -
  obtain st' res where d: "deploy_done = (st', Inr res)" by (rule deploy_done_Inr)
  have "db_versions deploy_db = []" "has_row u_ID ''u1'' (db_users deploy_db)" by code_simp+
  moreover have "sv_db deploy_state = deploy_db" "\<And>a. dp_Actor deploy_request = Some a \<Longrightarrow> u_ID a = ''u1''"
    by (simp_all add: deploy_state_def deploy_request_def user_example_def)
  ultimately show ?thesis
    using deploy_all_or_nothing [of deploy_state deploy_crypto deploy_env_example "fs_Put ''/data''" 9 "''f1''" "''v1''" deploy_request st' "Inr res"]
      deploy_db_ok Deploy_example by (auto simp: has_row_def d)
qed

end
