(* ===== verification/InvokePolicy.thy ===== *)
theory InvokePolicy
  imports StoreLogs Runtime
begin

text \<open>
  Package invoke, the policies of a running function (server/internal/invoke): the
  effective fetch policy and its cache (effective.go), the fetch hooks handed to the
  runtime (policy.go, pool.go), the effective visibility and workspace membership
  (effective.go). What the cache guarantees is proved in theory FetchCache, over the use cases that
  change settings.
\<close>

section \<open>The effective fetch policy (effective.go)\<close>

text \<open>Errors of this file are never told apart by their callers, so \<open>None\<close> stands for all of them.\<close>

record ownerSettings =
  os_gen :: int
  os_fetch :: FetchPolicy
  os_exists :: bool

definition loadOrgSettings :: "DB \<Rightarrow> ownerSettings option" where
  "loadOrgSettings db =
     (case org_Get db of
        Inl _ \<Rightarrow> None
      | Inr org \<Rightarrow>
          (case ParseOrg (org_Settings org) of
             Inl _ \<Rightarrow> None
           | Inr orgSet \<Rightarrow>
               (case SettingsFetchPolicy_Policy (so_FetchPolicy orgSet) of
                  Inl _ \<Rightarrow> None
                | Inr fp \<Rightarrow> Some \<lparr>os_gen = org_SettingsGen org, os_fetch = fp, os_exists = True\<rparr>)))"

definition loadWorkspaceSettings :: "DB \<Rightarrow> string \<Rightarrow> ownerSettings option" where
  "loadWorkspaceSettings db wsID =
     (case workspaces_ByID db wsID of
        Inl _ \<Rightarrow> None
      | Inr ws \<Rightarrow>
          (case ParseWorkspace (ws_Settings ws) of
             Inl _ \<Rightarrow> None
           | Inr wsSet \<Rightarrow>
               (case SettingsFetchPolicy_Policy (sw_FetchPolicy wsSet) of
                  Inl _ \<Rightarrow> None
                | Inr fp \<Rightarrow> Some \<lparr>os_gen = ws_SettingsGen ws, os_fetch = fp, os_exists = True\<rparr>)))"

type_synonym effectiveCache = "string \<Rightarrow> EffectivePolicy option"

definition newEffectiveCache :: effectiveCache where
  "newEffectiveCache = (\<lambda>_. None)"

definition deny_policy :: EffectivePolicy where
  "deny_policy = Effective [\<lparr>fp_mode = FetchModeDeny, fp_allow = []\<rparr>]"

definition cache_key :: "int \<Rightarrow> int \<Rightarrow> string \<Rightarrow> string" where
  "cache_key orgGen wsGen versionID = int_str orgGen @ '':'' @ int_str wsGen @ '':'' @ versionID"

text \<open>The cached part, after the settings were read: \<open>org\<close> and \<open>ws\<close> are what was read.\<close>

definition resolve_loaded ::
  "effectiveCache \<Rightarrow> ownerSettings \<Rightarrow> ownerSettings \<Rightarrow> string \<Rightarrow> FetchPolicy \<Rightarrow> effectiveCache \<times> EffectivePolicy" where
  "resolve_loaded c org ws versionID manifestLevel =
     (let key = cache_key (os_gen org) (os_gen ws) versionID in
      case c key of
        Some cached \<Rightarrow> (c, cached)
      | None \<Rightarrow>
          let levels = [os_fetch org] @ (if os_exists ws then [os_fetch ws] else []) @ [manifestLevel];
              eff = Effective levels in
          (c(key \<mapsto> eff), eff))"

definition no_workspace :: ownerSettings where
  "no_workspace = \<lparr>os_gen = 0, os_fetch = \<lparr>fp_mode = FetchModeDeny, fp_allow = []\<rparr>, os_exists = False\<rparr>"

definition resolveFetch ::
  "effectiveCache \<Rightarrow> DB \<Rightarrow> OwnerType \<Rightarrow> string \<Rightarrow> string \<Rightarrow> FetchPolicy \<Rightarrow> effectiveCache \<times> EffectivePolicy" where
  "resolveFetch c db ownerType ownerID versionID manifestLevel =
     (case loadOrgSettings db of
        None \<Rightarrow> (c, deny_policy)
      | Some org \<Rightarrow>
          (case (if ownerType = OwnerTypeWorkspace then loadWorkspaceSettings db ownerID else Some no_workspace) of
             None \<Rightarrow> (c, deny_policy)
           | Some ws \<Rightarrow> resolve_loaded c org ws versionID manifestLevel))"

section \<open>Visibility and membership (effective.go)\<close>

definition resolveVisibility :: "DB \<Rightarrow> OwnerType \<Rightarrow> string \<Rightarrow> string \<Rightarrow> Visibility option" where
  "resolveVisibility db ownerType ownerID manifestVisibility =
     (case org_Get db of
        Inl _ \<Rightarrow> None
      | Inr org \<Rightarrow>
          (case ParseOrg (org_Settings org) of
             Inl _ \<Rightarrow> None
           | Inr orgSet \<Rightarrow>
               (case ParseVisibility (so_MaxVisibility orgSet) of
                  Inl _ \<Rightarrow> None
                | Inr orgMax \<Rightarrow>
                    (let declared = (if manifestVisibility = [] then so_DefaultVisibility orgSet else manifestVisibility) in
                     case ParseVisibility declared of
                       Inl _ \<Rightarrow> None
                     | Inr manifestVis \<Rightarrow>
                         if ownerType \<noteq> OwnerTypeWorkspace then Some (MinVisibility [manifestVis, orgMax])
                         else case workspaces_ByID db ownerID of
                           Inl _ \<Rightarrow> None
                         | Inr ws \<Rightarrow>
                             (case ParseWorkspace (ws_Settings ws) of
                                Inl _ \<Rightarrow> None
                              | Inr wsSet \<Rightarrow>
                                  if sw_MaxVisibility wsSet = [] then Some (MinVisibility [manifestVis, orgMax])
                                  else case ParseVisibility (sw_MaxVisibility wsSet) of
                                    Inl _ \<Rightarrow> None
                                  | Inr wsMax \<Rightarrow> Some (MinVisibility [manifestVis, wsMax, orgMax]))))))"

definition checkWorkspaceMembership :: "DB \<Rightarrow> string \<Rightarrow> string \<Rightarrow> bool" where
  "checkWorkspaceMembership db wsID userID = list_ex (\<lambda>m. wm_UserID m = userID) (workspaces_ListMembers db wsID)"

section \<open>The fetch hooks (policy.go, pool.go)\<close>

text \<open>
  The map of literal addresses is keyed by the canonical text of an address, which is
  injective on parsed addresses; here it holds the parsed addresses themselves.
\<close>

record fetchPolicyAdapter =
  fpa_ownerType :: OwnerType
  fpa_ownerID :: string
  fpa_versionID :: string
  fpa_manifestLevel :: FetchPolicy
  fpa_literalIPs :: "ip list"

definition patternLiteralIP :: "Pattern \<Rightarrow> ip option" where
  "patternLiteralIP p =
     (let host = pat_raw p in
      case split_host_port host of Inr (h, _) \<Rightarrow> parse_ip h | Inl _ \<Rightarrow> parse_ip host)"

definition newFetchPolicyAdapter :: "OwnerType \<Rightarrow> string \<Rightarrow> string \<Rightarrow> FetchPolicy \<Rightarrow> Pattern list \<Rightarrow> fetchPolicyAdapter" where
  "newFetchPolicyAdapter ownerType ownerID versionID manifestLevel manifestAllow =
     \<lparr>fpa_ownerType = ownerType, fpa_ownerID = ownerID, fpa_versionID = versionID, fpa_manifestLevel = manifestLevel,
      fpa_literalIPs = List.map_filter patternLiteralIP manifestAllow\<rparr>"

definition buildFetchPolicy ::
  "NormalizedFetch \<Rightarrow> OwnerType \<Rightarrow> string \<Rightarrow> string \<Rightarrow> policy_error + fetchPolicyAdapter" where
  "buildFetchPolicy f ownerType ownerID versionID =
     (case ParseFetchMode (nf_Mode f) of
        Inl e \<Rightarrow> Inl e
      | Inr mode \<Rightarrow>
          (case map_result ParsePattern (nf_Allow f) of
             Inl e \<Rightarrow> Inl e
           | Inr allow \<Rightarrow>
               Inr (newFetchPolicyAdapter ownerType ownerID versionID \<lparr>fp_mode = mode, fp_allow = allow\<rparr> allow)))"

text \<open>Each answer comes with the decision that is recorded in the invocation's log.\<close>

definition adapter_AllowHost ::
  "effectiveCache \<Rightarrow> DB \<Rightarrow> fetchPolicyAdapter \<Rightarrow> string \<Rightarrow> int \<Rightarrow> effectiveCache \<times> FetchDecision \<times> bool" where
  "adapter_AllowHost c db a host port =
     (case resolveFetch c db (fpa_ownerType a) (fpa_ownerID a) (fpa_versionID a) (fpa_manifestLevel a) of
        (c', eff) \<Rightarrow>
          (let allowed = Decision eff host port in
           (c', \<lparr>fdec_Host = host, fdec_Port = port, fdec_Allowed = allowed, fdec_Stage = ''resolve''\<rparr>, allowed)))"

definition adapter_AllowIP :: "fetchPolicyAdapter \<Rightarrow> string \<Rightarrow> FetchDecision \<times> bool" where
  "adapter_AllowIP a ip =
     (let allowed = (case parse_ip ip of
          None \<Rightarrow> False
        | Some parsed \<Rightarrow> if parsed \<in> set (fpa_literalIPs a) then True else \<not> BlockedIP (Some parsed)) in
      (\<lparr>fdec_Host = ip, fdec_Port = 0, fdec_Allowed = allowed, fdec_Stage = ''dial''\<rparr>, allowed))"

definition adapter_hooks :: "effectiveCache \<Rightarrow> DB \<Rightarrow> fetchPolicyAdapter \<Rightarrow> FetchHooks" where
  "adapter_hooks c db a =
     \<lparr>AllowHost = (\<lambda>host port. snd (snd (adapter_AllowHost c db a host port))), AllowIP = (\<lambda>ip. snd (adapter_AllowIP a ip))\<rparr>"

interpretation adapter: fetch_hooks "AllowHost (adapter_hooks c db a)" "AllowIP (adapter_hooks c db a)"
  by unfold_locales (auto simp: adapter_hooks_def adapter_AllowHost_def Let_def split: prod.splits intro: Decision_port0)

lemma adapter_hooks_eta: "\<lparr>AllowHost = AllowHost (adapter_hooks c db a), AllowIP = AllowIP (adapter_hooks c db a)\<rparr> = adapter_hooks c db a"
  by (simp add: adapter_hooks_def)

section \<open>Keys of the cache\<close>

lemma int_str_no_colon: "CHR '':'' \<notin> set (int_str i)"
  using nat_str_digits [of "CHR '':''"] by (auto simp: int_str_def is_digit_def)

lemma takeWhile_colon: "CHR '':'' \<notin> set s \<Longrightarrow> takeWhile (\<lambda>c. c \<noteq> CHR '':'') (s @ CHR '':'' # r) = s"
  by (induction s) auto

lemma colon_split: "CHR '':'' \<notin> set a \<Longrightarrow> CHR '':'' \<notin> set b \<Longrightarrow> a @ CHR '':'' # r = b @ CHR '':'' # s \<longleftrightarrow> a = b \<and> r = s"
  by (metis append_same_eq list.inject same_append_eq takeWhile_colon)

lemma cache_key_inj: "cache_key a b v = cache_key a' b' v' \<longleftrightarrow> a = a' \<and> b = b' \<and> v = v'"
  by (auto simp: cache_key_def colon_split int_str_no_colon dest!: int_str_inj)

section \<open>Example settings\<close>

definition fetch_org :: "string \<Rightarrow> org_doc blob" where
  "fetch_org mode = Blob (empty_org_doc\<lparr>od_fetch_policy := Some \<lparr>fd_mode = Some mode, fd_allow = Some [''evil.example'']\<rparr>\<rparr>)"

definition fetch_db :: DB where
  "fetch_db = empty_db\<lparr>db_org := Some \<lparr>org_Name = ''Org'', org_Settings = fetch_org ''deny'', org_SettingsGen = 1, org_CreatedAt = 0, org_UpdatedAt = 0\<rparr>\<rparr>"

definition fetch_manifest :: NormalizedFetch where
  "fetch_manifest = \<lparr>nf_Mode = ''allowlist'', nf_Allow = [''evil.example'', ''127.0.0.1'']\<rparr>"

end
