(* ===== verification/Token.thy ===== *)
theory Token
  imports Login GoURL
begin

text \<open>
  Package auth, the non-browser credentials: signed access tokens (accesstoken.go), CLI
  credentials (clicredential.go), the loopback login of the command line tool
  (cliauth.go), the signed OAuth state cookie (login.go) and the bearer branch of
  Authenticate (session.go). The JSON codec of a claim set is a
  parameter; a theorem that needs it states that decoding inverts encoding.
\<close>

record 'c codec =
  cd_marshal :: "'c \<Rightarrow> bytes"
  cd_unmarshal :: "bytes \<Rightarrow> 'c option"

section \<open>Sealed payloads\<close>

text \<open>
  The token format of signAccessToken and signInvokeCookie: the base64 payload, a dot,
  and the base64 HMAC of the encoded payload. \<open>unseal\<close> is the common first half of
  verifyAccessToken and parseInvokeCookie.
\<close>

definition seal :: "Crypto \<Rightarrow> bytes \<Rightarrow> bytes \<Rightarrow> string" where
  "seal c key b = (let p = b64_encode b in p @ CHR ''.'' # b64_encode (cr_hmac c key p))"

definition unseal :: "Crypto \<Rightarrow> bytes \<Rightarrow> string \<Rightarrow> bytes option" where
  "unseal c key s =
     (case cut CHR ''.'' s of (p, sig, ok) \<Rightarrow>
        if \<not> ok then None
        else case b64_decode sig of
          None \<Rightarrow> None
        | Some got \<Rightarrow> if got \<noteq> cr_hmac c key p then None else b64_decode p)"

lemma unseal_seal [simp]: "unseal c key (seal c key b) = Some b"
  by (simp add: unseal_def seal_def Let_def cut_dot [OF b64_encode_no_dot])

text \<open>Nothing opens without the HMAC, under the same key, of the text it carries.\<close>

lemma unseal_authentic:
  assumes "unseal c key s = Some b"
  shows "\<exists>p sig. s = p @ CHR ''.'' # sig \<and> b64_decode sig = Some (cr_hmac c key p) \<and> b64_decode p = Some b"
proof -
  have dot: "CHR ''.'' \<in> set s" using assms by (auto simp: unseal_def cut_def split: if_splits)
  let ?p = "takeWhile (\<lambda>x. x \<noteq> CHR ''.'') s" and ?r = "dropWhile (\<lambda>x. x \<noteq> CHR ''.'') s"
  have "?r \<noteq> []" "hd ?r = CHR ''.''" using dot hd_dropWhile [of "\<lambda>x. x \<noteq> CHR ''.''" s] by auto
  then have "s = ?p @ CHR ''.'' # tl ?r" by (metis list.collapse takeWhile_dropWhile_id)
  moreover have "b64_decode (tl ?r) = Some (cr_hmac c key ?p)" "b64_decode ?p = Some b"
    using assms dot by (auto simp: unseal_def cut_def split: option.splits if_splits)
  ultimately show ?thesis by blast
qed

section \<open>Access tokens (accesstoken.go)\<close>

definition AccessTokenPrefix :: string where
  "AccessTokenPrefix = ''fbxa_''"

definition DefaultAccessTokenTTL :: int where
  "DefaultAccessTokenTTL = 15 * 60 * 10 ^ 9"

definition MaxAccessTokenTTL :: int where
  "MaxAccessTokenTTL = 3600 * 10 ^ 9"

definition AudienceMCP :: string where
  "AudienceMCP = ''mcp''"

definition accessTokenKind :: string where
  "accessTokenKind = ''access''"

record accessTokenClaims =
  atc_Sub :: string
  atc_Email :: string
  atc_IAT :: int
  atc_EXP :: int
  atc_Kind :: string
  atc_Aud :: string

definition ClampAccessTokenTTL :: "int \<Rightarrow> int" where
  "ClampAccessTokenTTL requested =
     (if requested \<le> 0 then DefaultAccessTokenTTL
      else if requested > MaxAccessTokenTTL then MaxAccessTokenTTL
      else requested)"

definition signAccessToken :: "Crypto \<Rightarrow> AuthService \<Rightarrow> accessTokenClaims codec \<Rightarrow> accessTokenClaims \<Rightarrow> string" where
  "signAccessToken c a j cl = AccessTokenPrefix @ seal c (as_accessKey a) (cd_marshal j cl)"

definition issueAccessToken ::
  "Crypto \<Rightarrow> AuthService \<Rightarrow> accessTokenClaims codec \<Rightarrow> DB \<Rightarrow> int \<Rightarrow> string \<Rightarrow> int \<Rightarrow> string \<Rightarrow> auth_error + string \<times> int" where
  "issueAccessToken c a j db now userID ttl aud =
     (case users_ByID db userID of
        Inl _ \<Rightarrow> Inl ErrUnauthenticated
      | Inr u \<Rightarrow>
          (let exp = now + ClampAccessTokenTTL ttl in
           Inr (signAccessToken c a j \<lparr>atc_Sub = u_ID u, atc_Email = u_Email u, atc_IAT = toUnix now,
                  atc_EXP = toUnix exp, atc_Kind = accessTokenKind, atc_Aud = aud\<rparr>, exp)))"

definition IssueAccessToken ::
  "Crypto \<Rightarrow> AuthService \<Rightarrow> accessTokenClaims codec \<Rightarrow> DB \<Rightarrow> int \<Rightarrow> string \<Rightarrow> int \<Rightarrow> auth_error + string \<times> int" where
  "IssueAccessToken c a j db now userID ttl = issueAccessToken c a j db now userID ttl []"

definition IssueAccessTokenForAudience ::
  "Crypto \<Rightarrow> AuthService \<Rightarrow> accessTokenClaims codec \<Rightarrow> DB \<Rightarrow> int \<Rightarrow> string \<Rightarrow> int \<Rightarrow> string \<Rightarrow> auth_error + string \<times> int" where
  "IssueAccessTokenForAudience c a j db now userID ttl aud = issueAccessToken c a j db now userID ttl aud"

definition verifyAccessToken ::
  "Crypto \<Rightarrow> AuthService \<Rightarrow> accessTokenClaims codec \<Rightarrow> int \<Rightarrow> string \<Rightarrow> auth_error + accessTokenClaims" where
  "verifyAccessToken c a j now raw =
     (case cut_prefix AccessTokenPrefix raw of
        None \<Rightarrow> Inl ErrUnauthenticated
      | Some body \<Rightarrow>
          (case unseal c (as_accessKey a) body of
             None \<Rightarrow> Inl ErrUnauthenticated
           | Some b \<Rightarrow>
               (case cd_unmarshal j b of
                  None \<Rightarrow> Inl ErrUnauthenticated
                | Some cl \<Rightarrow>
                    if atc_Kind cl \<noteq> accessTokenKind \<or> atc_Sub cl = [] then Inl ErrUnauthenticated
                    else if toUnix now \<ge> atc_EXP cl then Inl ErrUnauthenticated
                    else Inr cl)))"

definition authenticateAccessToken ::
  "Crypto \<Rightarrow> AuthService \<Rightarrow> accessTokenClaims codec \<Rightarrow> DB \<Rightarrow> int \<Rightarrow> string \<Rightarrow> auth_error + AuthActor" where
  "authenticateAccessToken c a j db now raw =
     (case verifyAccessToken c a j now raw of
        Inl e \<Rightarrow> Inl e
      | Inr cl \<Rightarrow>
          (case loadActiveUser db (atc_Sub cl) of
             Inl e \<Rightarrow> Inl e
           | Inr u \<Rightarrow> Inr \<lparr>aa_User = u, aa_Method = MethodAccessToken, aa_csrfCookie = []\<rparr>))"

definition AccessTokenAudience ::
  "Crypto \<Rightarrow> AuthService \<Rightarrow> accessTokenClaims codec \<Rightarrow> int \<Rightarrow> string \<Rightarrow> string option" where
  "AccessTokenAudience c a j now raw =
     (case verifyAccessToken c a j now raw of Inl _ \<Rightarrow> None | Inr cl \<Rightarrow> Some (atc_Aud cl))"

section \<open>Authenticate (session.go)\<close>

definition Authenticate ::
  "Crypto \<Rightarrow> AuthService \<Rightarrow> accessTokenClaims codec \<Rightarrow> DB \<Rightarrow> int \<Rightarrow> Request \<Rightarrow> DB \<times> (auth_error + AuthActor)" where
  "Authenticate c a j db now r =
     (if rq_Authorization r \<noteq> [] then
        (case cut_prefix ''Bearer '' (rq_Authorization r) of
           None \<Rightarrow> (db, Inl ErrUnauthenticated)
         | Some raw \<Rightarrow>
             if \<not> prefix AccessTokenPrefix raw then (db, Inl ErrUnauthenticated)
             else if AccessTokenAudience c a j now raw \<noteq> Some [] then (db, Inl ErrUnauthenticated)
             else (db, authenticateAccessToken c a j db now raw))
      else AuthenticateSessionCookie c a db now r)"

section \<open>CLI credentials (clicredential.go)\<close>

definition CLICredentialPrefix :: string where
  "CLICredentialPrefix = ''fbxc_''"

definition CLICredentialSlidingWindow :: int where
  "CLICredentialSlidingWindow = 90 * 24 * 3600 * 10 ^ 9"

definition hashSecret :: "Crypto \<Rightarrow> string \<Rightarrow> string" where
  "hashSecret c plaintext = sha256Hex c plaintext"

definition GenerateCLICredential :: "Crypto \<Rightarrow> bytes \<Rightarrow> string \<times> string" where
  "GenerateCLICredential c rnd =
     (let plaintext = CLICredentialPrefix @ b64_encode rnd in (plaintext, hashSecret c plaintext))"

definition credentialActive :: "CLICredential \<Rightarrow> int \<Rightarrow> bool" where
  "credentialActive cred now =
     (let ref = (case cc_LastUsedAt cred of None \<Rightarrow> cc_CreatedAt cred | Some t \<Rightarrow> t) in
      now < ref * 10 ^ 9 + CLICredentialSlidingWindow)"

section \<open>The CLI login (cliauth.go)\<close>

definition cliAuthCodeLifetime :: int where
  "cliAuthCodeLifetime = 5 * 60 * 10 ^ 9"

definition pkceChallengeLength :: nat where
  "pkceChallengeLength = 43"

definition maxCLIDeviceNameLength :: nat where
  "maxCLIDeviceNameLength = 128"

definition sanitizeCLIDeviceName :: "string \<Rightarrow> string" where
  "sanitizeCLIDeviceName name =
     (let n = take maxCLIDeviceNameLength (trim_space (filter (\<lambda>ch. \<not> is_control ch) name)) in
      if n = [] then ''unknown device'' else n)"

definition validCLILoopbackRedirect :: "string \<Rightarrow> bool" where
  "validCLILoopbackRedirect redirect =
     (case url_Parse redirect of
        None \<Rightarrow> False
      | Some u \<Rightarrow>
          if url_Scheme u \<noteq> ''http'' \<or> url_HasUser u \<or> url_Path u \<noteq> ''/callback'' then False
          else if url_Hostname u \<noteq> ''127.0.0.1'' \<and> url_Hostname u \<noteq> ''localhost'' \<and> url_Hostname u \<noteq> ''::1'' then False
          else url_Port u \<noteq> [])"

definition validPKCEChallenge :: "string \<Rightarrow> bool" where
  "validPKCEChallenge challenge =
     (if length challenge \<noteq> pkceChallengeLength then False
      else case b64_decode challenge of None \<Rightarrow> False | Some d \<Rightarrow> length d = 32)"

definition pkceChallengeFromVerifier :: "Crypto \<Rightarrow> string \<Rightarrow> string" where
  "pkceChallengeFromVerifier c verifier = b64_encode (cr_sha256 c verifier)"

definition IssueCLIAuthCode ::
  "Crypto \<Rightarrow> DB \<Rightarrow> int \<Rightarrow> bytes \<Rightarrow> string \<Rightarrow> string \<Rightarrow> string \<Rightarrow> string \<Rightarrow> DB \<times> (auth_error + string)" where
  "IssueCLIAuthCode c db now rnd userID name redirect challenge =
     (if \<not> validCLILoopbackRedirect redirect \<or> \<not> validPKCEChallenge challenge
      then (db, Inl ErrCLIAuthInvalidRequest)
      else
        let raw = b64_encode rnd in
        case cliAuthCodes_Create db (toUnix now)
               \<lparr>cac_ID = hashSecret c raw, cac_UserID = userID, cac_Name = sanitizeCLIDeviceName name,
                cac_Challenge = challenge, cac_ExpiresAt = toUnix (now + cliAuthCodeLifetime), cac_CreatedAt = 0\<rparr> of
          (db', Inl e) \<Rightarrow> (db', Inl (ErrAuthStore e))
        | (db', Inr _) \<Rightarrow> (db', Inr raw))"

definition ExchangeCLICode ::
  "Crypto \<Rightarrow> DB \<Rightarrow> int \<Rightarrow> bytes \<Rightarrow> string \<Rightarrow> string \<Rightarrow> string \<Rightarrow> string \<Rightarrow> DB \<times> (auth_error + string \<times> CLICredential)" where
  "ExchangeCLICode c db now rnd fresh fresh_audit rawCode verifier =
     (if rawCode = [] \<or> verifier = [] then (db, Inl ErrCLIAuthCodeInvalid)
      else case cliAuthCodes_Consume db (hashSecret c rawCode) (toUnix now) of
        (db1, Inl _) \<Rightarrow> (db1, Inl ErrCLIAuthCodeInvalid)
      | (db1, Inr code) \<Rightarrow>
          if pkceChallengeFromVerifier c verifier \<noteq> cac_Challenge code then (db1, Inl ErrPKCEMismatch)
          else
            let (plaintext, hash) = GenerateCLICredential c rnd in
            case cliCredentials_Create db1 (toUnix now) fresh
                   \<lparr>cc_ID = [], cc_UserID = cac_UserID code, cc_Name = cac_Name code, cc_SecretHash = hash,
                    cc_CreatedAt = 0, cc_UpdatedAt = 0, cc_LastUsedAt = None\<rparr> of
              (db2, Inl e) \<Rightarrow> (db2, Inl (ErrAuthStore e))
            | (db2, Inr cred) \<Rightarrow>
                (Audit db2 now fresh_audit (cac_UserID code) ''cli_credential.create'' (''cli_credential:'' @ cc_ID cred) (cc_Name cred),
                 Inr (plaintext, cred)))"

definition MintAccessTokenFromCredential ::
  "Crypto \<Rightarrow> AuthService \<Rightarrow> accessTokenClaims codec \<Rightarrow> DB \<Rightarrow> int \<Rightarrow> string \<Rightarrow> int \<Rightarrow> DB \<times> (auth_error + string \<times> int)" where
  "MintAccessTokenFromCredential c a j db now rawCredential ttl =
     (if \<not> prefix CLICredentialPrefix rawCredential then (db, Inl ErrCLICredentialInvalid)
      else case cliCredentials_ByHash db (hashSecret c rawCredential) of
        Inl _ \<Rightarrow> (db, Inl ErrCLICredentialInvalid)
      | Inr cred \<Rightarrow>
          if \<not> credentialActive cred now then (db, Inl ErrCLICredentialInvalid)
          else case loadActiveUser db (cc_UserID cred) of
            Inl _ \<Rightarrow> (db, Inl ErrCLICredentialInvalid)
          | Inr _ \<Rightarrow>
              (case cliCredentials_Touch db (cc_ID cred) (toUnix now) of
                 (db1, Inl e) \<Rightarrow> (db1, Inl (ErrAuthStore e))
               | (db1, Inr _) \<Rightarrow> (db1, IssueAccessToken c a j db1 now (cc_UserID cred) ttl)))"

section \<open>Lemmas\<close>

lemma validateAuthenticatable_Inr:
  "validateAuthenticatable db u = Inr v \<longleftrightarrow> v = u \<and> u_Status u \<noteq> UserStatusDisabled \<and> checkLoginRules db (u_Email u)"
  by (auto simp: validateAuthenticatable_def)

lemma users_ByID_Inr: "users_ByID db i = Inr u \<Longrightarrow> u \<in> set (db_users db) \<and> u_ID u = i"
  by (auto simp: users_ByID_def dest: lookup_row_Some)

lemma loadActiveUser_Inr:
  "loadActiveUser db i = Inr u \<Longrightarrow>
     u \<in> set (db_users db) \<and> u_ID u = i \<and> u_Status u \<noteq> UserStatusDisabled \<and> checkLoginRules db (u_Email u)"
  by (auto simp: loadActiveUser_def validateAuthenticatable_Inr dest: users_ByID_Inr split: sum.splits)

lemma loadActiveUser_error: "loadActiveUser db i = Inl e \<Longrightarrow> e = ErrUnauthenticated"
  by (auto simp: loadActiveUser_def validateAuthenticatable_def split: sum.splits if_splits)

lemma ttl_bounds: "0 < ClampAccessTokenTTL ttl" "ClampAccessTokenTTL ttl \<le> MaxAccessTokenTTL"
  by (auto simp: ClampAccessTokenTTL_def DefaultAccessTokenTTL_def MaxAccessTokenTTL_def)

lemma verify_signed:
  assumes "cd_unmarshal j (cd_marshal j cl) = Some cl" "atc_Kind cl = accessTokenKind" "atc_Sub cl \<noteq> []"
  shows "verifyAccessToken c a j now (signAccessToken c a j cl) =
    (if toUnix now < atc_EXP cl then Inr cl else Inl ErrUnauthenticated)"
  using assms by (simp add: verifyAccessToken_def signAccessToken_def)

lemma issued_token:
  assumes "\<And>cl. cd_unmarshal j (cd_marshal j cl) = Some cl"
    and "issueAccessToken c a j db now uid ttl aud = Inr (tok, exp)" and "uid \<noteq> []"
  obtains cl where "tok = signAccessToken c a j cl" "exp = now + ClampAccessTokenTTL ttl" "atc_Sub cl = uid" "atc_Aud cl = aud"
    "\<And>t. verifyAccessToken c a j t tok = (if toUnix t < toUnix exp then Inr cl else Inl ErrUnauthenticated)"
proof -
  obtain u where u: "users_ByID db uid = Inr u" "u_ID u = uid"
    using assms(2) users_ByID_Inr by (auto simp: issueAccessToken_def split: sum.splits)
  define cl where "cl = \<lparr>atc_Sub = u_ID u, atc_Email = u_Email u, atc_IAT = toUnix now, atc_EXP = toUnix exp,
     atc_Kind = accessTokenKind, atc_Aud = aud\<rparr>"
  have exp: "exp = now + ClampAccessTokenTTL ttl" and tok: "tok = signAccessToken c a j cl"
    using assms(2) u by (auto simp: issueAccessToken_def cl_def Let_def)
  have "verifyAccessToken c a j t tok = (if toUnix t < toUnix exp then Inr cl else Inl ErrUnauthenticated)" for t
    unfolding tok using assms(1,3) u(2) by (subst verify_signed) (simp_all add: cl_def)
  then show ?thesis using exp tok u(2) by (intro that [of cl]) (simp_all add: cl_def)
qed

lemma Authenticate_signed:
  assumes "rq_Authorization r = ''Bearer '' @ signAccessToken c a j cl" "verifyAccessToken c a j t (signAccessToken c a j cl) = Inr cl"
  shows "map_sum id aa_User (snd (Authenticate c a j db t r))
    = (if atc_Aud cl = [] then loadActiveUser db (atc_Sub cl) else Inl ErrUnauthenticated)"
proof -
  have "cut_prefix ''Bearer '' (''Bearer '' @ signAccessToken c a j cl) = Some (signAccessToken c a j cl)"
    "prefix AccessTokenPrefix (signAccessToken c a j cl)"
    by (simp_all only: cut_prefix_Some signAccessToken_def prefixI)
  then show ?thesis using assms
    by (simp add: Authenticate_def AccessTokenAudience_def authenticateAccessToken_def split: sum.split)
qed

text \<open>
  Life of an access token. Whatever lifetime is asked for, the token expires after at
  most one hour (15 minutes by default). Until then it verifies to the user and audience
  it was minted for, and from then on never. As a bearer token of the management API it
  gives exactly the access of its user when it has no audience; a token minted for the MCP
  endpoint is refused there.
\<close>

lemma access_token_lifecycle:
  assumes "\<And>cl. cd_unmarshal j (cd_marshal j cl) = Some cl"
    and "issueAccessToken c a j db now uid ttl aud = Inr (tok, exp)" and "uid \<noteq> []"
  shows "now < exp \<and> exp \<le> now + MaxAccessTokenTTL \<and> (0 < ttl \<and> ttl \<le> MaxAccessTokenTTL \<longrightarrow> exp = now + ttl)
    \<and> (toUnix t < toUnix exp \<longrightarrow>
         (\<exists>cl. verifyAccessToken c a j t tok = Inr cl \<and> atc_Sub cl = uid \<and> atc_Aud cl = aud))
    \<and> (toUnix exp \<le> toUnix t \<longrightarrow> verifyAccessToken c a j t tok = Inl ErrUnauthenticated)
    \<and> (toUnix t < toUnix exp \<and> rq_Authorization r = ''Bearer '' @ tok \<longrightarrow>
         map_sum id aa_User (snd (Authenticate c a j db' t r))
           = (if aud = [] then loadActiveUser db' uid else Inl ErrUnauthenticated))"
proof -
  obtain cl where cl: "tok = signAccessToken c a j cl" "exp = now + ClampAccessTokenTTL ttl" "atc_Sub cl = uid" "atc_Aud cl = aud"
    and ver: "verifyAccessToken c a j t tok = (if toUnix t < toUnix exp then Inr cl else Inl ErrUnauthenticated)"
    using issued_token [OF assms(1-3)] by metis
  moreover have "0 < ttl \<and> ttl \<le> MaxAccessTokenTTL \<longrightarrow> exp = now + ttl" by (simp add: cl(2) ClampAccessTokenTTL_def)
  moreover have "map_sum id aa_User (snd (Authenticate c a j db' t r)) = (if aud = [] then loadActiveUser db' uid else Inl ErrUnauthenticated)"
    if "toUnix t < toUnix exp" "rq_Authorization r = ''Bearer '' @ tok"
    using Authenticate_signed [of r c a j cl t] that ver cl by simp
  ultimately show ?thesis using ttl_bounds [of ttl] by (auto simp: cl(2))
qed

text \<open>A concrete codec: fields as strings, each character marked, each field closed.\<close>

fun enc_str :: "string \<Rightarrow> string" where
  "enc_str [] = ''e''"
| "enc_str (x # xs) = CHR ''x'' # x # enc_str xs"

fun dec_str :: "string \<Rightarrow> (string \<times> string) option" where
  "dec_str (m # rest) =
     (if m = CHR ''e'' then Some ([], rest)
      else case rest of [] \<Rightarrow> None | x # r \<Rightarrow> map_option (apfst ((#) x)) (dec_str r))"
| "dec_str [] = None"

fun dec_fields :: "nat \<Rightarrow> string \<Rightarrow> string list option" where
  "dec_fields 0 s = Some []"
| "dec_fields (Suc n) s = Option.bind (dec_str s) (\<lambda>(f, r). map_option ((#) f) (dec_fields n r))"

definition enc_int :: "int \<Rightarrow> string" where
  "enc_int i = (if i < 0 then CHR ''-'' # replicate (nat (- i)) CHR ''1'' else replicate (nat i) CHR ''1'')"

definition dec_int :: "string \<Rightarrow> int" where
  "dec_int s = (if prefix ''-'' s then - int (length s - 1) else int (length s))"

lemma dec_enc_str [simp]: "dec_str (enc_str s @ r) = Some (s, r)"
  by (induction s) simp_all

lemma dec_enc_str_end [simp]: "dec_str (enc_str s) = Some (s, [])"
  using dec_enc_str [of s "[]"] by simp

lemma dec_enc_int [simp]: "dec_int (enc_int i) = i"
  by (auto simp: dec_int_def enc_int_def) (cases "nat i", auto)

definition codec_example :: "accessTokenClaims codec" where
  "codec_example = \<lparr>
     cd_marshal = (\<lambda>cl. concat (map enc_str [atc_Sub cl, atc_Email cl, enc_int (atc_IAT cl), enc_int (atc_EXP cl), atc_Kind cl, atc_Aud cl])),
     cd_unmarshal = (\<lambda>b. case dec_fields 6 b of
       Some [s, e, i, x, k, d] \<Rightarrow> Some \<lparr>atc_Sub = s, atc_Email = e, atc_IAT = dec_int i, atc_EXP = dec_int x, atc_Kind = k, atc_Aud = d\<rparr>
     | _ \<Rightarrow> None)\<rparr>"

lemma codec_example_law: "cd_unmarshal codec_example (cd_marshal codec_example cl) = Some cl"
  by (simp add: codec_example_def numeral_eq_Suc)

text \<open>
  C18. What a bearer token proves. If the management API accepts a request with an
  Authorization header, then the header carries an access token whose signature is the
  HMAC of its own payload under the access-token key, the payload names a stored user
  who is not disabled and passes the current login rules, and it has no audience. In
  particular a CLI credential is never accepted directly.
\<close>

theorem bearer_authentic:
  assumes "snd (Authenticate c a j db now r) = Inr act" and "rq_Authorization r \<noteq> []"
  shows "\<exists>p sig cl. rq_Authorization r = ''Bearer fbxa_'' @ p @ CHR ''.'' # sig
      \<and> b64_decode sig = Some (cr_hmac c (as_accessKey a) p)
      \<and> Option.bind (b64_decode p) (cd_unmarshal j) = Some cl
      \<and> atc_Sub cl = u_ID (aa_User act) \<and> atc_Aud cl = [] \<and> toUnix now < atc_EXP cl
      \<and> aa_User act \<in> set (db_users db) \<and> u_Status (aa_User act) \<noteq> UserStatusDisabled
      \<and> checkLoginRules db (u_Email (aa_User act)) \<and> aa_Method act = MethodAccessToken"
proof -
  obtain raw where raw: "cut_prefix ''Bearer '' (rq_Authorization r) = Some raw" "prefix AccessTokenPrefix raw"
    "AccessTokenAudience c a j now raw = Some []" "authenticateAccessToken c a j db now raw = Inr act"
    using assms by (auto simp: Authenticate_def split: option.splits if_splits)
  then obtain cl u where v: "verifyAccessToken c a j now raw = Inr cl" "atc_Aud cl = []"
    "loadActiveUser db (atc_Sub cl) = Inr u" "act = \<lparr>aa_User = u, aa_Method = MethodAccessToken, aa_csrfCookie = []\<rparr>"
    by (auto simp: AccessTokenAudience_def authenticateAccessToken_def split: sum.splits)
  obtain body where body: "raw = AccessTokenPrefix @ body" using raw(2) by (auto simp: prefix_def)
  then obtain b where b: "unseal c (as_accessKey a) body = Some b" "cd_unmarshal j b = Some cl" "toUnix now < atc_EXP cl"
    using v(1) by (auto simp: verifyAccessToken_def split: option.splits if_splits)
  obtain p sig where "body = p @ CHR ''.'' # sig" "b64_decode sig = Some (cr_hmac c (as_accessKey a) p)" "b64_decode p = Some b"
    using unseal_authentic [OF b(1)] by blast
  moreover have "rq_Authorization r = ''Bearer '' @ raw" using raw(1) by (auto simp: cut_prefix_def prefix_def split: if_splits)
  ultimately show ?thesis
    using b(2,3) v loadActiveUser_Inr [OF v(3)] body by (intro exI [of _ p] exI [of _ sig] exI [of _ cl]) (simp add: AccessTokenPrefix_def)
qed

definition bearer_example :: Request where
  "bearer_example = \<lparr>rq_Method = ''GET'', rq_Authorization = ''Bearer '' @ signAccessToken hash_example svc_example codec_example
     \<lparr>atc_Sub = ''u1'', atc_Email = ''a@b'', atc_IAT = 0, atc_EXP = 900, atc_Kind = accessTokenKind, atc_Aud = []\<rparr>,
     rq_Origin = [], rq_CSRFHeader = [], rq_Cookies = []\<rparr>"

lemma bearer_example_accepted:
  "\<exists>act. snd (Authenticate hash_example svc_example codec_example (fst first_example) 0 bearer_example) = Inr act"
proof -
  let ?cl = "\<lparr>atc_Sub = ''u1'', atc_Email = ''a@b'', atc_IAT = 0, atc_EXP = 900, atc_Kind = accessTokenKind, atc_Aud = []\<rparr>"
  have "verifyAccessToken hash_example svc_example codec_example 0 (signAccessToken hash_example svc_example codec_example ?cl) = Inr ?cl"
    by (subst verify_signed) (simp_all add: codec_example_law toUnix_def)
  then have "map_sum id aa_User (snd (Authenticate hash_example svc_example codec_example (fst first_example) 0 bearer_example))
      = loadActiveUser (fst first_example) ''u1''"
    using Authenticate_signed [of bearer_example hash_example svc_example codec_example ?cl 0 "fst first_example"]
    by (simp add: bearer_example_def)
  then show ?thesis
    using first_example_rows(4)
    by (cases "snd (Authenticate hash_example svc_example codec_example (fst first_example) 0 bearer_example)") (auto simp: is_ok_def split: sum.splits)
qed

theorem bearer_authentic_witness:
  "\<exists>p sig. rq_Authorization bearer_example = ''Bearer fbxa_'' @ p @ CHR ''.'' # sig \<and> b64_decode sig = Some (''k3'' @ p)"
proof -
  obtain act where "snd (Authenticate hash_example svc_example codec_example (fst first_example) 0 bearer_example) = Inr act"
    using bearer_example_accepted by blast
  from bearer_authentic [OF this] show ?thesis
    by (auto simp: bearer_example_def hash_example_def svc_example_def)
qed

section \<open>The CLI login flow\<close>

lemma lookup_only:
  assumes "r \<in> set rows" "p r" "\<And>x. x \<in> set rows \<Longrightarrow> p x \<Longrightarrow> x = r"
  shows "lookup_row p rows = Some r"
proof (cases "lookup_row p rows")
  case None
  then show ?thesis using assms(1,2) by (simp add: lookup_row_None)
next
  case (Some x)
  then have "x \<in> set rows" "p x" using lookup_row_Some by fast+
  then show ?thesis using assms(3) [of x] Some by simp
qed

lemma issued_code:
  assumes "IssueCLIAuthCode c db now rnd uid name redirect challenge = (db1, Inr code)"
    and "toUnix t < toUnix (now + cliAuthCodeLifetime)"
  obtains dbc k where "cliAuthCodes_Consume db1 (hashSecret c code) (toUnix t) = (dbc, Inr k)"
    "cac_UserID k = uid" "cac_Challenge k = challenge" "has_row u_ID uid (db_users db1)" "code = b64_encode rnd"
    "validPKCEChallenge challenge" "validCLILoopbackRedirect redirect"
proof -
  let ?k = "\<lparr>cac_ID = hashSecret c (b64_encode rnd), cac_UserID = uid, cac_Name = sanitizeCLIDeviceName name, cac_Challenge = challenge,
     cac_ExpiresAt = toUnix (now + cliAuthCodeLifetime), cac_CreatedAt = toUnix now\<rparr>"
  let ?old = "delete_rows (\<lambda>r. cac_ExpiresAt r \<le> toUnix now) (db_cli_codes db)"
  have facts: "code = b64_encode rnd" "db1 = db\<lparr>db_cli_codes := ?old @ [?k]\<rparr>" "has_row u_ID uid (db_users db)"
    "\<not> has_row cac_ID (hashSecret c (b64_encode rnd)) ?old" "validPKCEChallenge challenge" "validCLILoopbackRedirect redirect"
    using assms(1) by (auto simp: IssueCLIAuthCode_def cliAuthCodes_Create_def Let_def split: if_splits prod.splits sum.splits)
  have "lookup_row (cli_code_live (hashSecret c code) (toUnix t)) (db_cli_codes db1) = Some ?k"
    using facts assms(2) by (intro lookup_only) (auto simp: cli_code_live_def has_row_iff)
  then show ?thesis
    using facts by (intro that [of _ ?k]) (simp_all add: cliAuthCodes_Consume_def)
qed

lemma toUnix_mono: "t \<le> t' \<Longrightarrow> toUnix t \<le> toUnix t'"
  by (simp add: toUnix_def zdiv_mono1)

lemma Audit_frame [simp]:
  "db_cli_codes (Audit db now f x y z d) = db_cli_codes db" "db_cli_creds (Audit db now f x y z d) = db_cli_creds db"
  "db_users (Audit db now f x y z d) = db_users db" "db_login_rules (Audit db now f x y z d) = db_login_rules db"
  "db_oauth_grants (Audit db now f x y z d) = db_oauth_grants db" "db_oauth_codes (Audit db now f x y z d) = db_oauth_codes db"
  by (simp_all add: Audit_def audit_Append_def Let_def)

lemma ExchangeCLICode_codes:
  "rawCode \<noteq> [] \<Longrightarrow> verifier \<noteq> [] \<Longrightarrow>
   db_cli_codes (fst (ExchangeCLICode c db t rnd fresh fa rawCode verifier))
     = db_cli_codes (fst (cliAuthCodes_Consume db (hashSecret c rawCode) (toUnix t)))"
  by (auto simp: ExchangeCLICode_def cliCredentials_Create_def GenerateCLICredential_def Let_def split: prod.splits sum.splits if_splits)

lemma cliCredentials_Create_Inr:
  assumes "cliCredentials_Create db now fresh c0 = (db', Inr k)"
  shows "cc_UserID k = cc_UserID c0" "cc_SecretHash k = cc_SecretHash c0" "cliCredentials_ByHash db' (cc_SecretHash c0) = Inr k"
proof -
  have no: "\<not> has_row cc_SecretHash (cc_SecretHash c0) (db_cli_creds db)" and db': "db_cli_creds db' = db_cli_creds db @ [k]"
    and k: "cc_UserID k = cc_UserID c0" "cc_SecretHash k = cc_SecretHash c0"
    using assms by (auto simp: cliCredentials_Create_def Let_def split: if_splits)
  then have "lookup_row (\<lambda>x. cc_SecretHash x = cc_SecretHash c0) (db_cli_creds db) = None"
    by (simp add: lookup_row_None has_row_iff)
  then show "cliCredentials_ByHash db' (cc_SecretHash c0) = Inr k"
    using k by (simp add: cliCredentials_ByHash_def db' lookup_row_snoc)
qed (use assms in \<open>auto simp: cliCredentials_Create_def Let_def split: if_splits\<close>)

lemma pkce_valid: "length (cr_sha256 c v) = 32 \<Longrightarrow> validPKCEChallenge (pkceChallengeFromVerifier c v)"
  by (simp add: validPKCEChallenge_def pkceChallengeFromVerifier_def pkceChallengeLength_def length_b64_encode)

text \<open>
  C19. The loopback login with PKCE. A code is only issued for a well-formed S256 challenge
  and a loopback redirect, and lives five minutes. Redeeming it with a verifier that
  does not hash to its challenge creates no credential; with the right verifier it
  yields a credential, stored only as a hash, of the user who approved the login. In
  every case the code is spent: no later attempt with it succeeds, whatever the verifier.
\<close>

theorem cli_login_pkce:
  assumes "IssueCLIAuthCode c db now rnd uid name redirect challenge = (db1, Inr code)"
    and "toUnix t < toUnix (now + cliAuthCodeLifetime)" and "rnd \<noteq> []" and "verifier \<noteq> []" and "t \<le> t'"
    and "ExchangeCLICode c db1 t rnd2 fresh fresh_audit code verifier = (db2, res)"
  shows "validPKCEChallenge challenge \<and> validCLILoopbackRedirect redirect
    \<and> (pkceChallengeFromVerifier c verifier \<noteq> challenge \<longrightarrow> res = Inl ErrPKCEMismatch \<and> db_cli_creds db2 = db_cli_creds db1)
    \<and> (\<forall>secret cred. res = Inr (secret, cred) \<longrightarrow> pkceChallengeFromVerifier c verifier = challenge
         \<and> cc_UserID cred = uid \<and> cliCredentials_ByHash db2 (hashSecret c secret) = Inr cred)
    \<and> snd (ExchangeCLICode c db2 t' rnd3 fresh3 fresh_audit3 code verifier3) = Inl ErrCLIAuthCodeInvalid"
proof -
  obtain dbc k where k: "cliAuthCodes_Consume db1 (hashSecret c code) (toUnix t) = (dbc, Inr k)"
    "cac_UserID k = uid" "cac_Challenge k = challenge" "code = b64_encode rnd" "validPKCEChallenge challenge" "validCLILoopbackRedirect redirect"
    using issued_code [OF assms(1,2)] by metis
  have "length code \<noteq> 0" using assms(3) by (simp add: k(4) length_b64_encode) (cases rnd, auto)
  then have ne: "code \<noteq> []" by simp
  have creds: "db_cli_creds dbc = db_cli_creds db1" using k(1) by (auto simp: cliAuthCodes_Consume_def)
  let ?new = "\<lparr>cc_ID = [], cc_UserID = uid, cc_Name = cac_Name k, cc_SecretHash = hashSecret c (CLICredentialPrefix @ b64_encode rnd2),
      cc_CreatedAt = 0, cc_UpdatedAt = 0, cc_LastUsedAt = None\<rparr>"
  have ex: "(db2, res) = (if pkceChallengeFromVerifier c verifier \<noteq> challenge then (dbc, Inl ErrPKCEMismatch)
      else case cliCredentials_Create dbc (toUnix t) fresh ?new of
        (db', Inl e) \<Rightarrow> (db', Inl (ErrAuthStore e))
      | (db', Inr cred) \<Rightarrow> (Audit db' t fresh_audit uid ''cli_credential.create'' (''cli_credential:'' @ cc_ID cred) (cc_Name cred),
          Inr (CLICredentialPrefix @ b64_encode rnd2, cred)))"
    unfolding assms(6) [symmetric] ExchangeCLICode_def k(1) using ne assms(4) k(2,3)
    by (simp add: GenerateCLICredential_def Let_def split: prod.split sum.split)
  have "set (db_cli_codes db2) \<subseteq> set (db_cli_codes dbc)"
    using ExchangeCLICode_codes [OF ne assms(4)] assms(6) k(1) by (metis fst_conv order_refl)
  then have "snd (cliAuthCodes_Consume db2 (hashSecret c code) (toUnix t')) = Inl ErrNotFound"
    using cli_codes.second_fails [of db1 "hashSecret c code" "toUnix t" k] k(1) toUnix_mono [OF assms(5)] by simp
  then have spent: "snd (ExchangeCLICode c db2 t' rnd3 fresh3 fresh_audit3 code verifier3) = Inl ErrCLIAuthCodeInvalid"
    by (cases "cliAuthCodes_Consume db2 (hashSecret c code) (toUnix t')") (simp add: ExchangeCLICode_def)
  have "cc_UserID cred = uid \<and> cliCredentials_ByHash db2 (hashSecret c secret) = Inr cred"
    if r: "res = Inr (secret, cred)" and p: "pkceChallengeFromVerifier c verifier = challenge" for secret cred
  proof -
    obtain db' where "cliCredentials_Create dbc (toUnix t) fresh ?new = (db', Inr cred)"
      and "secret = CLICredentialPrefix @ b64_encode rnd2" "db_cli_creds db2 = db_cli_creds db'"
      using ex r p by (auto split: prod.splits sum.splits)
    then show ?thesis using cliCredentials_Create_Inr [of dbc "toUnix t" fresh ?new db' cred] by (auto simp: cliCredentials_ByHash_def)
  qed
  moreover have "pkceChallengeFromVerifier c verifier \<noteq> challenge \<Longrightarrow> res = Inl ErrPKCEMismatch \<and> db_cli_creds db2 = db_cli_creds db1"
    using ex creds by simp
  ultimately show ?thesis using k(5,6) spent by (metis sum.distinct(1))
qed

definition hash32 :: Crypto where
  "hash32 = \<lparr>cr_sha256 = (\<lambda>b. take 32 (b @ replicate 32 CHR ''0'')), cr_hmac = (\<lambda>k d. k @ d)\<rparr>"

theorem cli_login_pkce_witness:
  "\<exists>db1 code. IssueCLIAuthCode hash32 (fst first_example) 0 ''rnd'' ''u1'' ''laptop'' ''http://127.0.0.1:1234/callback''
        (pkceChallengeFromVerifier hash32 ''secret'') = (db1, Inr code)
     \<and> snd (ExchangeCLICode hash32 db1 1 ''r2'' ''c1'' ''a1'' code ''guess'') = Inl ErrPKCEMismatch"
proof -
  let ?ch = "pkceChallengeFromVerifier hash32 ''secret''"
  have "validPKCEChallenge ?ch" by (rule pkce_valid) (simp add: hash32_def)
  moreover have "validCLILoopbackRedirect ''http://127.0.0.1:1234/callback''" by code_simp
  moreover have "has_row u_ID ''u1'' (db_users (fst first_example))" "db_cli_codes (fst first_example) = []" by code_simp+
  ultimately obtain db1 code where i: "IssueCLIAuthCode hash32 (fst first_example) 0 ''rnd'' ''u1'' ''laptop''
      ''http://127.0.0.1:1234/callback'' ?ch = (db1, Inr code)"
    by (simp add: IssueCLIAuthCode_def cliAuthCodes_Create_def Let_def delete_rows_def has_row_def)
  have "cr_sha256 hash32 ''guess'' \<noteq> cr_sha256 hash32 ''secret''" by (simp add: hash32_def)
  then have neq: "pkceChallengeFromVerifier hash32 ''guess'' \<noteq> ?ch"
    by (simp only: pkceChallengeFromVerifier_def b64_encode_inj not_False_eq_True)
  have lt: "toUnix 1 < toUnix (0 + cliAuthCodeLifetime)" by code_simp
  obtain db2 res where e: "ExchangeCLICode hash32 db1 1 ''r2'' ''c1'' ''a1'' code ''guess'' = (db2, res)" by fastforce
  have "res = Inl ErrPKCEMismatch"
    using cli_login_pkce [OF i lt _ _ order_refl e] neq by blast
  with i e show ?thesis by auto
qed

section \<open>Minting from a credential\<close>

lemma ByHash_row:
  assumes "db_ok db" "cred \<in> set (db_cli_creds db)"
  shows "cliCredentials_ByHash db (cc_SecretHash cred) = Inr cred"
  using lookup_row_key [of cc_SecretHash "db_cli_creds db" cred] assms
  by (simp add: cliCredentials_ByHash_def db_ok_def credentials_ok_def)

lemma loadActiveUser_cong:
  "db_users d = db_users db \<Longrightarrow> db_login_rules d = db_login_rules db \<Longrightarrow> loadActiveUser d i = loadActiveUser db i"
  by (simp add: loadActiveUser_def validateAuthenticatable_def users_ByID_def checkLoginRules_def org_ListLoginRules_def split: sum.split)

lemma Issue_ok: "is_ok (loadActiveUser db i) \<Longrightarrow> is_ok (IssueAccessToken c a j db now i ttl)"
  by (auto simp: IssueAccessToken_def issueAccessToken_def loadActiveUser_def is_ok_def Let_def split: sum.splits)

lemma Touch_frame:
  "db_users (fst (cliCredentials_Touch db i t)) = db_users db" "db_login_rules (fst (cliCredentials_Touch db i t)) = db_login_rules db"
  by (simp_all add: cliCredentials_Touch_def)

lemma Mint_stored:
  assumes "db_ok db" "cred \<in> set (db_cli_creds db)" "cc_SecretHash cred = hashSecret c raw" "prefix CLICredentialPrefix raw"
  shows "MintAccessTokenFromCredential c a j db now raw ttl =
      (if credentialActive cred now \<and> is_ok (loadActiveUser db (cc_UserID cred))
       then (fst (cliCredentials_Touch db (cc_ID cred) (toUnix now)),
             IssueAccessToken c a j (fst (cliCredentials_Touch db (cc_ID cred) (toUnix now))) now (cc_UserID cred) ttl)
       else (db, Inl ErrCLICredentialInvalid))"
  using ByHash_row [OF assms(1,2)] assms(2-)
  by (auto simp: MintAccessTokenFromCredential_def cliCredentials_Touch_def has_row_iff is_ok_def split: sum.splits)

text \<open>
  The CLI credential's sliding window. A stored credential mints an access token exactly
  while it has been used (or created) within the last 90 days and its user is in good
  standing. Each use restarts the window, from the second of the use; a credential left
  alone for 90 days is dead for good, and a revoked one at once.
\<close>

lemma cli_credential_window:
  assumes "db_ok db" and "cred \<in> set (db_cli_creds db)" and "cc_SecretHash cred = hashSecret c raw"
    and "prefix CLICredentialPrefix raw"
  shows "(is_ok (snd (MintAccessTokenFromCredential c a j db now raw ttl)) \<longleftrightarrow>
            credentialActive cred now \<and> is_ok (loadActiveUser db (cc_UserID cred)))
    \<and> (is_ok (snd (MintAccessTokenFromCredential c a j db now raw ttl)) \<longrightarrow>
         (is_ok (snd (MintAccessTokenFromCredential c a j (fst (MintAccessTokenFromCredential c a j db now raw ttl)) t raw ttl))
          \<longleftrightarrow> t < toUnix now * 10 ^ 9 + CLICredentialSlidingWindow))
    \<and> snd (MintAccessTokenFromCredential c a j (fst (cliCredentials_Delete db (cc_ID cred))) now raw ttl) = Inl ErrCLICredentialInvalid"
proof -
  let ?new = "cred\<lparr>cc_LastUsedAt := Some (toUnix now), cc_UpdatedAt := toUnix now\<rparr>"
  let ?db1 = "fst (cliCredentials_Touch db (cc_ID cred) (toUnix now))"
  note mint = Mint_stored [OF assms]
  have uniq: "unique_on cc_SecretHash (db_cli_creds db)" using assms(1) by (simp add: db_ok_def credentials_ok_def)
  have load: "loadActiveUser ?db1 i = loadActiveUser db i" for i by (rule loadActiveUser_cong [OF Touch_frame])
  have first: "is_ok (snd (MintAccessTokenFromCredential c a j db now raw ttl)) \<longleftrightarrow>
      credentialActive cred now \<and> is_ok (loadActiveUser db (cc_UserID cred))"
    using Issue_ok [of ?db1 "cc_UserID cred"] by (auto simp: mint load)
  have "?new \<in> set (db_cli_creds ?db1)"
    using assms(2) by (auto simp: cliCredentials_Touch_def has_row_iff)
  then have again: "MintAccessTokenFromCredential c a j ?db1 t raw ttl =
      (if credentialActive ?new t \<and> is_ok (loadActiveUser db (cc_UserID cred))
       then (fst (cliCredentials_Touch ?db1 (cc_ID cred) (toUnix t)),
             IssueAccessToken c a j (fst (cliCredentials_Touch ?db1 (cc_ID cred) (toUnix t))) t (cc_UserID cred) ttl)
       else (?db1, Inl ErrCLICredentialInvalid))" for t
    using Mint_stored [OF cliCredentials_Touch_ok [OF assms(1)], of ?new "cc_ID cred" "toUnix now" c raw] assms(3,4) by (simp add: load)
  have second: "is_ok (snd (MintAccessTokenFromCredential c a j ?db1 t raw ttl)) \<longleftrightarrow> t < toUnix now * 10 ^ 9 + CLICredentialSlidingWindow"
    if "is_ok (loadActiveUser db (cc_UserID cred))"
  proof -
    have "loadActiveUser (fst (cliCredentials_Touch ?db1 (cc_ID cred) (toUnix t))) i = loadActiveUser ?db1 i" for i
      by (rule loadActiveUser_cong [OF Touch_frame])
    then have "is_ok (IssueAccessToken c a j (fst (cliCredentials_Touch ?db1 (cc_ID cred) (toUnix t))) t (cc_UserID cred) ttl)"
      using that load by (intro Issue_ok) simp
    then show ?thesis using that by (simp add: again credentialActive_def Let_def)
  qed
  have "cliCredentials_ByHash (fst (cliCredentials_Delete db (cc_ID cred))) (hashSecret c raw) = Inl ErrNotFound"
    using unique_on_inj [OF uniq _ assms(2)] assms(3)
    by (auto simp: cliCredentials_ByHash_def cliCredentials_Delete_def lookup_row_None)
  then have third: "snd (MintAccessTokenFromCredential c a j (fst (cliCredentials_Delete db (cc_ID cred))) now raw ttl) = Inl ErrCLICredentialInvalid"
    using assms(4) by (simp add: MintAccessTokenFromCredential_def)
  have "fst (MintAccessTokenFromCredential c a j db now raw ttl) = ?db1" if "is_ok (snd (MintAccessTokenFromCredential c a j db now raw ttl))"
    using that by (auto simp: mint split: if_splits)
  then show ?thesis using first second third by auto
qed

definition cred_db :: DB where
  "cred_db = fst (cliCredentials_Create (fst first_example) 0 ''c1''
     \<lparr>cc_ID = [], cc_UserID = ''u1'', cc_Name = ''n'', cc_SecretHash = hashSecret hash_example ''fbxc_s'',
      cc_CreatedAt = 0, cc_UpdatedAt = 0, cc_LastUsedAt = None\<rparr>)"

end
