(* ===== verification/InvokeSSO.thy ===== *)
theory InvokeSSO
  imports Token
begin

text \<open>
  Package auth, callers of functions: the open-redirect guard, host normalization, the
  hand-off of a browser session from the control origin to a function's own host
  (invokesso.go) and the resolution of a caller from a bearer token or a cookie
  (idtoken.go). The OIDC verifier is a parameter.
\<close>

section \<open>Return paths (invokesso.go, login.go)\<close>

definition maxReturnToLength :: nat where
  "maxReturnToLength = 2048"

fun escapes_ok :: "string \<Rightarrow> bool" where
  "escapes_ok [] = True"
| "escapes_ok (c # s) =
     (if c = CHR ''%'' then (case s of a # b # r \<Rightarrow> is_hex a \<and> is_hex b \<and> escapes_ok r | _ \<Rightarrow> False)
      else escapes_ok s)"

text \<open>
  \<^verbatim>\<open>url.ParseRequestURI\<close> on a string that starts with one slash: it fails on a control
  byte and on a malformed escape in the path, and otherwise gives a URL with neither
  scheme nor host.
\<close>

definition parse_request_uri_ok :: "string \<Rightarrow> bool" where
  "parse_request_uri_ok s = (\<not> list_ex is_control s \<and> escapes_ok (fst (cut CHR ''?'' s)))"

definition validLocalReturnTo :: "string \<Rightarrow> bool" where
  "validLocalReturnTo s =
     (if s = [] \<or> length s > maxReturnToLength then False
      else if \<not> prefix ''/'' s \<or> prefix ''//'' s then False
      else if list_ex (\<lambda>c. c \<in> {CHR 0x5C, CHR 0x0D, CHR 0x0A}) s then False
      else parse_request_uri_ok s)"

definition sanitizeReturnTo :: "string \<Rightarrow> string" where
  "sanitizeReturnTo s = (if \<not> validLocalReturnTo s then [] else s)"

definition defaultReturnTo :: string where
  "defaultReturnTo = ''/dashboard''"

section \<open>Hosts (invokesso.go)\<close>

definition normalizedHost :: "string \<Rightarrow> string option" where
  "normalizedHost hostport =
     (if hostport = [] \<or> list_ex (\<lambda>c. c \<in> {CHR 0x5C, CHR ''/'', CHR ''@'', CHR '' '', CHR 0x09, CHR 0x0D, CHR 0x0A}) hostport
      then None
      else
        case (case url_Parse (''//'' @ hostport) of
                Some u \<Rightarrow> if url_Port u \<noteq> [] then Some (url_Hostname u)
                          else if CHR '':'' \<in> set hostport then None else Some hostport
              | None \<Rightarrow> if CHR '':'' \<in> set hostport then None else Some hostport) of
          None \<Rightarrow> None
        | Some hp \<Rightarrow> (let h = to_lower (trim_suffix hp ''.'') in if h = [] then None else Some h))"

definition managedFunctionHost :: "AuthService \<Rightarrow> string \<Rightarrow> string" where
  "managedFunctionHost a name = to_lower (name @ ''.'' @ trim_suffix (as_FunctionDomain a) ''.'')"

definition SameOriginInvokeHost :: "AuthService \<Rightarrow> string \<Rightarrow> bool" where
  "SameOriginInvokeHost a host =
     (if as_FunctionDomain a = [] then True
      else case normalizedHost host of None \<Rightarrow> False | Some h \<Rightarrow> h = as_controlHost a)"

section \<open>The invoke cookie (invokesso.go)\<close>

definition invokeCodeLifetime :: int where
  "invokeCodeLifetime = 60 * 10 ^ 9"

definition invokeCookieLifetime :: int where
  "invokeCookieLifetime = 8 * 3600 * 10 ^ 9"

definition invokeCookieName :: "AuthService \<Rightarrow> string" where
  "invokeCookieName a = (if secureCookies a then ''__Host-fbx_invoke'' else ''fbx_invoke_insecure'')"

record invokeCookieClaims =
  icc_UserID :: string
  icc_FunctionID :: string
  icc_Host :: string
  icc_ExpiresAt :: int

definition signInvokeCookie :: "Crypto \<Rightarrow> AuthService \<Rightarrow> invokeCookieClaims codec \<Rightarrow> invokeCookieClaims \<Rightarrow> string" where
  "signInvokeCookie c a j cl = seal c (as_invokeKey a) (cd_marshal j cl)"

definition parseInvokeCookie ::
  "Crypto \<Rightarrow> AuthService \<Rightarrow> invokeCookieClaims codec \<Rightarrow> int \<Rightarrow> string \<Rightarrow> string \<Rightarrow> string \<Rightarrow> auth_error + invokeCookieClaims" where
  "parseInvokeCookie c a j now raw functionID host =
     (case unseal c (as_invokeKey a) raw of
        None \<Rightarrow> Inl ErrUnauthenticated
      | Some b \<Rightarrow>
          (case cd_unmarshal j b of
             None \<Rightarrow> Inl ErrUnauthenticated
           | Some cl \<Rightarrow>
               if icc_FunctionID cl \<noteq> functionID \<or> icc_Host cl \<noteq> host \<or> toUnix now \<ge> icc_ExpiresAt cl
               then Inl ErrUnauthenticated else Inr cl))"

definition ResolveInvokeCookie ::
  "Crypto \<Rightarrow> AuthService \<Rightarrow> invokeCookieClaims codec \<Rightarrow> DB \<Rightarrow> int \<Rightarrow> Request \<Rightarrow> string \<Rightarrow> string \<Rightarrow> auth_error + User" where
  "ResolveInvokeCookie c a j db now r functionID host =
     (case Cookie r (invokeCookieName a) of
        None \<Rightarrow> Inl ErrUnauthenticated
      | Some v \<Rightarrow>
          (case normalizedHost host of
             None \<Rightarrow> Inl ErrUnauthenticated
           | Some h \<Rightarrow>
               (case parseInvokeCookie c a j now v functionID h of
                  Inl e \<Rightarrow> Inl e
                | Inr cl \<Rightarrow>
                    (case users_ByID db (icc_UserID cl) of
                       Inl _ \<Rightarrow> Inl ErrUnauthenticated
                     | Inr u \<Rightarrow> validateActiveUser db u))))"

definition resolveInvokeSessionCookie :: "Crypto \<Rightarrow> AuthService \<Rightarrow> DB \<Rightarrow> int \<Rightarrow> Request \<Rightarrow> auth_error + User" where
  "resolveInvokeSessionCookie c a db now r =
     (case Cookie r (sessionCookieName a) of
        None \<Rightarrow> Inl ErrUnauthenticated
      | Some v \<Rightarrow>
          (case b64_decode v of
             None \<Rightarrow> Inl ErrUnauthenticated
           | Some raw \<Rightarrow>
               (case sessions_Get db (sha256Hex c raw) (toUnix now) of
                  Inl _ \<Rightarrow> Inl ErrUnauthenticated
                | Inr sess \<Rightarrow>
                    (case users_ByID db (se_UserID sess) of
                       Inl _ \<Rightarrow> Inl ErrUnauthenticated
                     | Inr u \<Rightarrow> validateActiveUser db u))))"

section \<open>The hand-off between origins (invokesso.go)\<close>

datatype sso_response =
    SSOLogin
  | SSORedirect string
  | SSOCookie string string
  | SSONotFound
  | SSOError int

definition hashInvokeValue :: "Crypto \<Rightarrow> string \<Rightarrow> string" where
  "hashInvokeValue c raw = sha256Hex c raw"

definition invokeCallbackPath :: string where
  "invokeCallbackPath = ''/.funcbox/auth/callback''"

definition good_return :: "string \<Rightarrow> bool" where
  "good_return s = (validLocalReturnTo s \<and> \<not> prefix ''/.funcbox/'' s)"

definition handleInvokeStart ::
  "Crypto \<Rightarrow> AuthService \<Rightarrow> DB \<Rightarrow> int \<Rightarrow> bytes \<Rightarrow> Request \<Rightarrow> string \<Rightarrow> string \<Rightarrow> string \<Rightarrow> DB \<times> sso_response" where
  "handleInvokeStart c a db now rnd r name q_host return_to =
     (case AuthenticateSessionCookie c a db now r of
        (db1, Inl _) \<Rightarrow> (db1, SSOLogin)
      | (db1, Inr actor) \<Rightarrow>
          (case functions_ByName db1 name of
             Inl _ \<Rightarrow> (db1, SSONotFound)
           | Inr fn \<Rightarrow>
               (let host = normalizedHost q_host in
                if as_FunctionDomain a = [] \<or> host = Some (as_controlHost a) then
                  (db1, SSORedirect (if good_return return_to then return_to else defaultReturnTo))
                else if host \<noteq> Some (managedFunctionHost a (fn_Name fn)) then (db1, SSOError 400)
                else if \<not> good_return return_to then (db1, SSOError 400)
                else
                  let raw = b64_encode rnd; h = managedFunctionHost a (fn_Name fn) in
                  case invokeAuthCodes_Create db1 (toUnix now)
                         \<lparr>iac_ID = hashInvokeValue c raw, iac_UserID = u_ID (aa_User actor), iac_FunctionID = fn_ID fn,
                          iac_Host = h, iac_ReturnTo = return_to, iac_ExpiresAt = toUnix (now + invokeCodeLifetime),
                          iac_CreatedAt = 0\<rparr> of
                    (db2, Inl _) \<Rightarrow> (db2, SSOError 500)
                  | (db2, Inr _) \<Rightarrow>
                      (db2, SSORedirect ((if prefix ''http://'' (as_BaseURL a) then ''http'' else ''https'') @ ''://'' @ h
                         @ as_controlPort a @ invokeCallbackPath @ ''?code='' @ raw)))))"

definition HandleInvokeCallback ::
  "Crypto \<Rightarrow> AuthService \<Rightarrow> invokeCookieClaims codec \<Rightarrow> DB \<Rightarrow> int \<Rightarrow> Request \<Rightarrow> Function \<Rightarrow> string \<Rightarrow> string \<Rightarrow> DB \<times> sso_response" where
  "HandleInvokeCallback c a j db now r fn host q_code =
     (if rq_Method r \<noteq> ''GET'' then (db, SSOError 405)
      else case normalizedHost host of
        None \<Rightarrow> (db, SSONotFound)
      | Some h \<Rightarrow>
          if q_code = [] then (db, SSOError 400)
          else case invokeAuthCodes_Consume db (hashInvokeValue c q_code, fn_ID fn, h) (toUnix now) of
            (db1, Inl e) \<Rightarrow> (db1, SSOError (if e = ErrNotFound then 400 else 500))
          | (db1, Inr code) \<Rightarrow>
              (db1, SSOCookie (signInvokeCookie c a j \<lparr>icc_UserID = iac_UserID code, icc_FunctionID = fn_ID fn, icc_Host = h,
                       icc_ExpiresAt = toUnix (now + invokeCookieLifetime)\<rparr>)
                  (if validLocalReturnTo (iac_ReturnTo code) then iac_ReturnTo code else ''/'')))"

section \<open>Resolving a caller (idtoken.go)\<close>

record IDToken =
  it_Subject :: string
  it_Audience :: "string list"
  it_Email :: string
  it_EmailVerified :: bool

text \<open>\<open>verify raw\<close> is the provider's verified token; errors of any kind are \<open>None\<close>.\<close>

definition VerifyIDToken :: "AuthService \<Rightarrow> (string \<Rightarrow> IDToken option) \<Rightarrow> string \<Rightarrow> string list \<Rightarrow> IDToken option" where
  "VerifyIDToken a verify rawIDToken extraAudiences =
     (case verify rawIDToken of
        None \<Rightarrow> None
      | Some tok \<Rightarrow>
          if \<not> list_ex (\<lambda>aud. aud \<in> set (as_ClientID a # extraAudiences)) (it_Audience tok) then None
          else if \<not> it_EmailVerified tok then None
          else Some tok)"

definition ResolveInvokeCaller ::
  "Crypto \<Rightarrow> AuthService \<Rightarrow> accessTokenClaims codec \<Rightarrow> invokeCookieClaims codec \<Rightarrow> (string \<Rightarrow> IDToken option)
     \<Rightarrow> DB \<Rightarrow> int \<Rightarrow> Request \<Rightarrow> string list \<Rightarrow> string \<Rightarrow> string \<Rightarrow> auth_error + User" where
  "ResolveInvokeCaller c a ja ji verify db now r extraAudiences functionID host =
     (if rq_Authorization r \<noteq> [] then
        (case cut_prefix ''Bearer '' (rq_Authorization r) of
           None \<Rightarrow> Inl ErrUnauthenticated
         | Some raw \<Rightarrow>
             if raw = [] then Inl ErrUnauthenticated
             else if prefix AccessTokenPrefix raw then
               (case verifyAccessToken c a ja now raw of
                  Inl _ \<Rightarrow> Inl ErrUnauthenticated
                | Inr cl \<Rightarrow> if atc_Aud cl \<noteq> [] then Inl ErrUnauthenticated else loadActiveUserByEmail db (atc_Email cl))
             else
               (case VerifyIDToken a verify raw extraAudiences of
                  None \<Rightarrow> Inl ErrUnauthenticated
                | Some tok \<Rightarrow> loadActiveUserByEmail db (it_Email tok)))
      else if rq_Method r \<noteq> ''GET'' \<and> rq_Method r \<noteq> ''HEAD'' then Inl ErrUnauthenticated
      else if SameOriginInvokeHost a host then resolveInvokeSessionCookie c a db now r
      else ResolveInvokeCookie c a ji db now r functionID host)"

definition ExtraInvokeAudiences :: "DB \<Rightarrow> string list" where
  "ExtraInvokeAudiences db =
     (case org_Get db of
        Inl _ \<Rightarrow> []
      | Inr org \<Rightarrow> (case ParseOrg (org_Settings org) of Inl _ \<Rightarrow> [] | Inr os \<Rightarrow> so_ExtraIDTokenAudiences os))"

section \<open>Redirects stay on the origin\<close>

text \<open>
  How a browser reads a redirect target (the URL standard): leading blanks and control
  characters are dropped, tabs and line breaks are removed, backslashes count as slashes. A
  target leaves the origin unless it then starts with exactly one slash.
\<close>

definition browser_view :: "string \<Rightarrow> string" where
  "browser_view s = map (\<lambda>c. if c = CHR 0x5C then CHR ''/'' else c)
     (filter (\<lambda>c. c \<notin> {CHR 0x09, CHR 0x0A, CHR 0x0D}) (dropWhile (\<lambda>c. of_char c \<le> (32 :: nat)) s))"

definition stays_local :: "string \<Rightarrow> bool" where
  "stays_local s = (prefix ''/'' (browser_view s) \<and> \<not> prefix ''//'' (browser_view s))"

lemma validLocalReturnTo_view:
  assumes "validLocalReturnTo s"
  shows "browser_view s = s \<and> stays_local s \<and> length s \<le> 2048"
proof -
  have s: "prefix ''/'' s" "\<not> prefix ''//'' s" "length s \<le> 2048" "\<not> list_ex is_control s" "CHR 0x5C \<notin> set s"
    using assms by (auto simp: validLocalReturnTo_def maxReturnToLength_def parse_request_uri_ok_def list_ex_iff split: if_splits)
  then obtain r where r: "s = CHR ''/'' # r" by (auto simp: prefix_def)
  have "x \<notin> set s" if "is_control x" for x using s(4) that by (auto simp: list_ex_iff)
  moreover have "is_control (CHR 0x09)" "is_control (CHR 0x0A)" "is_control (CHR 0x0D)" by code_simp+
  ultimately have "CHR 0x09 \<notin> set s" "CHR 0x0A \<notin> set s" "CHR 0x0D \<notin> set s" by blast+
  then have "filter (\<lambda>c. c \<notin> {CHR 0x09, CHR 0x0A, CHR 0x0D}) s = s" by (auto intro!: filter_True)
  moreover have "map (\<lambda>c. if c = CHR 0x5C then CHR ''/'' else c) s = s" using s(5) by (auto intro!: map_idI)
  moreover have "dropWhile (\<lambda>c. of_char c \<le> (32 :: nat)) s = s" by (simp add: r)
  ultimately have "browser_view s = s" by (simp add: browser_view_def)
  then show ?thesis using s by (simp add: stays_local_def)
qed

lemma defaults_local: "stays_local defaultReturnTo" "stays_local ''/''"
  by code_simp+

text \<open>
  No open redirect. A return path that passes the guard is read by a browser exactly
  as written: a path on the same origin of at most 2048 bytes. When the hand-off starts,
  the browser is only ever sent to such a path or to the callback of the function's own
  managed host, with a fresh code; the callback only ever redirects to such a path.
\<close>

lemma redirects_stay_local:
  "(validLocalReturnTo s \<longrightarrow> browser_view s = s \<and> stays_local s \<and> length s \<le> 2048)
   \<and> (snd (handleInvokeStart c a db now rnd r name qh rt) = SSORedirect t \<longrightarrow>
        stays_local t \<or> (\<exists>fn. functions_ByName (fst (AuthenticateSessionCookie c a db now r)) name = Inr fn
          \<and> t = (if prefix ''http://'' (as_BaseURL a) then ''http'' else ''https'') @ ''://'' @ managedFunctionHost a (fn_Name fn)
                @ as_controlPort a @ ''/.funcbox/auth/callback?code='' @ b64_encode rnd))
   \<and> (snd (HandleInvokeCallback c a j db now r fn host code) = SSOCookie v t \<longrightarrow> stays_local t)"
proof (rule conjI [OF _ conjI])
  show "validLocalReturnTo s \<longrightarrow> browser_view s = s \<and> stays_local s \<and> length s \<le> 2048"
    using validLocalReturnTo_view by simp
  have "stays_local t" if "snd (HandleInvokeCallback c a j db now r fn host code) = SSOCookie v t"
    using that validLocalReturnTo_view defaults_local
    by (auto simp: HandleInvokeCallback_def split: if_splits option.splits prod.splits sum.splits)
  then show "snd (HandleInvokeCallback c a j db now r fn host code) = SSOCookie v t \<longrightarrow> stays_local t" by simp
  show "snd (handleInvokeStart c a db now rnd r name qh rt) = SSORedirect t \<longrightarrow>
      stays_local t \<or> (\<exists>fn. functions_ByName (fst (AuthenticateSessionCookie c a db now r)) name = Inr fn
      \<and> t = (if prefix ''http://'' (as_BaseURL a) then ''http'' else ''https'') @ ''://'' @ managedFunctionHost a (fn_Name fn)
            @ as_controlPort a @ ''/.funcbox/auth/callback?code='' @ b64_encode rnd)"
  proof
  assume red: "snd (handleInvokeStart c a db now rnd r name qh rt) = SSORedirect t"
  obtain db1 act where auth: "AuthenticateSessionCookie c a db now r = (db1, Inr act)"
    using red by (auto simp: handleInvokeStart_def split: prod.splits sum.splits)
  obtain fn where fn: "functions_ByName db1 name = Inr fn"
    using red auth by (auto simp: handleInvokeStart_def split: sum.splits)
  show "stays_local t \<or> (\<exists>fn. functions_ByName (fst (AuthenticateSessionCookie c a db now r)) name = Inr fn
      \<and> t = (if prefix ''http://'' (as_BaseURL a) then ''http'' else ''https'') @ ''://'' @ managedFunctionHost a (fn_Name fn)
            @ as_controlPort a @ ''/.funcbox/auth/callback?code='' @ b64_encode rnd)"
  proof (cases "as_FunctionDomain a = [] \<or> normalizedHost qh = Some (as_controlHost a)")
    case True
    then have "t = (if good_return rt then rt else defaultReturnTo)"
      using red by (simp add: handleInvokeStart_def auth fn Let_def)
    then show ?thesis using validLocalReturnTo_view defaults_local by (auto simp: good_return_def)
  next
    case False
    then show ?thesis
      using red auth fn
      by (auto simp: handleInvokeStart_def Let_def invokeCallbackPath_def split: if_splits prod.splits sum.splits)
  qed
  qed
qed

section \<open>The invoke cookie is bound to its function and host\<close>

lemma parse_signed:
  assumes "cd_unmarshal j (cd_marshal j cl) = Some cl"
  shows "parseInvokeCookie c a j now (signInvokeCookie c a j cl) fid h =
    (if icc_FunctionID cl = fid \<and> icc_Host cl = h \<and> toUnix now < icc_ExpiresAt cl then Inr cl else Inl ErrUnauthenticated)"
  using assms by (auto simp: parseInvokeCookie_def signInvokeCookie_def)

text \<open>
  C16. The browser hand-off. A callback sets a cookie only by spending a live code that was
  issued for that very function and host, so the same code never works twice. The
  cookie then identifies the user the code was issued to, for eight hours, on that
  function and host and nowhere else, and on every request only while the account is
  active and admitted by the login rules.
\<close>

theorem invoke_cookie_bound:
  assumes "\<And>cl. cd_unmarshal j (cd_marshal j cl) = Some cl"
    and "HandleInvokeCallback c a j db now r fn host code = (db1, SSOCookie v target)"
    and "Cookie r2 (invokeCookieName a) = Some v" and "now \<le> now'"
  shows "\<exists>k \<in> set (db_invoke_codes db). iac_ID k = hashInvokeValue c code \<and> iac_FunctionID k = fn_ID fn
      \<and> normalizedHost host = Some (iac_Host k) \<and> toUnix now < iac_ExpiresAt k
      \<and> ResolveInvokeCookie c a j db2 t r2 fid host2 =
          (if fid = fn_ID fn \<and> normalizedHost host2 = Some (iac_Host k) \<and> toUnix t < toUnix (now + invokeCookieLifetime)
           then (case users_ByID db2 (iac_UserID k) of Inl _ \<Rightarrow> Inl ErrUnauthenticated | Inr u \<Rightarrow> validateActiveUser db2 u)
           else Inl ErrUnauthenticated)
      \<and> snd (HandleInvokeCallback c a j db1 now' r fn host code) = SSOError 400"
proof -
  obtain h k where h: "normalizedHost host = Some h" and ne: "code \<noteq> []" "rq_Method r = ''GET''"
    and k: "invokeAuthCodes_Consume db (hashInvokeValue c code, fn_ID fn, h) (toUnix now) = (db1, Inr k)"
    and v: "v = signInvokeCookie c a j \<lparr>icc_UserID = iac_UserID k, icc_FunctionID = fn_ID fn, icc_Host = h,
        icc_ExpiresAt = toUnix (now + invokeCookieLifetime)\<rparr>"
    using assms(2) by (auto simp: HandleInvokeCallback_def split: if_splits option.splits prod.splits sum.splits)
  have live: "k \<in> set (db_invoke_codes db)" "iac_ID k = hashInvokeValue c code" "iac_FunctionID k = fn_ID fn" "iac_Host k = h"
    "toUnix now < iac_ExpiresAt k"
    using invoke_codes.consume_live [of db "(hashInvokeValue c code, fn_ID fn, h)" "toUnix now" k] k by (auto simp: invoke_code_live_def)
  have "snd (invokeAuthCodes_Consume db1 (hashInvokeValue c code, fn_ID fn, h) (toUnix now')) = Inl ErrNotFound"
    using invoke_codes.second_fails [of db _ "toUnix now" k "toUnix now'" db1] k toUnix_mono [OF assms(4)] by simp
  then have "snd (HandleInvokeCallback c a j db1 now' r fn host code) = SSOError 400"
    by (cases "invokeAuthCodes_Consume db1 (hashInvokeValue c code, fn_ID fn, h) (toUnix now')") (simp add: HandleInvokeCallback_def h ne)
  moreover have "ResolveInvokeCookie c a j db2 t r2 fid host2 =
      (if fid = fn_ID fn \<and> normalizedHost host2 = Some h \<and> toUnix t < toUnix (now + invokeCookieLifetime)
       then (case users_ByID db2 (iac_UserID k) of Inl _ \<Rightarrow> Inl ErrUnauthenticated | Inr u \<Rightarrow> validateActiveUser db2 u)
       else Inl ErrUnauthenticated)"
    using assms(1,3) by (simp add: ResolveInvokeCookie_def v parse_signed split: option.split)
  ultimately show ?thesis using live h by blast
qed

text \<open>A concrete instance: a user opens function f on its managed host.\<close>

definition cookie_codec :: "invokeCookieClaims codec" where
  "cookie_codec = \<lparr>
     cd_marshal = (\<lambda>cl. concat (map enc_str [icc_UserID cl, icc_FunctionID cl, icc_Host cl, enc_int (icc_ExpiresAt cl)])),
     cd_unmarshal = (\<lambda>b. case dec_fields 4 b of
       Some [u, f, h, x] \<Rightarrow> Some \<lparr>icc_UserID = u, icc_FunctionID = f, icc_Host = h, icc_ExpiresAt = dec_int x\<rparr> | _ \<Rightarrow> None)\<rparr>"

lemma cookie_codec_law: "cd_unmarshal cookie_codec (cd_marshal cookie_codec cl) = Some cl"
  by (simp add: cookie_codec_def numeral_eq_Suc)

definition sso_db :: DB where
  "sso_db = (fst first_example)\<lparr>db_invoke_codes := [\<lparr>iac_ID = hashInvokeValue hash_example ''code'', iac_UserID = ''u1'',
     iac_FunctionID = ''f1'', iac_Host = ''f.fb.example'', iac_ReturnTo = ''/x'', iac_ExpiresAt = 60, iac_CreatedAt = 0\<rparr>]\<rparr>"

definition sso_fn :: Function where
  "sso_fn = \<lparr>fn_ID = ''f1'', fn_OwnerType = OwnerTypeWorkspace, fn_OwnerID = ''w1'', fn_Name = ''f'', fn_Description = [],
     fn_ActiveVersionID = None, fn_CreatedBy = None, fn_CreatedAt = 0, fn_UpdatedAt = 0\<rparr>"

definition get_request :: "(string \<times> string) list \<Rightarrow> Request" where
  "get_request cookies = \<lparr>rq_Method = ''GET'', rq_Authorization = [], rq_Origin = [], rq_CSRFHeader = [], rq_Cookies = cookies\<rparr>"

definition sso_cookie :: string where
  "sso_cookie = signInvokeCookie hash_example svc_example cookie_codec
     \<lparr>icc_UserID = ''u1'', icc_FunctionID = ''f1'', icc_Host = ''f.fb.example'', icc_ExpiresAt = 28800\<rparr>"

lemma sso_callback:
  "\<exists>db1. HandleInvokeCallback hash_example svc_example cookie_codec sso_db 0 (get_request []) sso_fn ''F.fb.example'' ''code''
     = (db1, SSOCookie sso_cookie ''/x'')"
proof -
  have "normalizedHost ''F.fb.example'' = Some ''f.fb.example''" "validLocalReturnTo ''/x''"
    "toUnix (0 + invokeCookieLifetime) = 28800" "toUnix 0 = 0" by code_simp+
  then show ?thesis
    by (simp add: HandleInvokeCallback_def get_request_def invokeAuthCodes_Consume_def invoke_code_live_def sso_db_def sso_fn_def
        lookup_row_def found_def sso_cookie_def)
qed

lemma function_hosts:
  "normalizedHost ''f.fb.example'' = Some ''f.fb.example''" "normalizedHost ''g.fb.example'' = Some ''g.fb.example''"
  by code_simp+

theorem invoke_cookie_bound_witness:
  "ResolveInvokeCookie hash_example svc_example cookie_codec (fst first_example) 0
       (get_request [(invokeCookieName svc_example, sso_cookie)]) ''f1'' ''g.fb.example'' = Inl ErrUnauthenticated"
proof -
  obtain db1 where cb: "HandleInvokeCallback hash_example svc_example cookie_codec sso_db 0 (get_request []) sso_fn ''F.fb.example'' ''code''
     = (db1, SSOCookie sso_cookie ''/x'')" using sso_callback by blast
  have ck: "Cookie (get_request [(invokeCookieName svc_example, sso_cookie)]) (invokeCookieName svc_example) = Some sso_cookie"
    by (simp add: Cookie_def get_request_def)
  have "normalizedHost ''F.fb.example'' = Some ''f.fb.example''" by code_simp
  moreover obtain k :: InvokeAuthCode where "normalizedHost ''F.fb.example'' = Some (iac_Host k)"
    "ResolveInvokeCookie hash_example svc_example cookie_codec (fst first_example) 0
       (get_request [(invokeCookieName svc_example, sso_cookie)]) ''f1'' ''g.fb.example'' =
     (if ''f1'' = fn_ID sso_fn \<and> normalizedHost ''g.fb.example'' = Some (iac_Host k) \<and> toUnix 0 < toUnix (0 + invokeCookieLifetime)
      then (case users_ByID (fst first_example) (iac_UserID k) of Inl _ \<Rightarrow> Inl ErrUnauthenticated | Inr u \<Rightarrow> validateActiveUser (fst first_example) u)
      else Inl ErrUnauthenticated)"
    using invoke_cookie_bound [OF cookie_codec_law cb ck order_refl, of "fst first_example" 0 "''f1''" "''g.fb.example''"]
    by blast
  ultimately show ?thesis by (simp add: function_hosts)
qed

section \<open>Who may be the caller of a function\<close>

lemma loadActiveUserByEmail_Inr:
  assumes "loadActiveUserByEmail db e = Inr u"
  shows "u \<in> set (db_users db) \<and> u_Email u = e \<and> u_Status u = UserStatusActive \<and> checkLoginRules db e"
  using assms lookup_row_Some [of "\<lambda>u. u_Email u = e" "db_users db" u]
  by (auto simp: loadActiveUserByEmail_def users_ByEmail_def validateActiveUser_def found_def split: option.splits if_splits)

lemma validateActiveUser_Inr:
  "validateActiveUser db u = Inr v \<longleftrightarrow> v = u \<and> u_Status u = UserStatusActive \<and> checkLoginRules db (u_Email u)"
  by (auto simp: validateActiveUser_def)

text \<open>
  C17. The caller of a function is proved. A caller is only ever resolved to a stored user
  who is active and passes the current login rules; an Authorization header proves that
  user's address by a live access token without audience or by an identity token with a
  verified address issued for an accepted audience; without one only GET and HEAD are
  considered, and the user is that of a live session (on the control origin) or of an
  invoke cookie for that function and host. Everything else is refused.
\<close>

theorem invoke_caller_sound:
  assumes "ResolveInvokeCaller c a ja ji verify db now r auds fid host = Inr u"
  shows "u \<in> set (db_users db) \<and> u_Status u = UserStatusActive \<and> checkLoginRules db (u_Email u)
    \<and> (if rq_Authorization r \<noteq> [] then
          \<exists>raw. rq_Authorization r = ''Bearer '' @ raw \<and>
            (if prefix ''fbxa_'' raw then \<exists>cl. verifyAccessToken c a ja now raw = Inr cl \<and> atc_Aud cl = [] \<and> atc_Email cl = u_Email u
             else \<exists>tok. verify raw = Some tok \<and> it_Email tok = u_Email u \<and> it_EmailVerified tok
                    \<and> (\<exists>aud \<in> set (it_Audience tok). aud = as_ClientID a \<or> aud \<in> set auds))
        else (rq_Method r = ''GET'' \<or> rq_Method r = ''HEAD'') \<and>
          (if SameOriginInvokeHost a host then
             \<exists>v raw s. Cookie r (sessionCookieName a) = Some v \<and> b64_decode v = Some raw
               \<and> sessions_Get db (sha256Hex c raw) (toUnix now) = Inr s \<and> se_UserID s = u_ID u
           else \<exists>v h cl. Cookie r (invokeCookieName a) = Some v \<and> normalizedHost host = Some h
               \<and> parseInvokeCookie c a ji now v fid h = Inr cl \<and> icc_UserID cl = u_ID u))"
proof (cases "rq_Authorization r = []")
  case True
  then have m: "rq_Method r = ''GET'' \<or> rq_Method r = ''HEAD''"
    and res: "(if SameOriginInvokeHost a host then resolveInvokeSessionCookie c a db now r
               else ResolveInvokeCookie c a ji db now r fid host) = Inr u"
    using assms by (auto simp: ResolveInvokeCaller_def split: if_splits)
  show ?thesis
  proof (cases "SameOriginInvokeHost a host")
    case same: True
    then obtain v raw s w where "Cookie r (sessionCookieName a) = Some v" "b64_decode v = Some raw"
      "sessions_Get db (sha256Hex c raw) (toUnix now) = Inr s" "users_ByID db (se_UserID s) = Inr w" "validateActiveUser db w = Inr u"
      using res by (auto simp: resolveInvokeSessionCookie_def split: option.splits sum.splits)
    with True m same users_ByID_Inr show ?thesis by (auto simp: validateActiveUser_Inr)
  next
    case False
    then obtain v h cl w where "Cookie r (invokeCookieName a) = Some v" "normalizedHost host = Some h"
      "parseInvokeCookie c a ji now v fid h = Inr cl" "users_ByID db (icc_UserID cl) = Inr w" "validateActiveUser db w = Inr u"
      using res by (auto simp: ResolveInvokeCookie_def split: option.splits sum.splits)
    with True m False users_ByID_Inr show ?thesis by (auto simp: validateActiveUser_Inr)
  qed
next
  case False
  then obtain raw where raw: "cut_prefix ''Bearer '' (rq_Authorization r) = Some raw"
    using assms by (auto simp: ResolveInvokeCaller_def split: option.splits)
  then have hdr: "rq_Authorization r = ''Bearer '' @ raw" by (auto simp: cut_prefix_def prefix_def split: if_splits)
  show ?thesis
  proof (cases "prefix ''fbxa_'' raw")
    case True
    then obtain cl where "verifyAccessToken c a ja now raw = Inr cl" "atc_Aud cl = []" "loadActiveUserByEmail db (atc_Email cl) = Inr u"
      using assms False raw by (auto simp: ResolveInvokeCaller_def AccessTokenPrefix_def split: sum.splits if_splits)
    with False True hdr loadActiveUserByEmail_Inr [of db "atc_Email cl" u] show ?thesis by auto
  next
    case other: False
    then obtain tok where "VerifyIDToken a verify raw auds = Some tok" "loadActiveUserByEmail db (it_Email tok) = Inr u"
      using assms False raw by (auto simp: ResolveInvokeCaller_def AccessTokenPrefix_def split: option.splits if_splits)
    with False other hdr loadActiveUserByEmail_Inr [of db "it_Email tok" u] show ?thesis
      by (auto simp: VerifyIDToken_def list_ex_iff split: option.splits if_splits)
  qed
qed

definition id_token_example :: "string \<Rightarrow> IDToken option" where
  "id_token_example raw = (if raw = ''jwt'' then
     Some \<lparr>it_Subject = ''s'', it_Audience = [''cid''], it_Email = ''a@b'', it_EmailVerified = True\<rparr> else None)"

definition jwt_request :: Request where
  "jwt_request = (get_request [])\<lparr>rq_Authorization := ''Bearer jwt''\<rparr>"

theorem invoke_caller_sound_witness:
  "\<exists>u. ResolveInvokeCaller hash_example svc_example codec_example cookie_codec id_token_example (fst first_example) 0
      jwt_request [] ''f1'' ''h'' = Inr u \<and> u_Email u = ''a@b''"
proof -
  have "is_ok (ResolveInvokeCaller hash_example svc_example codec_example cookie_codec id_token_example (fst first_example) 0
      jwt_request [] ''f1'' ''h'')" by code_simp
  then obtain u where u: "ResolveInvokeCaller hash_example svc_example codec_example cookie_codec id_token_example (fst first_example) 0
      jwt_request [] ''f1'' ''h'' = Inr u" by (auto simp: is_ok_def split: sum.splits)
  have "rq_Authorization jwt_request = ''Bearer '' @ ''jwt''" by code_simp
  then have "u_Email u = ''a@b''" using invoke_caller_sound [OF u] by (auto simp: id_token_example_def)
  with u show ?thesis by blast
qed

end
