(* ===== verification/InvokeLog.thy ===== *)
theory InvokeLog
  imports StoreTypes
begin

text \<open>
  Package invoke, what is kept and sent of one invocation: the capture of guest output
  and fetch decisions per goroutine (logcapture.go) and the response writer that turns a
  timeout into a 504 and guards the reserved headers (responsewriter.go).
\<close>

section \<open>Captured output (logcapture.go)\<close>

definition maxCapturedOutputBytes :: nat where
  "maxCapturedOutputBytes = 32 * 1024"

definition maxCapturedFetchDecisions :: nat where
  "maxCapturedFetchDecisions = 200"

text \<open>The buffer is its contents; a write returns the new buffer and the count reported to the writer.\<close>

definition boundedBuffer_Write :: "bytes \<Rightarrow> bytes \<Rightarrow> bytes \<times> nat" where
  "boundedBuffer_Write buf p =
     (if length buf \<ge> maxCapturedOutputBytes then (buf, length p)
      else
        let remaining = maxCapturedOutputBytes - length buf;
            p = (if length p > remaining then take remaining p else p) in
        (buf @ p, length p))"

record capture =
  cap_stdout :: bytes
  cap_stderr :: bytes
  cap_fetchDecisions :: "FetchDecision list"

definition empty_capture :: capture where
  "empty_capture = \<lparr>cap_stdout = [], cap_stderr = [], cap_fetchDecisions = []\<rparr>"

definition recordFetch :: "capture \<Rightarrow> FetchDecision \<Rightarrow> capture" where
  "recordFetch c d =
     (if length (cap_fetchDecisions c) \<ge> maxCapturedFetchDecisions then c
      else c\<lparr>cap_fetchDecisions := cap_fetchDecisions c @ [d]\<rparr>)"

text \<open>The tracker: goroutine identifiers to the capture of the invocation they run.\<close>

type_synonym invocationTracker = "nat \<Rightarrow> capture option"

definition newInvocationTracker :: invocationTracker where
  "newInvocationTracker = (\<lambda>_. None)"

definition tracker_begin :: "invocationTracker \<Rightarrow> nat \<Rightarrow> invocationTracker" where
  "tracker_begin t gid = t(gid \<mapsto> empty_capture)"

definition tracker_end :: "invocationTracker \<Rightarrow> nat \<Rightarrow> invocationTracker" where
  "tracker_end t gid = t(gid := None)"

definition tracker_current :: "invocationTracker \<Rightarrow> nat \<Rightarrow> capture option" where
  "tracker_current t gid = t gid"

definition stdoutWriter_Write :: "invocationTracker \<Rightarrow> nat \<Rightarrow> bytes \<Rightarrow> invocationTracker \<times> nat" where
  "stdoutWriter_Write t gid p =
     (case tracker_current t gid of
        None \<Rightarrow> (t, length p)
      | Some c \<Rightarrow> (case boundedBuffer_Write (cap_stdout c) p of (b, n) \<Rightarrow> (t(gid \<mapsto> c\<lparr>cap_stdout := b\<rparr>), n)))"

definition stderrWriter_Write :: "invocationTracker \<Rightarrow> nat \<Rightarrow> bytes \<Rightarrow> invocationTracker \<times> nat" where
  "stderrWriter_Write t gid p =
     (case tracker_current t gid of
        None \<Rightarrow> (t, length p)
      | Some c \<Rightarrow> (case boundedBuffer_Write (cap_stderr c) p of (b, n) \<Rightarrow> (t(gid \<mapsto> c\<lparr>cap_stderr := b\<rparr>), n)))"

definition tracker_record :: "invocationTracker \<Rightarrow> nat \<Rightarrow> FetchDecision \<Rightarrow> invocationTracker" where
  "tracker_record t gid d =
     (case tracker_current t gid of None \<Rightarrow> t | Some c \<Rightarrow> t(gid \<mapsto> recordFetch c d))"

section \<open>Isolation and bounds of the captures\<close>

text \<open>
  What happens on the shared pool, as a sequence of events of the goroutines: the request
  handlers begin and end invocations, and the guests they run write and fetch.
\<close>

datatype log_event =
    LogBegin nat
  | LogEnd nat
  | LogStdout nat bytes
  | LogStderr nat bytes
  | LogFetch nat FetchDecision

fun event_gid :: "log_event \<Rightarrow> nat" where
  "event_gid (LogBegin g) = g"
| "event_gid (LogEnd g) = g"
| "event_gid (LogStdout g p) = g"
| "event_gid (LogStderr g p) = g"
| "event_gid (LogFetch g d) = g"

fun log_exec :: "log_event \<Rightarrow> invocationTracker \<Rightarrow> invocationTracker" where
  "log_exec (LogBegin g) t = tracker_begin t g"
| "log_exec (LogEnd g) t = tracker_end t g"
| "log_exec (LogStdout g p) t = fst (stdoutWriter_Write t g p)"
| "log_exec (LogStderr g p) t = fst (stderrWriter_Write t g p)"
| "log_exec (LogFetch g d) t = tracker_record t g d"

definition log_run :: "log_event list \<Rightarrow> invocationTracker \<Rightarrow> invocationTracker" where
  "log_run evs t = fold log_exec evs t"

fun guest_event :: "log_event \<Rightarrow> bool" where
  "guest_event (LogBegin g) = False"
| "guest_event (LogEnd g) = False"
| "guest_event _ = True"

fun out_of :: "log_event \<Rightarrow> bytes" where
  "out_of (LogStdout g p) = p"
| "out_of _ = []"

fun err_of :: "log_event \<Rightarrow> bytes" where
  "err_of (LogStderr g p) = p"
| "err_of _ = []"

fun fetches_of :: "log_event \<Rightarrow> FetchDecision list" where
  "fetches_of (LogFetch g d) = [d]"
| "fetches_of _ = []"

lemma boundedBuffer_take [simp]:
  "fst (boundedBuffer_Write (take maxCapturedOutputBytes xs) p)
     = take maxCapturedOutputBytes xs @ take (maxCapturedOutputBytes - length xs) p"
  by (auto simp: boundedBuffer_Write_def Let_def min_def)

definition capped :: "bytes \<Rightarrow> bytes \<Rightarrow> FetchDecision list \<Rightarrow> capture" where
  "capped out err ds = \<lparr>cap_stdout = take maxCapturedOutputBytes out, cap_stderr = take maxCapturedOutputBytes err,
     cap_fetchDecisions = take maxCapturedFetchDecisions ds\<rparr>"

lemma exec_other: "event_gid e \<noteq> g \<Longrightarrow> log_exec e t g = t g"
  by (cases e) (auto simp: tracker_begin_def tracker_end_def stdoutWriter_Write_def stderrWriter_Write_def tracker_record_def
      tracker_current_def split: option.split prod.split)

lemma exec_own:
  assumes "t (event_gid e) = Some (capped out err ds)" "guest_event e"
  shows "log_exec e t (event_gid e) = Some (capped (out @ out_of e) (err @ err_of e) (ds @ fetches_of e))"
  using assms
  by (cases e) (auto simp: capped_def stdoutWriter_Write_def stderrWriter_Write_def tracker_record_def tracker_current_def
      recordFetch_def min_def case_prod_beta)

lemma run_own:
  assumes "t g = Some (capped out err ds)" "\<forall>e \<in> set evs. event_gid e = g \<longrightarrow> guest_event e"
  shows "log_run evs t g = Some (capped (out @ concat (map out_of (filter (\<lambda>e. event_gid e = g) evs)))
    (err @ concat (map err_of (filter (\<lambda>e. event_gid e = g) evs))) (ds @ concat (map fetches_of (filter (\<lambda>e. event_gid e = g) evs))))"
  using assms
proof (induction evs arbitrary: t out err ds)
  case Nil
  then show ?case by (simp add: log_run_def)
next
  case (Cons e evs)
  then show ?case
    using exec_own [of t e out err ds] exec_other [of e g t] Cons.IH [of "log_exec e t"] by (auto simp: log_run_def)
qed

text \<open>
  C32. Captures do not mix and do not grow without bound. Whatever the other goroutines on
  the shared pool do in the meantime, the capture of an invocation holds exactly the
  output and fetch decisions of its own goroutine since it began, in order, cut after
  32 KiB per stream and 200 decisions.
\<close>

theorem capture_isolated:
  assumes "\<forall>e \<in> set evs. event_gid e = g \<longrightarrow> guest_event e"
  shows "let mine = filter (\<lambda>e. event_gid e = g) evs in
    log_run (LogBegin g # evs) t g = Some \<lparr>cap_stdout = take (32 * 1024) (concat (map out_of mine)),
       cap_stderr = take (32 * 1024) (concat (map err_of mine)), cap_fetchDecisions = take 200 (concat (map fetches_of mine))\<rparr>"
proof -
  have "tracker_begin t g g = Some (capped [] [] [])" by (simp add: tracker_begin_def empty_capture_def capped_def)
  from run_own [of "tracker_begin t g" g, OF this assms] show ?thesis
    by (simp add: log_run_def capped_def Let_def maxCapturedOutputBytes_def maxCapturedFetchDecisions_def)
qed

theorem capture_isolated_witness:
  "log_run [LogBegin 1, LogStdout 1 ''a'', LogStdout 2 ''x'', LogBegin 2, LogStdout 1 ''b''] newInvocationTracker 1
     = Some \<lparr>cap_stdout = ''ab'', cap_stderr = [], cap_fetchDecisions = []\<rparr>"
  using capture_isolated [of "[LogStdout 1 ''a'', LogStdout 2 ''x'', LogBegin 2, LogStdout 1 ''b'']" 1 newInvocationTracker]
  by simp

text \<open>
  A write that crosses the cap reports fewer bytes than it was given, and no error, which
  the contract of \<^verbatim>\<open>io.Writer\<close> does not allow.
\<close>

lemma short_write: "length buf < maxCapturedOutputBytes \<Longrightarrow> maxCapturedOutputBytes < length buf + length p
   \<Longrightarrow> snd (boundedBuffer_Write buf p) < length p"
  by (auto simp: boundedBuffer_Write_def Let_def)

section \<open>The response writer (responsewriter.go)\<close>

definition sniffLimit :: nat where
  "sniffLimit = 64"

text \<open>
  The wrapped writer: the header map, and what was committed with the first call of
  \<^verbatim>\<open>WriteHeader\<close> (informational status codes are not modelled).
\<close>

type_synonym header = "(string \<times> string list) list"

definition header_Del :: "string \<Rightarrow> header \<Rightarrow> header" where
  "header_Del k h = filter (\<lambda>e. fst e \<noteq> k) h"

definition header_Set :: "string \<Rightarrow> string \<Rightarrow> header \<Rightarrow> header" where
  "header_Set k v h = header_Del k h @ [(k, [v])]"

definition header_Get :: "string \<Rightarrow> header \<Rightarrow> string" where
  "header_Get k h = (case map_of h k of Some (v # _) \<Rightarrow> v | _ \<Rightarrow> [])"

definition strip_reserved :: "header \<Rightarrow> header" where
  "strip_reserved h = filter (\<lambda>e. \<not> prefix ''X-Funcbox-'' (fst e)) h"

record client_response =
  cr_header :: header
  cr_committed :: "(int \<times> header) option"
  cr_body :: bytes

definition client_WriteHeader :: "client_response \<Rightarrow> int \<Rightarrow> client_response" where
  "client_WriteHeader w code = (case cr_committed w of None \<Rightarrow> w\<lparr>cr_committed := Some (code, cr_header w)\<rparr> | Some _ \<Rightarrow> w)"

definition client_Write :: "client_response \<Rightarrow> bytes \<Rightarrow> client_response" where
  "client_Write w b = (let w1 = client_WriteHeader w 200 in w1\<lparr>cr_body := cr_body w1 @ b\<rparr>)"

record invokeResponseWriter =
  iw_client :: client_response
  iw_wroteHeader :: bool
  iw_swapped :: bool
  iw_status :: int
  iw_sniff :: bytes

definition timeout_body :: bytes where
  "timeout_body = ''{\"error\":{\"code\":\"timeout\",\"message\":\"function invocation timed out\"}}''"

text \<open>\<open>expired\<close> is whether the request's context has an error at the time of the call.\<close>

definition iw_WriteHeader :: "invokeResponseWriter \<Rightarrow> bool \<Rightarrow> int \<Rightarrow> invokeResponseWriter" where
  "iw_WriteHeader w expired code =
     (if iw_wroteHeader w then w
      else
        let w1 = w\<lparr>iw_wroteHeader := True, iw_status := code\<rparr>;
            c1 = (iw_client w)\<lparr>cr_header := strip_reserved (cr_header (iw_client w))\<rparr> in
        if code = 500 \<and> expired then
          w1\<lparr>iw_swapped := True,
             iw_client := client_Write (client_WriteHeader
               (c1\<lparr>cr_header := header_Set ''Content-Type'' ''application/json; charset=utf-8'' (cr_header c1)\<rparr>) 504) timeout_body\<rparr>
        else w1\<lparr>iw_client := client_WriteHeader c1 code\<rparr>)"

definition iw_Write :: "invokeResponseWriter \<Rightarrow> bool \<Rightarrow> bytes \<Rightarrow> invokeResponseWriter" where
  "iw_Write w expired b =
     (let w1 = (if \<not> iw_wroteHeader w then iw_WriteHeader w expired 200 else w);
          w2 = (if length (iw_sniff w1) < sniffLimit
                then w1\<lparr>iw_sniff := iw_sniff w1 @ take (min (sniffLimit - length (iw_sniff w1)) (length b)) b\<rparr> else w1) in
      if iw_swapped w2 then w2 else w2\<lparr>iw_client := client_Write (iw_client w2) b\<rparr>)"

definition isLikelyOOM :: "invokeResponseWriter \<Rightarrow> bool" where
  "isLikelyOOM w = (iw_status w = 500 \<and> str_contains (iw_sniff w) ''out of memory'')"

definition finalStatus :: "invokeResponseWriter \<Rightarrow> int" where
  "finalStatus w = (if iw_swapped w then 504 else if iw_status w = 0 then 200 else iw_status w)"

section \<open>What the client receives\<close>

text \<open>What the handler of one invocation does with the writer: set a header, write a status, write bytes.\<close>

datatype rw_event = RWSet string string | RWHeader bool int | RWWrite bool bytes

fun rw_exec :: "rw_event \<Rightarrow> invokeResponseWriter \<Rightarrow> invokeResponseWriter" where
  "rw_exec (RWSet k v) w = w\<lparr>iw_client := (iw_client w)\<lparr>cr_header := header_Set k v (cr_header (iw_client w))\<rparr>\<rparr>"
| "rw_exec (RWHeader expired code) w = iw_WriteHeader w expired code"
| "rw_exec (RWWrite expired b) w = iw_Write w expired b"

definition rw_run :: "rw_event list \<Rightarrow> invokeResponseWriter \<Rightarrow> invokeResponseWriter" where
  "rw_run evs w = fold rw_exec evs w"

definition new_writer :: "header \<Rightarrow> invokeResponseWriter" where
  "new_writer h = \<lparr>iw_client = \<lparr>cr_header = h, cr_committed = None, cr_body = []\<rparr>, iw_wroteHeader = False, iw_swapped = False,
     iw_status = 0, iw_sniff = []\<rparr>"

fun first_status :: "rw_event list \<Rightarrow> (bool \<times> int) option" where
  "first_status [] = None"
| "first_status (RWSet k v # evs) = first_status evs"
| "first_status (RWHeader expired code # evs) = Some (expired, code)"
| "first_status (RWWrite expired b # evs) = Some (expired, 200)"

fun written :: "rw_event \<Rightarrow> bytes" where
  "written (RWWrite expired b) = b"
| "written _ = []"

lemma committed_step:
  assumes "iw_wroteHeader w" "cr_committed (iw_client w) = Some x" "iw_sniff w = take sniffLimit s"
  shows "iw_wroteHeader (rw_exec e w) \<and> cr_committed (iw_client (rw_exec e w)) = Some x \<and> iw_status (rw_exec e w) = iw_status w
    \<and> iw_swapped (rw_exec e w) = iw_swapped w \<and> iw_sniff (rw_exec e w) = take sniffLimit (s @ written e)
    \<and> cr_body (iw_client (rw_exec e w)) = cr_body (iw_client w) @ (if iw_swapped w then [] else written e)"
  using assms
  by (cases e) (auto simp: iw_WriteHeader_def iw_Write_def client_Write_def client_WriteHeader_def Let_def min_def)

lemma committed_run:
  assumes "iw_wroteHeader w" "cr_committed (iw_client w) = Some x" "iw_sniff w = take sniffLimit s"
  shows "cr_committed (iw_client (rw_run evs w)) = Some x \<and> iw_status (rw_run evs w) = iw_status w
    \<and> iw_swapped (rw_run evs w) = iw_swapped w \<and> iw_sniff (rw_run evs w) = take sniffLimit (s @ concat (map written evs))
    \<and> cr_body (iw_client (rw_run evs w)) = cr_body (iw_client w) @ (if iw_swapped w then [] else concat (map written evs))"
  using assms
proof (induction evs arbitrary: w s)
  case Nil
  then show ?case by (simp add: rw_run_def)
next
  case (Cons e evs)
  have "rw_run (e # evs) w = rw_run evs (rw_exec e w)" by (simp add: rw_run_def)
  then show ?case using Cons.IH [of "rw_exec e w" "s @ written e"] committed_step [OF Cons.prems, of e] by simp
qed

text \<open>The status line that is sent, and the response that follows from it.\<close>

definition sent_status :: "bool \<times> int \<Rightarrow> int" where
  "sent_status f = (if snd f = 500 \<and> fst f then 504 else snd f)"

definition clean :: "header \<Rightarrow> bool" where
  "clean h = list_all (\<lambda>e. \<not> prefix ''X-Funcbox-'' (fst e)) h"

lemma strip_reserved_clean: "clean (strip_reserved h)"
  by (simp add: clean_def strip_reserved_def list_all_iff)

lemma header_Set_clean: "clean h \<Longrightarrow> clean (header_Set ''Content-Type'' v h)"
  by (auto simp: clean_def header_Set_def header_Del_def list_all_iff)

lemma first_commit:
  assumes "\<not> iw_wroteHeader w" "\<not> iw_swapped w" "cr_committed (iw_client w) = None" "cr_body (iw_client w) = []" "iw_sniff w = []"
  shows "\<exists>h. clean h \<and> iw_wroteHeader (iw_WriteHeader w ex code) \<and> iw_status (iw_WriteHeader w ex code) = code
    \<and> iw_swapped (iw_WriteHeader w ex code) = (code = 500 \<and> ex)
    \<and> cr_committed (iw_client (iw_WriteHeader w ex code)) = Some (sent_status (ex, code), h)
    \<and> cr_body (iw_client (iw_WriteHeader w ex code)) = (if code = 500 \<and> ex then timeout_body else [])
    \<and> iw_sniff (iw_WriteHeader w ex code) = []"
  using assms strip_reserved_clean [of "cr_header (iw_client w)"] header_Set_clean
  by (auto simp: iw_WriteHeader_def client_Write_def client_WriteHeader_def sent_status_def Let_def)

lemma Write_as_header: "\<not> iw_wroteHeader w \<Longrightarrow> iw_Write w ex b = iw_Write (iw_WriteHeader w ex 200) ex b"
  by (simp add: iw_Write_def iw_WriteHeader_def Let_def)

lemma run_from_start:
  assumes "\<not> iw_wroteHeader w" "\<not> iw_swapped w" "cr_committed (iw_client w) = None" "cr_body (iw_client w) = []" "iw_sniff w = []" "iw_status w = 0"
  shows "case first_status evs of
      None \<Rightarrow> cr_committed (iw_client (rw_run evs w)) = None \<and> iw_status (rw_run evs w) = 0 \<and> \<not> iw_swapped (rw_run evs w)
        \<and> iw_sniff (rw_run evs w) = []
    | Some (ex, code) \<Rightarrow> (\<exists>h. clean h \<and> cr_committed (iw_client (rw_run evs w)) = Some (sent_status (ex, code), h))
        \<and> iw_status (rw_run evs w) = code \<and> iw_swapped (rw_run evs w) = (code = 500 \<and> ex)
        \<and> iw_sniff (rw_run evs w) = take sniffLimit (concat (map written evs))
        \<and> cr_body (iw_client (rw_run evs w)) = (if code = 500 \<and> ex then timeout_body else concat (map written evs))"
  using assms
proof (induction evs arbitrary: w)
  case Nil
  then show ?case by (simp add: rw_run_def)
next
  case (Cons e evs)
  show ?case
  proof (cases e)
    case (RWSet k v)
    then have "rw_run (e # evs) w = rw_run evs (rw_exec e w)" "first_status (e # evs) = first_status evs"
      "concat (map written (e # evs)) = concat (map written evs)" by (simp_all add: rw_run_def)
    then show ?thesis using Cons.IH [of "rw_exec e w"] Cons.prems RWSet by (simp only:) simp
  next
    case (RWHeader ex code)
    obtain h where h: "clean h" "iw_wroteHeader (rw_exec e w)" "iw_status (rw_exec e w) = code" "iw_swapped (rw_exec e w) = (code = 500 \<and> ex)"
      "cr_committed (iw_client (rw_exec e w)) = Some (sent_status (ex, code), h)"
      "cr_body (iw_client (rw_exec e w)) = (if code = 500 \<and> ex then timeout_body else [])" "iw_sniff (rw_exec e w) = take sniffLimit []"
      using first_commit [OF Cons.prems(1-5), of ex code] RWHeader by auto
    from committed_run [OF h(2,5,7), of evs] h RWHeader show ?thesis by (auto simp: rw_run_def)
  next
    case (RWWrite ex b)
    let ?w1 = "iw_WriteHeader w ex 200"
    obtain h where h: "clean h" "iw_wroteHeader ?w1" "iw_status ?w1 = 200" "iw_swapped ?w1 = False"
      "cr_committed (iw_client ?w1) = Some (200, h)" "cr_body (iw_client ?w1) = []" "iw_sniff ?w1 = take sniffLimit []"
      using first_commit [OF Cons.prems(1-5), of ex 200] by (auto simp: sent_status_def)
    have "rw_run (e # evs) w = rw_run (e # evs) ?w1"
      using Write_as_header [OF Cons.prems(1)] RWWrite by (simp add: rw_run_def)
    with committed_run [OF h(2,5,7), of "e # evs"] h RWWrite show ?thesis by (auto simp: sent_status_def)
  qed
qed

text \<open>
  The response to the client. The first status written decides: a 500 written after the
  invocation's deadline becomes a 504 whose body is the timeout message and nothing
  else; any other status and the bytes that follow reach the client unchanged. No
  reserved header is ever sent. The status reported in the log is the status sent, and an
  out-of-memory abort is recognised within the first 64 bytes of a 500.
\<close>

lemma response_sent:
  assumes "first_status evs = Some (expired, code)" and "code \<noteq> 0"
  shows "\<exists>h. cr_committed (iw_client (rw_run evs (new_writer h0))) = Some (finalStatus (rw_run evs (new_writer h0)), h)
      \<and> clean h
      \<and> finalStatus (rw_run evs (new_writer h0)) = (if code = 500 \<and> expired then 504 else code)
      \<and> cr_body (iw_client (rw_run evs (new_writer h0))) = (if code = 500 \<and> expired then timeout_body else concat (map written evs))
      \<and> (isLikelyOOM (rw_run evs (new_writer h0)) \<longleftrightarrow> code = 500 \<and> str_contains (take 64 (concat (map written evs))) ''out of memory'')"
  using run_from_start [of "new_writer h0" evs] assms
  by (auto simp: new_writer_def finalStatus_def isLikelyOOM_def sent_status_def sniffLimit_def)

end
