(* ===== verification/Invoke.thy ===== *)
theory Invoke
  imports InvokePolicy InvokeSSO InvokeLog
begin

text \<open>
  Package invoke, the request path (server/internal/invoke/invoke.go, limits.go and the
  environment of pool.go): from an owner and a name to a function, its active version, the
  authorization of the caller, the headers and the deadline handed to the guest, and the
  record kept of the invocation. What the JavaScript engine does with a dispatched request
  is a list of calls on the response writer and the log.
\<close>

section \<open>Limits (limits.go)\<close>

definition DefaultMaxRequestBody :: int where
  "DefaultMaxRequestBody = 16 * 2 ^ 20"

definition maxRequestBytes :: "string \<Rightarrow> int" where
  "maxRequestBytes v =
     (if v = [] then DefaultMaxRequestBody
      else case atoi v of
        None \<Rightarrow> DefaultMaxRequestBody
      | Some n \<Rightarrow> if n \<le> 0 then DefaultMaxRequestBody else n)"

section \<open>Requests and answers\<close>

definition DefaultTimeout :: int where
  "DefaultTimeout = 30 * 10 ^ 9"

record Invoker =
  inv_Auth :: "AuthService option"
  inv_Timeout :: int
  inv_MaxRequestBytes :: string

text \<open>Header names are in canonical form, as \<^verbatim>\<open>net/http\<close> stores them.\<close>

record InvokeRequest =
  ir_req :: Request
  ir_Host :: string
  ir_RequestURI :: string
  ir_Path :: string
  ir_ContentLength :: int
  ir_Header :: header

datatype denial =
    DenyError int string
  | DenyPage
  | DenyLogin string
  | DenySSO string string string

record guest_call =
  gc_version :: FunctionVersion
  gc_manifest :: Normalized
  gc_timeout :: int
  gc_header :: header

section \<open>Authorization (invoke.go)\<close>

definition wantsHTMLRedirect :: "InvokeRequest \<Rightarrow> bool" where
  "wantsHTMLRedirect r =
     (if rq_Method (ir_req r) \<noteq> ''GET'' \<and> rq_Method (ir_req r) \<noteq> ''HEAD'' then False
      else str_contains (header_Get ''Accept'' (ir_Header r)) ''text/html'')"

definition isWorkspaceMember :: "DB \<Rightarrow> Function \<Rightarrow> string \<Rightarrow> bool" where
  "isWorkspaceMember db fn userID =
     (if fn_OwnerType fn \<noteq> OwnerTypeWorkspace then userID = fn_OwnerID fn
      else checkWorkspaceMembership db (fn_OwnerID fn) userID)"

definition callerIdentityExposed :: "DB \<Rightarrow> bool" where
  "callerIdentityExposed db =
     (case org_Get db of
        Inl _ \<Rightarrow> False
      | Inr org \<Rightarrow>
          (case ParseOrg (org_Settings org) of
             Inl _ \<Rightarrow> False
           | Inr orgSet \<Rightarrow> \<not> so_OpenMode orgSet \<or> so_ExposeCallerIdentity orgSet))"

definition authorize ::
  "Crypto \<Rightarrow> accessTokenClaims codec \<Rightarrow> invokeCookieClaims codec \<Rightarrow> (string \<Rightarrow> IDToken option)
     \<Rightarrow> Invoker \<Rightarrow> DB \<Rightarrow> int \<Rightarrow> InvokeRequest \<Rightarrow> Function \<Rightarrow> string \<Rightarrow> denial + string \<times> bool" where
  "authorize c ja ji verify iv db now r fn manifestVisibility =
     (case resolveVisibility db (fn_OwnerType fn) (fn_OwnerID fn) manifestVisibility of
        None \<Rightarrow> Inl (DenyError 500 ''internal'')
      | Some effVis \<Rightarrow>
          if effVis = VisibilityPublic then Inr ([], False)
          else case inv_Auth iv of
            None \<Rightarrow> Inl (DenyError 403 ''forbidden'')
          | Some a \<Rightarrow>
              (case ResolveInvokeCaller c a ja ji verify db now (ir_req r) (ExtraInvokeAudiences db) (fn_ID fn) (ir_Host r) of
                 Inl e \<Rightarrow>
                   if e = ErrInvokeForbidden then
                     Inl (if wantsHTMLRedirect r then DenyPage else DenyError 403 ''forbidden'')
                   else if e = ErrUnauthenticated then
                     Inl (if wantsHTMLRedirect r then
                            (if SameOriginInvokeHost a (ir_Host r) then DenyLogin (ir_RequestURI r)
                             else DenySSO (fn_Name fn) (ir_Host r) (ir_RequestURI r))
                          else DenyError 401 ''unauthorized'')
                   else Inl (DenyError 500 ''internal'')
               | Inr caller \<Rightarrow>
                   if effVis = VisibilityWorkspace \<and> \<not> isWorkspaceMember db fn (u_ID caller) then
                     Inl (if wantsHTMLRedirect r then DenyPage else DenyError 403 ''forbidden'')
                   else Inr (u_Email caller, callerIdentityExposed db)))"

section \<open>Serving (invoke.go)\<close>

definition stripFuncboxHeaders :: "header \<Rightarrow> header" where
  "stripFuncboxHeaders h = filter (\<lambda>e. \<not> prefix ''X-Funcbox-'' (fst e)) h"

definition guest_header :: "header \<Rightarrow> string \<Rightarrow> bool \<Rightarrow> header" where
  "guest_header h callerEmail exposeCaller =
     (let h1 = stripFuncboxHeaders (header_Del ''Authorization'' (header_Del ''Cookie'' h)) in
      if callerEmail \<noteq> [] \<and> exposeCaller then header_Set ''X-Funcbox-Caller-Email'' callerEmail h1 else h1)"

definition invoke_timeout :: "(string \<Rightarrow> int option) \<Rightarrow> Invoker \<Rightarrow> Normalized \<Rightarrow> int" where
  "invoke_timeout parse_duration iv nm =
     (let timeout = (if inv_Timeout iv \<le> 0 then DefaultTimeout else inv_Timeout iv) in
      if n_Timeout nm \<noteq> [] then
        (case parse_duration (n_Timeout nm) of
           None \<Rightarrow> timeout
         | Some d \<Rightarrow> if d > 0 \<and> d < timeout then d else timeout)
      else timeout)"

definition serveFunction ::
  "Crypto \<Rightarrow> accessTokenClaims codec \<Rightarrow> invokeCookieClaims codec \<Rightarrow> (string \<Rightarrow> IDToken option)
     \<Rightarrow> (string \<Rightarrow> int option) \<Rightarrow> Invoker \<Rightarrow> DB \<Rightarrow> int \<Rightarrow> InvokeRequest \<Rightarrow> Function \<Rightarrow> denial + guest_call" where
  "serveFunction c ja ji verify parse_duration iv db now r fn =
     (if ir_ContentLength r > maxRequestBytes (inv_MaxRequestBytes iv) then Inl (DenyError 413 ''payload_too_large'')
      else case fn_ActiveVersionID fn of
        None \<Rightarrow> Inl (DenyError 404 ''not_found'')
      | Some vid \<Rightarrow>
          (case functions_Version db vid of
             Inl _ \<Rightarrow> Inl (DenyError 500 ''internal'')
           | Inr v \<Rightarrow>
               (case fv_Manifest v of
                  None \<Rightarrow> Inl (DenyError 500 ''internal'')
                | Some nm \<Rightarrow>
                    (case authorize c ja ji verify iv db now r fn (n_Visibility nm) of
                       Inl d \<Rightarrow> Inl d
                     | Inr (callerEmail, exposeCaller) \<Rightarrow>
                         Inr \<lparr>gc_version = v, gc_manifest = nm, gc_timeout = invoke_timeout parse_duration iv nm,
                              gc_header = guest_header (ir_Header r) callerEmail exposeCaller\<rparr>))))"

definition resolveOwner :: "DB \<Rightarrow> string \<Rightarrow> store_error + OwnerType \<times> string" where
  "resolveOwner db selector =
     (case handles_ByUserID db selector of
        Inr h \<Rightarrow> Inr (OwnerTypeUser, pu_InternalUserID h)
      | Inl e \<Rightarrow>
          if e \<noteq> ErrNotFound then Inl e
          else case workspaces_ByID db selector of
            Inl e \<Rightarrow> Inl e
          | Inr ws \<Rightarrow> Inr (OwnerTypeWorkspace, ws_ID ws))"

definition Serve ::
  "Crypto \<Rightarrow> accessTokenClaims codec \<Rightarrow> invokeCookieClaims codec \<Rightarrow> (string \<Rightarrow> IDToken option)
     \<Rightarrow> (string \<Rightarrow> int option) \<Rightarrow> Invoker \<Rightarrow> DB \<Rightarrow> int \<Rightarrow> InvokeRequest \<Rightarrow> string \<Rightarrow> string \<Rightarrow> denial + guest_call" where
  "Serve c ja ji verify parse_duration iv db now r owner name =
     (case resolveOwner db owner of
        Inl e \<Rightarrow> Inl (if e = ErrNotFound then DenyError 404 ''not_found'' else DenyError 500 ''internal'')
      | Inr (ownerType, ownerID) \<Rightarrow>
          (case functions_ByOwnerAndName db ownerType ownerID name of
             Inl e \<Rightarrow> Inl (if e = ErrNotFound then DenyError 404 ''not_found'' else DenyError 500 ''internal'')
           | Inr fn \<Rightarrow> serveFunction c ja ji verify parse_duration iv db now r fn))"

definition ServeByName ::
  "Crypto \<Rightarrow> accessTokenClaims codec \<Rightarrow> invokeCookieClaims codec \<Rightarrow> (string \<Rightarrow> IDToken option)
     \<Rightarrow> (string \<Rightarrow> int option) \<Rightarrow> Invoker \<Rightarrow> DB \<Rightarrow> int \<Rightarrow> InvokeRequest \<Rightarrow> string \<Rightarrow> denial + guest_call" where
  "ServeByName c ja ji verify parse_duration iv db now r name =
     (case functions_ByName db name of
        Inl e \<Rightarrow> Inl (if e = ErrNotFound then DenyError 404 ''not_found'' else DenyError 500 ''internal'')
      | Inr fn \<Rightarrow> serveFunction c ja ji verify parse_duration iv db now r fn)"

definition ServeBrowserAuthCallback ::
  "Crypto \<Rightarrow> invokeCookieClaims codec \<Rightarrow> Invoker \<Rightarrow> DB \<Rightarrow> int \<Rightarrow> Request \<Rightarrow> string \<Rightarrow> string \<Rightarrow> string \<Rightarrow> DB \<times> sso_response" where
  "ServeBrowserAuthCallback c ji iv db now r name host q_code =
     (case inv_Auth iv of
        None \<Rightarrow> (db, SSONotFound)
      | Some a \<Rightarrow>
          (case functions_ByName db name of
             Inl _ \<Rightarrow> (db, SSONotFound)
           | Inr fn \<Rightarrow> HandleInvokeCallback c a ji db now r fn host q_code))"

text \<open>
  After the guest has run: the pool is dropped when it ran out of memory, and the
  invocation is logged.
\<close>

definition appendInvocationLog ::
  "DB \<Rightarrow> int \<Rightarrow> string \<Rightarrow> string \<Rightarrow> string \<Rightarrow> string \<Rightarrow> string \<Rightarrow> int \<Rightarrow> int \<Rightarrow> capture \<Rightarrow> DB" where
  "appendInvocationLog db now fresh functionID versionID method path status duration capt =
     fst (invocationLogs_Append db (toUnix now) fresh
       \<lparr>il_ID = [], il_FunctionID = functionID, il_VersionID = versionID, il_Method = method, il_Path = path, il_Status = status,
        il_DurationMS = duration div 10 ^ 6, il_Stdout = cap_stdout capt, il_Stderr = cap_stderr capt,
        il_FetchDecisions = cap_fetchDecisions capt, il_CreatedAt = 0\<rparr>)"

definition finish_invocation ::
  "'p Manager \<Rightarrow> DB \<Rightarrow> int \<Rightarrow> string \<Rightarrow> Function \<Rightarrow> FunctionVersion \<Rightarrow> InvokeRequest \<Rightarrow> invokeResponseWriter \<Rightarrow> int \<Rightarrow> capture \<Rightarrow> 'p Manager \<times> DB" where
  "finish_invocation m db now fresh fn v r iw duration capt =
     (if isLikelyOOM iw then Invalidate m (fv_ID v) else m,
      appendInvocationLog db now fresh (fn_ID fn) (fv_ID v) (rq_Method (ir_req r)) (ir_Path r) (finalStatus iw) duration capt)"

section \<open>Only admissible callers reach a guest\<close>

text \<open>The ceilings on a function's visibility that the settings put in force.\<close>

definition visibility_ceilings :: "DB \<Rightarrow> OwnerType \<Rightarrow> string \<Rightarrow> Visibility set" where
  "visibility_ceilings db ot oid =
     {m. \<exists>org s. org_Get db = Inr org \<and> ParseOrg (org_Settings org) = Inr s \<and> ParseVisibility (so_MaxVisibility s) = Inr m}
     \<union> {m. \<exists>ws s. ot = OwnerTypeWorkspace \<and> workspaces_ByID db oid = Inr ws \<and> ParseWorkspace (ws_Settings ws) = Inr s
          \<and> sw_MaxVisibility s \<noteq> [] \<and> ParseVisibility (sw_MaxVisibility s) = Inr m}"

lemma resolveVisibility_le:
  assumes "resolveVisibility db ot oid mv = Some vis" "m \<in> visibility_ceilings db ot oid"
  shows "vis \<le> m"
  using assms
  by (auto simp: resolveVisibility_def visibility_ceilings_def Let_def split: sum.splits if_splits intro!: MinVisibility_le)

lemma resolveVisibility_declared:
  assumes "resolveVisibility db ot oid mv = Some vis" "ParseVisibility mv = Inr d" "mv \<noteq> []"
  shows "vis \<le> d"
  using assms by (auto simp: resolveVisibility_def Let_def split: sum.splits if_splits intro!: MinVisibility_le)

text \<open>Whom a function with an effective visibility may be called by.\<close>

definition audience :: "DB \<Rightarrow> Function \<Rightarrow> Visibility \<Rightarrow> User \<Rightarrow> bool" where
  "audience db fn vis u =
     (vis = VisibilityWorkspace \<longrightarrow>
        (if fn_OwnerType fn = OwnerTypeWorkspace
         then \<exists>m \<in> set (db_members db). wm_WorkspaceID m = fn_OwnerID fn \<and> wm_UserID m = u_ID u
         else u_ID u = fn_OwnerID fn))"

lemma isWorkspaceMember_audience: "isWorkspaceMember db fn (u_ID u) = audience db fn VisibilityWorkspace u"
  by (auto simp: isWorkspaceMember_def audience_def checkWorkspaceMembership_def workspaces_ListMembers_def list_ex_iff)

lemma authorize_Inr:
  assumes "authorize c ja ji vf iv db now r fn mv = Inr (email, expose)"
  obtains vis where "resolveVisibility db (fn_OwnerType fn) (fn_OwnerID fn) mv = Some vis"
    "vis = VisibilityPublic \<and> email = [] \<and> \<not> expose \<or>
     (\<exists>a u. inv_Auth iv = Some a \<and> email = u_Email u \<and> expose = callerIdentityExposed db \<and> audience db fn vis u
        \<and> ResolveInvokeCaller c a ja ji vf db now (ir_req r) (ExtraInvokeAudiences db) (fn_ID fn) (ir_Host r) = Inr u)"
proof -
  obtain vis where vis: "resolveVisibility db (fn_OwnerType fn) (fn_OwnerID fn) mv = Some vis"
    using assms by (auto simp: authorize_def split: option.splits)
  show thesis
  proof (cases "vis = VisibilityPublic")
    case True
    then show ?thesis using that [OF vis] assms vis by (simp add: authorize_def)
  next
    case False
    then obtain a u where "inv_Auth iv = Some a" "email = u_Email u" "expose = callerIdentityExposed db"
      "ResolveInvokeCaller c a ja ji vf db now (ir_req r) (ExtraInvokeAudiences db) (fn_ID fn) (ir_Host r) = Inr u"
      "vis = VisibilityWorkspace \<longrightarrow> isWorkspaceMember db fn (u_ID u)"
      using assms vis by (auto simp: authorize_def split: option.splits sum.splits if_splits)
    then show ?thesis using that [OF vis] isWorkspaceMember_audience [of db fn u] by (auto simp: audience_def)
  qed
qed

lemma guest_header_keys:
  assumes "(k, vs) \<in> set (guest_header h email expose)"
  shows "k \<noteq> ''Cookie'' \<and> k \<noteq> ''Authorization''
    \<and> (prefix ''X-Funcbox-'' k \<longrightarrow> k = ''X-Funcbox-Caller-Email'' \<and> vs = [email] \<and> expose \<and> email \<noteq> [])"
  using assms
  by (auto simp: guest_header_def stripFuncboxHeaders_def header_Del_def header_Set_def Let_def split: if_splits)

lemma timeout_bounds:
  "0 < invoke_timeout pd iv nm \<and> invoke_timeout pd iv nm \<le> (if inv_Timeout iv \<le> 0 then DefaultTimeout else inv_Timeout iv)"
  by (auto simp: invoke_timeout_def DefaultTimeout_def Let_def split: option.split)

text \<open>
  C4. Only admissible callers reach a guest, and no credential does. When a request is
  dispatched, it goes to the function's active version; the effective visibility is within
  every ceiling of the organization and the workspace; unless it is public, the caller
  was resolved by the auth service and belongs to the function's audience. The guest sees
  no cookie and no Authorization header, and the only reserved header it may see is
  the address of that caller, when the organization exposes it. The guest always runs under
  a positive deadline not longer than the configured one.
\<close>

theorem guest_reached_by_audience:
  assumes "serveFunction c ja ji vf pd iv db now r fn = Inr g"
  shows "\<exists>vid vis email expose. fn_ActiveVersionID fn = Some vid \<and> functions_Version db vid = Inr (gc_version g)
    \<and> fv_Manifest (gc_version g) = Some (gc_manifest g)
    \<and> resolveVisibility db (fn_OwnerType fn) (fn_OwnerID fn) (n_Visibility (gc_manifest g)) = Some vis
    \<and> (\<forall>m \<in> visibility_ceilings db (fn_OwnerType fn) (fn_OwnerID fn). vis \<le> m)
    \<and> (vis = VisibilityPublic \<and> email = [] \<and> \<not> expose
       \<or> (\<exists>a u. inv_Auth iv = Some a \<and> email = u_Email u \<and> audience db fn vis u
            \<and> ResolveInvokeCaller c a ja ji vf db now (ir_req r) (ExtraInvokeAudiences db) (fn_ID fn) (ir_Host r) = Inr u))
    \<and> (\<forall>(k, vs) \<in> set (gc_header g). k \<noteq> ''Cookie'' \<and> k \<noteq> ''Authorization''
         \<and> (prefix ''X-Funcbox-'' k \<longrightarrow> k = ''X-Funcbox-Caller-Email'' \<and> vs = [email] \<and> callerIdentityExposed db))
    \<and> 0 < gc_timeout g \<and> gc_timeout g \<le> (if inv_Timeout iv \<le> 0 then DefaultTimeout else inv_Timeout iv)
    \<and> ir_ContentLength r \<le> maxRequestBytes (inv_MaxRequestBytes iv)"
proof -
  obtain vid v nm email expose where v: "fn_ActiveVersionID fn = Some vid" "functions_Version db vid = Inr v" "fv_Manifest v = Some nm"
    and au: "authorize c ja ji vf iv db now r fn (n_Visibility nm) = Inr (email, expose)"
    and g: "g = \<lparr>gc_version = v, gc_manifest = nm, gc_timeout = invoke_timeout pd iv nm, gc_header = guest_header (ir_Header r) email expose\<rparr>"
    and len: "ir_ContentLength r \<le> maxRequestBytes (inv_MaxRequestBytes iv)"
    using assms by (auto simp: serveFunction_def split: if_splits option.splits sum.splits)
  obtain vis where vis: "resolveVisibility db (fn_OwnerType fn) (fn_OwnerID fn) (n_Visibility nm) = Some vis"
    and who: "vis = VisibilityPublic \<and> email = [] \<and> \<not> expose \<or>
     (\<exists>a u. inv_Auth iv = Some a \<and> email = u_Email u \<and> expose = callerIdentityExposed db \<and> audience db fn vis u
        \<and> ResolveInvokeCaller c a ja ji vf db now (ir_req r) (ExtraInvokeAudiences db) (fn_ID fn) (ir_Host r) = Inr u)"
    using authorize_Inr [OF au] by metis
  have hdr: "k \<noteq> ''Cookie'' \<and> k \<noteq> ''Authorization''
      \<and> (prefix ''X-Funcbox-'' k \<longrightarrow> k = ''X-Funcbox-Caller-Email'' \<and> vs = [email] \<and> callerIdentityExposed db)"
    if "(k, vs) \<in> set (gc_header g)" for k vs
    using guest_header_keys [of k vs "ir_Header r" email expose] that who by (auto simp: g)
  show ?thesis
    using v vis who hdr len timeout_bounds [of pd iv nm] resolveVisibility_le [OF vis]
    by (intro exI [of _ vid] exI [of _ vis] exI [of _ email] exI [of _ expose]) (auto simp: g)
qed

text \<open>A concrete call: the owner calls a function of workspace visibility with an identity token.\<close>

definition call_manifest :: Normalized where
  "call_manifest = \<lparr>n_Source = [], n_Name = ''f'', n_Owner = [], n_Main = ''index.js'', n_Description = [], n_Timeout = [], n_Memory = 0,
     n_Nodejs = False, n_Fetch = fetch_manifest, n_Env = [], n_Visibility = ''workspace''\<rparr>"

definition call_fn :: Function where
  "call_fn = sso_fn\<lparr>fn_OwnerType := OwnerTypeUser, fn_OwnerID := ''u1'', fn_ActiveVersionID := Some ''v1''\<rparr>"

definition call_db :: DB where
  "call_db = (fst first_example)\<lparr>db_versions := [version_example\<lparr>fv_Manifest := Some call_manifest\<rparr>]\<rparr>"

definition call_invoker :: Invoker where
  "call_invoker = \<lparr>inv_Auth = Some svc_example, inv_Timeout = 0, inv_MaxRequestBytes = []\<rparr>"

definition call_request :: InvokeRequest where
  "call_request = \<lparr>ir_req = jwt_request, ir_Host = ''fb.example'', ir_RequestURI = ''/'', ir_Path = ''/'', ir_ContentLength = 0,
     ir_Header = [(''Authorization'', [''Bearer jwt'']), (''Cookie'', [''a=b'']), (''X-Funcbox-Caller-Email'', [''evil@x'']), (''Accept'', [''*/*''])]\<rparr>"

theorem guest_reached_by_audience_witness:
  "\<exists>g. serveFunction hash_example codec_example cookie_codec id_token_example (\<lambda>_. None) call_invoker call_db 0 call_request call_fn = Inr g
     \<and> (\<forall>(k, vs) \<in> set (gc_header g). k \<noteq> ''Authorization'') \<and> gc_timeout g \<le> 30 * 10 ^ 9"
proof -
  let ?s = "serveFunction hash_example codec_example cookie_codec id_token_example (\<lambda>_. None) call_invoker call_db 0 call_request call_fn"
  have "is_ok ?s" by code_simp
  then obtain g where g: "?s = Inr g" by (auto simp: is_ok_def split: sum.splits)
  have "(\<forall>(k, vs) \<in> set (gc_header g). k \<noteq> ''Authorization'') \<and> gc_timeout g \<le> 30 * 10 ^ 9"
    using guest_reached_by_audience [OF g] by (auto simp: call_invoker_def DefaultTimeout_def)
  with g show ?thesis by blast
qed

end
