(* ===== verification/Functions.thy ===== *)
theory Functions
  imports Service Invoke
begin

text \<open>
  The rest of package service (server/internal/service/functions.go), the encryption of
  environment values at rest (server/internal/crypto/crypto.go) and the construction of a
  warm pool from a stored version (server/internal/invoke/pool.go). AES-GCM and HKDF are
  parameters: a seal, its partial inverse, and a key stream. The JavaScript engine a pool
  is built from is represented by the configuration it is given.
\<close>

section \<open>Encryption at rest (crypto.go)\<close>

definition KeySize :: nat where
  "KeySize = 32"

datatype crypto_error = ErrEmptySecret | ErrBadKey | ErrCiphertextTooShort | ErrDecrypt

record AEAD =
  gcm_Seal :: "bytes \<Rightarrow> bytes \<Rightarrow> bytes \<Rightarrow> bytes"
  gcm_Open :: "bytes \<Rightarrow> bytes \<Rightarrow> bytes \<Rightarrow> bytes option"

definition gcm_NonceSize :: nat where
  "gcm_NonceSize = 12"

text \<open>\<open>hkdf secret info\<close> is the key stream, of which the first \<open>KeySize\<close> bytes are read.\<close>

definition DeriveKey :: "(bytes \<Rightarrow> bytes \<Rightarrow> nat \<Rightarrow> bytes) \<Rightarrow> string \<Rightarrow> string \<Rightarrow> crypto_error + bytes" where
  "DeriveKey hkdf secret info = (if secret = [] then Inl ErrEmptySecret else Inr (hkdf secret info KeySize))"

text \<open>\<^verbatim>\<open>aes.NewCipher\<close> accepts keys of 16, 24 or 32 bytes.\<close>

definition newGCM :: "bytes \<Rightarrow> crypto_error + unit" where
  "newGCM key = (if length key \<in> {16, 24, 32} then Inr () else Inl ErrBadKey)"

definition Encrypt :: "AEAD \<Rightarrow> bytes \<Rightarrow> bytes \<Rightarrow> bytes \<Rightarrow> crypto_error + bytes" where
  "Encrypt g nonce key plaintext =
     (case newGCM key of Inl e \<Rightarrow> Inl e | Inr _ \<Rightarrow> Inr (nonce @ gcm_Seal g key nonce plaintext))"

definition Decrypt :: "AEAD \<Rightarrow> bytes \<Rightarrow> bytes \<Rightarrow> crypto_error + bytes" where
  "Decrypt g key data =
     (case newGCM key of
        Inl e \<Rightarrow> Inl e
      | Inr _ \<Rightarrow>
          if length data < gcm_NonceSize then Inl ErrCiphertextTooShort
          else case gcm_Open g key (take gcm_NonceSize data) (drop gcm_NonceSize data) of
            None \<Rightarrow> Inl ErrDecrypt
          | Some plaintext \<Rightarrow> Inr plaintext)"

section \<open>Function management (functions.go)\<close>

definition ResolveOwner :: "DB \<Rightarrow> string \<Rightarrow> service_error + OwnerType \<times> string" where
  "ResolveOwner db owner =
     (case handles_ByUserID db owner of
        Inr h \<Rightarrow> Inr (OwnerTypeUser, pu_InternalUserID h)
      | Inl e \<Rightarrow>
          if e \<noteq> ErrNotFound then Inl Internal
          else case workspaces_ByID db owner of
            Inr ws \<Rightarrow> Inr (OwnerTypeWorkspace, ws_ID ws)
          | Inl e' \<Rightarrow> if e' \<noteq> ErrNotFound then Inl Internal else Inl NotFoundErr)"

definition Resolve :: "DB \<Rightarrow> string \<Rightarrow> string \<Rightarrow> service_error + Function" where
  "Resolve db owner name =
     (case ResolveOwner db owner of
        Inl e \<Rightarrow> Inl e
      | Inr (ownerType, ownerID) \<Rightarrow>
          (case functions_ByOwnerAndName db ownerType ownerID name of
             Inl e \<Rightarrow> Inl (if e = ErrNotFound then NotFoundErr else Internal)
           | Inr fn \<Rightarrow> Inr fn))"

definition OwnerSelector :: "DB \<Rightarrow> Function \<Rightarrow> service_error + string" where
  "OwnerSelector db fn =
     (if fn_OwnerType fn = OwnerTypeWorkspace then
        (case workspaces_ByID db (fn_OwnerID fn) of
           Inl e \<Rightarrow> Inl (if e = ErrNotFound then NotFoundErr else Internal)
         | Inr _ \<Rightarrow> Inr (fn_OwnerID fn))
      else
        (case handles_ByOwner db (fn_OwnerID fn) of
           Inl e \<Rightarrow> Inl (if e = ErrNotFound then NotFoundErr else Internal)
         | Inr h \<Rightarrow> Inr (pu_UserID h)))"

definition ListFunctions :: "DB \<Rightarrow> string \<Rightarrow> Function list" where
  "ListFunctions db userID = functions_ListVisibleTo db userID"

definition ListAllFunctions :: "DB \<Rightarrow> Function list" where
  "ListAllFunctions db = functions_ListAll db"

definition CanView :: "DB \<Rightarrow> User \<Rightarrow> OwnerType \<Rightarrow> string \<Rightarrow> bool" where
  "CanView db actor ownerType ownerID =
     (if IsOrgAdmin \<lparr>a_UserID = u_ID actor, a_Role = u_Role actor\<rparr> then True
      else if ownerType = OwnerTypeUser then u_ID actor = ownerID
      else workspaceRole db ownerID (u_ID actor) \<noteq> None)"

definition ListByOwner :: "DB \<Rightarrow> string \<Rightarrow> service_error + Function list" where
  "ListByOwner db owner =
     (case ResolveOwner db owner of
        Inl e \<Rightarrow> Inl (if e = NotFoundErr then NotFoundErr else Internal)
      | Inr (ownerType, ownerID) \<Rightarrow> Inr (functions_ListByOwner db ownerType ownerID))"

definition ActiveVersion :: "DB \<Rightarrow> Function \<Rightarrow> service_error + FunctionVersion" where
  "ActiveVersion db fn =
     (case fn_ActiveVersionID fn of
        None \<Rightarrow> Inl NotFoundErr
      | Some vid \<Rightarrow>
          (case functions_Version db vid of
             Inl e \<Rightarrow> Inl (if e = ErrNotFound then NotFoundErr else Internal)
           | Inr v \<Rightarrow> Inr v))"

definition Activate ::
  "unix \<Rightarrow> ('b, 'p) service_state \<Rightarrow> Function \<Rightarrow> string \<Rightarrow> ('b, 'p) service_state \<times> (service_error + Function)" where
  "Activate now st fn versionID =
     (case ActivateVersion (sv_db st) now (fn_ID fn) versionID of
        (db', Inl e) \<Rightarrow> (st\<lparr>sv_db := db'\<rparr>, Inl (if e = ErrNotFound then NotFoundErr else Internal))
      | (db', Inr _) \<Rightarrow>
          (st\<lparr>sv_db := db',
              sv_runtime := (if fn_ActiveVersionID fn = Some versionID then sv_runtime st
                             else invalidate_old (sv_runtime st) (fn_ActiveVersionID fn))\<rparr>,
           Inr (fn\<lparr>fn_ActiveVersionID := Some versionID\<rparr>)))"

definition DeleteFunction ::
  "unix \<Rightarrow> ('b, 'p) service_state \<Rightarrow> Function \<Rightarrow> ('b, 'p) service_state \<times> (service_error + unit)" where
  "DeleteFunction now st fn =
     (let st1 = st\<lparr>sv_runtime := invalidate_old (sv_runtime st) (fn_ActiveVersionID fn)\<rparr> in
      case functions_Delete (sv_db st1) now (fn_ID fn) of
        (db', Inl _) \<Rightarrow> (st1\<lparr>sv_db := db'\<rparr>, Inl Internal)
      | (db', Inr _) \<Rightarrow> (st1\<lparr>sv_db := db'\<rparr>, Inr ()))"

definition CanManage :: "DB \<Rightarrow> User \<Rightarrow> Function \<Rightarrow> service_error + unit" where
  "CanManage db actor fn =
     (let a = \<lparr>a_UserID = u_ID actor, a_Role = u_Role actor\<rparr> in
      if fn_OwnerType fn = OwnerTypeWorkspace then
        (case workspaces_ByID db (fn_OwnerID fn) of
           Inl e \<Rightarrow> Inl (if e = ErrNotFound then NotFoundErr else Internal)
         | Inr ws \<Rightarrow>
             (case ParseWorkspace (ws_Settings ws) of
                Inl _ \<Rightarrow> Inl Internal
              | Inr wsSet \<Rightarrow>
                  if \<not> CanManageFunction a (fn_OwnerType fn) [] (workspaceRole db (fn_OwnerID fn) (u_ID actor))
                       (sw_MemberCanDeploy wsSet) then Inl Forbidden
                  else Inr ()))
      else if \<not> CanManageFunction a (fn_OwnerType fn) (fn_OwnerID fn) None False then Inl Forbidden
      else Inr ())"

definition SetEnv ::
  "AEAD \<Rightarrow> bytes \<Rightarrow> bytes \<Rightarrow> DB \<Rightarrow> unix \<Rightarrow> User \<Rightarrow> Function \<Rightarrow> string \<Rightarrow> string \<Rightarrow> DB \<times> (service_error + unit)" where
  "SetEnv g nonce envKey db now actor fn key val =
     (case CanManage db actor fn of
        Inl e \<Rightarrow> (db, Inl e)
      | Inr _ \<Rightarrow>
          if envKey = [] then (db, Inl Internal)
          else case Encrypt g nonce envKey val of
            Inl _ \<Rightarrow> (db, Inl Internal)
          | Inr ciphertext \<Rightarrow>
              (case functions_SetEnv db now (fn_ID fn) key ciphertext of
                 (db', Inl _) \<Rightarrow> (db', Inl Internal)
               | (db', Inr _) \<Rightarrow> (db', Inr ())))"

definition DeleteEnv :: "DB \<Rightarrow> User \<Rightarrow> Function \<Rightarrow> string \<Rightarrow> DB \<times> (service_error + unit)" where
  "DeleteEnv db actor fn key =
     (case CanManage db actor fn of
        Inl e \<Rightarrow> (db, Inl e)
      | Inr _ \<Rightarrow>
          (case functions_DeleteEnv db (fn_ID fn) key of
             (db', Inl _) \<Rightarrow> (db', Inl Internal)
           | (db', Inr _) \<Rightarrow> (db', Inr ())))"

definition ListEnvKeys :: "DB \<Rightarrow> Function \<Rightarrow> string list" where
  "ListEnvKeys db fn = map fst (functions_ListEnv db (fn_ID fn))"

section \<open>Building a pool (invoke/pool.go)\<close>

definition DefaultPoolSize :: nat where
  "DefaultPoolSize = 2"

definition orgAllowsNodejsCompat :: "DB \<Rightarrow> bool" where
  "orgAllowsNodejsCompat db =
     (case org_Get db of
        Inl _ \<Rightarrow> False
      | Inr org \<Rightarrow> (case ParseOrg (org_Settings org) of Inl _ \<Rightarrow> False | Inr orgSet \<Rightarrow> so_AllowNodejsCompat orgSet))"

datatype pool_error =
    PoolBadManifest | PoolNoBundle blob_error | PoolUnpack bundle_error | PoolFetchPolicy policy_error
  | PoolNoEnvKey | PoolDecrypt crypto_error

fun buildEnv_loop ::
  "AEAD \<Rightarrow> bytes \<Rightarrow> (string \<times> bytes) list \<Rightarrow> string list \<Rightarrow> (string \<Rightarrow> string option) \<Rightarrow> pool_error + (string \<Rightarrow> string option)" where
  "buildEnv_loop g envKey values [] env = Inr env"
| "buildEnv_loop g envKey values (key # declared) env =
     (case map_of values key of
        None \<Rightarrow> buildEnv_loop g envKey values declared env
      | Some ciphertext \<Rightarrow>
          (case Decrypt g envKey ciphertext of
             Inl e \<Rightarrow> Inl (PoolDecrypt e)
           | Inr plaintext \<Rightarrow> buildEnv_loop g envKey values declared (env(key \<mapsto> plaintext))))"

definition buildEnv :: "AEAD \<Rightarrow> DB \<Rightarrow> string \<Rightarrow> string list \<Rightarrow> bytes \<Rightarrow> pool_error + (string \<Rightarrow> string option)" where
  "buildEnv g db functionID declared envKey =
     (if declared = [] then Inr (\<lambda>_. None)
      else if envKey = [] then Inl PoolNoEnvKey
      else buildEnv_loop g envKey (functions_ListEnv db functionID) declared (\<lambda>_. None))"

record pool_config =
  pc_Size :: nat
  pc_Entry :: string
  pc_Files :: files
  pc_Env :: "string \<Rightarrow> string option"
  pc_NodeCompat :: bool
  pc_MaxRequestBody :: int
  pc_MaxMemoryBytes :: "int option"
  pc_Fetch :: fetchPolicyAdapter

definition buildPool ::
  "AEAD \<Rightarrow> ('b \<Rightarrow> string \<Rightarrow> blob_error + archive) \<Rightarrow> 'b \<Rightarrow> DB \<Rightarrow> FunctionVersion \<Rightarrow> OwnerType \<Rightarrow> string \<Rightarrow> bytes \<Rightarrow> string
     \<Rightarrow> pool_error + pool_config" where
  "buildPool g blob_Get blobs db v ownerType ownerID envKey maxRequestEnv =
     (case fv_Manifest v of
        None \<Rightarrow> Inl PoolBadManifest
      | Some nm \<Rightarrow>
          (case blob_Get blobs (BundleBlobKey (fv_BundleHash v)) of
             Inl e \<Rightarrow> Inl (PoolNoBundle e)
           | Inr rc \<Rightarrow>
               (case Unpack rc of
                  Inl e \<Rightarrow> Inl (PoolUnpack e)
                | Inr fs \<Rightarrow>
                    (case buildFetchPolicy (n_Fetch nm) ownerType ownerID (fv_ID v) of
                       Inl e \<Rightarrow> Inl (PoolFetchPolicy e)
                     | Inr fp \<Rightarrow>
                         (case buildEnv g db (fv_FunctionID v) (n_Env nm) envKey of
                            Inl e \<Rightarrow> Inl e
                          | Inr env \<Rightarrow>
                              Inr \<lparr>pc_Size = DefaultPoolSize, pc_Entry = fv_MainPath v, pc_Files = fs, pc_Env = env,
                                   pc_NodeCompat = (n_Nodejs nm \<and> orgAllowsNodejsCompat db),
                                   pc_MaxRequestBody = maxRequestBytes maxRequestEnv,
                                   pc_MaxMemoryBytes = (if n_Memory nm > 0 then Some (n_Memory nm) else None),
                                   pc_Fetch = fp\<rparr>)))))"

section \<open>What was deployed is what runs\<close>

lemma buildFetchPolicy_Normalized:
  "manifest_wf m \<Longrightarrow> buildFetchPolicy (n_Fetch (Manifest_Normalized d m)) ot oid vid =
     Inr (newFetchPolicyAdapter ot oid vid (FetchPermission_FetchPolicy (m_Fetch m)) (fperm_Allow (m_Fetch m)))"
  by (auto simp: buildFetchPolicy_def Manifest_Normalized_def manifest_wf_def patternStrings_parse
      FetchPermission_FetchPolicy_def)

lemma Normalized_fields [simp]:
  "n_Env (Manifest_Normalized d m) = m_Env m" "n_Nodejs (Manifest_Normalized d m) = m_Nodejs m"
  by (simp_all add: Manifest_Normalized_def)

lemma buildEnv_errors: "buildEnv g db i declared k = Inl e \<Longrightarrow> declared \<noteq> [] \<and> (e = PoolNoEnvKey \<or> (\<exists>ce. e = PoolDecrypt ce))"
proof -
  have "buildEnv_loop g k vs declared env = Inl e \<Longrightarrow> \<exists>ce. e = PoolDecrypt ce" for vs env
    by (induction declared arbitrary: env) (auto split: option.splits sum.splits)
  then show "buildEnv g db i declared k = Inl e \<Longrightarrow> ?thesis" by (auto simp: buildEnv_def split: if_splits)
qed


definition no_aead :: AEAD where
  "no_aead = \<lparr>gcm_Seal = (\<lambda>k n p. p), gcm_Open = (\<lambda>k n c. Some c)\<rparr>"


section \<open>Environment values\<close>

text \<open>What authenticated encryption provides: opening what was sealed gives the plaintext back.\<close>

definition aead_ok :: "AEAD \<Rightarrow> bool" where
  "aead_ok g = (\<forall>k n p. gcm_Open g k n (gcm_Seal g k n p) = Some p)"

lemma Decrypt_Encrypt:
  "aead_ok g \<Longrightarrow> length nonce = gcm_NonceSize \<Longrightarrow> Encrypt g nonce key p = Inr ct \<Longrightarrow> Decrypt g key ct = Inr p"
  by (auto simp: Encrypt_def Decrypt_def aead_ok_def split: sum.splits)

lemma buildEnv_loop_iff:
  "buildEnv_loop g k vs declared env = Inr env' \<longleftrightarrow>
     (\<forall>key \<in> set declared. \<forall>ct. map_of vs key = Some ct \<longrightarrow> is_ok (Decrypt g k ct))
     \<and> env' = (\<lambda>key. if key \<in> set declared then (case map_of vs key of None \<Rightarrow> env key | Some ct \<Rightarrow> Some (projr (Decrypt g k ct))) else env key)"
proof (induction declared arbitrary: env)
  case Nil
  then show ?case by auto
next
  case (Cons key declared)
  show ?case
  proof (cases "map_of vs key")
    case None
    then have "(\<lambda>x. if x \<in> set declared then (case map_of vs x of None \<Rightarrow> env x | Some ct \<Rightarrow> Some (projr (Decrypt g k ct))) else env x)
      = (\<lambda>x. if x \<in> set (key # declared) then (case map_of vs x of None \<Rightarrow> env x | Some ct \<Rightarrow> Some (projr (Decrypt g k ct))) else env x)"
      by (intro ext) auto
    with None Cons.IH [of env] show ?thesis by simp
  next
    case (Some ct)
    show ?thesis
    proof (cases "Decrypt g k ct")
      case (Inl e)
      with Some show ?thesis by auto
    next
      case (Inr p)
      let ?F = "\<lambda>ds env key. if key \<in> set ds then (case map_of vs key of None \<Rightarrow> env key
          | Some ct \<Rightarrow> Some (projr (Decrypt g k ct))) else env key"
      have "?F declared (env(key \<mapsto> p)) = ?F (key # declared) env"
        by (rule ext) (auto simp: Some Inr split: option.splits)
      moreover have "buildEnv_loop g k vs (key # declared) env = buildEnv_loop g k vs declared (env(key \<mapsto> p))"
        by (simp add: Some Inr)
      ultimately show ?thesis using Some Inr Cons.IH [of "env(key \<mapsto> p)"] by (simp del: fun_upd_apply)
    qed
  qed
qed

lemma SetEnv_map:
  assumes "functions_SetEnv db now i key ct = (db', Inr ())"
  shows "map_of (functions_ListEnv db' j) = (if j = i then (map_of (functions_ListEnv db j))(key \<mapsto> ct) else map_of (functions_ListEnv db j))"
    and "db'\<lparr>db_env := db_env db\<rparr> = db"
proof -
  let ?p = "\<lambda>e. ev_FunctionID e = i \<and> ev_Key e = key"
  let ?l = "\<lambda>rows. map (\<lambda>e. (ev_Key e, ev_ValueEnc e)) (filter (\<lambda>e. ev_FunctionID e = j) rows)"
  let ?u = "update_rows ?p (\<lambda>e. e\<lparr>ev_ValueEnc := ct, ev_UpdatedAt := now\<rparr>)"
  have u1: "j \<noteq> i \<Longrightarrow> ?l (?u rows) = ?l rows" for rows :: "EnvVar list"
    by (induction rows) (auto simp: update_rows_def)
  have u2: "x \<noteq> key \<Longrightarrow> map_of (?l (?u rows)) x = map_of (?l rows) x" for rows :: "EnvVar list" and x
    by (induction rows) (auto simp: update_rows_Cons update_rows_def [of _ _ "[]"])
  have u3: "j = i \<Longrightarrow> list_ex ?p rows \<Longrightarrow> map_of (?l (?u rows)) key = Some ct" for rows :: "EnvVar list"
    by (induction rows) (auto simp: update_rows_Cons)
  have none: "map_of (?l rows) x = None" if "\<not> list_ex ?p rows" "j = i" "x = key" for rows :: "EnvVar list" and x
    using that by (induction rows) auto
  show "map_of (functions_ListEnv db' j) = (if j = i then (map_of (functions_ListEnv db j))(key \<mapsto> ct) else map_of (functions_ListEnv db j))"
  proof (cases "list_ex ?p (db_env db)")
    case True
    then have "db' = db\<lparr>db_env := update_rows ?p (\<lambda>e. e\<lparr>ev_ValueEnc := ct, ev_UpdatedAt := now\<rparr>) (db_env db)\<rparr>"
      using assms by (simp add: functions_SetEnv_def)
    with True show ?thesis using u1 [of "db_env db"] u2 [of _ "db_env db"] u3 [of "db_env db"]
      by (intro ext) (auto simp: functions_ListEnv_def)
  next
    case False
    then have "db' = db\<lparr>db_env := db_env db @ [\<lparr>ev_FunctionID = i, ev_Key = key, ev_ValueEnc = ct,
        ev_CreatedAt = now, ev_UpdatedAt = now\<rparr>]\<rparr>"
      using assms by (simp add: functions_SetEnv_def split: if_splits)
    with none [OF False] show ?thesis by (intro ext) (auto simp: functions_ListEnv_def map_add_def split: option.splits)
  qed
  show "db'\<lparr>db_env := db_env db\<rparr> = db" using assms by (auto simp: functions_SetEnv_def split: if_splits)
qed

lemma DeleteEnv_map:
  "functions_DeleteEnv db i key = (db', Inr ()) \<Longrightarrow>
     map_of (functions_ListEnv db' i) = (map_of (functions_ListEnv db i))(key := None)"
proof -
  have "map_of (map (\<lambda>e. (ev_Key e, ev_ValueEnc e)) (filter (\<lambda>e. ev_FunctionID e = i)
      (delete_rows (\<lambda>e. ev_FunctionID e = i \<and> ev_Key e = key) rows))) x
    = (if x = key then None else map_of (map (\<lambda>e. (ev_Key e, ev_ValueEnc e)) (filter (\<lambda>e. ev_FunctionID e = i) rows)) x)" for rows :: "EnvVar list" and x
    by (induction rows) (auto simp: delete_rows_def)
  then show "functions_DeleteEnv db i key = (db', Inr ()) \<Longrightarrow> ?thesis"
    by (auto simp: functions_DeleteEnv_def functions_ListEnv_def fun_eq_iff)
qed

text \<open>Who may change a function.\<close>

definition may_manage :: "DB \<Rightarrow> User \<Rightarrow> Function \<Rightarrow> bool" where
  "may_manage db actor fn =
     (u_Role actor = RoleAdmin \<or>
      (if fn_OwnerType fn = OwnerTypeUser then u_ID actor = fn_OwnerID fn
       else may_deploy db actor OwnerTypeWorkspace (fn_OwnerID fn)))"

lemma CanManage_may:
  assumes "CanManage db actor fn = Inr ()"
  shows "may_manage db actor fn"
proof (cases "fn_OwnerType fn")
  case OwnerTypeUser
  with assms show ?thesis
    by (auto simp: CanManage_def may_manage_def CanManageFunction_def IsOrgAdmin_def Let_def split: if_splits)
next
  case OwnerTypeWorkspace
  with assms obtain ws wsSet where ws: "workspaces_ByID db (fn_OwnerID fn) = Inr ws" "ParseWorkspace (ws_Settings ws) = Inr wsSet"
    and can: "CanDeployToWorkspace \<lparr>a_UserID = u_ID actor, a_Role = u_Role actor\<rparr>
      (workspaceRole db (fn_OwnerID fn) (u_ID actor)) (sw_MemberCanDeploy wsSet)"
    by (auto simp: CanManage_def CanManageFunction_def Let_def split: sum.splits if_splits)
  show ?thesis
  proof (cases "u_Role actor = RoleAdmin")
    case False
    with can obtain r where "workspaceRole db (fn_OwnerID fn) (u_ID actor) = Some r" "r = RoleAdmin \<or> sw_MemberCanDeploy wsSet"
      by (auto simp: CanDeployToWorkspace_def IsOrgAdmin_def split: option.splits if_splits)
    with ws workspaceRole_member [of db "fn_OwnerID fn" "u_ID actor" r] OwnerTypeWorkspace show ?thesis
      by (auto simp: may_manage_def may_deploy_def)
  qed (simp add: may_manage_def)
qed

lemma buildEnv_iff:
  "envKey \<noteq> [] \<Longrightarrow> buildEnv g db i declared envKey = Inr env \<longleftrightarrow>
     (\<forall>key \<in> set declared. \<forall>ct. map_of (functions_ListEnv db i) key = Some ct \<longrightarrow> is_ok (Decrypt g envKey ct))
     \<and> env = (\<lambda>key. if key \<in> set declared then map_option (\<lambda>ct. projr (Decrypt g envKey ct)) (map_of (functions_ListEnv db i) key) else None)"
  by (cases "declared = []") (auto simp: buildEnv_def buildEnv_loop_iff map_option_case)

lemma buildEnv_cong:
  "envKey \<noteq> [] \<Longrightarrow> map_of (functions_ListEnv db' i) = map_of (functions_ListEnv db i) \<Longrightarrow>
     buildEnv g db' i declared envKey = buildEnv g db i declared envKey"
proof -
  assume k: "envKey \<noteq> []" and eq: "map_of (functions_ListEnv db' i) = map_of (functions_ListEnv db i)"
  have "buildEnv_loop g envKey (functions_ListEnv db' i) declared env = buildEnv_loop g envKey (functions_ListEnv db i) declared env" for env
    using eq by (induction declared arbitrary: env) (auto split: option.splits sum.splits)
  then show ?thesis by (simp add: buildEnv_def)
qed

text \<open>
  C12. Environment values round-trip, encrypted, and only for those in charge: when setting a
  value succeeds, the actor was an admin, the owning user or an entitled workspace member;
  nothing but the env table changed; a pool built for the function afterwards sees exactly
  that value under the key if its manifest declares it, every other declared key as before,
  and nothing that is not declared; other functions see no difference; and deleting the key
  makes it disappear. The cipher is assumed to open what it sealed, nonces have 12 bytes.
\<close>

theorem env_roundtrip:
  assumes "aead_ok g" and "length nonce = gcm_NonceSize"
    and "SetEnv g nonce envKey db now actor fn key val = (db', Inr ())"
  shows "may_manage db actor fn \<and> db'\<lparr>db_env := db_env db\<rparr> = db
    \<and> (\<forall>declared env. buildEnv g db (fn_ID fn) declared envKey = Inr env \<longrightarrow>
         buildEnv g db' (fn_ID fn) declared envKey = Inr (if key \<in> set declared then env(key \<mapsto> val) else env)
         \<and> dom env \<subseteq> set declared)
    \<and> (\<forall>i declared. i \<noteq> fn_ID fn \<longrightarrow> buildEnv g db' i declared envKey = buildEnv g db i declared envKey)
    \<and> (\<forall>db2 declared env. DeleteEnv db' actor fn key = (db2, Inr ()) \<longrightarrow> buildEnv g db' (fn_ID fn) declared envKey = Inr env
         \<longrightarrow> buildEnv g db2 (fn_ID fn) declared envKey = Inr (env(key := None)))"
proof -
  from assms(3) obtain ct where man: "CanManage db actor fn = Inr ()" and key: "envKey \<noteq> []"
    and ct: "Encrypt g nonce envKey val = Inr ct" and st: "functions_SetEnv db now (fn_ID fn) key ct = (db', Inr ())"
    by (auto simp: SetEnv_def split: sum.splits if_splits prod.splits)
  have dec: "Decrypt g envKey ct = Inr val" using assms(1,2) ct by (rule Decrypt_Encrypt)
  note mp = SetEnv_map(1) [OF st]
  have own: "buildEnv g db' (fn_ID fn) declared envKey = Inr (if key \<in> set declared then env(key \<mapsto> val) else env)
      \<and> dom env \<subseteq> set declared" if "buildEnv g db (fn_ID fn) declared envKey = Inr env" for declared env
    using that dec unfolding buildEnv_iff [OF key] mp by (auto simp: fun_eq_iff split: if_splits)
  have oth: "buildEnv g db' i declared envKey = buildEnv g db i declared envKey" if "i \<noteq> fn_ID fn" for i declared
    by (rule buildEnv_cong [OF key]) (simp add: mp that)
  have del: "buildEnv g db2 (fn_ID fn) declared envKey = Inr (env(key := None))"
    if d: "DeleteEnv db' actor fn key = (db2, Inr ())" and b: "buildEnv g db' (fn_ID fn) declared envKey = Inr env" for db2 declared env
  proof -
    from d have "functions_DeleteEnv db' (fn_ID fn) key = (db2, Inr ())"
      by (auto simp: DeleteEnv_def functions_DeleteEnv_def split: sum.splits)
    from b DeleteEnv_map [OF this] show ?thesis unfolding buildEnv_iff [OF key] by (auto simp: fun_eq_iff)
  qed
  show ?thesis
    by (intro conjI allI impI) (simp_all only: CanManage_may [OF man] SetEnv_map(2) [OF st] own oth del not_False_eq_True)
qed

definition env_key :: bytes where
  "env_key = replicate 32 (CHR ''k'')"

definition env_nonce :: bytes where
  "env_nonce = replicate 12 (CHR ''n'')"

definition env_set :: "DB \<times> (service_error + unit)" where
  "env_set = SetEnv no_aead env_nonce env_key db_example 9 (user_example\<lparr>u_Role := RoleAdmin\<rparr>) fn_example ''TOKEN'' ''t''"

theorem env_roundtrip_witness:
  "buildEnv no_aead (fst env_set) ''f1'' [''TOKEN''] env_key = Inr [''TOKEN'' \<mapsto> ''t'']"
proof -
  have ok: "is_ok (snd env_set)" by code_simp
  have set: "SetEnv no_aead env_nonce env_key db_example 9 (user_example\<lparr>u_Role := RoleAdmin\<rparr>) fn_example ''TOKEN'' ''t''
      = (fst env_set, Inr ())"
    using ok unfolding env_set_def [symmetric] by (cases "snd env_set") (auto simp: prod_eq_iff)
  have none: "buildEnv no_aead db_example ''f1'' [''TOKEN''] env_key = Inr (\<lambda>_. None)"
    by (simp add: buildEnv_def functions_ListEnv_def db_example_def empty_db_def BootstrapFirstUser_def functions_create_def
        functions_CreateVersion_def fn_example_def version_example_def user_example_def assign_id_def function_conflict_def
        has_row_def env_key_def Let_def)
  have len: "length env_nonce = gcm_NonceSize" by (simp add: env_nonce_def gcm_NonceSize_def)
  have "aead_ok no_aead" by (simp add: aead_ok_def no_aead_def)
  from env_roundtrip [OF this len set] none show ?thesis by (simp add: fn_example_def)
qed

end
