(* ===== verification/ApiTypes.thy ===== *)
theory ApiTypes
  imports Functions
begin

text \<open>
  The vocabulary of the management API (server/internal/api): the string forms of the store's
  enumerations, the JSON views of the rows (one record per object the handlers build), the
  replies, and the decoded request bodies. \<open>encoding/json\<close> at each of the body types is a field of
  \<open>api_json\<close>: \<open>None\<close> is a decoding error, a missing key or a null is \<open>None\<close> inside the decoded value.
\<close>

section \<open>Enumerations (store/types.go)\<close>

fun role_String :: "Role \<Rightarrow> string" where
  "role_String RoleAdmin = ''admin''"
| "role_String RoleWorkspaceManager = ''workspace_manager''"
| "role_String RoleMember = ''member''"

fun status_String :: "UserStatus \<Rightarrow> string" where
  "status_String UserStatusActive = ''active''"
| "status_String UserStatusPending = ''pending''"
| "status_String UserStatusDisabled = ''disabled''"

fun rule_type_String :: "LoginRuleType \<Rightarrow> string" where
  "rule_type_String LoginRuleTypeEmailDomain = ''email_domain''"
| "rule_type_String LoginRuleTypeEmailExact = ''email_exact''"
| "rule_type_String LoginRuleTypeEmailGlob = ''email_glob''"
| "rule_type_String LoginRuleTypeDefault = ''default''"

fun rule_action_String :: "LoginRuleAction \<Rightarrow> string" where
  "rule_action_String LoginRuleActionAllow = ''allow''"
| "rule_action_String LoginRuleActionDeny = ''deny''"

fun owner_type_String :: "OwnerType \<Rightarrow> string" where
  "owner_type_String OwnerTypeUser = ''user''"
| "owner_type_String OwnerTypeWorkspace = ''workspace''"

text \<open>The conversion of a request's string to an enumeration, with the check of its values.\<close>

definition role_of :: "string \<Rightarrow> Role option" where
  "role_of s = find (\<lambda>r. role_String r = s) [RoleAdmin, RoleWorkspaceManager, RoleMember]"

definition status_of :: "string \<Rightarrow> UserStatus option" where
  "status_of s = find (\<lambda>r. status_String r = s) [UserStatusActive, UserStatusPending, UserStatusDisabled]"

definition rule_type_of :: "string \<Rightarrow> LoginRuleType option" where
  "rule_type_of s = find (\<lambda>r. rule_type_String r = s)
     [LoginRuleTypeEmailDomain, LoginRuleTypeEmailExact, LoginRuleTypeEmailGlob, LoginRuleTypeDefault]"

definition rule_action_of :: "string \<Rightarrow> LoginRuleAction option" where
  "rule_action_of s = find (\<lambda>r. rule_action_String r = s) [LoginRuleActionAllow, LoginRuleActionDeny]"

section \<open>Request bodies\<close>

record LoginRuleInput =
  lri_Type :: string
  lri_Value :: string
  lri_Action :: string

record user_patch =
  up_Role :: "string option"
  up_Status :: "string option"
  up_Disabled :: "bool option"

datatype language_patch = LanguageAbsent | LanguageNull | LanguageString string | LanguageOther

record me_patch =
  mp_UserID :: string
  mp_Language :: language_patch

record cli_authorize_body =
  ca_Redirect :: string
  ca_Challenge :: string
  ca_Name :: string

record api_json =
  aj_org :: "bytes \<Rightarrow> org_doc option"
  aj_workspace :: "bytes \<Rightarrow> workspace_doc option"
  aj_login_rules :: "bytes \<Rightarrow> LoginRuleInput list option"
  aj_user_patch :: "bytes \<Rightarrow> user_patch option"
  aj_name :: "bytes \<Rightarrow> string option"
  aj_role :: "bytes \<Rightarrow> string option"
  aj_me_patch :: "bytes \<Rightarrow> me_patch option"
  aj_value :: "bytes \<Rightarrow> string option"
  aj_cli_authorize :: "bytes \<Rightarrow> cli_authorize_body option"
  aj_cli_token :: "bytes \<Rightarrow> (string \<times> string) option"
  aj_ttl :: "bytes \<Rightarrow> string option"
  aj_marshal_map :: "(string \<times> string option) list \<Rightarrow> string"
  aj_marshal_org :: "Org \<Rightarrow> string"
  aj_marshal_workspace :: "Workspace \<Rightarrow> string"
  aj_marshal_rules :: "LoginRuleInput list \<Rightarrow> string"

section \<open>Views of the rows\<close>

record user_dto =
  ud_id :: string
  ud_email :: string
  ud_name :: string
  ud_role :: string
  ud_status :: string
  ud_created_at :: unix

definition userDTO :: "User \<Rightarrow> user_dto" where
  "userDTO u = \<lparr>ud_id = u_ID u, ud_email = u_Email u, ud_name = u_Name u, ud_role = role_String (u_Role u),
     ud_status = status_String (u_Status u), ud_created_at = u_CreatedAt u\<rparr>"

record login_rule_dto =
  lrd_id :: string
  lrd_ord :: int
  lrd_type :: string
  lrd_value :: string
  lrd_action :: string

definition loginRuleDTO :: "LoginRule \<Rightarrow> login_rule_dto" where
  "loginRuleDTO r = \<lparr>lrd_id = lr_ID r, lrd_ord = lr_Ord r, lrd_type = rule_type_String (lr_RuleType r),
     lrd_value = lr_Value r, lrd_action = rule_action_String (lr_Action r)\<rparr>"

record workspace_dto =
  wsd_id :: string
  wsd_name :: string
  wsd_settings :: Workspace
  wsd_settings_gen :: int
  wsd_created_at :: unix

definition workspaceDTO :: "WorkspaceRow \<Rightarrow> Workspace \<Rightarrow> workspace_dto" where
  "workspaceDTO ws wsSet = \<lparr>wsd_id = ws_ID ws, wsd_name = ws_Name ws, wsd_settings = wsSet,
     wsd_settings_gen = ws_SettingsGen ws, wsd_created_at = ws_CreatedAt ws\<rparr>"

record DeviceInfo =
  di_Kind :: string
  di_ID :: string
  di_Name :: string
  di_CreatedAt :: unix
  di_LastUsedAt :: "unix option"

record me_workspace =
  mw_id :: string
  mw_name :: string
  mw_quota :: "(nat \<times> int) option"

record me_dto =
  md_id :: string
  md_email :: string
  md_name :: string
  md_user_id :: string
  md_role :: string
  md_language :: "string option"
  md_effective_language :: string
  md_workspaces :: "me_workspace list"
  md_personal_quota :: "(nat \<times> int) option"
  md_pending_approval_count :: "nat option"

record me_patched =
  mpd_id :: string
  mpd_user_id :: string
  mpd_language :: "string option"
  mpd_effective_language :: string

record function_dto =
  fd_id :: string
  fd_owner_type :: string
  fd_name :: string
  fd_description :: string
  fd_created_at :: unix
  fd_updated_at :: unix
  fd_owner :: "string option"
  fd_active_version_id :: "string option"
  fd_url :: "string option"

record version_dto =
  vd_id :: string
  vd_main_path :: string
  vd_bundle_hash :: string
  vd_bundle_size :: int
  vd_unpacked_size :: int
  vd_files :: "(string \<times> int) list"
  vd_manifest :: "Normalized option"
  vd_note :: string
  vd_created_at :: unix

definition versionDTO :: "FunctionVersion \<Rightarrow> version_dto" where
  "versionDTO v = \<lparr>vd_id = fv_ID v, vd_main_path = fv_MainPath v, vd_bundle_hash = fv_BundleHash v,
     vd_bundle_size = fv_BundleSize v, vd_unpacked_size = fv_UnpackedSize v, vd_files = fv_Files v,
     vd_manifest = fv_Manifest v, vd_note = fv_Note v, vd_created_at = fv_CreatedAt v\<rparr>"

record log_dto =
  ld_id :: string
  ld_version_id :: string
  ld_method :: string
  ld_path :: string
  ld_status :: int
  ld_duration_ms :: int
  ld_stdout :: string
  ld_stderr :: string
  ld_fetch_decisions :: "FetchDecision list"
  ld_created_at :: unix

definition invocationLogDTO :: "InvocationLog \<Rightarrow> log_dto" where
  "invocationLogDTO l = \<lparr>ld_id = il_ID l, ld_version_id = il_VersionID l, ld_method = il_Method l, ld_path = il_Path l,
     ld_status = il_Status l, ld_duration_ms = il_DurationMS l, ld_stdout = il_Stdout l, ld_stderr = il_Stderr l,
     ld_fetch_decisions = il_FetchDecisions l, ld_created_at = il_CreatedAt l\<rparr>"

record fetch_policy_levels =
  fpl_organization :: SettingsFetchPolicy
  fpl_workspace :: "SettingsFetchPolicy option"

record deploy_reply =
  dpr_dry_run :: bool
  dpr_manifest :: Normalized
  dpr_warnings :: "warning list"
  dpr_function :: "function_dto option"
  dpr_version :: "version_dto option"

section \<open>Replies (respond.go)\<close>

text \<open>
  What a handler writes: the error envelope with its status and code, a bare status, or a JSON
  object with its status. Texts of error messages are not modelled.
\<close>

datatype reply =
    ReplyError int string
  | ReplyNoContent
  | ReplyOrg string Org int bool
  | ReplyLoginRules "login_rule_dto list"
  | ReplyUsers "user_dto list"
  | ReplyUser user_dto
  | ReplyAuditLogs "AuditLog list" string
  | ReplyWorkspaces "workspace_dto list"
  | ReplyWorkspace int workspace_dto "(string \<times> string) list option"
  | ReplyMember string string
  | ReplyMe me_dto
  | ReplyMePatched me_patched
  | ReplyDevices "DeviceInfo list"
  | ReplyFunctions "function_dto list"
  | ReplyFunction function_dto
  | ReplyFunctionDetail function_dto "version_dto option" fetch_policy_levels
  | ReplyVersions "version_dto list"
  | ReplyLogs "log_dto list" string
  | ReplyDeploy int deploy_reply
  | ReplyCode string
  | ReplyCredential string string unix
  | ReplyAccessToken string int

definition writeServiceError :: "service_error \<Rightarrow> reply" where
  "writeServiceError e = ReplyError (err_Status e) (err_Code e)"

definition ConflictErr :: service_error where
  "ConflictErr = \<lparr>err_Status = 409, err_Code = ''conflict''\<rparr>"

definition method_not_allowed :: reply where
  "method_not_allowed = ReplyError 405 ''method_not_allowed''"

definition unknown_route :: reply where
  "unknown_route = ReplyError 404 ''not_found''"

definition invalid_body :: reply where
  "invalid_body = ReplyError 400 ''invalid_body''"

text \<open>\<open>splitPath\<close>: the segments of a trimmed path; an inner empty segment stays.\<close>

definition splitPath :: "string \<Rightarrow> string list" where
  "splitPath path =
     (let trimmed = trim_char (CHR ''/'') path in
      if trimmed = [] then [] else split_on (CHR ''/'') trimmed)"

text \<open>
  A request as the management API reads it: what authentication reads, the path, the query,
  the body, and the two parts a multipart upload is parsed into.
\<close>

record api_request =
  ar_req :: Request
  ar_Path :: string
  ar_Query :: "string \<Rightarrow> string"
  ar_Body :: bytes
  ar_Form :: "(string \<Rightarrow> string) option"
  ar_Bundle :: "archive option"

end
