(* ===== verification/ApiOrg.thy ===== *)
theory ApiOrg
  imports ApiTypes
begin

text \<open>
  Organization administration (server/internal/api/org.go): settings with the open-mode guard,
  login rules with the lock-out guard, users with the last-admin guard, and the audit log. The
  use cases are shared by the HTTP handlers and the MCP tools; a handler turns the result into
  a reply. \<open>fresh\<close> is the identifier of the audit entry, \<open>fresh_rules\<close> those of new login rules.
\<close>

definition actor_of :: "User \<Rightarrow> Actor" where
  "actor_of u = \<lparr>a_UserID = u_ID u, a_Role = u_Role u\<rparr>"

definition requireOrgAdminActor :: "User \<Rightarrow> service_error + unit" where
  "requireOrgAdminActor act = (if \<not> CanUpdateOrgSettings (actor_of act) then Inl Forbidden else Inr ())"

definition loadOrg :: "DB \<Rightarrow> service_error + Organization" where
  "loadOrg db = (case org_Get db of Inl _ \<Rightarrow> Inl Internal | Inr org \<Rightarrow> Inr org)"

section \<open>Settings\<close>

definition GetOrgSettings :: "DB \<Rightarrow> service_error + string \<times> Org \<times> int" where
  "GetOrgSettings db =
     (case org_Get db of
        Inl _ \<Rightarrow> Inl Internal
      | Inr org \<Rightarrow>
          (case ParseOrg (org_Settings org) of
             Inl _ \<Rightarrow> Inl Internal
           | Inr orgSet \<Rightarrow> Inr (org_Name org, orgSet, org_SettingsGen org)))"

definition handleOrgGet :: "DB \<Rightarrow> reply" where
  "handleOrgGet db =
     (case GetOrgSettings db of
        Inl e \<Rightarrow> writeServiceError e
      | Inr (name, orgSet, gen) \<Rightarrow> ReplyOrg name orgSet gen False)"

definition WorkspacesExist :: service_error where
  "WorkspacesExist = \<lparr>err_Status = 409, err_Code = ''workspaces_exist''\<rparr>"

text \<open>
  The update reads the row, decodes the patch over its settings, which keeps what the patch omits (\<open>overlay_org\<close>), and
  checks the result; then it writes the row back. The two halves are separate calls of the store.
\<close>

definition merged_org :: "api_json \<Rightarrow> DB \<Rightarrow> User \<Rightarrow> bytes \<Rightarrow> service_error + Org \<times> Organization \<times> bool" where
  "merged_org j db act patch =
     (case requireOrgAdminActor act of
        Inl e \<Rightarrow> Inl e
      | Inr _ \<Rightarrow>
     (case org_Get db of
        Inl _ \<Rightarrow> Inl Internal
      | Inr org \<Rightarrow>
     (case ParseOrg (org_Settings org) of
        Inl _ \<Rightarrow> Inl Internal
      | Inr old \<Rightarrow>
     (case aj_org j patch of
        None \<Rightarrow> Inl (BadRequest ''invalid_body'')
      | Some d \<Rightarrow>
          let cur = overlay_org old d;
              openModeJustEnabled = so_OpenMode cur \<and> \<not> so_OpenMode old in
          if \<not> IsLanguage (so_Language cur) then Inl (BadRequest ''invalid_language'')
          else if openModeJustEnabled \<and> workspaces_ListAll db \<noteq> [] then Inl WorkspacesExist
          else Inr (cur, org\<lparr>org_Settings := Blob (Org_JSON cur), org_SettingsGen := org_SettingsGen org + 1\<rparr>,
                 openModeJustEnabled)))))"

definition UpdateOrgSettings ::
  "api_json \<Rightarrow> DB \<Rightarrow> int \<Rightarrow> string \<Rightarrow> User \<Rightarrow> bytes \<Rightarrow> DB \<times> (service_error + string \<times> Org \<times> int \<times> bool)" where
  "UpdateOrgSettings j db now fresh act patch =
     (case merged_org j db act patch of
        Inl e \<Rightarrow> (db, Inl e)
      | Inr (cur, org', openModeJustEnabled) \<Rightarrow>
          (case org_Update db (toUnix now) org' of
             (db1, Inl _) \<Rightarrow> (db1, Inl Internal)
           | (db1, Inr _) \<Rightarrow>
               (Audit db1 now fresh (u_ID act) ''org.settings.update'' ''org'' (aj_marshal_org j cur),
                Inr (org_Name org', cur, org_SettingsGen org', openModeJustEnabled))))"

definition handleOrgPatch :: "api_json \<Rightarrow> DB \<Rightarrow> int \<Rightarrow> string \<Rightarrow> User \<Rightarrow> bytes \<Rightarrow> DB \<times> reply" where
  "handleOrgPatch j db now fresh act body =
     (case UpdateOrgSettings j db now fresh act body of
        (db', Inl e) \<Rightarrow> (db', writeServiceError e)
      | (db', Inr (name, orgSet, gen, just)) \<Rightarrow> (db', ReplyOrg name orgSet gen just))"

definition openModeEnabled :: "DB \<Rightarrow> bool option" where
  "openModeEnabled db =
     (case org_Get db of
        Inl _ \<Rightarrow> None
      | Inr org \<Rightarrow> (case ParseOrg (org_Settings org) of Inl _ \<Rightarrow> None | Inr orgSet \<Rightarrow> Some (so_OpenMode orgSet)))"

section \<open>Login rules\<close>

definition ListLoginRules :: "DB \<Rightarrow> LoginRule list" where
  "ListLoginRules db = org_ListLoginRules db"

definition handleLoginRulesGet :: "DB \<Rightarrow> reply" where
  "handleLoginRulesGet db = ReplyLoginRules (map loginRuleDTO (ListLoginRules db))"

fun login_rules_of_input :: "int \<Rightarrow> LoginRuleInput list \<Rightarrow> service_error + LoginRule list" where
  "login_rules_of_input i [] = Inr []"
| "login_rules_of_input i (item # items) =
     (case rule_type_of (lri_Type item) of
        None \<Rightarrow> Inl (BadRequest ''invalid_rule_type'')
      | Some ruleType \<Rightarrow>
          (case rule_action_of (lri_Action item) of
             None \<Rightarrow> Inl (BadRequest ''invalid_rule_action'')
           | Some action \<Rightarrow>
               (case login_rules_of_input (i + 1) items of
                  Inl e \<Rightarrow> Inl e
                | Inr rules \<Rightarrow> Inr (\<lparr>lr_ID = [], lr_Ord = i, lr_RuleType = ruleType, lr_Value = lri_Value item,
                    lr_Action = action\<rparr> # rules))))"

definition ReplaceLoginRules ::
  "api_json \<Rightarrow> DB \<Rightarrow> int \<Rightarrow> (nat \<Rightarrow> string) \<Rightarrow> string \<Rightarrow> User \<Rightarrow> LoginRuleInput list
     \<Rightarrow> DB \<times> (service_error + LoginRule list)" where
  "ReplaceLoginRules j db now fresh_rules fresh act items =
     (case requireOrgAdminActor act of
        Inl e \<Rightarrow> (db, Inl e)
      | Inr _ \<Rightarrow>
     (case login_rules_of_input 0 items of
        Inl e \<Rightarrow> (db, Inl e)
      | Inr rules \<Rightarrow>
          if \<not> EvaluateLoginRules rules (u_Email act) then (db, Inl (BadRequest ''self_lockout''))
          else case org_ReplaceLoginRules db fresh_rules rules of
            (db1, Inl _) \<Rightarrow> (db1, Inl Internal)
          | (db1, Inr _) \<Rightarrow>
              let db2 = Audit db1 now fresh (u_ID act) ''org.login_rules.update'' ''org'' (aj_marshal_rules j items) in
              (db2, Inr (ListLoginRules db2))))"

definition handleLoginRulesPut ::
  "api_json \<Rightarrow> DB \<Rightarrow> int \<Rightarrow> (nat \<Rightarrow> string) \<Rightarrow> string \<Rightarrow> User \<Rightarrow> bytes \<Rightarrow> DB \<times> reply" where
  "handleLoginRulesPut j db now fresh_rules fresh act body =
     (case aj_login_rules j body of
        None \<Rightarrow> (db, invalid_body)
      | Some items \<Rightarrow>
          (case ReplaceLoginRules j db now fresh_rules fresh act items of
             (db', Inl e) \<Rightarrow> (db', writeServiceError e)
           | (db', Inr rules) \<Rightarrow> (db', ReplyLoginRules (map loginRuleDTO rules))))"

section \<open>Users\<close>

definition ListUsers :: "DB \<Rightarrow> User \<Rightarrow> service_error + User list" where
  "ListUsers db act = (case requireOrgAdminActor act of Inl e \<Rightarrow> Inl e | Inr _ \<Rightarrow> Inr (users_List db))"

definition handleOrgUsersList :: "DB \<Rightarrow> User \<Rightarrow> reply" where
  "handleOrgUsersList db act =
     (case ListUsers db act of Inl e \<Rightarrow> writeServiceError e | Inr us \<Rightarrow> ReplyUsers (map userDTO us))"

definition active_admin :: "User \<Rightarrow> bool" where
  "active_admin u = (u_Role u = RoleAdmin \<and> u_Status u = UserStatusActive)"

definition countOtherActiveAdmins :: "DB \<Rightarrow> string \<Rightarrow> nat" where
  "countOtherActiveAdmins db excludeID =
     length (filter (\<lambda>u. u_ID u \<noteq> excludeID \<and> u_Role u = RoleAdmin \<and> u_Status u = UserStatusActive) (users_List db))"

definition approval_action :: "UserStatus \<Rightarrow> UserStatus \<Rightarrow> string" where
  "approval_action prev new =
     (if prev = UserStatusPending \<and> new \<noteq> prev then
        (if new = UserStatusActive then ''approved'' else if new = UserStatusDisabled then ''rejected'' else [])
      else [])"

definition PatchUser ::
  "api_json \<Rightarrow> DB \<Rightarrow> int \<Rightarrow> string \<Rightarrow> User \<Rightarrow> string \<Rightarrow> string option \<Rightarrow> string option
     \<Rightarrow> DB \<times> (service_error + User \<times> string)" where
  "PatchUser j db now fresh act ident role status =
     (case requireOrgAdminActor act of
        Inl e \<Rightarrow> (db, Inl e)
      | Inr _ \<Rightarrow>
     (case users_ByID db ident of
        Inl _ \<Rightarrow> (db, Inl NotFoundErr)
      | Inr target \<Rightarrow>
     (case (case role of None \<Rightarrow> Some (u_Role target) | Some s \<Rightarrow> role_of s) of
        None \<Rightarrow> (db, Inl (BadRequest ''invalid_role''))
      | Some newRole \<Rightarrow>
     (case (case status of None \<Rightarrow> Some (u_Status target) | Some s \<Rightarrow> status_of s) of
        None \<Rightarrow> (db, Inl (BadRequest ''invalid_status''))
      | Some newStatus \<Rightarrow>
          let demoting = (u_Role target = RoleAdmin
                \<and> (newRole \<noteq> RoleAdmin \<or> newStatus \<noteq> UserStatusActive \<and> u_Status target = UserStatusActive)) in
          if demoting \<and> countOtherActiveAdmins db (u_ID target) = 0 then (db, Inl ConflictErr)
          else case users_Update db (toUnix now) (target\<lparr>u_Role := newRole, u_Status := newStatus\<rparr>) of
            (db1, Inl _) \<Rightarrow> (db1, Inl Internal)
          | (db1, Inr updated) \<Rightarrow>
              (Audit db1 now fresh (u_ID act) ''org.user.update'' (''user:'' @ u_ID target)
                 (aj_marshal_map j [(''role'', Some (role_String newRole)), (''status'', Some (status_String newStatus)),
                   (''previous_role'', Some (role_String (u_Role target))),
                   (''previous_status'', Some (status_String (u_Status target))),
                   (''approval_action'', Some (approval_action (u_Status target) newStatus))]),
               Inr (updated, approval_action (u_Status target) newStatus))))))"

definition user_patch_status :: "user_patch \<Rightarrow> string option" where
  "user_patch_status b =
     (case up_Status b of
        Some s \<Rightarrow> Some s
      | None \<Rightarrow> (case up_Disabled b of
          None \<Rightarrow> None
        | Some d \<Rightarrow> Some (if d then status_String UserStatusDisabled else status_String UserStatusActive)))"

definition handleOrgUserPatch :: "api_json \<Rightarrow> DB \<Rightarrow> int \<Rightarrow> string \<Rightarrow> User \<Rightarrow> string \<Rightarrow> bytes \<Rightarrow> DB \<times> reply" where
  "handleOrgUserPatch j db now fresh act ident body =
     (case requireOrgAdminActor act of
        Inl e \<Rightarrow> (db, writeServiceError e)
      | Inr _ \<Rightarrow>
     (case aj_user_patch j body of
        None \<Rightarrow> (db, invalid_body)
      | Some b \<Rightarrow>
          (case PatchUser j db now fresh act ident (up_Role b) (user_patch_status b) of
             (db', Inl e) \<Rightarrow> (db', writeServiceError e)
           | (db', Inr (target, _)) \<Rightarrow> (db', ReplyUser (userDTO target)))))"

section \<open>Audit log\<close>

definition parsePositiveInt :: "string \<Rightarrow> int option" where
  "parsePositiveInt s = (case atoi s of None \<Rightarrow> None | Some n \<Rightarrow> if n \<le> 0 then None else Some n)"

definition limit_param :: "string \<Rightarrow> int" where
  "limit_param s = (if s \<noteq> [] then (case parsePositiveInt s of Some n \<Rightarrow> n | None \<Rightarrow> 0) else 0)"

definition next_cursor :: "('r \<Rightarrow> string) \<Rightarrow> 'r list \<Rightarrow> string" where
  "next_cursor ident rows = (if rows \<noteq> [] then ident (last rows) else [])"

definition ListAuditLogs :: "DB \<Rightarrow> User \<Rightarrow> string \<Rightarrow> int \<Rightarrow> service_error + AuditLog list \<times> string" where
  "ListAuditLogs db act cursor limit =
     (case requireOrgAdminActor act of
        Inl e \<Rightarrow> Inl e
      | Inr _ \<Rightarrow> (let logs = audit_List db cursor limit in Inr (logs, next_cursor al_ID logs)))"

definition handleAuditLogs :: "DB \<Rightarrow> User \<Rightarrow> (string \<Rightarrow> string) \<Rightarrow> reply" where
  "handleAuditLogs db act query =
     (case ListAuditLogs db act (query ''cursor'') (limit_param (query ''limit'')) of
        Inl e \<Rightarrow> writeServiceError e
      | Inr (logs, nxt) \<Rightarrow> ReplyAuditLogs logs nxt)"

section \<open>Routing\<close>

definition routeOrg ::
  "api_json \<Rightarrow> DB \<Rightarrow> int \<Rightarrow> (nat \<Rightarrow> string) \<Rightarrow> User \<Rightarrow> api_request \<Rightarrow> string list \<Rightarrow> DB \<times> reply" where
  "routeOrg j db now fresh act r rest =
     (let m = rq_Method (ar_req r) in
      if rest = [] then
        (if m = ''GET'' then (db, handleOrgGet db)
         else if m = ''PATCH'' then handleOrgPatch j db now (fresh 0) act (ar_Body r)
         else (db, method_not_allowed))
      else if rest = [''login-rules''] then
        (if m = ''GET'' then (db, handleLoginRulesGet db)
         else if m = ''PUT'' then handleLoginRulesPut j db now (\<lambda>i. fresh (i + 1)) (fresh 0) act (ar_Body r)
         else (db, method_not_allowed))
      else if rest = [''users''] then
        (if m \<noteq> ''GET'' then (db, method_not_allowed) else (db, handleOrgUsersList db act))
      else if length rest = 2 \<and> hd rest = ''users'' then
        (if m \<noteq> ''PATCH'' then (db, method_not_allowed)
         else handleOrgUserPatch j db now (fresh 0) act (rest ! 1) (ar_Body r))
      else if rest = [''audit-logs''] then
        (if m \<noteq> ''GET'' then (db, method_not_allowed) else (db, handleAuditLogs db act (ar_Query r)))
      else (db, unknown_route))"

section \<open>What administration must keep\<close>

text \<open>
  The state of a well governed organization: the store's invariant, an active admin, an admin
  member for every workspace, no workspaces in open mode, and every function owned by a workspace
  owned by one that exists.
\<close>

definition has_admin :: "DB \<Rightarrow> bool" where
  "has_admin db = (\<exists>u \<in> set (db_users db). active_admin u)"

definition workspaces_administered :: "DB \<Rightarrow> bool" where
  "workspaces_administered db =
     (\<forall>w \<in> set (db_workspaces db). \<exists>m \<in> set (db_members db). wm_WorkspaceID m = ws_ID w \<and> wm_Role m = RoleAdmin)"

definition open_mode_exclusive :: "DB \<Rightarrow> bool" where
  "open_mode_exclusive db = (openModeEnabled db = Some True \<longrightarrow> db_workspaces db = [])"

definition owners_exist :: "DB \<Rightarrow> bool" where
  "owners_exist db = (\<forall>f \<in> set (db_functions db). fn_OwnerType f = OwnerTypeWorkspace
     \<longrightarrow> has_row ws_ID (fn_OwnerID f) (db_workspaces db))"

definition governed :: "DB \<Rightarrow> bool" where
  "governed db = (db_ok db \<and> has_admin db \<and> workspaces_administered db \<and> open_mode_exclusive db \<and> owners_exist db)"

lemmas governed_defs = governed_def has_admin_def workspaces_administered_def open_mode_exclusive_def owners_exist_def

text \<open>Operations on other tables keep it as soon as they keep the store's invariant.\<close>

lemma openModeEnabled_cong: "db_org db' = db_org db \<Longrightarrow> openModeEnabled db' = openModeEnabled db"
  by (simp add: openModeEnabled_def org_Get_def)

lemma governed_frame:
  assumes "governed db" and "db_ok db'"
    and "db_users db' = db_users db" "db_workspaces db' = db_workspaces db" "db_members db' = db_members db"
      "db_org db' = db_org db" "db_functions db' = db_functions db"
  shows "governed db'"
  using assms openModeEnabled_cong [OF assms(6)] by (simp add: governed_defs)

lemma Audit_other: "Audit db now f x y z d = db\<lparr>db_audit := db_audit (Audit db now f x y z d)\<rparr>"
  by (simp add: Audit_def audit_Append_def Let_def)

lemma Audit_tables [simp]:
  "db_org (Audit db now f x y z d) = db_org db" "db_workspaces (Audit db now f x y z d) = db_workspaces db"
  "db_members (Audit db now f x y z d) = db_members db" "db_functions (Audit db now f x y z d) = db_functions db"
  "db_versions (Audit db now f x y z d) = db_versions db" "db_env (Audit db now f x y z d) = db_env db"
  "db_users (Audit db now f x y z d) = db_users db" "db_login_rules (Audit db now f x y z d) = db_login_rules db"
  "db_handles (Audit db now f x y z d) = db_handles db" "db_names (Audit db now f x y z d) = db_names db"
  "db_cli_creds (Audit db now f x y z d) = db_cli_creds db" "db_oauth_grants (Audit db now f x y z d) = db_oauth_grants db"
  by (simp_all add: Audit_def audit_Append_def Let_def)

lemma Audit_ok: "db_ok db \<Longrightarrow> db_ok (Audit db now f x y z d)"
  by (simp add: Audit_def audit_Append_ok)

lemma Audit_governed: "governed db \<Longrightarrow> governed (Audit db now f x y z d)"
  by (rule governed_frame [of db]) (simp_all add: Audit_ok governed_def)

lemma sort_key_Nil: "sort_key f xs = [] \<longleftrightarrow> xs = []"
  by (metis length_sort length_0_conv)

text \<open>The shape of every use case: a store operation, then an error or an audited success.\<close>

lemma keep_case:
  assumes "P (fst p)" and "\<And>d e. P d \<Longrightarrow> P (fst (f d e))" and "\<And>d x. P d \<Longrightarrow> P (fst (g d x))"
  shows "P (fst (case p of (d, Inl e) \<Rightarrow> f d e | (d, Inr x) \<Rightarrow> g d x))"
  using assms by (cases p; cases "snd p") auto

lemma org_Update_governed:
  assumes g: "governed db" and cur: "so_OpenMode cur \<longrightarrow> openModeEnabled db = Some True \<or> db_workspaces db = []"
  shows "governed (fst (org_Update db now (org\<lparr>org_Settings := Blob (Org_JSON cur), org_SettingsGen := n\<rparr>)))"
proof (cases "db_org db")
  case (Some old)
  let ?db' = "fst (org_Update db now (org\<lparr>org_Settings := Blob (Org_JSON cur), org_SettingsGen := n\<rparr>))"
  have "openModeEnabled ?db' = Some (so_OpenMode cur)"
    using Some by (simp add: openModeEnabled_def org_Get_def org_Update_def ParseOrg_def Let_def overlay_org_def Org_JSON_def)
  moreover have "db_ok ?db'" using g by (simp add: org_Update_ok governed_def)
  moreover have "db_users ?db' = db_users db \<and> db_workspaces ?db' = db_workspaces db \<and> db_members ?db' = db_members db
      \<and> db_functions ?db' = db_functions db"
    using Some by (simp add: org_Update_def Let_def)
  ultimately show ?thesis using g cur by (auto simp: governed_defs)
qed (use g in \<open>simp add: org_Update_def\<close>)

lemma UpdateOrgSettings_governed: "governed db \<Longrightarrow> governed (fst (UpdateOrgSettings j db now fresh act patch))"
proof -
  assume g: "governed db"
  have "openModeEnabled db = Some (so_OpenMode old)" if "org_Get db = Inr org" "ParseOrg (org_Settings org) = Inr old" for org old
    using that by (simp add: openModeEnabled_def)
  then show ?thesis
    using g unfolding UpdateOrgSettings_def merged_org_def Let_def
    by (auto simp: workspaces_ListAll_def sort_key_Nil split: sum.splits option.splits if_splits
        intro!: keep_case [where P = governed] org_Update_governed Audit_governed)
qed

lemma ReplaceLoginRules_governed:
  "governed db \<Longrightarrow> governed (fst (ReplaceLoginRules j db now fr fresh act items))"
proof -
  assume g: "governed db"
  have "governed (fst (org_ReplaceLoginRules db fr rules))" for rules
  proof (rule governed_frame [OF g])
    show "db_ok (fst (org_ReplaceLoginRules db fr rules))" using g by (simp add: governed_def org_ReplaceLoginRules_ok)
  qed (simp_all add: org_ReplaceLoginRules_def split: sum.splits)
  with g show ?thesis unfolding ReplaceLoginRules_def Let_def
    by (auto split: sum.splits intro!: keep_case [where P = governed] Audit_governed)
qed

lemma users_Update_rows:
  assumes "unique_on u_ID (db_users db)" and "t \<in> set (db_users db)" and "u_ID u = u_ID t"
  shows "\<exists>b. fst (users_Update db now u) = db\<lparr>db_users := update_rows (\<lambda>r. b \<and> u_ID r = u_ID t)
    (\<lambda>_. u\<lparr>u_CreatedAt := u_CreatedAt t, u_UpdatedAt := now\<rparr>) (db_users db)\<rparr>"
proof -
  have l: "lookup_row (\<lambda>r. u_ID r = u_ID u) (db_users db) = Some t"
    using lookup_row_key [OF assms(1,2)] assms(3) by simp
  have n: "update_rows (\<lambda>r. False) f xs = xs" for f :: "User \<Rightarrow> User" and xs by (simp add: update_rows_def)
  show ?thesis
  proof (cases "user_conflict (filter (\<lambda>r. u_ID r \<noteq> u_ID u) (db_users db)) (u\<lparr>u_CreatedAt := u_CreatedAt t, u_UpdatedAt := now\<rparr>)")
    case True
    with l show ?thesis by (intro exI [of _ False]) (simp add: users_Update_def Let_def n)
  next
    case False
    with l assms(3) show ?thesis by (intro exI [of _ True]) (simp add: users_Update_def Let_def)
  qed
qed

lemma users_Update_governed:
  assumes g: "governed db" and t: "t \<in> set (db_users db)" and u: "u_ID u = u_ID t"
    and keep: "active_admin t \<longrightarrow> active_admin u \<or> (\<exists>v \<in> set (db_users db). u_ID v \<noteq> u_ID t \<and> active_admin v)"
  shows "governed (fst (users_Update db now u))"
proof -
  have un: "unique_on u_ID (db_users db)" using g by (simp add: governed_def db_ok_defs)
  let ?u = "u\<lparr>u_CreatedAt := u_CreatedAt t, u_UpdatedAt := now\<rparr>"
  obtain b where d: "fst (users_Update db now u) = db\<lparr>db_users := update_rows (\<lambda>r. b \<and> u_ID r = u_ID t) (\<lambda>_. ?u) (db_users db)\<rparr>"
    using users_Update_rows [OF un t u] by blast
  have eq: "r = t" if "r \<in> set (db_users db)" "u_ID r = u_ID t" for r
    using unique_on_inj [OF un] that t by blast
  have au: "active_admin ?u = active_admin u" by (simp add: active_admin_def)
  obtain v where v: "v \<in> set (db_users db)" "active_admin v" using g by (auto simp: governed_defs)
  have "\<exists>r \<in> set (update_rows (\<lambda>r. b \<and> u_ID r = u_ID t) (\<lambda>_. ?u) (db_users db)). active_admin r"
  proof (cases "b \<and> u_ID v = u_ID t")
    case False
    with v show ?thesis by (auto simp: image_iff)
  next
    case True
    then have "v = t" using eq v by blast
    with keep v consider "active_admin u" | w where "w \<in> set (db_users db)" "u_ID w \<noteq> u_ID t" "active_admin w" by blast
    then show ?thesis
    proof cases
      case 1
      with True v au show ?thesis by (auto simp: image_iff)
    next
      case 2
      then show ?thesis by (auto simp: image_iff)
    qed
  qed
  moreover have "db_ok (fst (users_Update db now u))" using g by (simp add: users_Update_ok governed_def)
  ultimately show ?thesis
    using g openModeEnabled_cong [of "fst (users_Update db now u)" db] unfolding d by (simp add: governed_defs)
qed

lemma countOtherActiveAdmins_0:
  "countOtherActiveAdmins db i = 0 \<longleftrightarrow> \<not> (\<exists>v \<in> set (db_users db). u_ID v \<noteq> i \<and> active_admin v)"
  by (auto simp: countOtherActiveAdmins_def users_List_def active_admin_def filter_empty_conv)

lemma PatchUser_governed: "governed db \<Longrightarrow> governed (fst (PatchUser j db now fresh act ident role status))"
proof -
  assume g: "governed db"
  have upd: "governed (fst (users_Update db n (t\<lparr>u_Role := ro, u_Status := s\<rparr>)))"
    if t: "users_ByID db ident = Inr t" and ok: "u_Role t = RoleAdmin \<and> (ro \<noteq> RoleAdmin \<or> s \<noteq> UserStatusActive \<and> u_Status t = UserStatusActive)
        \<longrightarrow> countOtherActiveAdmins db (u_ID t) \<noteq> 0" for t ro s n
  proof (rule users_Update_governed [OF g])
    show "t \<in> set (db_users db)" using t by (auto simp: users_ByID_def dest: lookup_row_Some)
    show "active_admin t \<longrightarrow> active_admin (t\<lparr>u_Role := ro, u_Status := s\<rparr>)
        \<or> (\<exists>v \<in> set (db_users db). u_ID v \<noteq> u_ID t \<and> active_admin v)"
      using ok by (auto simp: countOtherActiveAdmins_0 active_admin_def)
  qed simp
  show ?thesis
  proof (cases "users_ByID db ident")
    case (Inr t)
    let ?r = "case role of None \<Rightarrow> Some (u_Role t) | Some x \<Rightarrow> role_of x"
    let ?s = "case status of None \<Rightarrow> Some (u_Status t) | Some x \<Rightarrow> status_of x"
    show ?thesis
    proof (cases "is_ok (requireOrgAdminActor act) \<and> ?r \<noteq> None \<and> ?s \<noteq> None")
      case True
      then obtain a ro st where a: "requireOrgAdminActor act = Inr a" and r: "?r = Some ro" and s: "?s = Some st"
        by (auto simp: is_ok_def split: sum.splits)
      show ?thesis
        unfolding PatchUser_def Let_def Inr a sum.case r s option.case
        using upd [OF Inr, of ro st] g by (auto intro!: keep_case [where P = governed] Audit_governed)
    next
      case False
      with g Inr show ?thesis
        by (auto simp: PatchUser_def is_ok_def split: sum.splits option.splits)
    qed
  qed (use g in \<open>simp add: PatchUser_def split: sum.splits\<close>)
qed

lemma routeOrg_governed: "governed db \<Longrightarrow> governed (fst (routeOrg j db now fresh act r rest))"
proof -
  assume g: "governed db"
  have "governed (fst (handleOrgPatch j db now f act b))" for f b
    unfolding handleOrgPatch_def by (rule keep_case [where P = governed]) (use UpdateOrgSettings_governed [OF g] in auto)
  moreover have "governed (fst (handleLoginRulesPut j db now fr f act b))" for fr f b
    unfolding handleLoginRulesPut_def
    by (auto simp: g split: option.splits intro!: keep_case [where P = governed] ReplaceLoginRules_governed)
  moreover have "governed (fst (handleOrgUserPatch j db now f act i b))" for f i b
    unfolding handleOrgUserPatch_def
    by (auto simp: g split: option.splits sum.splits intro!: keep_case [where P = governed] PatchUser_governed)
  ultimately show ?thesis using g by (simp add: routeOrg_def Let_def)
qed

text \<open>Only an organization admin changes anything there.\<close>

lemma routeOrg_admin: "u_Role act \<noteq> RoleAdmin \<Longrightarrow> fst (routeOrg j db now fresh act r rest) = db"
  by (simp add: routeOrg_def Let_def handleOrgPatch_def UpdateOrgSettings_def merged_org_def handleLoginRulesPut_def ReplaceLoginRules_def
      handleOrgUserPatch_def requireOrgAdminActor_def CanUpdateOrgSettings_def IsOrgAdmin_def actor_of_def split: option.splits)

section \<open>Login rules survive the round trip\<close>

lemma enum_of_String:
  "rule_type_of t = Some x \<longleftrightarrow> rule_type_String x = t" "rule_action_of t = Some y \<longleftrightarrow> rule_action_String y = t"
  "role_of t = Some z \<longleftrightarrow> role_String z = t" "status_of t = Some w \<longleftrightarrow> status_String w = t"
proof -
  show "rule_type_of t = Some x \<longleftrightarrow> rule_type_String x = t" by (cases x) (auto simp: rule_type_of_def)
  show "rule_action_of t = Some y \<longleftrightarrow> rule_action_String y = t" by (cases y) (auto simp: rule_action_of_def)
  show "role_of t = Some z \<longleftrightarrow> role_String z = t" by (cases z) (auto simp: role_of_def)
  show "status_of t = Some w \<longleftrightarrow> status_String w = t" by (cases w) (auto simp: status_of_def)
qed

definition rule_input :: "LoginRule \<Rightarrow> LoginRuleInput" where
  "rule_input r = \<lparr>lri_Type = rule_type_String (lr_RuleType r), lri_Value = lr_Value r, lri_Action = rule_action_String (lr_Action r)\<rparr>"

lemma login_rules_of_input_Inr:
  "login_rules_of_input i items = Inr rules \<Longrightarrow>
     map rule_input rules = items \<and> map lr_Ord rules = map (\<lambda>k. i + int k) [0..<length items]"
proof (induction items arbitrary: i rules)
  case (Cons x xs)
  have "map (\<lambda>k. i + int k) [0..<length (x # xs)] = i # map (\<lambda>k. i + 1 + int k) [0..<length xs]"
    by (simp add: upt_conv_Cons map_Suc_upt [symmetric] del: upt_Suc)
  with Cons.prems Cons.IH [of "i + 1"] show ?case
    by (auto simp: rule_input_def enum_of_String split: option.splits sum.splits)
qed simp

lemma insert_login_rules_Inr:
  "insert_login_rules acc fresh rules = Inr rs \<Longrightarrow>
     map rule_input rs = map rule_input acc @ map rule_input rules \<and> map lr_Ord rs = map lr_Ord acc @ map lr_Ord rules"
  by (induction rules arbitrary: acc) (auto simp: Let_def rule_input_def split: if_splits)

lemma rule_input_inj:
  "rule_input r = rule_input r' \<Longrightarrow> lr_RuleType r = lr_RuleType r' \<and> lr_Value r = lr_Value r' \<and> lr_Action r = lr_Action r'"
  using enum_of_String(1,2) unfolding rule_input_def by (metis LoginRuleInput.iffs option.inject)

lemma first_match_cong: "map rule_input rs = map rule_input rs' \<Longrightarrow> first_match rs e = first_match rs' e"
proof (induction rs arbitrary: rs')
  case (Cons r rs)
  then obtain r' rs'' where rs': "rs' = r' # rs''" "rule_input r = rule_input r'" "map rule_input rs = map rule_input rs''"
    by (cases rs') auto
  have eqs: "lr_RuleType r = lr_RuleType r'" "lr_Value r = lr_Value r'" "lr_Action r = lr_Action r'"
    using rs'(2) rule_input_inj [of r r'] by blast+
  have "ruleMatches r e = ruleMatches r' e" unfolding ruleMatches_def eqs ..
  with rs'(1,3) eqs(3) Cons.IH [of rs''] show ?case by simp
qed simp

lemma sorted_ords: "map lr_Ord rs = map (\<lambda>k. i + int k) [0..<n] \<Longrightarrow> sort_key lr_Ord rs = rs"
proof -
  assume "map lr_Ord rs = map (\<lambda>k. i + int k) [0..<n]"
  moreover have "sorted (map (\<lambda>k. i + int k) [0..<n])" by (auto simp: sorted_iff_nth_mono)
  ultimately show ?thesis by (intro sort_key_id_if_sorted) simp
qed

text \<open>
  C25. Replacing the login rules. Only an organization admin can; a refused or failing call
  changes nothing; after a successful one the stored rules are exactly the submitted list, in
  the submitted order, sign-in is decided by them, and the admin who submitted them is still
  admitted: unless disabled, the admin's account passes the check every session and token
  validation runs.
\<close>

theorem login_rules_keep_admin:
  assumes "db_ok db" and "act \<in> set (db_users db)" and "ReplaceLoginRules j db now fr fresh act items = (db', res)"
  shows "case res of
      Inl e \<Rightarrow> db' = db
    | Inr rules \<Rightarrow> u_Role act = RoleAdmin \<and> rules = org_ListLoginRules db' \<and> map rule_input rules = items
        \<and> (u_Status act \<noteq> UserStatusDisabled \<longrightarrow> loadActiveUser db' (u_ID act) = Inr act)"
proof (cases res)
  case (Inl e)
  with assms(3) show ?thesis
    by (auto simp: ReplaceLoginRules_def org_ReplaceLoginRules_def Let_def split: sum.splits if_splits)
next
  case (Inr rules)
  with assms(3) obtain rules0 rs where adm: "u_Role act = RoleAdmin" and r0: "login_rules_of_input 0 items = Inr rules0"
    and ev: "EvaluateLoginRules rules0 (u_Email act)" and ins: "insert_login_rules [] fr rules0 = Inr rs"
    and db': "db' = Audit (db\<lparr>db_login_rules := rs\<rparr>) now fresh (u_ID act) ''org.login_rules.update'' ''org'' (aj_marshal_rules j items)"
    and rules: "rules = ListLoginRules db'"
    by (auto simp: ReplaceLoginRules_def org_ReplaceLoginRules_def requireOrgAdminActor_def CanUpdateOrgSettings_def
        IsOrgAdmin_def actor_of_def Let_def split: sum.splits if_splits)
  note i = login_rules_of_input_Inr [OF r0] insert_login_rules_Inr [OF ins]
  have "sort_key lr_Ord rs = rs" using i by (intro sorted_ords [of rs 0 "length items"]) simp
  then have l: "org_ListLoginRules db' = rs" by (simp add: org_ListLoginRules_def db')
  have "checkLoginRules db' (u_Email act)"
    using ev first_match_cong [of rs rules0] i l by (simp add: checkLoginRules_def EvaluateLoginRules_def)
  moreover have "users_ByID db' (u_ID act) = Inr act"
    using lookup_row_key [of u_ID "db_users db" act] assms(1,2) by (simp add: users_ByID_def db' db_ok_defs)
  ultimately have "u_Status act \<noteq> UserStatusDisabled \<longrightarrow> loadActiveUser db' (u_ID act) = Inr act"
    by (simp add: loadActiveUser_def validateAuthenticatable_def)
  with Inr adm rules l i show ?thesis by (simp add: ListLoginRules_def)
qed

definition api_json_example :: api_json where
  "api_json_example = \<lparr>aj_org = (\<lambda>_. Some (empty_org_doc\<lparr>od_open_mode := Some True\<rparr>)), aj_workspace = (\<lambda>_. None), aj_login_rules = (\<lambda>_. None),
     aj_user_patch = (\<lambda>_. Some \<lparr>up_Role = Some ''member'', up_Status = None, up_Disabled = None\<rparr>), aj_name = (\<lambda>b. Some b),
     aj_role = (\<lambda>b. Some b), aj_me_patch = (\<lambda>_. None), aj_value = (\<lambda>b. Some b), aj_cli_authorize = (\<lambda>_. None),
     aj_cli_token = (\<lambda>_. None), aj_ttl = (\<lambda>_. Some []), aj_marshal_map = (\<lambda>_. []), aj_marshal_org = (\<lambda>_. []),
     aj_marshal_workspace = (\<lambda>_. []), aj_marshal_rules = (\<lambda>_. [])\<rparr>"

definition admin_example :: User where
  "admin_example = \<lparr>u_ID = ''a1'', u_Provider = ProviderGoogle, u_ProviderSubject = ''s1'', u_Email = ''ann@x.org'', u_Name = ''Ann'',
     u_Role = RoleAdmin, u_Status = UserStatusActive, u_Language = [], u_CreatedAt = 0, u_UpdatedAt = 0\<rparr>"

definition admin_db :: DB where
  "admin_db = empty_db\<lparr>db_users := [admin_example], db_org := Some \<lparr>org_Name = ''x'', org_Settings = Blob empty_org_doc,
     org_SettingsGen = 1, org_CreatedAt = 0, org_UpdatedAt = 0\<rparr>\<rparr>"

definition rules_example :: "LoginRuleInput list" where
  "rules_example = [\<lparr>lri_Type = ''email_exact'', lri_Value = ''ann@x.org'', lri_Action = ''allow''\<rparr>,
     \<lparr>lri_Type = ''default'', lri_Value = [], lri_Action = ''deny''\<rparr>]"

lemma admin_db_ok: "db_ok admin_db"
  by (simp add: admin_db_def db_ok_defs empty_db_def claims_ok_def unique_on_def)

lemma rules_example_replaced:
  "is_ok (snd (ReplaceLoginRules api_json_example admin_db 0 (\<lambda>i. [char_of (97 + i)]) ''z'' admin_example rules_example))"
  by code_simp

theorem login_rules_keep_admin_witness:
  "\<exists>db' rules. ReplaceLoginRules api_json_example admin_db 0 (\<lambda>i. [char_of (97 + i)]) ''z'' admin_example rules_example = (db', Inr rules)
     \<and> map rule_input rules = rules_example \<and> loadActiveUser db' ''a1'' = Inr admin_example"
proof -
  obtain db' res where e: "ReplaceLoginRules api_json_example admin_db 0 (\<lambda>i. [char_of (97 + i)]) ''z'' admin_example rules_example = (db', res)"
    by fastforce
  with rules_example_replaced obtain rules where r: "res = Inr rules" by (auto simp: is_ok_def split: sum.splits)
  have "admin_example \<in> set (db_users admin_db)" "u_Status admin_example = UserStatusActive" "u_ID admin_example = ''a1''"
    by (simp_all add: admin_db_def admin_example_def)
  with login_rules_keep_admin [OF admin_db_ok _ e] r have "map rule_input rules = rules_example \<and> loadActiveUser db' ''a1'' = Inr admin_example"
    by auto
  with e r show ?thesis by blast
qed

end
