(* ===== verification/ApiWorkspaces.thy ===== *)
theory ApiWorkspaces
  imports ApiOrg
begin

text \<open>
  Workspace administration (server/internal/api/workspaces.go): creation with the creator as
  first admin, settings, membership with the last-admin guard, and deletion, which is refused
  while the workspace owns functions. The whole feature is off in open mode.
\<close>

definition resolveWorkspace :: "DB \<Rightarrow> string \<Rightarrow> service_error + WorkspaceRow \<times> Workspace" where
  "resolveWorkspace db workspaceID =
     (case workspaces_ByID db workspaceID of
        Inl e \<Rightarrow> Inl (if e = ErrNotFound then NotFoundErr else Internal)
      | Inr ws \<Rightarrow> (case ParseWorkspace (ws_Settings ws) of Inl _ \<Rightarrow> Inl Internal | Inr wsSet \<Rightarrow> Inr (ws, wsSet)))"

definition workspaceRoleFor :: "DB \<Rightarrow> string \<Rightarrow> string \<Rightarrow> Role option" where
  "workspaceRoleFor db wsID userID =
     map_option wm_Role (find (\<lambda>m. wm_UserID m = userID) (workspaces_ListMembers db wsID))"

definition ListWorkspaces :: "DB \<Rightarrow> User \<Rightarrow> WorkspaceRow list" where
  "ListWorkspaces db act =
     (if u_Role act = RoleAdmin then workspaces_ListAll db else workspaces_ListForUser db (u_ID act))"

definition handleWorkspacesList :: "DB \<Rightarrow> User \<Rightarrow> reply" where
  "handleWorkspacesList db act =
     ReplyWorkspaces (concat (map (\<lambda>ws. case ParseWorkspace (ws_Settings ws) of
          Inl _ \<Rightarrow> [] | Inr wsSet \<Rightarrow> [workspaceDTO ws wsSet]) (ListWorkspaces db act)))"

text \<open>The use case \<open>CreateWorkspace\<close>; the store's transaction has that name in theory Store.\<close>

definition api_CreateWorkspace ::
  "api_json \<Rightarrow> DB \<Rightarrow> int \<Rightarrow> string \<Rightarrow> string \<Rightarrow> User \<Rightarrow> string \<Rightarrow> DB \<times> (service_error + WorkspaceRow)" where
  "api_CreateWorkspace j db now fresh_ws fresh act name =
     (case openModeEnabled db of
        None \<Rightarrow> (db, Inl Internal)
      | Some openMode \<Rightarrow>
          if openMode then (db, Inl NotFoundErr)
          else if name = [] then (db, Inl (BadRequest ''invalid_name''))
          else if \<not> CanCreateWorkspace (actor_of act) then (db, Inl Forbidden)
          else case CreateWorkspace db (toUnix now) fresh_ws
                 \<lparr>ws_ID = [], ws_Name = name, ws_Settings = Blob (Workspace_JSON DefaultWorkspace), ws_SettingsGen = 1,
                  ws_CreatedAt = 0, ws_UpdatedAt = 0\<rparr> (u_ID act) of
            (db1, Inl _) \<Rightarrow> (db1, Inl Internal)
          | (db1, Inr ws) \<Rightarrow>
              (Audit db1 now fresh (u_ID act) ''workspace.create'' (''workspace:'' @ ws_ID ws)
                 (aj_marshal_map j [(''name'', Some name)]), Inr ws))"

definition handleWorkspaceCreate :: "api_json \<Rightarrow> DB \<Rightarrow> int \<Rightarrow> string \<Rightarrow> string \<Rightarrow> User \<Rightarrow> bytes \<Rightarrow> DB \<times> reply" where
  "handleWorkspaceCreate j db now fresh_ws fresh act body =
     (case aj_name j body of
        None \<Rightarrow> (db, invalid_body)
      | Some name \<Rightarrow>
          (case api_CreateWorkspace j db now fresh_ws fresh act name of
             (db', Inl e) \<Rightarrow> (db', writeServiceError e)
           | (db', Inr ws) \<Rightarrow> (db', ReplyWorkspace 201 (workspaceDTO ws DefaultWorkspace) None)))"

definition GetWorkspace :: "DB \<Rightarrow> User \<Rightarrow> string \<Rightarrow> service_error + WorkspaceRow \<times> Workspace \<times> WorkspaceMember list" where
  "GetWorkspace db act workspaceID =
     (case resolveWorkspace db workspaceID of
        Inl e \<Rightarrow> Inl e
      | Inr (ws, wsSet) \<Rightarrow>
          if u_Role act \<noteq> RoleAdmin \<and> workspaceRoleFor db (ws_ID ws) (u_ID act) = None then Inl NotFoundErr
          else Inr (ws, wsSet, workspaces_ListMembers db (ws_ID ws)))"

definition member_dto :: "WorkspaceMember \<Rightarrow> string \<times> string" where
  "member_dto m = (wm_UserID m, role_String (wm_Role m))"

definition handleWorkspaceGet :: "DB \<Rightarrow> User \<Rightarrow> string \<Rightarrow> reply" where
  "handleWorkspaceGet db act workspaceID =
     (case GetWorkspace db act workspaceID of
        Inl e \<Rightarrow> writeServiceError e
      | Inr (ws, wsSet, members) \<Rightarrow> ReplyWorkspace 200 (workspaceDTO ws wsSet) (Some (map member_dto members)))"

definition requireManageWorkspaceActor :: "DB \<Rightarrow> User \<Rightarrow> string \<Rightarrow> service_error + unit" where
  "requireManageWorkspaceActor db act wsID =
     (if \<not> CanManageWorkspace (actor_of act) (workspaceRoleFor db wsID (u_ID act)) then Inl Forbidden else Inr ())"

text \<open>Decoding over the current settings keeps what the body omits.\<close>

definition overlay_workspace :: "Workspace \<Rightarrow> workspace_doc \<Rightarrow> Workspace" where
  "overlay_workspace w d = \<lparr>
     sw_FetchPolicy = overlay_fetch (sw_FetchPolicy w) (wd_fetch_policy d),
     sw_DefaultVisibility = overlay (sw_DefaultVisibility w) (wd_default_visibility d),
     sw_MaxVisibility = overlay (sw_MaxVisibility w) (wd_max_visibility d),
     sw_MemberCanDeploy = overlay (sw_MemberCanDeploy w) (wd_member_can_deploy d),
     sw_MaxFunctionsPerMember = overlay (sw_MaxFunctionsPerMember w) (wd_max_functions_per_member d)\<rparr>"

definition merged_workspace :: "api_json \<Rightarrow> DB \<Rightarrow> User \<Rightarrow> string \<Rightarrow> bytes \<Rightarrow> reply + Workspace \<times> WorkspaceRow" where
  "merged_workspace j db act workspaceID body =
     (case resolveWorkspace db workspaceID of
        Inl e \<Rightarrow> Inl (writeServiceError e)
      | Inr (ws, wsSet0) \<Rightarrow>
     (case requireManageWorkspaceActor db act (ws_ID ws) of
        Inl e \<Rightarrow> Inl (writeServiceError e)
      | Inr _ \<Rightarrow>
     (case aj_workspace j body of
        None \<Rightarrow> Inl invalid_body
      | Some d \<Rightarrow>
          let wsSet = overlay_workspace wsSet0 d in
          Inr (wsSet, ws\<lparr>ws_Settings := Blob (Workspace_JSON wsSet), ws_SettingsGen := ws_SettingsGen ws + 1\<rparr>))))"

definition handleWorkspacePatch :: "api_json \<Rightarrow> DB \<Rightarrow> int \<Rightarrow> string \<Rightarrow> User \<Rightarrow> string \<Rightarrow> bytes \<Rightarrow> DB \<times> reply" where
  "handleWorkspacePatch j db now fresh act workspaceID body =
     (case merged_workspace j db act workspaceID body of
        Inl rep \<Rightarrow> (db, rep)
      | Inr (wsSet, ws') \<Rightarrow>
          (case workspaces_Update db (toUnix now) ws' of
             (db1, Inl _) \<Rightarrow> (db1, writeServiceError Internal)
           | (db1, Inr _) \<Rightarrow>
               (Audit db1 now fresh (u_ID act) ''workspace.settings.update'' (''workspace:'' @ ws_ID ws')
                  (aj_marshal_workspace j wsSet),
                ReplyWorkspace 200 (workspaceDTO ws' wsSet) None)))"

definition handleWorkspaceDelete :: "api_json \<Rightarrow> DB \<Rightarrow> int \<Rightarrow> string \<Rightarrow> User \<Rightarrow> string \<Rightarrow> DB \<times> reply" where
  "handleWorkspaceDelete j db now fresh act workspaceID =
     (case resolveWorkspace db workspaceID of
        Inl e \<Rightarrow> (db, writeServiceError e)
      | Inr (ws, _) \<Rightarrow>
     (case requireManageWorkspaceActor db act (ws_ID ws) of
        Inl e \<Rightarrow> (db, writeServiceError e)
      | Inr _ \<Rightarrow>
          if functions_ListByOwner db OwnerTypeWorkspace (ws_ID ws) \<noteq> [] then (db, ReplyError 409 ''workspace_not_empty'')
          else case workspaces_Delete db (ws_ID ws) of
            (db1, Inl _) \<Rightarrow> (db1, writeServiceError Internal)
          | (db1, Inr _) \<Rightarrow>
              (Audit db1 now fresh (u_ID act) ''workspace.delete'' (''workspace:'' @ ws_ID ws)
                 (aj_marshal_map j [(''name'', Some (ws_Name ws))]), ReplyNoContent)))"

section \<open>Members\<close>

definition handleWorkspaceMemberGet :: "DB \<Rightarrow> User \<Rightarrow> string \<Rightarrow> string \<Rightarrow> reply" where
  "handleWorkspaceMemberGet db act workspaceID userID =
     (case GetWorkspace db act workspaceID of
        Inl e \<Rightarrow> writeServiceError e
      | Inr (_, _, members) \<Rightarrow>
          (case find (\<lambda>m. wm_UserID m = userID) members of
             Some m \<Rightarrow> ReplyMember (wm_UserID m) (role_String (wm_Role m))
           | None \<Rightarrow> writeServiceError NotFoundErr))"

definition countOtherWSAdmins :: "WorkspaceMember list \<Rightarrow> string \<Rightarrow> nat" where
  "countOtherWSAdmins members excludeUserID =
     length (filter (\<lambda>m. wm_UserID m \<noteq> excludeUserID \<and> wm_Role m = RoleAdmin) members)"

definition LastAdmin :: service_error where
  "LastAdmin = \<lparr>err_Status = 409, err_Code = ''last_admin''\<rparr>"

text \<open>
  The requested role is the string of the request; any string but the two roles of a workspace
  is refused.
\<close>

definition SetWorkspaceMember ::
  "api_json \<Rightarrow> DB \<Rightarrow> int \<Rightarrow> string \<Rightarrow> User \<Rightarrow> string \<Rightarrow> string \<Rightarrow> string \<Rightarrow> DB \<times> (service_error + unit)" where
  "SetWorkspaceMember j db now fresh act workspaceID userID roleStr =
     (case resolveWorkspace db workspaceID of
        Inl e \<Rightarrow> (db, Inl e)
      | Inr (ws, _) \<Rightarrow>
     (case requireManageWorkspaceActor db act (ws_ID ws) of
        Inl e \<Rightarrow> (db, Inl e)
      | Inr _ \<Rightarrow>
     (case role_of roleStr of
        None \<Rightarrow> (db, Inl (BadRequest ''invalid_role''))
      | Some role \<Rightarrow>
          if role \<noteq> RoleAdmin \<and> role \<noteq> RoleMember then (db, Inl (BadRequest ''invalid_role''))
          else if \<not> is_ok (users_ByID db userID) then (db, Inl NotFoundErr)
          else
            let members = workspaces_ListMembers db (ws_ID ws);
                existing = find (\<lambda>m. wm_UserID m = userID) members in
            if (case existing of None \<Rightarrow> False | Some m \<Rightarrow> wm_Role m = RoleAdmin) \<and> role \<noteq> RoleAdmin
               \<and> countOtherWSAdmins members userID = 0 then (db, Inl LastAdmin)
            else case (case existing of
                None \<Rightarrow> workspaces_AddMember db (toUnix now) \<lparr>wm_WorkspaceID = ws_ID ws, wm_UserID = userID,
                          wm_Role = role, wm_CreatedAt = 0, wm_UpdatedAt = 0\<rparr>
              | Some _ \<Rightarrow> workspaces_UpdateMemberRole db (toUnix now) (ws_ID ws) userID role) of
              (db1, Inl _) \<Rightarrow> (db1, Inl Internal)
            | (db1, Inr _) \<Rightarrow>
                (Audit db1 now fresh (u_ID act) ''workspace.member.update'' (''workspace:'' @ ws_ID ws)
                   (aj_marshal_map j [(''user_id'', Some userID), (''role'', Some roleStr)]), Inr ()))))"

definition handleWorkspaceMemberPut ::
  "api_json \<Rightarrow> DB \<Rightarrow> int \<Rightarrow> string \<Rightarrow> User \<Rightarrow> string \<Rightarrow> string \<Rightarrow> bytes \<Rightarrow> DB \<times> reply" where
  "handleWorkspaceMemberPut j db now fresh act workspaceID userID body =
     (case aj_role j body of
        None \<Rightarrow> (db, invalid_body)
      | Some role \<Rightarrow>
          (case SetWorkspaceMember j db now fresh act workspaceID userID role of
             (db', Inl e) \<Rightarrow> (db', writeServiceError e)
           | (db', Inr _) \<Rightarrow> (db', ReplyMember userID role)))"

definition RemoveWorkspaceMember ::
  "api_json \<Rightarrow> DB \<Rightarrow> int \<Rightarrow> string \<Rightarrow> User \<Rightarrow> string \<Rightarrow> string \<Rightarrow> DB \<times> (service_error + unit)" where
  "RemoveWorkspaceMember j db now fresh act workspaceID userID =
     (case resolveWorkspace db workspaceID of
        Inl e \<Rightarrow> (db, Inl e)
      | Inr (ws, _) \<Rightarrow>
     (case requireManageWorkspaceActor db act (ws_ID ws) of
        Inl e \<Rightarrow> (db, Inl e)
      | Inr _ \<Rightarrow>
          let members = workspaces_ListMembers db (ws_ID ws) in
          if list_ex (\<lambda>m. wm_UserID m = userID \<and> wm_Role m = RoleAdmin \<and> countOtherWSAdmins members userID = 0) members
            then (db, Inl LastAdmin)
          else case workspaces_RemoveMember db (ws_ID ws) userID of
            (db1, Inl e) \<Rightarrow> (db1, Inl (if e = ErrNotFound then NotFoundErr else Internal))
          | (db1, Inr _) \<Rightarrow>
              (Audit db1 now fresh (u_ID act) ''workspace.member.remove'' (''workspace:'' @ ws_ID ws)
                 (aj_marshal_map j [(''user_id'', Some userID)]), Inr ())))"

definition handleWorkspaceMemberDelete ::
  "api_json \<Rightarrow> DB \<Rightarrow> int \<Rightarrow> string \<Rightarrow> User \<Rightarrow> string \<Rightarrow> string \<Rightarrow> DB \<times> reply" where
  "handleWorkspaceMemberDelete j db now fresh act workspaceID userID =
     (case RemoveWorkspaceMember j db now fresh act workspaceID userID of
        (db', Inl e) \<Rightarrow> (db', writeServiceError e)
      | (db', Inr _) \<Rightarrow> (db', ReplyNoContent))"

section \<open>Routing\<close>

definition routeWorkspaces ::
  "api_json \<Rightarrow> DB \<Rightarrow> int \<Rightarrow> (nat \<Rightarrow> string) \<Rightarrow> User \<Rightarrow> api_request \<Rightarrow> string list \<Rightarrow> DB \<times> reply" where
  "routeWorkspaces j db now fresh act r rest =
     (let m = rq_Method (ar_req r) in
      case openModeEnabled db of
        None \<Rightarrow> (db, writeServiceError Internal)
      | Some openMode \<Rightarrow>
      if openMode then (db, unknown_route)
      else case rest of
        [] \<Rightarrow>
          (if m = ''GET'' then (db, handleWorkspacesList db act)
           else if m = ''POST'' then handleWorkspaceCreate j db now (fresh 1) (fresh 0) act (ar_Body r)
           else (db, method_not_allowed))
      | [ws] \<Rightarrow>
          (if m = ''GET'' then (db, handleWorkspaceGet db act ws)
           else if m = ''PATCH'' then handleWorkspacePatch j db now (fresh 0) act ws (ar_Body r)
           else if m = ''DELETE'' then handleWorkspaceDelete j db now (fresh 0) act ws
           else (db, method_not_allowed))
      | [ws, kind, userID] \<Rightarrow>
          if kind = ''members'' then
            (if m = ''GET'' then (db, handleWorkspaceMemberGet db act ws userID)
             else if m = ''PUT'' then handleWorkspaceMemberPut j db now (fresh 0) act ws userID (ar_Body r)
             else if m = ''DELETE'' then handleWorkspaceMemberDelete j db now (fresh 0) act ws userID
             else (db, method_not_allowed))
          else (db, unknown_route)
      | _ \<Rightarrow> (db, unknown_route))"

section \<open>Governance is kept\<close>

lemma image_update_rows: "(\<And>r. p r \<Longrightarrow> k (f r) = k r) \<Longrightarrow> k ` set (update_rows p f rows) = k ` set rows"
  by (induction rows) (auto simp: update_rows_def)

lemma CreateWorkspace_governed:
  assumes g: "governed db" and o: "openModeEnabled db \<noteq> Some True"
  shows "governed (fst (CreateWorkspace db now fresh w0 u))"
proof -
  let ?d = "fst (CreateWorkspace db now fresh w0 u)"
  have "db_ok ?d" using g by (simp add: CreateWorkspace_ok governed_def)
  moreover have "openModeEnabled ?d = openModeEnabled db"
    by (rule openModeEnabled_cong) (simp add: CreateWorkspace_def Let_def)
  ultimately show ?thesis using g o
    by (auto simp: governed_defs CreateWorkspace_def Let_def)
qed

lemma workspaces_Update_governed:
  assumes g: "governed db"
  shows "governed (fst (workspaces_Update db now w))"
proof -
  let ?d = "fst (workspaces_Update db now w)"
  have ids: "ws_ID ` set (db_workspaces ?d) = ws_ID ` set (db_workspaces db)"
    by (simp add: workspaces_Update_def image_update_rows del: set_update_rows)
  have "db_ok ?d" using g by (simp add: workspaces_Update_ok governed_def)
  moreover have "openModeEnabled ?d = openModeEnabled db"
    by (rule openModeEnabled_cong) (simp add: workspaces_Update_def)
  moreover have "db_workspaces ?d = [] \<longleftrightarrow> db_workspaces db = []"
    using ids by (metis image_is_empty set_empty)
  moreover have "db_users ?d = db_users db" "db_members ?d = db_members db" "db_functions ?d = db_functions db"
    by (simp_all add: workspaces_Update_def)
  moreover have "workspaces_administered db" "owners_exist db" using g by (simp_all add: governed_def)
  then have "workspaces_administered ?d" "owners_exist ?d"
    using ids calculation(4-6) unfolding workspaces_administered_def owners_exist_def has_row_def by (metis imageE imageI)+
  ultimately show ?thesis using g by (simp add: governed_def has_admin_def open_mode_exclusive_def)
qed

lemma workspaces_Delete_governed:
  assumes g: "governed db" and none: "functions_ListByOwner db OwnerTypeWorkspace i = []"
  shows "governed (fst (workspaces_Delete db i))"
proof -
  let ?d = "fst (workspaces_Delete db i)"
  have "\<forall>f \<in> set (db_functions db). fn_OwnerType f = OwnerTypeWorkspace \<longrightarrow> fn_OwnerID f \<noteq> i"
    using none by (auto simp: functions_ListByOwner_def sort_key_Nil filter_empty_conv owned_by_def)
  moreover have "db_ok ?d" using g by (simp add: workspaces_Delete_ok governed_def)
  moreover have "openModeEnabled ?d = openModeEnabled db"
    by (rule openModeEnabled_cong) (simp add: workspaces_Delete_def)
  moreover have "workspaces_administered ?d" "owners_exist ?d"
    using g calculation(1) unfolding governed_defs workspaces_Delete_def has_row_iff by (fastforce, fastforce)
  ultimately show ?thesis using g
    by (auto simp: governed_def has_admin_def open_mode_exclusive_def workspaces_Delete_def delete_rows_def)
qed

lemma AddMember_governed:
  assumes g: "governed db"
  shows "governed (fst (workspaces_AddMember db now m))"
proof -
  let ?d = "fst (workspaces_AddMember db now m)"
  have "db_ok ?d" using g by (simp add: workspaces_AddMember_ok governed_def)
  moreover have "openModeEnabled ?d = openModeEnabled db"
    by (rule openModeEnabled_cong) (simp add: workspaces_AddMember_def Let_def)
  ultimately show ?thesis using g
    by (auto simp: governed_defs workspaces_AddMember_def Let_def)
qed

text \<open>The guard of the two operations that can take an admin away.\<close>

definition other_admin :: "DB \<Rightarrow> string \<Rightarrow> string \<Rightarrow> bool" where
  "other_admin db w u = (\<exists>m \<in> set (db_members db). wm_WorkspaceID m = w \<and> wm_UserID m \<noteq> u \<and> wm_Role m = RoleAdmin)"

lemma countOtherWSAdmins_0: "countOtherWSAdmins (workspaces_ListMembers db w) u = 0 \<longleftrightarrow> \<not> other_admin db w u"
  by (auto simp: countOtherWSAdmins_def workspaces_ListMembers_def other_admin_def filter_empty_conv)

lemma UpdateMemberRole_governed:
  assumes g: "governed db" and guard: "role = RoleAdmin \<or> other_admin db w u
    \<or> \<not> (\<exists>m \<in> set (db_members db). is_member w u m \<and> wm_Role m = RoleAdmin)"
  shows "governed (fst (workspaces_UpdateMemberRole db now w u role))"
proof -
  let ?d = "fst (workspaces_UpdateMemberRole db now w u role)"
  have "db_ok ?d" using g by (simp add: workspaces_UpdateMemberRole_ok governed_def)
  moreover have "openModeEnabled ?d = openModeEnabled db"
    by (rule openModeEnabled_cong) (simp add: workspaces_UpdateMemberRole_def)
  moreover have "workspaces_administered ?d" if "list_ex (is_member w u) (db_members db)"
    unfolding workspaces_administered_def
  proof
    let ?f = "\<lambda>m. if is_member w u m then m\<lparr>wm_Role := role, wm_UpdatedAt := now\<rparr> else m"
    have d: "set (db_members ?d) = ?f ` set (db_members db)" using that by (simp only: workspaces_UpdateMemberRole_def if_False not_True_eq_False fst_conv set_update_rows) simp
    fix v assume "v \<in> set (db_workspaces ?d)"
    then have "v \<in> set (db_workspaces db)" by (simp add: workspaces_UpdateMemberRole_def split: if_splits)
    with g obtain m where m: "m \<in> set (db_members db)" "wm_WorkspaceID m = ws_ID v" "wm_Role m = RoleAdmin"
      by (auto simp: governed_def workspaces_administered_def)
    show "\<exists>m \<in> set (db_members ?d). wm_WorkspaceID m = ws_ID v \<and> wm_Role m = RoleAdmin"
    proof (cases "is_member w u m \<and> role \<noteq> RoleAdmin")
      case True
      with guard m obtain m' where "m' \<in> set (db_members db)" "wm_WorkspaceID m' = w" "wm_UserID m' \<noteq> u" "wm_Role m' = RoleAdmin"
        by (auto simp: other_admin_def)
      with True m d show ?thesis by (auto simp: image_iff is_member_def)
    next
      case False
      then have "wm_WorkspaceID (?f m) = ws_ID v \<and> wm_Role (?f m) = RoleAdmin" using m by simp
      moreover have "?f m \<in> set (db_members ?d)" unfolding d using m(1) by (rule imageI)
      ultimately show ?thesis by blast
    qed
  qed
  ultimately show ?thesis using g
    by (cases "list_ex (is_member w u) (db_members db)")
      (simp_all add: governed_def has_admin_def open_mode_exclusive_def owners_exist_def workspaces_UpdateMemberRole_def)
qed

lemma RemoveMember_governed:
  assumes g: "governed db" and guard: "other_admin db w u
    \<or> \<not> (\<exists>m \<in> set (db_members db). is_member w u m \<and> wm_Role m = RoleAdmin)"
  shows "governed (fst (workspaces_RemoveMember db w u))"
proof -
  let ?d = "fst (workspaces_RemoveMember db w u)"
  have "db_ok ?d" using g by (simp add: workspaces_RemoveMember_ok governed_def)
  moreover have "openModeEnabled ?d = openModeEnabled db"
    by (rule openModeEnabled_cong) (simp add: workspaces_RemoveMember_def)
  moreover have "workspaces_administered ?d" if "list_ex (is_member w u) (db_members db)"
    unfolding workspaces_administered_def
  proof
    have d: "set (db_members ?d) = {m \<in> set (db_members db). \<not> is_member w u m}"
      using that by (auto simp: workspaces_RemoveMember_def)
    fix v assume "v \<in> set (db_workspaces ?d)"
    then have "v \<in> set (db_workspaces db)" by (simp add: workspaces_RemoveMember_def split: if_splits)
    with g obtain m where m: "m \<in> set (db_members db)" "wm_WorkspaceID m = ws_ID v" "wm_Role m = RoleAdmin"
      by (auto simp: governed_def workspaces_administered_def)
    show "\<exists>m \<in> set (db_members ?d). wm_WorkspaceID m = ws_ID v \<and> wm_Role m = RoleAdmin"
    proof (cases "is_member w u m")
      case True
      with guard m obtain m' where "m' \<in> set (db_members db)" "wm_WorkspaceID m' = w" "wm_UserID m' \<noteq> u" "wm_Role m' = RoleAdmin"
        by (auto simp: other_admin_def)
      with True m d show ?thesis by (auto simp: is_member_def)
    next
      case False
      with m d show ?thesis by auto
    qed
  qed
  ultimately show ?thesis using g
    by (cases "list_ex (is_member w u) (db_members db)")
      (simp_all add: governed_def has_admin_def open_mode_exclusive_def owners_exist_def workspaces_RemoveMember_def)
qed

lemma api_CreateWorkspace_governed: "governed db \<Longrightarrow> governed (fst (api_CreateWorkspace j db now fw fresh act name))"
  unfolding api_CreateWorkspace_def Let_def
  by (auto split: option.splits if_splits intro!: keep_case [where P = governed] CreateWorkspace_governed Audit_governed)

lemma SetWorkspaceMember_governed:
  assumes g: "governed db"
  shows "governed (fst (SetWorkspaceMember j db now fresh act wsid userID role))"
proof -
  have member: "find (\<lambda>m. wm_UserID m = userID) (workspaces_ListMembers db w) = Some m
      \<Longrightarrow> (\<exists>m' \<in> set (db_members db). is_member w userID m' \<and> wm_Role m' = RoleAdmin) \<longrightarrow> wm_Role m = RoleAdmin" for w m
  proof (intro impI, elim bexE conjE)
    fix m' assume "find (\<lambda>m. wm_UserID m = userID) (workspaces_ListMembers db w) = Some m"
      "m' \<in> set (db_members db)" "is_member w userID m'" "wm_Role m' = RoleAdmin"
    moreover have "unique_on (\<lambda>m. (wm_WorkspaceID m, wm_UserID m)) (db_members db)" using g by (simp add: governed_def db_ok_defs)
    ultimately show "wm_Role m = RoleAdmin"
      using unique_on_inj [of "\<lambda>m. (wm_WorkspaceID m, wm_UserID m)" "db_members db" m m']
      by (auto simp: workspaces_ListMembers_def is_member_def find_Some_iff2 dest!: lookup_row_Some [unfolded lookup_row_def])
  qed
  show ?thesis
    unfolding SetWorkspaceMember_def Let_def
    using g member by (auto simp: countOtherWSAdmins_0 split: sum.splits option.splits if_splits
      intro!: keep_case [where P = governed] AddMember_governed UpdateMemberRole_governed Audit_governed)
qed

lemma RemoveWorkspaceMember_governed:
  assumes g: "governed db"
  shows "governed (fst (RemoveWorkspaceMember j db now fresh act wsid userID))"
proof -
  have "set (workspaces_ListMembers db w) = {m \<in> set (db_members db). wm_WorkspaceID m = w}" for w
    by (auto simp: workspaces_ListMembers_def)
  then show ?thesis
    unfolding RemoveWorkspaceMember_def Let_def
    using g by (auto simp: list_ex_iff countOtherWSAdmins_0 is_member_def
        split: sum.splits intro!: keep_case [where P = governed] RemoveMember_governed Audit_governed)
qed

lemma routeWorkspaces_governed:
  assumes g: "governed db"
  shows "governed (fst (routeWorkspaces j db now fresh act r rest))"
proof -
  have "governed (fst (handleWorkspaceCreate j db now a b act x))" for a b x
    unfolding handleWorkspaceCreate_def
    using g by (auto split: option.splits intro!: keep_case [where P = governed] api_CreateWorkspace_governed)
  moreover have "governed (fst (handleWorkspacePatch j db now a act w x))" for a w x
    unfolding handleWorkspacePatch_def merged_workspace_def Let_def
    using g by (auto split: option.splits sum.splits intro!: keep_case [where P = governed] workspaces_Update_governed Audit_governed)
  moreover have "governed (fst (handleWorkspaceDelete j db now a act w))" for a w
    unfolding handleWorkspaceDelete_def
    using g by (auto split: sum.splits if_splits intro!: keep_case [where P = governed] workspaces_Delete_governed Audit_governed)
  moreover have "governed (fst (handleWorkspaceMemberPut j db now a act w u x))" for a w u x
    unfolding handleWorkspaceMemberPut_def
    using g by (auto split: option.splits intro!: keep_case [where P = governed] SetWorkspaceMember_governed)
  moreover have "governed (fst (handleWorkspaceMemberDelete j db now a act w u))" for a w u
    unfolding handleWorkspaceMemberDelete_def
    using g by (auto intro!: keep_case [where P = governed] RemoveWorkspaceMember_governed)
  ultimately show ?thesis using g
    by (auto simp: routeWorkspaces_def Let_def split: option.splits list.splits)
qed

end
