(* ===== verification/RateLimit.thy ===== *)
theory RateLimit
  imports Prelude Complex_Main
begin

text \<open>
  The token bucket in front of the client registration endpoint
  (server/internal/oauth/ratelimit.go). Times and durations are nanoseconds; the
  fractional token count, a float64 in the code, is an exact rational here, so the
  rounding of the floating point arithmetic is not modelled.
\<close>

section \<open>The limiter (ratelimit.go)\<close>

definition registerRateBurst :: int where
  "registerRateBurst = 20"

definition registerRateRefillInterval :: int where
  "registerRateRefillInterval = 6 * 10 ^ 9"

definition registerBucketIdleEvict :: int where
  "registerBucketIdleEvict = 30 * 60 * 10 ^ 9"

record bucket =
  bk_tokens :: rat
  bk_lastSeen :: int

record ipRateLimiter =
  rl_burst :: rat
  rl_interval :: int
  rl_buckets :: "string \<Rightarrow> bucket option"
  rl_calls :: nat

definition newIPRateLimiter :: "int \<Rightarrow> int \<Rightarrow> ipRateLimiter" where
  "newIPRateLimiter burst interval =
     \<lparr>rl_burst = of_int burst, rl_interval = interval, rl_buckets = (\<lambda>_. None), rl_calls = 0\<rparr>"

text \<open>The sweep of every thousandth call.\<close>

definition evict_idle :: "int \<Rightarrow> (string \<Rightarrow> bucket option) \<Rightarrow> string \<Rightarrow> bucket option" where
  "evict_idle now bs k =
     (case bs k of None \<Rightarrow> None
      | Some v \<Rightarrow> if now - bk_lastSeen v > registerBucketIdleEvict then None else Some v)"

definition allow :: "ipRateLimiter \<Rightarrow> int \<Rightarrow> string \<Rightarrow> ipRateLimiter \<times> bool" where
  "allow l now key =
     (let tokens = (case rl_buckets l key of
            None \<Rightarrow> rl_burst l
          | Some b \<Rightarrow> min (rl_burst l) (bk_tokens b + of_int (now - bk_lastSeen b) / of_int (rl_interval l)));
          buckets = (rl_buckets l)(key \<mapsto> \<lparr>bk_tokens = tokens, bk_lastSeen = now\<rparr>);
          calls = rl_calls l + 1;
          buckets = (if calls mod 1000 = 0 then evict_idle now buckets else buckets) in
      if tokens < 1 then (l\<lparr>rl_buckets := buckets, rl_calls := calls\<rparr>, False)
      else (l\<lparr>rl_buckets := buckets(key \<mapsto> \<lparr>bk_tokens = tokens - 1, bk_lastSeen = now\<rparr>), rl_calls := calls\<rparr>, True))"

fun allow_run :: "ipRateLimiter \<Rightarrow> (int \<times> string) list \<Rightarrow> ipRateLimiter \<times> bool list" where
  "allow_run l [] = (l, [])"
| "allow_run l ((now, key) # calls) =
     (let (l1, d) = allow l now key; (l2, ds) = allow_run l1 calls in (l2, d # ds))"

section \<open>What a source may still spend\<close>

text \<open>
  The abstraction: for each source the tokens available to it at a given time. A source
  without a bucket has the full burst, so forgetting a bucket is invisible as long as it
  has had the time to fill up.
\<close>

definition bucket_avail :: "rat \<Rightarrow> int \<Rightarrow> int \<Rightarrow> bucket option \<Rightarrow> rat" where
  "bucket_avail burst interval now b =
     (case b of None \<Rightarrow> burst | Some b \<Rightarrow> min burst (bk_tokens b + of_int (now - bk_lastSeen b) / of_int interval))"

definition avail :: "ipRateLimiter \<Rightarrow> int \<Rightarrow> string \<Rightarrow> rat" where
  "avail l now k = bucket_avail (rl_burst l) (rl_interval l) now (rl_buckets l k)"

lemma avail_buckets:
  "avail (l\<lparr>rl_buckets := B, rl_calls := n\<rparr>) now k = bucket_avail (rl_burst l) (rl_interval l) now (B k)"
  by (simp add: avail_def)

definition limiter_inv :: "ipRateLimiter \<Rightarrow> int \<Rightarrow> bool" where
  "limiter_inv l now \<longleftrightarrow> 0 < rl_interval l \<and> 0 \<le> rl_burst l
     \<and> rl_burst l * of_int (rl_interval l) \<le> of_int registerBucketIdleEvict
     \<and> (\<forall>k b. rl_buckets l k = Some b \<longrightarrow> 0 \<le> bk_tokens b \<and> bk_tokens b \<le> rl_burst l \<and> bk_lastSeen b \<le> now)"

lemma limiter_inv_later: "limiter_inv l t \<Longrightarrow> t \<le> t' \<Longrightarrow> limiter_inv l t'"
  by (force simp: limiter_inv_def)

lemma new_inv: "limiter_inv (newIPRateLimiter registerRateBurst registerRateRefillInterval) t"
  by (simp add: limiter_inv_def newIPRateLimiter_def registerRateBurst_def registerRateRefillInterval_def registerBucketIdleEvict_def)

lemma avail_nonneg: "limiter_inv l t \<Longrightarrow> 0 \<le> avail l t k"
  by (auto simp: limiter_inv_def avail_def bucket_avail_def split: option.split)

lemma avail_burst: "avail l t k \<le> rl_burst l"
  by (auto simp: avail_def bucket_avail_def split: option.split)

text \<open>Waiting fills the bucket at one token per interval, up to the burst.\<close>

lemma avail_later:
  assumes "limiter_inv l t" "t \<le> t'"
  shows "avail l t' k = min (rl_burst l) (avail l t k + of_int (t' - t) / of_int (rl_interval l))"
proof (cases "rl_buckets l k")
  case None
  then show ?thesis using assms by (simp add: avail_def bucket_avail_def limiter_inv_def)
next
  case (Some b)
  have "of_int (t' - bk_lastSeen b) / of_int (rl_interval l)
      = of_int (t - bk_lastSeen b) / of_int (rl_interval l) + of_int (t' - t) / (of_int (rl_interval l) :: rat)"
    by (simp add: add_divide_distrib [symmetric])
  moreover have "0 \<le> of_int (t' - t) / (of_int (rl_interval l) :: rat)" using assms by (simp add: limiter_inv_def)
  ultimately show ?thesis using Some by (simp add: avail_def bucket_avail_def min_def add.assoc)
qed

lemma evicted_full:
  assumes "limiter_inv l now" "rl_buckets l k = Some b" "now - bk_lastSeen b > registerBucketIdleEvict"
  shows "avail l now k = rl_burst l"
proof -
  have i: "0 < (of_int (rl_interval l) :: rat)" and cap: "rl_burst l * of_int (rl_interval l) \<le> of_int registerBucketIdleEvict"
    and b: "0 \<le> bk_tokens b" using assms(1,2) by (auto simp: limiter_inv_def)
  have "rl_burst l * of_int (rl_interval l) \<le> of_int (now - bk_lastSeen b)"
    using cap assms(3) by (meson less_le_not_le of_int_le_iff order_trans)
  then have "rl_burst l \<le> of_int (now - bk_lastSeen b) / of_int (rl_interval l)" using i by (simp add: pos_le_divide_eq)
  then show ?thesis using b assms(2) by (simp add: avail_def bucket_avail_def)
qed

lemma allow_shape:
  assumes "limiter_inv l now"
  shows "\<exists>B. allow l now key = (l\<lparr>rl_buckets := B, rl_calls := rl_calls l + 1\<rparr>, 1 \<le> avail l now key)
    \<and> B key = Some \<lparr>bk_tokens = avail l now key - (if 1 \<le> avail l now key then 1 else 0), bk_lastSeen = now\<rparr>
    \<and> (\<forall>k. k \<noteq> key \<longrightarrow> B k = rl_buckets l k \<or> B k = None \<and> avail l now k = rl_burst l)"
proof -
  let ?t = "avail l now key"
  define bs where "bs = (rl_buckets l)(key \<mapsto> \<lparr>bk_tokens = ?t, bk_lastSeen = now\<rparr>)"
  define bs2 where "bs2 = (if (rl_calls l + 1) mod 1000 = 0 then evict_idle now bs else bs)"
  have al: "allow l now key = (if ?t < 1 then (l\<lparr>rl_buckets := bs2, rl_calls := rl_calls l + 1\<rparr>, False)
      else (l\<lparr>rl_buckets := bs2(key \<mapsto> \<lparr>bk_tokens = ?t - 1, bk_lastSeen = now\<rparr>), rl_calls := rl_calls l + 1\<rparr>, True))"
    by (simp add: allow_def avail_def bucket_avail_def bs_def bs2_def Let_def)
  have own: "bs2 key = Some \<lparr>bk_tokens = ?t, bk_lastSeen = now\<rparr>" by (simp add: bs2_def bs_def evict_idle_def registerBucketIdleEvict_def)
  have "bs2 k = rl_buckets l k \<or> bs2 k = None \<and> avail l now k = rl_burst l" if "k \<noteq> key" for k
    using that evicted_full [OF assms, of k] by (auto simp: bs2_def bs_def evict_idle_def split: option.split)
  then show ?thesis using al own
    by (intro exI [of _ "if ?t < 1 then bs2 else bs2(key \<mapsto> \<lparr>bk_tokens = ?t - 1, bk_lastSeen = now\<rparr>)"]) auto
qed

text \<open>
  The refinement: the decision is whether a token is available, a grant takes exactly
  one token from its source, and neither bookkeeping nor eviction touches any other.
\<close>

lemma allow_refines:
  assumes "limiter_inv l now"
  shows "snd (allow l now key) \<longleftrightarrow> 1 \<le> avail l now key"
    and "avail (fst (allow l now key)) now k = avail l now k - (if k = key \<and> snd (allow l now key) then 1 else 0)"
    and "limiter_inv (fst (allow l now key)) now"
    and "rl_burst (fst (allow l now key)) = rl_burst l" "rl_interval (fst (allow l now key)) = rl_interval l"
proof -
  obtain B where al: "allow l now key = (l\<lparr>rl_buckets := B, rl_calls := rl_calls l + 1\<rparr>, 1 \<le> avail l now key)"
    and own: "B key = Some \<lparr>bk_tokens = avail l now key - (if 1 \<le> avail l now key then 1 else 0), bk_lastSeen = now\<rparr>"
    and kept: "\<And>k. k \<noteq> key \<Longrightarrow> B k = rl_buckets l k \<or> B k = None \<and> avail l now k = rl_burst l"
    using allow_shape [OF assms, of key] by blast
  have t: "0 \<le> avail l now key" "avail l now key \<le> rl_burst l" using avail_nonneg [OF assms] avail_burst by auto
  show "snd (allow l now key) \<longleftrightarrow> 1 \<le> avail l now key" by (simp add: al)
  show "avail (fst (allow l now key)) now k = avail l now k - (if k = key \<and> snd (allow l now key) then 1 else 0)"
    using own kept [of k] t by (cases "k = key") (auto simp: al avail_buckets bucket_avail_def avail_def)
  have "0 \<le> bk_tokens b \<and> bk_tokens b \<le> rl_burst l \<and> bk_lastSeen b \<le> now" if "B k' = Some b" for k' b
    using that own kept [of k'] t assms by (cases "k' = key") (auto simp: limiter_inv_def)
  then show "limiter_inv (fst (allow l now key)) now" using assms by (simp add: limiter_inv_def al)
  show "rl_burst (fst (allow l now key)) = rl_burst l" "rl_interval (fst (allow l now key)) = rl_interval l"
    by (simp_all add: al)
qed

section \<open>The rate bound\<close>

definition granted :: "string \<Rightarrow> (int \<times> string) list \<Rightarrow> bool list \<Rightarrow> nat" where
  "granted k calls ds = length (filter (\<lambda>((_, key), d). key = k \<and> d) (zip calls ds))"

lemma run_bound:
  assumes "limiter_inv l t" "sorted (map fst calls)" "\<forall>c \<in> set calls. t \<le> fst c \<and> fst c \<le> e" "t \<le> e"
  shows "of_nat (granted k calls (snd (allow_run l calls))) \<le> avail l t k + of_int (e - t) / of_int (rl_interval l)"
  using assms
proof (induction calls arbitrary: l t)
  case Nil
  then show ?case using avail_nonneg [of l t k] by (simp add: granted_def limiter_inv_def)
next
  case (Cons c calls)
  obtain t1 key where c: "c = (t1, key)" by fastforce
  have le: "t \<le> t1" "t1 \<le> e" using Cons.prems(3) c by auto
  have inv: "limiter_inv l t1" by (rule limiter_inv_later [OF Cons.prems(1) le(1)])
  let ?l1 = "fst (allow l t1 key)" and ?d = "snd (allow l t1 key)"
  note ref = allow_refines [OF inv, of key]
  have "of_nat (granted k calls (snd (allow_run ?l1 calls))) \<le> avail ?l1 t1 k + of_int (e - t1) / (of_int (rl_interval ?l1) :: rat)"
    using Cons.prems(2,3) c le by (intro Cons.IH ref(3)) auto
  then have ih: "of_nat (granted k calls (snd (allow_run ?l1 calls))) + (if k = key \<and> ?d then 1 else 0)
      \<le> avail l t1 k + of_int (e - t1) / (of_int (rl_interval l) :: rat)"
    using ref(2) [of k] ref(5) by simp
  have "avail l t1 k \<le> avail l t k + of_int (t1 - t) / of_int (rl_interval l)"
    using avail_later [OF Cons.prems(1) le(1)] by simp
  moreover have "of_int (t1 - t) / of_int (rl_interval l) + of_int (e - t1) / of_int (rl_interval l) = of_int (e - t) / (of_int (rl_interval l) :: rat)"
    by (simp add: add_divide_distrib [symmetric])
  moreover have "(of_nat (granted k (c # calls) (snd (allow_run l (c # calls)))) :: rat)
      = of_nat (granted k calls (snd (allow_run ?l1 calls))) + (if k = key \<and> ?d then 1 else 0)"
    by (simp add: c granted_def split: prod.split)
  ultimately show ?case using ih by linarith
qed

lemma allow_run_append:
  "allow_run l (xs @ ys) = (let (l1, d1) = allow_run l xs; (l2, d2) = allow_run l1 ys in (l2, d1 @ d2))"
  by (induction xs arbitrary: l) (auto simp: Let_def split: prod.split)

lemma allow_run_inv:
  assumes "limiter_inv l t" "sorted (map fst calls)" "\<forall>c \<in> set calls. t \<le> fst c \<and> fst c \<le> e" "t \<le> e"
  shows "limiter_inv (fst (allow_run l calls)) e \<and> rl_burst (fst (allow_run l calls)) = rl_burst l
    \<and> rl_interval (fst (allow_run l calls)) = rl_interval l"
  using assms
proof (induction calls arbitrary: l t)
  case Nil
  then show ?case using limiter_inv_later by simp
next
  case (Cons c calls)
  obtain t1 key where c: "c = (t1, key)" by fastforce
  have inv: "limiter_inv l t1" using limiter_inv_later [OF Cons.prems(1)] Cons.prems(3) c by auto
  note ref = allow_refines [OF inv, of key]
  have "limiter_inv (fst (allow_run (fst (allow l t1 key)) calls)) e
      \<and> rl_burst (fst (allow_run (fst (allow l t1 key)) calls)) = rl_burst (fst (allow l t1 key))
      \<and> rl_interval (fst (allow_run (fst (allow l t1 key)) calls)) = rl_interval (fst (allow l t1 key))"
    using Cons.prems(2,3) c by (intro Cons.IH [OF ref(3)]) auto
  then show ?case using ref(4,5) c by (auto split: prod.split)
qed

lemma run_seen:
  assumes "limiter_inv l t" "sorted (map fst calls)" "\<forall>c \<in> set calls. t \<le> fst c"
    and "rl_buckets (fst (allow_run l calls)) k = Some b"
  shows "rl_buckets l k = Some b \<or> (bk_lastSeen b, k) \<in> set calls"
  using assms
proof (induction calls arbitrary: l t)
  case Nil
  then show ?case by simp
next
  case (Cons c calls)
  obtain t1 key where c: "c = (t1, key)" by fastforce
  have inv: "limiter_inv l t1" using limiter_inv_later [OF Cons.prems(1)] Cons.prems(3) c by auto
  have "rl_buckets (fst (allow l t1 key)) k = Some b \<or> (bk_lastSeen b, k) \<in> set calls"
    using Cons.prems c by (intro Cons.IH [OF allow_refines(3) [OF inv]]) (auto split: prod.splits)
  moreover have "k = key \<and> bk_lastSeen b = t1 \<or> rl_buckets l k = Some b" if "rl_buckets (fst (allow l t1 key)) k = Some b"
    using allow_shape [OF inv, of key] that by (cases "k = key") auto
  ultimately show ?case using c by auto
qed

definition register_limiter :: ipRateLimiter where
  "register_limiter = newIPRateLimiter registerRateBurst registerRateRefillInterval"

lemma register_limiter_fields [simp]:
  "rl_burst register_limiter = 20" "rl_interval register_limiter = 6 * 10 ^ 9" "rl_buckets register_limiter = (\<lambda>_. None)"
  by (simp_all add: register_limiter_def newIPRateLimiter_def registerRateBurst_def registerRateRefillInterval_def)

lemma register_run_inv:
  assumes "sorted (map fst calls)" "\<forall>c \<in> set calls. fst c \<le> e"
  shows "limiter_inv (fst (allow_run register_limiter calls)) e \<and> rl_burst (fst (allow_run register_limiter calls)) = 20
    \<and> rl_interval (fst (allow_run register_limiter calls)) = 6 * 10 ^ 9"
proof -
  define t where "t = Min (insert e (fst ` set calls))"
  have "\<forall>c \<in> set calls. t \<le> fst c" "t \<le> e" by (auto simp: t_def)
  moreover have "limiter_inv register_limiter t" unfolding register_limiter_def by (rule new_inv)
  ultimately show ?thesis using allow_run_inv [of register_limiter t calls e] assms by auto
qed

lemma drop_decisions: "drop (length xs) (snd (allow_run l (xs @ ys))) = snd (allow_run (fst (allow_run l xs)) ys)"
proof -
  have "length (snd (allow_run l xs)) = length xs" by (induction xs arbitrary: l) (auto simp: case_prod_beta Let_def)
  then show ?thesis by (auto simp: allow_run_append split: prod.split)
qed

text \<open>
  C33. The registration limiter keeps its rate. In any window of the clock a source gets at
  most twenty registrations plus one for every six seconds of the window, whatever came
  before, whichever other sources call, and although idle buckets are thrown away. A
  source that has been quiet for six seconds is always served.
\<close>

theorem registration_rate:
  assumes "sorted (map fst (pre @ win))"
  shows "((\<forall>c \<in> set win. s \<le> fst c \<and> fst c \<le> s + d) \<and> 0 \<le> d \<longrightarrow>
      of_nat (granted k win (drop (length pre) (snd (allow_run register_limiter (pre @ win))))) \<le> (20 + of_int d / (6 * 10 ^ 9) :: rat))
    \<and> ((\<forall>c \<in> set pre. snd c = k \<longrightarrow> fst c + 6 * 10 ^ 9 \<le> now) \<and> (\<forall>c \<in> set pre. fst c \<le> now) \<longrightarrow>
      snd (allow (fst (allow_run register_limiter pre)) now k))"
proof (rule conjI)
  let ?l = "fst (allow_run register_limiter pre)"
  have sp: "sorted (map fst pre)" "sorted (map fst win)" using assms by (simp_all add: sorted_append)
  show "(\<forall>c \<in> set win. s \<le> fst c \<and> fst c \<le> s + d) \<and> 0 \<le> d \<longrightarrow>
      of_nat (granted k win (drop (length pre) (snd (allow_run register_limiter (pre @ win))))) \<le> (20 + of_int d / (6 * 10 ^ 9) :: rat)"
  proof (cases win)
    case Nil
    then show ?thesis by (simp add: granted_def)
  next
    case (Cons c rest)
    define t where "t = fst c"
    have le: "\<forall>x \<in> set pre. fst x \<le> t" "\<forall>x \<in> set win. t \<le> fst x" using assms by (auto simp: Cons t_def sorted_append)
    note inv = register_run_inv [OF sp(1) le(1)]
    show ?thesis
    proof (intro impI, elim conjE)
      assume w: "\<forall>c \<in> set win. s \<le> fst c \<and> fst c \<le> s + d" and "0 \<le> d"
      then have "s \<le> t" "t \<le> s + d" by (simp_all add: Cons t_def)
      then have "of_nat (granted k win (snd (allow_run ?l win))) \<le> avail ?l t k + of_int (s + d - t) / (6 * 10 ^ 9)"
        using run_bound [of ?l t win "s + d" k] inv sp(2) le(2) w by simp
      moreover have "avail ?l t k \<le> 20" using avail_burst [of ?l t k] inv by simp
      moreover have "of_int (s + d - t) / (6 * 10 ^ 9) \<le> (of_int d / (6 * 10 ^ 9) :: rat)" using \<open>s \<le> t\<close> by (simp add: divide_right_mono)
      ultimately show "of_nat (granted k win (drop (length pre) (snd (allow_run register_limiter (pre @ win))))) \<le> (20 + of_int d / (6 * 10 ^ 9) :: rat)"
        unfolding drop_decisions by linarith
    qed
  qed
  show "(\<forall>c \<in> set pre. snd c = k \<longrightarrow> fst c + 6 * 10 ^ 9 \<le> now) \<and> (\<forall>c \<in> set pre. fst c \<le> now) \<longrightarrow> snd (allow ?l now k)"
  proof (intro impI, elim conjE)
    assume quiet: "\<forall>c \<in> set pre. snd c = k \<longrightarrow> fst c + 6 * 10 ^ 9 \<le> now" and le: "\<forall>c \<in> set pre. fst c \<le> now"
    note inv = register_run_inv [OF sp(1) le]
    have "1 \<le> avail ?l now k"
    proof (cases "rl_buckets ?l k")
      case None
      then show ?thesis using inv by (simp add: avail_def bucket_avail_def)
    next
      case (Some b)
      define t where "t = Min (insert now (fst ` set pre))"
      have "limiter_inv register_limiter t" unfolding register_limiter_def by (rule new_inv)
      then have "(bk_lastSeen b, k) \<in> set pre"
        using run_seen [of register_limiter t pre k b] sp(1) Some by (auto simp: t_def)
      then have "1 * (6 * 10 ^ 9) \<le> (of_int (now - bk_lastSeen b) :: rat)" using quiet by fastforce
      then have "1 \<le> of_int (now - bk_lastSeen b) / (6 * 10 ^ 9 :: rat)" by simp
      moreover have "0 \<le> bk_tokens b" using inv Some by (auto simp: limiter_inv_def)
      ultimately have "1 \<le> bk_tokens b + of_int (now - bk_lastSeen b) / (6 * 10 ^ 9 :: rat)" by linarith
      then show ?thesis using Some inv by (simp add: avail_def bucket_avail_def)
    qed
    then show "snd (allow ?l now k)" using allow_refines(1) inv by blast
  qed
qed

theorem registration_rate_witness:
  "of_nat (granted ''ip'' (replicate 30 (0, ''ip'')) (snd (allow_run register_limiter (replicate 30 (0, ''ip''))))) \<le> (20 :: rat)
   \<and> snd (allow (fst (allow_run register_limiter (replicate 30 (0, ''ip'')))) (6 * 10 ^ 9) ''ip'')"
  using registration_rate [of "[]" "replicate 30 (0, ''ip'')" 0 0 "''ip''" 0]
    registration_rate [of "replicate 30 (0, ''ip'')" "[]" 0 0 "''ip''" "6 * 10 ^ 9"]
  by (simp add: sorted_replicate)

end
