(* ===== verification/OAuth.thy ===== *)
theory OAuth
  imports Token RateLimit
begin

text \<open>
  Package oauth (server/internal/oauth): the authorization server in front of the MCP
  endpoint. Dynamic client registration (register.go), the authorization endpoint and its
  signed consent state (authorize.go, consent.go) and the token endpoint with rotating
  refresh tokens (token.go). A handler maps the database to the new database and a
  response; one call of a handler happens at one time \<open>now\<close>. Query strings and forms are
  functions from a parameter's name to its values; the JSON codec of the consent state is a
  parameter.
\<close>

section \<open>The handler and its responses (oauth.go, errors.go)\<close>

record Handler =
  h_ControlOrigin :: string
  h_consentKey :: bytes
  h_auth :: AuthService

definition protectedResource :: "Handler \<Rightarrow> string" where
  "protectedResource h = h_ControlOrigin h @ ''/mcp''"

datatype oauth_code =
    InvalidRequest
  | InvalidClientMetadata
  | InvalidGrant
  | UnsupportedGrantType
  | UnsupportedResponseType
  | AccessDenied
  | ServerError
  | InvalidTarget
  | TemporarilyUnavailable

record tokenResponse =
  tr_AccessToken :: string
  tr_TokenType :: string
  tr_ExpiresIn :: int
  tr_RefreshToken :: string

datatype token_result = TokenError int oauth_code | TokenOK tokenResponse

section \<open>Consent state (consent.go)\<close>

definition consentStateMaxAge :: int where
  "consentStateMaxAge = 10 * 60 * 10 ^ 9"

record consentState =
  cs_ClientID :: string
  cs_RedirectURI :: string
  cs_Challenge :: string
  cs_OAuthState :: string
  cs_Resource :: string
  cs_UserID :: string
  cs_IssuedAt :: int

definition signConsentState :: "Crypto \<Rightarrow> Handler \<Rightarrow> consentState codec \<Rightarrow> consentState \<Rightarrow> string" where
  "signConsentState c h j st =
     (let payload = cd_marshal j st in b64_encode payload @ CHR ''.'' # hmacHex c (h_consentKey h) payload)"

definition parseConsentState :: "Crypto \<Rightarrow> Handler \<Rightarrow> consentState codec \<Rightarrow> int \<Rightarrow> string \<Rightarrow> consentState option" where
  "parseConsentState c h j now raw =
     (case cut CHR ''.'' raw of (payloadB64, sig, ok) \<Rightarrow>
        if \<not> ok then None
        else case b64_decode payloadB64 of
          None \<Rightarrow> None
        | Some payload \<Rightarrow>
            if hmacHex c (h_consentKey h) payload \<noteq> sig then None
            else case cd_unmarshal j payload of
              None \<Rightarrow> None
            | Some st \<Rightarrow> if now - cs_IssuedAt st * 10 ^ 9 > consentStateMaxAge then None else Some st)"

section \<open>Registration (register.go)\<close>

definition maxClientNameLength :: nat where
  "maxClientNameLength = 128"

definition maxRedirectURIs :: nat where
  "maxRedirectURIs = 10"

definition maxRedirectURILength :: nat where
  "maxRedirectURILength = 2048"

record registerRequest =
  rr_ClientName :: string
  rr_RedirectURIs :: "string list"

datatype register_result = RegisterError int oauth_code | RegisterOK OAuthClient

definition validRedirectURI :: "string \<Rightarrow> bool" where
  "validRedirectURI raw =
     (case url_Parse raw of
        None \<Rightarrow> False
      | Some u \<Rightarrow>
          if url_HasUser u \<or> url_Fragment u \<noteq> [] \<or> url_Host u = [] then False
          else if url_Scheme u = ''https'' then True
          else if url_Scheme u = ''http'' then
            (let host = to_lower (url_Hostname u) in host = ''127.0.0.1'' \<or> host = ''localhost'' \<or> host = ''::1'')
          else False)"

definition sanitizeClientName :: "string \<Rightarrow> string" where
  "sanitizeClientName name = take maxClientNameLength (trim_space (filter (\<lambda>ch. \<not> is_control ch) name))"

text \<open>\<open>body\<close> is \<open>None\<close> when the request is not JSON; \<open>ip\<close> is clientIP of the request.\<close>

definition handleRegister ::
  "ipRateLimiter \<Rightarrow> DB \<Rightarrow> int \<Rightarrow> string \<Rightarrow> string \<Rightarrow> registerRequest option
     \<Rightarrow> ipRateLimiter \<times> DB \<times> register_result" where
  "handleRegister l db now fresh ip body =
     (case allow l now ip of
        (l', False) \<Rightarrow> (l', db, RegisterError 429 TemporarilyUnavailable)
      | (l', True) \<Rightarrow>
          (case body of
             None \<Rightarrow> (l', db, RegisterError 400 InvalidClientMetadata)
           | Some b \<Rightarrow>
               if length (rr_ClientName b) > maxClientNameLength then (l', db, RegisterError 400 InvalidClientMetadata)
               else if rr_RedirectURIs b = [] then (l', db, RegisterError 400 InvalidClientMetadata)
               else if length (rr_RedirectURIs b) > maxRedirectURIs then (l', db, RegisterError 400 InvalidClientMetadata)
               else if list_ex (\<lambda>u. length u > maxRedirectURILength \<or> \<not> validRedirectURI u) (rr_RedirectURIs b)
               then (l', db, RegisterError 400 InvalidClientMetadata)
               else
                 case oauthClients_Create db (toUnix now) fresh
                        \<lparr>oc_ID = [], oc_Name = sanitizeClientName (rr_ClientName b), oc_RedirectURIs = rr_RedirectURIs b,
                         oc_CreatedAt = 0, oc_UpdatedAt = 0\<rparr> of
                   (db', Inl _) \<Rightarrow> (l', db', RegisterError 500 ServerError)
                 | (db', Inr cl) \<Rightarrow> (l', db', RegisterOK cl)))"

section \<open>The authorization endpoint (authorize.go)\<close>

definition oauthAuthCodeLifetime :: int where
  "oauthAuthCodeLifetime = 10 * 60 * 10 ^ 9"

definition redirectRegistered :: "OAuthClient \<Rightarrow> string \<Rightarrow> bool" where
  "redirectRegistered client redirectURI = list_ex (\<lambda>u. u = redirectURI) (oc_RedirectURIs client)"

text \<open>
  A redirect is its base address and the parameters that are set on it: parameters with
  an empty value are skipped. How the two are spelled as one URL is left to \<^verbatim>\<open>net/url\<close>.
  The wording of the error descriptions is abbreviated.
\<close>

datatype auth_response =
    AuthzHTTPError int
  | AuthzRedirect string "(string \<times> string) list"
  | AuthzLogin
  | AuthzConsent string "string \<times> (string \<times> string) list"

definition buildRedirectURL ::
  "string \<Rightarrow> (string \<times> string) list \<Rightarrow> (string \<times> (string \<times> string) list) option" where
  "buildRedirectURL base params =
     (case url_Parse base of None \<Rightarrow> None | Some _ \<Rightarrow> Some (base, filter (\<lambda>(k, v). v \<noteq> []) params))"

definition oauth_code_str :: "oauth_code \<Rightarrow> string" where
  "oauth_code_str e = (case e of
      InvalidRequest \<Rightarrow> ''invalid_request'' | InvalidClientMetadata \<Rightarrow> ''invalid_client_metadata''
    | InvalidGrant \<Rightarrow> ''invalid_grant'' | UnsupportedGrantType \<Rightarrow> ''unsupported_grant_type''
    | UnsupportedResponseType \<Rightarrow> ''unsupported_response_type'' | AccessDenied \<Rightarrow> ''access_denied''
    | ServerError \<Rightarrow> ''server_error'' | InvalidTarget \<Rightarrow> ''invalid_target''
    | TemporarilyUnavailable \<Rightarrow> ''temporarily_unavailable'')"

definition redirectOAuthError :: "string \<Rightarrow> string \<Rightarrow> oauth_code \<Rightarrow> string \<Rightarrow> auth_response" where
  "redirectOAuthError redirectURI state code description =
     (case buildRedirectURL redirectURI
             [(''error'', oauth_code_str code), (''error_description'', description), (''state'', state)] of
        None \<Rightarrow> AuthzHTTPError 400
      | Some (base, ps) \<Rightarrow> AuthzRedirect base ps)"

definition query_Get :: "(string \<Rightarrow> string list) \<Rightarrow> string \<Rightarrow> string" where
  "query_Get q k = (case q k of [] \<Rightarrow> [] | v # _ \<Rightarrow> v)"

definition handleAuthorize ::
  "Crypto \<Rightarrow> Handler \<Rightarrow> consentState codec \<Rightarrow> DB \<Rightarrow> int \<Rightarrow> Request \<Rightarrow> (string \<Rightarrow> string list) \<Rightarrow> DB \<times> auth_response" where
  "handleAuthorize c h j db now r q =
     (let clientID = query_Get q ''client_id''; redirectURI = query_Get q ''redirect_uri'' in
      if clientID = [] then (db, AuthzHTTPError 400)
      else case oauthClients_ByID db clientID of
        Inl _ \<Rightarrow> (db, AuthzHTTPError 400)
      | Inr client \<Rightarrow>
          if redirectURI = [] \<or> \<not> redirectRegistered client redirectURI then (db, AuthzHTTPError 400)
          else
            let state = query_Get q ''state''; fail = redirectOAuthError redirectURI state;
                challenge = query_Get q ''code_challenge''; resource = query_Get q ''resource'' in
            if query_Get q ''response_type'' \<noteq> ''code'' then (db, fail UnsupportedResponseType ''response_type must be code'')
            else if query_Get q ''code_challenge_method'' \<noteq> ''S256'' then (db, fail InvalidRequest ''code_challenge_method must be S256'')
            else if \<not> validPKCEChallenge challenge then (db, fail InvalidRequest ''code_challenge is missing or malformed'')
            else if length (q ''resource'') > 1 then (db, fail InvalidTarget ''resource must not be specified more than once'')
            else if resource \<noteq> [] \<and> resource \<noteq> protectedResource h then (db, fail InvalidTarget (''resource must exactly equal '' @ protectedResource h))
            else case AuthenticateSessionCookie c (h_auth h) db now r of
              (db1, Inl _) \<Rightarrow> (db1, AuthzLogin)
            | (db1, Inr actor) \<Rightarrow>
                let token = signConsentState c h j \<lparr>cs_ClientID = clientID, cs_RedirectURI = redirectURI, cs_Challenge = challenge,
                      cs_OAuthState = state, cs_Resource = resource, cs_UserID = u_ID (aa_User actor), cs_IssuedAt = toUnix now\<rparr> in
                case buildRedirectURL redirectURI [(''error'', oauth_code_str AccessDenied), (''state'', state)] of
                  None \<Rightarrow> (db1, AuthzHTTPError 500)
                | Some cancel \<Rightarrow> (db1, AuthzConsent token cancel))"

text \<open>\<open>form\<close> is \<open>None\<close> when the body cannot be parsed; an absent field is the empty string.\<close>

definition handleAuthorizeDecision ::
  "Crypto \<Rightarrow> Handler \<Rightarrow> consentState codec \<Rightarrow> DB \<Rightarrow> int \<Rightarrow> bytes \<Rightarrow> string \<Rightarrow> Request \<Rightarrow> (string \<Rightarrow> string) option
     \<Rightarrow> DB \<times> auth_response" where
  "handleAuthorizeDecision c h j db now rnd fresh_audit r form =
     (case form of
        None \<Rightarrow> (db, AuthzHTTPError 400)
      | Some f \<Rightarrow>
          (case parseConsentState c h j now (f ''state_token'') of
             None \<Rightarrow> (db, AuthzHTTPError 400)
           | Some st \<Rightarrow>
               (case AuthenticateSessionCookie c (h_auth h) db now r of
                  (db1, Inl _) \<Rightarrow> (db1, AuthzHTTPError 403)
                | (db1, Inr actor) \<Rightarrow>
                    if u_ID (aa_User actor) \<noteq> cs_UserID st then (db1, AuthzHTTPError 403)
                    else case oauthClients_ByID db1 (cs_ClientID st) of
                      Inl _ \<Rightarrow> (db1, AuthzHTTPError 400)
                    | Inr client \<Rightarrow>
                        if \<not> redirectRegistered client (cs_RedirectURI st) then (db1, AuthzHTTPError 400)
                        else
                          let raw = b64_encode rnd in
                          case oauthAuthCodes_Create db1 (toUnix now)
                                 \<lparr>oac_ID = sha256Hex c raw, oac_UserID = u_ID (aa_User actor), oac_ClientID = cs_ClientID st,
                                  oac_RedirectURI = cs_RedirectURI st, oac_Challenge = cs_Challenge st, oac_Resource = cs_Resource st,
                                  oac_ExpiresAt = toUnix (now + oauthAuthCodeLifetime), oac_CreatedAt = 0\<rparr> of
                            (db2, Inl _) \<Rightarrow> (db2, AuthzHTTPError 500)
                          | (db2, Inr _) \<Rightarrow>
                              let db3 = Audit db2 now fresh_audit (u_ID (aa_User actor)) ''oauth.authorize.approve''
                                    (''oauth_client:'' @ cs_ClientID st) (cs_Resource st) in
                              case buildRedirectURL (cs_RedirectURI st) [(''code'', raw), (''state'', cs_OAuthState st)] of
                                None \<Rightarrow> (db3, AuthzHTTPError 500)
                              | Some (base, ps) \<Rightarrow> (db3, AuthzRedirect base ps))))"

section \<open>The token endpoint (token.go)\<close>

definition refreshTokenPrefix :: string where
  "refreshTokenPrefix = ''fbxr_''"

definition oauthGrantSlidingWindow :: int where
  "oauthGrantSlidingWindow = 90 * 24 * 3600 * 10 ^ 9"

definition oauthGrantMaxLifetime :: int where
  "oauthGrantMaxLifetime = 180 * 24 * 3600 * 10 ^ 9"

definition generateRefreshToken :: "Crypto \<Rightarrow> bytes \<Rightarrow> string \<times> string" where
  "generateRefreshToken c rnd = (let plaintext = refreshTokenPrefix @ b64_encode rnd in (plaintext, sha256Hex c plaintext))"

definition oauthGrantActive :: "OAuthGrant \<Rightarrow> int \<Rightarrow> bool" where
  "oauthGrantActive g now =
     (if \<not> now < og_CreatedAt g * 10 ^ 9 + oauthGrantMaxLifetime then False
      else
        let ref = (case og_LastUsedAt g of None \<Rightarrow> og_CreatedAt g | Some t \<Rightarrow> t) in
        now < ref * 10 ^ 9 + oauthGrantSlidingWindow)"

definition token_response :: "string \<Rightarrow> int \<Rightarrow> int \<Rightarrow> string \<Rightarrow> tokenResponse" where
  "token_response access expiresAt now refresh =
     \<lparr>tr_AccessToken = access, tr_TokenType = ''Bearer'', tr_ExpiresIn = (expiresAt - now) div 10 ^ 9, tr_RefreshToken = refresh\<rparr>"

definition issueTokenPair ::
  "Crypto \<Rightarrow> Handler \<Rightarrow> accessTokenClaims codec \<Rightarrow> DB \<Rightarrow> int \<Rightarrow> bytes \<Rightarrow> string \<Rightarrow> string \<Rightarrow> string \<Rightarrow> string \<Rightarrow> DB \<times> token_result" where
  "issueTokenPair c h j db now rnd fresh fresh_audit userID clientID =
     (case loadActiveUser db userID of
        Inl _ \<Rightarrow> (db, TokenError 400 InvalidGrant)
      | Inr user \<Rightarrow>
          (case IssueAccessTokenForAudience c (h_auth h) j db now (u_ID user) 0 AudienceMCP of
             Inl _ \<Rightarrow> (db, TokenError 500 ServerError)
           | Inr (accessToken, expiresAt) \<Rightarrow>
               (let (rawRefresh, hash) = generateRefreshToken c rnd in
                case oauthGrants_Create db (toUnix now) fresh
                       \<lparr>og_ID = [], og_UserID = u_ID user, og_ClientID = clientID, og_SecretHash = hash, og_PrevSecretHash = [],
                        og_CreatedAt = 0, og_UpdatedAt = 0, og_LastUsedAt = None\<rparr> of
                  (db1, Inl _) \<Rightarrow> (db1, TokenError 500 ServerError)
                | (db1, Inr _) \<Rightarrow>
                    (Audit db1 now fresh_audit (u_ID user) ''oauth.token.issue'' (''oauth_client:'' @ clientID) [],
                     TokenOK (token_response accessToken expiresAt now rawRefresh)))))"

definition handleAuthorizationCodeGrant ::
  "Crypto \<Rightarrow> Handler \<Rightarrow> accessTokenClaims codec \<Rightarrow> DB \<Rightarrow> int \<Rightarrow> bytes \<Rightarrow> string \<Rightarrow> string \<Rightarrow> (string \<Rightarrow> string) \<Rightarrow> DB \<times> token_result" where
  "handleAuthorizationCodeGrant c h j db now rnd fresh fresh_audit f =
     (let rawCode = f ''code''; verifier = f ''code_verifier''; redirectURI = f ''redirect_uri''; clientID = f ''client_id'' in
      if rawCode = [] \<or> verifier = [] \<or> redirectURI = [] \<or> clientID = [] then (db, TokenError 400 InvalidRequest)
      else case oauthAuthCodes_Consume db (sha256Hex c rawCode) (toUnix now) of
        (db1, Inl _) \<Rightarrow> (db1, TokenError 400 InvalidGrant)
      | (db1, Inr code) \<Rightarrow>
          if oac_ClientID code \<noteq> clientID \<or> oac_RedirectURI code \<noteq> redirectURI then (db1, TokenError 400 InvalidGrant)
          else if pkceChallengeFromVerifier c verifier \<noteq> oac_Challenge code then (db1, TokenError 400 InvalidGrant)
          else if oac_Resource code \<noteq> [] \<and> oac_Resource code \<noteq> protectedResource h then (db1, TokenError 400 InvalidTarget)
          else issueTokenPair c h j db1 now rnd fresh fresh_audit (oac_UserID code) (oac_ClientID code))"

definition handleRefreshTokenGrant ::
  "Crypto \<Rightarrow> Handler \<Rightarrow> accessTokenClaims codec \<Rightarrow> DB \<Rightarrow> int \<Rightarrow> bytes \<Rightarrow> (string \<Rightarrow> string) \<Rightarrow> DB \<times> token_result" where
  "handleRefreshTokenGrant c h j db now rnd f =
     (let raw = f ''refresh_token''; clientID = f ''client_id''; oldHash = sha256Hex c raw in
      if \<not> prefix refreshTokenPrefix raw then (db, TokenError 400 InvalidGrant)
      else if clientID = [] then (db, TokenError 400 InvalidGrant)
      else case oauthGrants_ByHash db oldHash of
        Inl _ \<Rightarrow>
          (case oauthGrants_RevokeIfPreviousSecret db oldHash of
             (db1, Inl _) \<Rightarrow> (db1, TokenError 500 ServerError)
           | (db1, Inr _) \<Rightarrow> (db1, TokenError 400 InvalidGrant))
      | Inr grant \<Rightarrow>
          if clientID \<noteq> og_ClientID grant then (db, TokenError 400 InvalidGrant)
          else if \<not> oauthGrantActive grant now then (db, TokenError 400 InvalidGrant)
          else case loadActiveUser db (og_UserID grant) of
            Inl _ \<Rightarrow> (db, TokenError 400 InvalidGrant)
          | Inr user \<Rightarrow>
              (let (newRaw, newHash) = generateRefreshToken c rnd in
               case oauthGrants_Rotate db (og_ID grant) oldHash newHash (toUnix now) of
                 (db1, Inl e) \<Rightarrow> (db1, if e = ErrConflict then TokenError 400 InvalidGrant else TokenError 500 ServerError)
               | (db1, Inr _) \<Rightarrow>
                   (case IssueAccessTokenForAudience c (h_auth h) j db1 now (u_ID user) 0 AudienceMCP of
                      Inl _ \<Rightarrow> (db1, TokenError 500 ServerError)
                    | Inr (accessToken, expiresAt) \<Rightarrow> (db1, TokenOK (token_response accessToken expiresAt now newRaw)))))"

definition handleToken ::
  "Crypto \<Rightarrow> Handler \<Rightarrow> accessTokenClaims codec \<Rightarrow> DB \<Rightarrow> int \<Rightarrow> bytes \<Rightarrow> string \<Rightarrow> string \<Rightarrow> (string \<Rightarrow> string) option \<Rightarrow> DB \<times> token_result" where
  "handleToken c h j db now rnd fresh fresh_audit form =
     (case form of
        None \<Rightarrow> (db, TokenError 400 InvalidRequest)
      | Some f \<Rightarrow>
          if f ''grant_type'' = ''authorization_code'' then handleAuthorizationCodeGrant c h j db now rnd fresh fresh_audit f
          else if f ''grant_type'' = ''refresh_token'' then handleRefreshTokenGrant c h j db now rnd f
          else if f ''grant_type'' = [] then (db, TokenError 400 InvalidRequest)
          else (db, TokenError 400 UnsupportedGrantType))"

section \<open>Approval and redemption\<close>

lemma decision_code:
  assumes "handleAuthorizeDecision c h j db now rnd fa r form = (db1, AuthzRedirect base ps)"
    and "toUnix t < toUnix (now + oauthAuthCodeLifetime)"
  obtains f st actor cl dbc k where
    "form = Some f" "parseConsentState c h j now (f ''state_token'') = Some st"
    "snd (AuthenticateSessionCookie c (h_auth h) db now r) = Inr actor" "u_ID (aa_User actor) = cs_UserID st"
    "cl \<in> set (db_oauth_clients db1)" "oc_ID cl = cs_ClientID st" "cs_RedirectURI st \<in> set (oc_RedirectURIs cl)"
    "base = cs_RedirectURI st" "ps = filter (\<lambda>(k, v). v \<noteq> []) [(''code'', b64_encode rnd), (''state'', cs_OAuthState st)]"
    "oauthAuthCodes_Consume db1 (sha256Hex c (b64_encode rnd)) (toUnix t) = (dbc, Inr k)"
    "oac_UserID k = cs_UserID st" "oac_ClientID k = cs_ClientID st" "oac_RedirectURI k = cs_RedirectURI st"
    "oac_Challenge k = cs_Challenge st" "oac_Resource k = cs_Resource st"
proof -
  obtain f st db0 actor cl where f: "form = Some f" and st: "parseConsentState c h j now (f ''state_token'') = Some st"
    and a: "AuthenticateSessionCookie c (h_auth h) db now r = (db0, Inr actor)" "u_ID (aa_User actor) = cs_UserID st"
    and cl: "oauthClients_ByID db0 (cs_ClientID st) = Inr cl" "redirectRegistered cl (cs_RedirectURI st)"
    using assms(1) by (auto simp: handleAuthorizeDecision_def split: option.splits prod.splits sum.splits if_splits)
  let ?k = "\<lparr>oac_ID = sha256Hex c (b64_encode rnd), oac_UserID = cs_UserID st, oac_ClientID = cs_ClientID st,
     oac_RedirectURI = cs_RedirectURI st, oac_Challenge = cs_Challenge st, oac_Resource = cs_Resource st,
     oac_ExpiresAt = toUnix (now + oauthAuthCodeLifetime), oac_CreatedAt = 0\<rparr>"
  let ?k1 = "?k\<lparr>oac_CreatedAt := toUnix now\<rparr>"
  let ?old = "delete_rows (\<lambda>r. oac_ExpiresAt r \<le> toUnix now) (db_oauth_codes db0)"
  obtain db2 k0 where cr: "oauthAuthCodes_Create db0 (toUnix now) ?k = (db2, Inr k0)"
    and db1: "db1 = Audit db2 now fa (cs_UserID st) ''oauth.authorize.approve'' (''oauth_client:'' @ cs_ClientID st) (cs_Resource st)"
    and red: "base = cs_RedirectURI st" "ps = filter (\<lambda>(k, v). v \<noteq> []) [(''code'', b64_encode rnd), (''state'', cs_OAuthState st)]"
    using assms(1) f st a cl
    by (auto simp: handleAuthorizeDecision_def Let_def buildRedirectURL_def simp del: filter.simps split: option.splits prod.splits sum.splits)
  have rows: "db_oauth_codes db1 = ?old @ [?k1]" "db_oauth_clients db1 = db_oauth_clients db0" "\<not> has_row oac_ID (sha256Hex c (b64_encode rnd)) ?old"
    using cr by (auto simp: db1 oauthAuthCodes_Create_def Audit_def audit_Append_def Let_def split: if_splits)
  have "lookup_row (oauth_code_live (sha256Hex c (b64_encode rnd)) (toUnix t)) (db_oauth_codes db1) = Some ?k1"
    using rows assms(2) by (intro lookup_only) (auto simp: oauth_code_live_def has_row_iff)
  then have k: "oauthAuthCodes_Consume db1 (sha256Hex c (b64_encode rnd)) (toUnix t) =
      (fst (oauthAuthCodes_Consume db1 (sha256Hex c (b64_encode rnd)) (toUnix t)), Inr ?k1)" by (simp add: oauthAuthCodes_Consume_def)
  have "cl \<in> set (db_oauth_clients db1)" "oc_ID cl = cs_ClientID st" "cs_RedirectURI st \<in> set (oc_RedirectURIs cl)"
    using cl rows(2) lookup_row_Some [of "\<lambda>c. oc_ID c = cs_ClientID st" "db_oauth_clients db0" cl]
    by (auto simp: oauthClients_ByID_def found_def redirectRegistered_def list_ex_iff split: option.splits)
  then show thesis using that [of f st actor cl _ ?k1] f st a red k by simp
qed

lemma issueTokenPair_codes: "db_oauth_codes (fst (issueTokenPair c h j db now rnd fresh fa uid cid)) = db_oauth_codes db"
  by (auto simp: issueTokenPair_def generateRefreshToken_def oauthGrants_Create_def Let_def split: sum.splits prod.splits)

lemma code_grant_codes:
  "f ''code'' \<noteq> [] \<Longrightarrow> f ''code_verifier'' \<noteq> [] \<Longrightarrow> f ''redirect_uri'' \<noteq> [] \<Longrightarrow> f ''client_id'' \<noteq> [] \<Longrightarrow>
   db_oauth_codes (fst (handleAuthorizationCodeGrant c h j db now rnd fresh fa f))
     = db_oauth_codes (fst (oauthAuthCodes_Consume db (sha256Hex c (f ''code'')) (toUnix now)))"
  using issueTokenPair_codes
  by (auto simp: handleAuthorizationCodeGrant_def Let_def split: sum.splits prod.splits)

lemma toUnix_later: "10 ^ 9 \<le> d \<Longrightarrow> toUnix now < toUnix (now + d)"
proof -
  assume "10 ^ 9 \<le> d"
  then have "(now + 10 ^ 9) div 10 ^ 9 \<le> (now + d) div 10 ^ 9" by (intro zdiv_mono1) simp_all
  then show ?thesis by (simp add: toUnix_def)
qed

lemma issued_verifies:
  assumes "\<And>cl. cd_unmarshal j (cd_marshal j cl) = Some cl"
    and "issueAccessToken c a j db now uid 0 aud = Inr (tok, ex)" and "uid \<noteq> []"
  shows "\<exists>cl. verifyAccessToken c a j now tok = Inr cl \<and> atc_Sub cl = uid \<and> atc_Aud cl = aud"
proof -
  obtain cl where cl: "ex = now + ClampAccessTokenTTL 0" "atc_Sub cl = uid" "atc_Aud cl = aud"
    and ver: "verifyAccessToken c a j now tok = (if toUnix now < toUnix ex then Inr cl else Inl ErrUnauthenticated)"
    using issued_token [OF assms] by metis
  have "toUnix now < toUnix ex"
    unfolding cl(1) by (rule toUnix_later) (simp add: ClampAccessTokenTTL_def DefaultAccessTokenTTL_def)
  then show ?thesis using ver cl by auto
qed

lemma issueTokenPair_OK:
  assumes "issueTokenPair c h j db now rnd fresh fa uid cid = (db1, TokenOK tr)"
    and "\<And>cl. cd_unmarshal j (cd_marshal j cl) = Some cl" and "uid \<noteq> []"
  shows "is_ok (loadActiveUser db uid)"
    and "\<exists>g \<in> set (db_oauth_grants db1). og_UserID g = uid \<and> og_ClientID g = cid \<and> og_SecretHash g = sha256Hex c (tr_RefreshToken tr)"
    and "\<exists>cl. verifyAccessToken c (h_auth h) j now (tr_AccessToken tr) = Inr cl \<and> atc_Sub cl = uid \<and> atc_Aud cl = ''mcp''"
proof -
  obtain u acc ex db2 k where u: "loadActiveUser db uid = Inr u"
    and acc: "issueAccessToken c (h_auth h) j db now (u_ID u) 0 ''mcp'' = Inr (acc, ex)"
    and cr: "oauthGrants_Create db (toUnix now) fresh \<lparr>og_ID = [], og_UserID = u_ID u, og_ClientID = cid,
       og_SecretHash = sha256Hex c (refreshTokenPrefix @ b64_encode rnd), og_PrevSecretHash = [], og_CreatedAt = 0, og_UpdatedAt = 0,
       og_LastUsedAt = None\<rparr> = (db2, Inr k)"
    and tr: "tr_AccessToken tr = acc" "tr_RefreshToken tr = refreshTokenPrefix @ b64_encode rnd"
      "db_oauth_grants db1 = db_oauth_grants db2"
    using assms(1)
    by (auto simp: issueTokenPair_def IssueAccessTokenForAudience_def AudienceMCP_def generateRefreshToken_def token_response_def Let_def
        split: sum.splits prod.splits)
  have uid: "u_ID u = uid" using loadActiveUser_Inr [OF u] by simp
  show "is_ok (loadActiveUser db uid)" by (simp add: u is_ok_def)
  show "\<exists>g \<in> set (db_oauth_grants db1). og_UserID g = uid \<and> og_ClientID g = cid \<and> og_SecretHash g = sha256Hex c (tr_RefreshToken tr)"
    using cr tr uid by (auto simp: oauthGrants_Create_def Let_def split: if_splits)
  show "\<exists>cl. verifyAccessToken c (h_auth h) j now (tr_AccessToken tr) = Inr cl \<and> atc_Sub cl = uid \<and> atc_Aud cl = ''mcp''"
    using acc tr uid assms(2,3) issued_verifies [of j c "h_auth h" db now uid "''mcp''" acc ex] by simp
qed

lemma code_grant_spent:
  assumes "snd (oauthAuthCodes_Consume db (sha256Hex c (f ''code'')) (toUnix now)) = Inl ErrNotFound"
  shows "snd (handleAuthorizationCodeGrant c h j db now rnd fresh fa f) \<noteq> TokenOK tr"
  using assms
  by (cases "oauthAuthCodes_Consume db (sha256Hex c (f ''code'')) (toUnix now)") (auto simp: handleAuthorizationCodeGrant_def Let_def)

text \<open>
  C6. The authorization code flow, end to end. An approval only goes out when the consent
  state carries this server's signature, is at most ten minutes old and was shown to the
  very user whose session approves it, and only to a redirect address that the client
  has registered. The code it carries yields tokens only to a request that names that
  client and redirect address and knows the verifier of that PKCE challenge, for the
  approving user, still in good standing: an access token for the MCP audience only and
  a refresh token stored only as a hash. Any complete redemption attempt, right or
  wrong, spends the code.
\<close>

theorem oauth_code_flow:
  assumes "handleAuthorizeDecision c h jc db now rnd fa r form = (db1, AuthzRedirect base ps)"
    and "toUnix t < toUnix (now + oauthAuthCodeLifetime)"
    and "handleAuthorizationCodeGrant c h ja db1 t rnd2 fresh fa2 f = (db2, res)"
    and "f ''code'' = b64_encode rnd" and "f ''code'' \<noteq> []" and "f ''code_verifier'' \<noteq> []" and "f ''redirect_uri'' \<noteq> []" and "f ''client_id'' \<noteq> []"
    and "t \<le> t'" and "f' ''code'' = f ''code''"
    and "\<And>cl. cd_unmarshal ja (cd_marshal ja cl) = Some cl"
  shows "\<exists>form' st actor cl. form = Some form' \<and> parseConsentState c h jc now (form' ''state_token'') = Some st
    \<and> snd (AuthenticateSessionCookie c (h_auth h) db now r) = Inr actor \<and> u_ID (aa_User actor) = cs_UserID st
    \<and> cl \<in> set (db_oauth_clients db1) \<and> oc_ID cl = cs_ClientID st \<and> base = cs_RedirectURI st \<and> base \<in> set (oc_RedirectURIs cl)
    \<and> (\<forall>tr. res = TokenOK tr \<and> cs_UserID st \<noteq> [] \<longrightarrow>
         f ''client_id'' = cs_ClientID st \<and> f ''redirect_uri'' = base \<and> pkceChallengeFromVerifier c (f ''code_verifier'') = cs_Challenge st
         \<and> is_ok (loadActiveUser db1 (cs_UserID st))
         \<and> (\<exists>g \<in> set (db_oauth_grants db2). og_UserID g = cs_UserID st \<and> og_ClientID g = cs_ClientID st
              \<and> og_SecretHash g = sha256Hex c (tr_RefreshToken tr))
         \<and> (\<exists>claims. verifyAccessToken c (h_auth h) ja t (tr_AccessToken tr) = Inr claims
              \<and> atc_Sub claims = cs_UserID st \<and> atc_Aud claims = ''mcp''))
    \<and> snd (handleAuthorizationCodeGrant c h ja db2 t' rnd3 fresh3 fa3 f') \<noteq> TokenOK tr'"
proof -
  obtain form' st actor cl dbc k where st: "form = Some form'" "parseConsentState c h jc now (form' ''state_token'') = Some st"
    "snd (AuthenticateSessionCookie c (h_auth h) db now r) = Inr actor" "u_ID (aa_User actor) = cs_UserID st"
    "cl \<in> set (db_oauth_clients db1)" "oc_ID cl = cs_ClientID st" "cs_RedirectURI st \<in> set (oc_RedirectURIs cl)" "base = cs_RedirectURI st"
    and con: "oauthAuthCodes_Consume db1 (sha256Hex c (f ''code'')) (toUnix t) = (dbc, Inr k)"
    and k: "oac_UserID k = cs_UserID st" "oac_ClientID k = cs_ClientID st" "oac_RedirectURI k = cs_RedirectURI st" "oac_Challenge k = cs_Challenge st"
    using decision_code [OF assms(1,2)] assms(4) by metis
  have load: "loadActiveUser dbc i = loadActiveUser db1 i" for i
    using con by (intro loadActiveUser_cong) (auto simp: oauthAuthCodes_Consume_def)
  have ok: "f ''client_id'' = cs_ClientID st \<and> f ''redirect_uri'' = base \<and> pkceChallengeFromVerifier c (f ''code_verifier'') = cs_Challenge st
      \<and> issueTokenPair c h ja dbc t rnd2 fresh fa2 (cs_UserID st) (cs_ClientID st) = (db2, TokenOK tr)" if "res = TokenOK tr" for tr
    using assms(3,5-8) that con k st(8) by (auto simp: handleAuthorizationCodeGrant_def Let_def split: if_splits)
  have "set (db_oauth_codes db2) \<subseteq> set (db_oauth_codes (fst (oauthAuthCodes_Consume db1 (sha256Hex c (f ''code'')) (toUnix t))))"
    using code_grant_codes [OF assms(5-8), of c h ja db1 t rnd2 fresh fa2] assms(3) by simp
  then have "snd (oauthAuthCodes_Consume db2 (sha256Hex c (f' ''code'')) (toUnix t')) = Inl ErrNotFound"
    using oauth_codes.second_fails [of db1 "sha256Hex c (f ''code'')" "toUnix t" k "toUnix t'" db2] con toUnix_mono [OF assms(9)] assms(10) by simp
  then have spent: "snd (handleAuthorizationCodeGrant c h ja db2 t' rnd3 fresh3 fa3 f') \<noteq> TokenOK tr'" by (rule code_grant_spent)
  have good: "f ''client_id'' = cs_ClientID st \<and> f ''redirect_uri'' = base \<and> pkceChallengeFromVerifier c (f ''code_verifier'') = cs_Challenge st
         \<and> is_ok (loadActiveUser db1 (cs_UserID st))
         \<and> (\<exists>g \<in> set (db_oauth_grants db2). og_UserID g = cs_UserID st \<and> og_ClientID g = cs_ClientID st
              \<and> og_SecretHash g = sha256Hex c (tr_RefreshToken tr))
         \<and> (\<exists>claims. verifyAccessToken c (h_auth h) ja t (tr_AccessToken tr) = Inr claims
              \<and> atc_Sub claims = cs_UserID st \<and> atc_Aud claims = ''mcp'')" if r: "res = TokenOK tr" "cs_UserID st \<noteq> []" for tr
  proof -
    have "issueTokenPair c h ja dbc t rnd2 fresh fa2 (cs_UserID st) (cs_ClientID st) = (db2, TokenOK tr)" using ok [OF r(1)] by blast
    from issueTokenPair_OK [OF this assms(11) r(2)] ok [OF r(1)] show ?thesis unfolding load by blast
  qed
  show ?thesis
    using st good spent by (intro exI [of _ form'] exI [of _ st] exI [of _ actor] exI [of _ cl]) auto
qed

section \<open>Refresh token rotation\<close>

lemma grants_unique: "db_ok db \<Longrightarrow> unique_on og_ID (db_oauth_grants db) \<and> unique_on og_SecretHash (db_oauth_grants db)"
  by (simp add: db_ok_defs)

lemma refresh_OK:
  assumes "handleRefreshTokenGrant c h j db now rnd f = (db1, TokenOK tr)"
  obtains g g' where "g \<in> set (db_oauth_grants db)" "og_SecretHash g = sha256Hex c (f ''refresh_token'')" "f ''client_id'' = og_ClientID g"
    "oauthGrantActive g now" "is_ok (loadActiveUser db (og_UserID g))" "tr_RefreshToken tr = refreshTokenPrefix @ b64_encode rnd"
    "oauthGrants_Rotate db (og_ID g) (og_SecretHash g) (sha256Hex c (tr_RefreshToken tr)) (toUnix now) = (db1, Inr g')"
proof -
  obtain g where g: "oauthGrants_ByHash db (sha256Hex c (f ''refresh_token'')) = Inr g" "f ''client_id'' = og_ClientID g"
    "oauthGrantActive g now" "is_ok (loadActiveUser db (og_UserID g))"
    using assms by (auto simp: handleRefreshTokenGrant_def Let_def is_ok_def split: if_splits sum.splits prod.splits)
  obtain g' where g': "tr_RefreshToken tr = refreshTokenPrefix @ b64_encode rnd"
    "oauthGrants_Rotate db (og_ID g) (sha256Hex c (f ''refresh_token'')) (sha256Hex c (tr_RefreshToken tr)) (toUnix now) = (db1, Inr g')"
    using assms g(1) by (auto simp: handleRefreshTokenGrant_def generateRefreshToken_def token_response_def Let_def split: if_splits sum.splits prod.splits)
  have "g \<in> set (db_oauth_grants db) \<and> og_SecretHash g = sha256Hex c (f ''refresh_token'')"
    using g(1) lookup_row_Some [of "\<lambda>g. og_SecretHash g = sha256Hex c (f ''refresh_token'')" "db_oauth_grants db" g]
    by (auto simp: oauthGrants_ByHash_def found_def split: option.splits)
  then show thesis using that [of g g'] g g' by simp
qed

lemma refresh_unknown:
  assumes "oauthGrants_ByHash db (sha256Hex c (f ''refresh_token'')) = Inl e"
  shows "snd (handleRefreshTokenGrant c h j db now rnd f) \<noteq> TokenOK tr"
  using assms by (auto simp: handleRefreshTokenGrant_def oauthGrants_RevokeIfPreviousSecret_def Let_def)

text \<open>
  C20. Refresh tokens rotate, and reuse is treated as theft. A refresh succeeds only with the
  current secret of a stored grant, for the grant's own client, within 90 days of its
  last use and within 180 days of its creation, for a user still in good standing. It
  replaces the secret and keeps the grant's identity, user, client and creation time, so
  the 180 days cannot be extended. Presenting the retired secret afterwards is refused
  and deletes the grant, and with it the new secret.
\<close>

theorem refresh_rotation:
  assumes "db_ok db" and "handleRefreshTokenGrant c h j db now rnd f = (db1, TokenOK tr)"
    and "sha256Hex c (f ''refresh_token'') \<noteq> sha256Hex c (tr_RefreshToken tr)" and "sha256Hex c (f ''refresh_token'') \<noteq> []"
    and "f2 ''refresh_token'' = f ''refresh_token''" and "f2 ''client_id'' \<noteq> []" and "f3 ''refresh_token'' = tr_RefreshToken tr"
  shows "\<exists>g g'. g \<in> set (db_oauth_grants db) \<and> og_SecretHash g = sha256Hex c (f ''refresh_token'') \<and> f ''client_id'' = og_ClientID g
    \<and> is_ok (loadActiveUser db (og_UserID g)) \<and> now < og_CreatedAt g * 10 ^ 9 + oauthGrantMaxLifetime
    \<and> now < (case og_LastUsedAt g of None \<Rightarrow> og_CreatedAt g | Some u \<Rightarrow> u) * 10 ^ 9 + oauthGrantSlidingWindow
    \<and> oauthGrants_ByHash db1 (sha256Hex c (tr_RefreshToken tr)) = Inr g'
    \<and> (og_ID g', og_UserID g', og_ClientID g', og_CreatedAt g') = (og_ID g, og_UserID g, og_ClientID g, og_CreatedAt g)
    \<and> snd (handleRefreshTokenGrant c h j db1 t2 rnd2 f2) = TokenError 400 InvalidGrant
    \<and> (\<forall>x \<in> set (db_oauth_grants (fst (handleRefreshTokenGrant c h j db1 t2 rnd2 f2))). og_ID x \<noteq> og_ID g)
    \<and> snd (handleRefreshTokenGrant c h j (fst (handleRefreshTokenGrant c h j db1 t2 rnd2 f2)) t3 rnd3 f3) \<noteq> TokenOK tr3"
proof -
  let ?old = "sha256Hex c (f ''refresh_token'')" and ?new = "sha256Hex c (tr_RefreshToken tr)"
  obtain g g' where g: "g \<in> set (db_oauth_grants db)" "og_SecretHash g = ?old" "f ''client_id'' = og_ClientID g"
    "oauthGrantActive g now" "is_ok (loadActiveUser db (og_UserID g))"
    and rot: "oauthGrants_Rotate db (og_ID g) ?old ?new (toUnix now) = (db1, Inr g')"
    using refresh_OK [OF assms(2)] by metis
  note facts = rotation_and_reuse [OF assms(1) rot assms(3,4)]
  let ?rev = "oauthGrants_RevokeIfPreviousSecret db1 ?old"
  have pre: "prefix refreshTokenPrefix (f ''refresh_token'')" using assms(2) by (auto simp: handleRefreshTokenGrant_def Let_def split: if_splits)
  have "snd ?rev = Inr True" "oauthGrants_ByHash db1 ?old = Inl ErrNotFound" using facts by blast+
  then have replay: "handleRefreshTokenGrant c h j db1 t2 rnd2 f2 = (fst ?rev, TokenError 400 InvalidGrant)"
    using assms(5,6) pre by (cases ?rev) (simp add: handleRefreshTokenGrant_def Let_def)
  have same: "(og_ID g', og_UserID g', og_ClientID g', og_CreatedAt g') = (og_ID g, og_UserID g, og_ClientID g, og_CreatedAt g)"
  proof -
    have "oauthGrants_ByHash db ?old = Inr g"
      using lookup_unique [of og_SecretHash, OF _ g(1,2)] grants_unique [OF assms(1)] by (simp add: oauthGrants_ByHash_def)
    then show ?thesis using facts by simp
  qed
  have gone: "og_ID x \<noteq> og_ID g" if x: "x \<in> set (db_oauth_grants (fst ?rev))" for x
  proof
    assume i: "og_ID x = og_ID g"
    have "x \<in> set (db_oauth_grants db1)" and px: "og_PrevSecretHash x \<noteq> ?old"
      using x assms(4) by (auto simp: oauthGrants_RevokeIfPreviousSecret_def Let_def)
    moreover obtain g0 where "g0 \<in> set (db_oauth_grants db)" "og_ID g0 = og_ID g" "og_SecretHash g0 = ?old"
      "g' = g0\<lparr>og_SecretHash := ?new, og_PrevSecretHash := ?old, og_LastUsedAt := Some (toUnix now), og_UpdatedAt := toUnix now\<rparr>"
      and rows: "set (db_oauth_grants db1) = insert g' {r \<in> set (db_oauth_grants db). og_ID r \<noteq> og_ID g}"
      using Rotate_Inr [OF assms(1) rot] .
    then have "og_PrevSecretHash g' = ?old" by simp
    ultimately show False using i px unfolding rows by blast
  qed
  have act: "now < og_CreatedAt g * 10 ^ 9 + oauthGrantMaxLifetime"
    "now < (case og_LastUsedAt g of None \<Rightarrow> og_CreatedAt g | Some u \<Rightarrow> u) * 10 ^ 9 + oauthGrantSlidingWindow"
    using g(4) by (auto simp: oauthGrantActive_def Let_def split: if_splits)
  have "oauthGrants_ByHash (fst ?rev) (sha256Hex c (f3 ''refresh_token'')) = Inl ErrNotFound" using facts assms(7) by simp
  then have dead: "snd (handleRefreshTokenGrant c h j (fst ?rev) t3 rnd3 f3) \<noteq> TokenOK tr3" by (rule refresh_unknown)
  show ?thesis
    using g(1-3,5) act facts same replay gone dead by (intro exI [of _ g] exI [of _ g']) simp
qed

text \<open>A concrete run: user u1 approves client cl, which redeems the code and later refreshes.\<close>

definition flow_handler :: Handler where
  "flow_handler = \<lparr>h_ControlOrigin = ''https://fb.example'', h_consentKey = ''ck'', h_auth = svc_example\<rparr>"

definition consent_codec :: "consentState codec" where
  "consent_codec = \<lparr>
     cd_marshal = (\<lambda>s. concat (map enc_str [cs_ClientID s, cs_RedirectURI s, cs_Challenge s, cs_OAuthState s, cs_Resource s, cs_UserID s, enc_int (cs_IssuedAt s)])),
     cd_unmarshal = (\<lambda>b. case dec_fields 7 b of
       Some [i, r, ch, st, rs, u, x] \<Rightarrow> Some \<lparr>cs_ClientID = i, cs_RedirectURI = r, cs_Challenge = ch, cs_OAuthState = st, cs_Resource = rs,
          cs_UserID = u, cs_IssuedAt = dec_int x\<rparr>
     | _ \<Rightarrow> None)\<rparr>"

lemma consent_codec_law: "cd_unmarshal consent_codec (cd_marshal consent_codec s) = Some s"
  by (simp add: consent_codec_def numeral_eq_Suc)

lemma parse_signed_consent:
  assumes "cd_unmarshal j (cd_marshal j st) = Some st"
  shows "parseConsentState c h j now (signConsentState c h j st) =
    (if now \<le> cs_IssuedAt st * 10 ^ 9 + consentStateMaxAge then Some st else None)"
  using assms by (simp add: parseConsentState_def signConsentState_def Let_def cut_dot [OF b64_encode_no_dot])

definition flow_db :: DB where
  "flow_db = session_db\<lparr>db_oauth_clients := [client_example]\<rparr>"

definition flow_state :: consentState where
  "flow_state = \<lparr>cs_ClientID = ''cl'', cs_RedirectURI = ''https://a/cb'', cs_Challenge = pkceChallengeFromVerifier hash_example ''v'',
     cs_OAuthState = [], cs_Resource = [], cs_UserID = ''u1'', cs_IssuedAt = 0\<rparr>"

definition flow_request :: Request where
  "flow_request = \<lparr>rq_Method = ''POST'', rq_Authorization = [], rq_Origin = [], rq_CSRFHeader = [],
     rq_Cookies = [(sessionCookieName svc_example, b64_encode ''raw'')]\<rparr>"

definition flow_form :: "string \<Rightarrow> string" where
  "flow_form k = (if k = ''state_token'' then signConsentState hash_example flow_handler consent_codec flow_state
     else if k = ''code'' then b64_encode ''rnd'' else if k = ''code_verifier'' then ''v''
     else if k = ''redirect_uri'' then ''https://a/cb'' else if k = ''client_id'' then ''cl'' else [])"

lemma flow_rows:
  "db_sessions flow_db = [\<lparr>se_ID = sha256Hex hash_example ''raw'', se_UserID = ''u1'', se_ExpiresAt = 604800, se_CreatedAt = 0, se_UpdatedAt = 0\<rparr>]"
  "db_oauth_codes flow_db = []" "db_oauth_grants flow_db = []" "db_oauth_clients flow_db = [client_example]"
  "has_row u_ID ''u1'' (db_users flow_db)" "is_ok (loadActiveUser flow_db ''u1'')"
proof -
  have base: "db_oauth_codes (fst first_example) = []" "db_oauth_grants (fst first_example) = []" by code_simp+
  have z: "toUnix 0 = 0" by code_simp
  have new: "session_db = (fst first_example)\<lparr>db_sessions := [\<lparr>se_ID = sha256Hex hash_example ''raw'', se_UserID = ''u1'', se_ExpiresAt = 604800,
      se_CreatedAt = 0, se_UpdatedAt = 0\<rparr>]\<rparr>"
    using first_example_rows z
    by (simp add: session_db_def createSession_def sessions_Create_def assign_id_def sha256Hex_def hash_example_def hex_encode_def Let_def
        has_row_def del: b64_encode.simps)
  show "db_sessions flow_db = [\<lparr>se_ID = sha256Hex hash_example ''raw'', se_UserID = ''u1'', se_ExpiresAt = 604800, se_CreatedAt = 0, se_UpdatedAt = 0\<rparr>]"
    "db_oauth_codes flow_db = []" "db_oauth_grants flow_db = []" "db_oauth_clients flow_db = [client_example]"
    "has_row u_ID ''u1'' (db_users flow_db)"
    using base first_example_rows(2) by (simp_all add: flow_db_def new)
  have "loadActiveUser flow_db ''u1'' = loadActiveUser (fst first_example) ''u1''" by (rule loadActiveUser_cong) (simp_all add: flow_db_def new)
  then show "is_ok (loadActiveUser flow_db ''u1'')" using first_example_rows(4) by simp
qed

lemma flow_decision:
  "\<exists>db1 ps. handleAuthorizeDecision hash_example flow_handler consent_codec flow_db 0 ''rnd'' ''a1'' flow_request (Some flow_form)
     = (db1, AuthzRedirect ''https://a/cb'' ps)"
proof -
  have st: "parseConsentState hash_example flow_handler consent_codec 0 (flow_form ''state_token'') = Some flow_state"
    by (simp add: flow_form_def parse_signed_consent consent_codec_law flow_state_def consentStateMaxAge_def)
  obtain u where u: "loadActiveUser flow_db ''u1'' = Inr u" "u_ID u = ''u1''"
    using flow_rows(6) loadActiveUser_Inr by (auto simp: is_ok_def split: sum.splits)
  have z: "toUnix 0 = 0" by code_simp
  have ck: "Cookie flow_request (sessionCookieName svc_example) = Some (b64_encode ''raw'')" "Cookie flow_request (csrfCookieName svc_example) = None"
    by (simp_all add: Cookie_def flow_request_def sessionCookieName_def csrfCookieName_def del: b64_encode.simps)
  have "sessions_Get flow_db (sha256Hex hash_example ''raw'') (toUnix 0) = Inr \<lparr>se_ID = sha256Hex hash_example ''raw'', se_UserID = ''u1'',
      se_ExpiresAt = 604800, se_CreatedAt = 0, se_UpdatedAt = 0\<rparr>"
    by (simp add: sessions_Get_def flow_rows(1) lookup_row_def z)
  then have "\<exists>db0. AuthenticateSessionCookie hash_example svc_example flow_db 0 flow_request = (db0, Inr \<lparr>aa_User = u, aa_Method = MethodSession, aa_csrfCookie = []\<rparr>)
      \<and> db_oauth_codes db0 = [] \<and> db_oauth_clients db0 = [client_example] \<and> db_users db0 = db_users flow_db"
    using u(1) flow_rows(2,4)
    by (simp add: AuthenticateSessionCookie_def authenticateSession_def ck sessions_Refresh_def del: b64_encode.simps)
  then obtain db0 where a: "AuthenticateSessionCookie hash_example svc_example flow_db 0 flow_request
        = (db0, Inr \<lparr>aa_User = u, aa_Method = MethodSession, aa_csrfCookie = []\<rparr>)"
      "db_oauth_codes db0 = []" "db_oauth_clients db0 = [client_example]" "db_users db0 = db_users flow_db" by blast
  have "redirectRegistered client_example ''https://a/cb''" "url_Parse ''https://a/cb'' \<noteq> None" by code_simp+
  then show ?thesis
    using a st u(2) flow_rows(5)
    by (simp add: handleAuthorizeDecision_def flow_handler_def flow_state_def oauthClients_ByID_def lookup_row_def client_example_def
        oauthAuthCodes_Create_def Let_def delete_rows_def has_row_def buildRedirectURL_def split: option.splits)
qed

theorem oauth_code_flow_witness:
  "\<exists>db1 ps. handleAuthorizeDecision hash_example flow_handler consent_codec flow_db 0 ''rnd'' ''a1'' flow_request (Some flow_form)
       = (db1, AuthzRedirect ''https://a/cb'' ps)
     \<and> snd (handleAuthorizationCodeGrant hash_example flow_handler codec_example
          (fst (handleAuthorizationCodeGrant hash_example flow_handler codec_example db1 1 ''r2'' ''g1'' ''a2'' flow_form)) 2 ''r3'' ''g2'' ''a3'' flow_form)
        \<notin> range TokenOK"
proof -
  obtain db1 ps where d: "handleAuthorizeDecision hash_example flow_handler consent_codec flow_db 0 ''rnd'' ''a1'' flow_request (Some flow_form)
     = (db1, AuthzRedirect ''https://a/cb'' ps)" using flow_decision by blast
  have t: "toUnix 1 < toUnix (0 + oauthAuthCodeLifetime)" by code_simp
  have "length (b64_encode ''rnd'') \<noteq> 0" by (simp add: length_b64_encode)
  then have f: "flow_form ''code'' = b64_encode ''rnd''" "flow_form ''code'' \<noteq> []" "flow_form ''code_verifier'' \<noteq> []"
    "flow_form ''redirect_uri'' \<noteq> []" "flow_form ''client_id'' \<noteq> []" by (auto simp: flow_form_def)
  obtain db2 res where e: "handleAuthorizationCodeGrant hash_example flow_handler codec_example db1 1 ''r2'' ''g1'' ''a2'' flow_form = (db2, res)" by fastforce
  from oauth_code_flow [OF d t e f, of 2 flow_form, OF _ refl codec_example_law] have
    "snd (handleAuthorizationCodeGrant hash_example flow_handler codec_example db2 2 ''r3'' ''g2'' ''a3'' flow_form) \<noteq> TokenOK tr" for tr by auto
  with d e show ?thesis by auto
qed

definition refresh_db :: DB where
  "refresh_db = fst (oauthGrants_Create (fst (oauthClients_Create (fst first_example) 0 ''x'' client_example)) 0 ''g1''
     (grant_example\<lparr>og_SecretHash := sha256Hex hash_example ''fbxr_a''\<rparr>))"

lemma refresh_db_ok: "db_ok refresh_db"
  unfolding refresh_db_def by (intro oauthGrants_Create_ok oauthClients_Create_ok first_example_ok)

definition refresh_form :: "string \<Rightarrow> string" where
  "refresh_form k = (if k = ''refresh_token'' then ''fbxr_a'' else if k = ''client_id'' then ''cl'' else [])"

lemma refresh_example:
  "\<exists>db1 tr. handleRefreshTokenGrant hash_example flow_handler codec_example refresh_db 0 [] refresh_form = (db1, TokenOK tr)
     \<and> tr_RefreshToken tr = ''fbxr_''"
proof -
  let ?g = "grant_example\<lparr>og_SecretHash := sha256Hex hash_example ''fbxr_a'', og_CreatedAt := 0, og_UpdatedAt := 0\<rparr>"
  have g: "oauthGrants_ByHash refresh_db (sha256Hex hash_example ''fbxr_a'') = Inr ?g" "oauthGrantActive ?g 0"
    "og_ClientID ?g = ''cl''" "is_ok (loadActiveUser refresh_db (og_UserID ?g))"
    "is_ok (snd (oauthGrants_Rotate refresh_db (og_ID ?g) (sha256Hex hash_example ''fbxr_a'') (sha256Hex hash_example ''fbxr_'') (toUnix 0)))"
    by code_simp+
  obtain u where u: "loadActiveUser refresh_db (og_UserID ?g) = Inr u" using g(4) by (auto simp: is_ok_def split: sum.splits)
  obtain db1 k where r: "oauthGrants_Rotate refresh_db (og_ID ?g) (sha256Hex hash_example ''fbxr_a'') (sha256Hex hash_example ''fbxr_'') (toUnix 0) = (db1, Inr k)"
    using g(5) by (cases "oauthGrants_Rotate refresh_db (og_ID ?g) (sha256Hex hash_example ''fbxr_a'') (sha256Hex hash_example ''fbxr_'') (toUnix 0)")
      (auto simp: is_ok_def split: sum.splits)
  have "db_users db1 = db_users refresh_db" "db_login_rules db1 = db_login_rules refresh_db"
    using r by (auto simp: oauthGrants_Rotate_def Let_def split: option.splits if_splits)
  then have "is_ok (users_ByID db1 (u_ID u))"
    using u loadActiveUser_Inr [OF u] by (auto simp: loadActiveUser_def users_ByID_def is_ok_def split: sum.splits)
  then obtain acc ex where "IssueAccessTokenForAudience hash_example svc_example codec_example db1 0 (u_ID u) 0 AudienceMCP = Inr (acc, ex)"
    by (auto simp: IssueAccessTokenForAudience_def issueAccessToken_def is_ok_def Let_def split: sum.splits)
  moreover have "generateRefreshToken hash_example [] = (''fbxr_'', sha256Hex hash_example ''fbxr_'')" by code_simp
  moreover have "prefix refreshTokenPrefix ''fbxr_a''" by code_simp
  ultimately show ?thesis
    using g(1-3) u r
    by (simp add: handleRefreshTokenGrant_def refresh_form_def flow_handler_def token_response_def Let_def)
qed

theorem refresh_rotation_witness:
  "\<exists>db1 tr. handleRefreshTokenGrant hash_example flow_handler codec_example refresh_db 0 [] refresh_form = (db1, TokenOK tr)
     \<and> snd (handleRefreshTokenGrant hash_example flow_handler codec_example db1 1 [] refresh_form) = TokenError 400 InvalidGrant"
proof -
  obtain db1 tr where r: "handleRefreshTokenGrant hash_example flow_handler codec_example refresh_db 0 [] refresh_form = (db1, TokenOK tr)"
    "tr_RefreshToken tr = ''fbxr_''" using refresh_example by blast
  have f: "refresh_form ''refresh_token'' = ''fbxr_a''" "refresh_form ''client_id'' \<noteq> []" by (simp_all add: refresh_form_def)
  have h: "sha256Hex hash_example ''fbxr_a'' \<noteq> sha256Hex hash_example ''fbxr_''" "sha256Hex hash_example ''fbxr_a'' \<noteq> []" by code_simp+
  have "snd (handleRefreshTokenGrant hash_example flow_handler codec_example db1 1 [] refresh_form) = TokenError 400 InvalidGrant"
    using refresh_rotation [OF refresh_db_ok r(1), of refresh_form "\<lambda>_. ''fbxr_''" 1 "[]"] h unfolding f(1) r(2) using f(2) by blast
  then show ?thesis using r(1) by blast
qed

end
