(* ===== verification/ApiMe.thy ===== *)
theory ApiMe
  imports ApiOrg OAuth
begin

text \<open>
  The caller's own account (server/internal/api/me.go): profile, public User ID and language,
  and the connected devices and apps with their revocation.
\<close>

definition nullableLanguage :: "string \<Rightarrow> string option" where
  "nullableLanguage language = (if language = [] then None else Some language)"

definition me_workspace_entry :: "DB \<Rightarrow> string \<Rightarrow> WorkspaceRow \<Rightarrow> me_workspace" where
  "me_workspace_entry db userID ws = \<lparr>mw_id = ws_ID ws, mw_name = ws_Name ws,
     mw_quota = (case ParseWorkspace (ws_Settings ws) of
        Inl _ \<Rightarrow> None
      | Inr wsSet \<Rightarrow> if sw_MaxFunctionsPerMember wsSet > 0
          then Some (functions_CountByWorkspaceAndCreator db (ws_ID ws) userID, sw_MaxFunctionsPerMember wsSet) else None)\<rparr>"

definition handleMeGet :: "DB \<Rightarrow> User \<Rightarrow> reply" where
  "handleMeGet db a =
     (case users_ByID db (u_ID a) of
        Inl _ \<Rightarrow> writeServiceError Internal
      | Inr u \<Rightarrow>
     (case loadOrg db of
        Inl e \<Rightarrow> writeServiceError e
      | Inr org \<Rightarrow>
     (case ParseOrg (org_Settings org) of
        Inl _ \<Rightarrow> writeServiceError Internal
      | Inr orgSet \<Rightarrow> ReplyMe \<lparr>
          md_id = u_ID a, md_email = u_Email u, md_name = u_Name u,
          md_user_id = (case handles_ByOwner db (u_ID a) of Inl _ \<Rightarrow> [] | Inr h \<Rightarrow> pu_UserID h),
          md_role = role_String (u_Role u), md_language = nullableLanguage (u_Language u),
          md_effective_language = EffectiveLanguage (u_Language u) (so_Language orgSet),
          md_workspaces = map (me_workspace_entry db (u_ID a)) (workspaces_ListForUser db (u_ID a)),
          md_personal_quota = (if so_MaxFunctionsPerUser orgSet > 0
             then Some (functions_CountByOwner db OwnerTypeUser (u_ID a), so_MaxFunctionsPerUser orgSet) else None),
          md_pending_approval_count = (if u_Role a = RoleAdmin
             then Some (length (filter (\<lambda>o'. u_Status o' = UserStatusPending) (users_List db))) else None)\<rparr>)))"

text \<open>The language the body asks for: \<open>None\<close> when it is none of the accepted values.\<close>

definition patched_language :: "string \<Rightarrow> language_patch \<Rightarrow> string option" where
  "patched_language old p =
     (case p of
        LanguageAbsent \<Rightarrow> Some old
      | LanguageNull \<Rightarrow> Some []
      | LanguageString s \<Rightarrow> if IsLanguage s then Some s else None
      | LanguageOther \<Rightarrow> None)"

definition set_language :: "api_json \<Rightarrow> DB \<Rightarrow> int \<Rightarrow> string \<Rightarrow> User \<Rightarrow> User \<Rightarrow> string \<Rightarrow> DB \<times> (service_error + unit)" where
  "set_language j db now fresh a u lang =
     (case users_Update db (toUnix now) (u\<lparr>u_Language := lang\<rparr>) of
        (db1, Inl _) \<Rightarrow> (db1, Inl Internal)
      | (db1, Inr _) \<Rightarrow>
          (Audit db1 now fresh (u_ID a) ''user.language.update'' (''user:'' @ u_ID a)
             (aj_marshal_map j [(''language'', nullableLanguage lang)]), Inr ()))"

definition set_user_id ::
  "api_json \<Rightarrow> DB \<Rightarrow> int \<Rightarrow> string \<Rightarrow> User \<Rightarrow> User \<Rightarrow> string \<Rightarrow> DB \<times> (service_error + unit)" where
  "set_user_id j db now fresh a u newID =
     (case handles_ByOwner db (u_ID u) of
        Inl _ \<Rightarrow> (db, Inl Internal)
      | Inr old \<Rightarrow>
          if pu_UserID old = newID then (db, Inr ())
          else case handles_Rename db (toUnix now) (pu_UserID old) newID of
            (db1, Inl e) \<Rightarrow> (db1, Inl (if e = ErrConflict then ConflictErr else Internal))
          | (db1, Inr _) \<Rightarrow>
              (Audit db1 now fresh (u_ID a) ''user.id.update'' (''user:'' @ u_ID a)
                 (aj_marshal_map j [(''old_user_id'', Some (pu_UserID old)), (''new_user_id'', Some newID)]), Inr ()))"

definition me_patched_reply :: "DB \<Rightarrow> User \<Rightarrow> string \<Rightarrow> string \<Rightarrow> reply" where
  "me_patched_reply db a userID lang =
     (case loadOrg db of
        Inl e \<Rightarrow> writeServiceError e
      | Inr org \<Rightarrow>
          (case ParseOrg (org_Settings org) of
             Inl _ \<Rightarrow> writeServiceError Internal
           | Inr orgSet \<Rightarrow> ReplyMePatched \<lparr>mpd_id = u_ID a, mpd_user_id = userID, mpd_language = nullableLanguage lang,
               mpd_effective_language = EffectiveLanguage lang (so_Language orgSet)\<rparr>))"

definition handleMePatch :: "api_json \<Rightarrow> DB \<Rightarrow> int \<Rightarrow> (nat \<Rightarrow> string) \<Rightarrow> User \<Rightarrow> bytes \<Rightarrow> DB \<times> reply" where
  "handleMePatch j db now fresh a body =
     (case users_ByID db (u_ID a) of
        Inl _ \<Rightarrow> (db, writeServiceError Internal)
      | Inr u \<Rightarrow>
     (case aj_me_patch j body of
        None \<Rightarrow> (db, invalid_body)
      | Some b \<Rightarrow>
     (case patched_language (u_Language u) (mp_Language b) of
        None \<Rightarrow> (db, ReplyError 400 ''invalid_language'')
      | Some lang \<Rightarrow>
          if mp_UserID b \<noteq> [] \<and> u_Provider u = ProviderGitHub then (db, ReplyError 403 ''handle_locked'')
          else if mp_UserID b \<noteq> [] \<and> \<not> is_ok (ValidateUserID (mp_UserID b)) then (db, ReplyError 400 ''invalid_user_id'')
          else case (if mp_Language b \<noteq> LanguageAbsent then set_language j db now (fresh 0) a u lang else (db, Inr ())) of
            (db1, Inl e) \<Rightarrow> (db1, writeServiceError e)
          | (db1, Inr _) \<Rightarrow>
              if mp_UserID b \<noteq> [] then
                (case set_user_id j db1 now (fresh 1) a u (mp_UserID b) of
                   (db2, Inl e) \<Rightarrow> (db2, writeServiceError e)
                 | (db2, Inr _) \<Rightarrow> (db2, me_patched_reply db2 a (mp_UserID b) lang))
              else (db1, me_patched_reply db1 a
                (case handles_ByOwner db1 (u_ID u) of Inl _ \<Rightarrow> [] | Inr h \<Rightarrow> pu_UserID h) lang))))"

section \<open>Connected devices and apps\<close>

definition grant_device :: "DB \<Rightarrow> OAuthGrant \<Rightarrow> DeviceInfo" where
  "grant_device db g = \<lparr>di_Kind = ''oauth'', di_ID = og_ID g,
     di_Name = (case oauthClients_ByID db (og_ClientID g) of
        Inl _ \<Rightarrow> og_ClientID g | Inr client \<Rightarrow> if oc_Name client \<noteq> [] then oc_Name client else og_ClientID g),
     di_CreatedAt = og_CreatedAt g, di_LastUsedAt = og_LastUsedAt g\<rparr>"

definition ListDevices :: "DB \<Rightarrow> User \<Rightarrow> DeviceInfo list" where
  "ListDevices db act =
     map (\<lambda>c. \<lparr>di_Kind = ''cli'', di_ID = cc_ID c, di_Name = cc_Name c, di_CreatedAt = cc_CreatedAt c,
                di_LastUsedAt = cc_LastUsedAt c\<rparr>) (cliCredentials_ListByUser db (u_ID act))
     @ map (grant_device db) (oauthGrants_ListByUser db (u_ID act))"

definition handleDevicesList :: "DB \<Rightarrow> User \<Rightarrow> reply" where
  "handleDevicesList db act = ReplyDevices (ListDevices db act)"

definition RevokeDevice ::
  "DB \<Rightarrow> int \<Rightarrow> string \<Rightarrow> User \<Rightarrow> string \<Rightarrow> string \<Rightarrow> bool \<Rightarrow> DB \<times> (service_error + unit)" where
  "RevokeDevice db now fresh act kind ident allowAdminOverride =
     (if kind = ''cli'' then
        (let owned = list_ex (\<lambda>c. cc_ID c = ident) (cliCredentials_ListByUser db (u_ID act)) in
         if \<not> owned \<and> \<not> (allowAdminOverride \<and> u_Role act = RoleAdmin) then (db, Inl NotFoundErr)
         else case cliCredentials_Delete db ident of
           (db1, Inl _) \<Rightarrow> (db1, Inl Internal)
         | (db1, Inr _) \<Rightarrow>
             (Audit db1 now fresh (u_ID act) ''cli_credential.delete'' (''cli_credential:'' @ ident) ''{}'', Inr ()))
      else if kind = ''oauth'' then
        (let owned = list_ex (\<lambda>g. og_ID g = ident) (oauthGrants_ListByUser db (u_ID act)) in
         if \<not> owned then (db, Inl NotFoundErr)
         else case oauthGrants_Delete db ident of
           (db1, Inl _) \<Rightarrow> (db1, Inl Internal)
         | (db1, Inr _) \<Rightarrow>
             (Audit db1 now fresh (u_ID act) ''oauth_grant.delete'' (''oauth_grant:'' @ ident) ''{}'', Inr ()))
      else (db, Inl (BadRequest ''invalid_kind'')))"

definition handleDeviceDelete :: "DB \<Rightarrow> int \<Rightarrow> string \<Rightarrow> User \<Rightarrow> string \<Rightarrow> DB \<times> reply" where
  "handleDeviceDelete db now fresh a ident =
     (case (case RevokeDevice db now fresh a ''cli'' ident True of
              (db1, Inl e) \<Rightarrow> if err_Status e = 404 then RevokeDevice db1 now fresh a ''oauth'' ident False else (db1, Inl e)
            | (db1, Inr _) \<Rightarrow> (db1, Inr ())) of
        (db', Inl e) \<Rightarrow> (db', writeServiceError e)
      | (db', Inr _) \<Rightarrow> (db', ReplyNoContent))"

section \<open>Routing\<close>

definition routeMe ::
  "api_json \<Rightarrow> DB \<Rightarrow> int \<Rightarrow> (nat \<Rightarrow> string) \<Rightarrow> User \<Rightarrow> api_request \<Rightarrow> string list \<Rightarrow> DB \<times> reply" where
  "routeMe j db now fresh act r rest =
     (let m = rq_Method (ar_req r) in
      case rest of
        [] \<Rightarrow>
          (if m = ''GET'' then (db, handleMeGet db act)
           else if m = ''PATCH'' then handleMePatch j db now fresh act (ar_Body r)
           else (db, method_not_allowed))
      | [kind] \<Rightarrow>
          if kind = ''devices'' then
            (if m \<noteq> ''GET'' then (db, method_not_allowed) else (db, handleDevicesList db act))
          else (db, unknown_route)
      | [kind, ident] \<Rightarrow>
          if kind = ''devices'' then
            (if m \<noteq> ''DELETE'' then (db, method_not_allowed) else handleDeviceDelete db now (fresh 0) act ident)
          else (db, unknown_route)
      | _ \<Rightarrow> (db, unknown_route))"

section \<open>Governance is kept\<close>

lemma set_language_governed:
  assumes g: "governed db" and u: "u \<in> set (db_users db)"
  shows "governed (fst (set_language j db now fresh a u lang))"
  unfolding set_language_def
  using g u by (auto simp: active_admin_def intro!: keep_case [where P = governed] users_Update_governed [of db u] Audit_governed)

lemma set_user_id_governed:
  assumes g: "governed db"
  shows "governed (fst (set_user_id j db now fresh a u newID))"
proof -
  have "governed (fst (handles_Rename db n x y))" for n x y
  proof (rule governed_frame [OF g])
    show "db_ok (fst (handles_Rename db n x y))" using g by (simp add: governed_def handles_Rename_ok)
  qed (simp_all add: handles_Rename_def)
  with g show ?thesis unfolding set_user_id_def
    by (auto split: sum.splits intro!: keep_case [where P = governed] Audit_governed)
qed

lemma handleMePatch_governed:
  assumes g: "governed db"
  shows "governed (fst (handleMePatch j db now fresh a body))"
proof (cases "users_ByID db (u_ID a)")
  case (Inr u)
  then have u: "u \<in> set (db_users db)" by (auto simp: users_ByID_def dest: lookup_row_Some)
  show ?thesis
    unfolding handleMePatch_def Inr
    using g set_language_governed [OF g u] by (auto split: option.splits sum.splits if_splits
        intro!: keep_case [where P = governed] set_user_id_governed)
qed (use g in \<open>simp add: handleMePatch_def\<close>)

lemma RevokeDevice_governed:
  assumes g: "governed db"
  shows "governed (fst (RevokeDevice db now fresh act kind ident ov))"
proof -
  have "governed (fst (cliCredentials_Delete db ident))"
    by (rule governed_frame [OF g]) (use g in \<open>simp_all add: governed_def cliCredentials_Delete_ok\<close>, simp_all add: cliCredentials_Delete_def)
  moreover have "governed (fst (oauthGrants_Delete db ident))"
    by (rule governed_frame [OF g]) (use g in \<open>simp_all add: governed_def oauthGrants_Delete_ok\<close>, simp_all add: oauthGrants_Delete_def)
  ultimately show ?thesis using g unfolding RevokeDevice_def Let_def
    by (auto intro!: keep_case [where P = governed] Audit_governed)
qed

lemma handleDeviceDelete_governed:
  assumes g: "governed db"
  shows "governed (fst (handleDeviceDelete db now fresh a ident))"
  unfolding handleDeviceDelete_def
  using g by (auto intro!: keep_case [where P = governed] RevokeDevice_governed)

lemma routeMe_governed: "governed db \<Longrightarrow> governed (fst (routeMe j db now fresh act r rest))"
  by (auto simp: routeMe_def Let_def handleMePatch_governed handleDeviceDelete_governed split: list.splits)

section \<open>Revocation\<close>

lemma owned_cli: "list_ex (\<lambda>c. cc_ID c = i) (cliCredentials_ListByUser db u)
    \<longleftrightarrow> (\<exists>c \<in> set (db_cli_creds db). cc_ID c = i \<and> cc_UserID c = u)"
  by (auto simp: cliCredentials_ListByUser_def list_ex_iff)

lemma owned_grant: "list_ex (\<lambda>g. og_ID g = i) (oauthGrants_ListByUser db u)
    \<longleftrightarrow> (\<exists>g \<in> set (db_oauth_grants db). og_ID g = i \<and> og_UserID g = u)"
  by (auto simp: oauthGrants_ListByUser_def list_ex_iff)

text \<open>
  C26. Disconnecting a device or app. A caller who is not an organization admin removes exactly
  the credential or grant of that identifier, and only an own one: everything of other users
  stays, and for an identifier that is not theirs the reply is 404 and nothing is written. An
  organization admin removes the CLI credential of that identifier whoever owns it, and never an
  OAuth grant: for the identifier of a connected app the reply is the same success while the
  grant stays.
\<close>

theorem device_revocation:
  assumes "db_ok db" and "handleDeviceDelete db now fresh a ident = (db', rep)"
  shows "if u_Role a = RoleAdmin then
      rep = ReplyNoContent \<and> db_cli_creds db' = filter (\<lambda>c. cc_ID c \<noteq> ident) (db_cli_creds db)
      \<and> db_oauth_grants db' = db_oauth_grants db
    else if (\<exists>c \<in> set (db_cli_creds db). cc_ID c = ident \<and> cc_UserID c = u_ID a) then
      rep = ReplyNoContent \<and> db_oauth_grants db' = db_oauth_grants db
      \<and> set (db_cli_creds db') = set (db_cli_creds db) - {c. cc_ID c = ident \<and> cc_UserID c = u_ID a}
    else if (\<exists>g \<in> set (db_oauth_grants db). og_ID g = ident \<and> og_UserID g = u_ID a) then
      rep = ReplyNoContent \<and> db_cli_creds db' = db_cli_creds db
      \<and> set (db_oauth_grants db') = set (db_oauth_grants db) - {g. og_ID g = ident \<and> og_UserID g = u_ID a}
    else rep = ReplyError 404 ''not_found'' \<and> db' = db"
proof -
  let ?c = "\<exists>c \<in> set (db_cli_creds db). cc_ID c = ident \<and> cc_UserID c = u_ID a"
  let ?g = "\<exists>g \<in> set (db_oauth_grants db). og_ID g = ident \<and> og_UserID g = u_ID a"
  have uc: "unique_on cc_ID (db_cli_creds db)" and ug: "unique_on og_ID (db_oauth_grants db)"
    using assms(1) by (simp_all add: db_ok_defs)
  have sc: "{c \<in> set (db_cli_creds db). cc_ID c \<noteq> ident} = set (db_cli_creds db) - {c. cc_ID c = ident \<and> cc_UserID c = u_ID a}"
    if "\<exists>c \<in> set (db_cli_creds db). cc_ID c = ident \<and> cc_UserID c = u_ID a"
    using that unique_on_inj [OF uc] by blast
  have sg: "{g \<in> set (db_oauth_grants db). og_ID g \<noteq> ident} = set (db_oauth_grants db) - {g. og_ID g = ident \<and> og_UserID g = u_ID a}"
    if "\<exists>g \<in> set (db_oauth_grants db). og_ID g = ident \<and> og_UserID g = u_ID a"
    using that unique_on_inj [OF ug] by blast
  have cli: "RevokeDevice db now fresh a ''cli'' ident True =
     (if u_Role a = RoleAdmin \<or> (\<exists>c \<in> set (db_cli_creds db). cc_ID c = ident \<and> cc_UserID c = u_ID a)
      then (Audit (db\<lparr>db_cli_creds := delete_rows (\<lambda>c. cc_ID c = ident) (db_cli_creds db)\<rparr>) now fresh (u_ID a)
              ''cli_credential.delete'' (''cli_credential:'' @ ident) ''{}'', Inr ())
      else (db, Inl NotFoundErr))"
    by (simp add: RevokeDevice_def owned_cli cliCredentials_Delete_def)
  have app: "RevokeDevice db now fresh a ''oauth'' ident False =
     (if (\<exists>g \<in> set (db_oauth_grants db). og_ID g = ident \<and> og_UserID g = u_ID a)
      then (Audit (db\<lparr>db_oauth_grants := delete_rows (\<lambda>g. og_ID g = ident) (db_oauth_grants db)\<rparr>) now fresh (u_ID a)
              ''oauth_grant.delete'' (''oauth_grant:'' @ ident) ''{}'', Inr ())
      else (db, Inl NotFoundErr))"
    by (simp add: RevokeDevice_def owned_grant oauthGrants_Delete_def)
  have nf: "writeServiceError NotFoundErr = ReplyError 404 ''not_found''" "err_Status NotFoundErr = 404"
    by (simp_all add: NotFoundErr_def writeServiceError_def)
  have del: "(db', rep) = (case (if u_Role a = RoleAdmin \<or> ?c then RevokeDevice db now fresh a ''cli'' ident True
      else RevokeDevice db now fresh a ''oauth'' ident False) of
        (db', Inl e) \<Rightarrow> (db', writeServiceError e) | (db', Inr _) \<Rightarrow> (db', ReplyNoContent))"
    using assms(2) unfolding handleDeviceDelete_def cli by (cases "u_Role a = RoleAdmin \<or> ?c") (simp_all add: nf, blast)
  consider (admin) "u_Role a = RoleAdmin" | (own) "u_Role a \<noteq> RoleAdmin" ?c
    | (grant) "u_Role a \<noteq> RoleAdmin" "\<not> ?c" ?g | (none) "u_Role a \<noteq> RoleAdmin" "\<not> ?c" "\<not> ?g" by blast
  then show ?thesis
  proof cases
    case admin
    with del show ?thesis unfolding cli by (simp add: delete_rows_def)
  next
    case own
    with del have "rep = ReplyNoContent" "db_oauth_grants db' = db_oauth_grants db"
      "set (db_cli_creds db') = {c \<in> set (db_cli_creds db). cc_ID c \<noteq> ident}"
      unfolding cli by simp_all
    with own sc [OF own(2)] show ?thesis by (simp only: if_False if_True not_True_eq_False simp_thms)
  next
    case grant
    with del have "rep = ReplyNoContent" "db_cli_creds db' = db_cli_creds db"
      "set (db_oauth_grants db') = {g \<in> set (db_oauth_grants db). og_ID g \<noteq> ident}"
      unfolding app by simp_all
    with grant sg [OF grant(3)] show ?thesis by (simp only: if_False if_True simp_thms)
  next
    case none
    with del show ?thesis unfolding app by (simp add: nf)
  qed
qed

definition device_db :: DB where
  "device_db = admin_db\<lparr>db_oauth_clients := [\<lparr>oc_ID = ''app'', oc_Name = ''App'', oc_RedirectURIs = [], oc_CreatedAt = 0, oc_UpdatedAt = 0\<rparr>],
     db_oauth_grants := [\<lparr>og_ID = ''g1'', og_UserID = ''a1'', og_ClientID = ''app'', og_SecretHash = ''h'', og_PrevSecretHash = [],
       og_CreatedAt = 0, og_UpdatedAt = 0, og_LastUsedAt = None\<rparr>]\<rparr>"

theorem device_revocation_witness:
  "snd (handleDeviceDelete device_db 0 ''l1'' admin_example ''g1'') = ReplyNoContent
   \<and> length (db_oauth_grants (fst (handleDeviceDelete device_db 0 ''l1'' admin_example ''g1''))) = 1"
proof -
  have "db_ok device_db"
    using admin_db_ok by (simp add: device_db_def admin_db_def admin_example_def db_ok_defs unique_on_def empty_db_def claims_ok_def refs_def)
  from device_revocation [OF this, of 0 "''l1''" admin_example "''g1''"] show ?thesis
    by (cases "handleDeviceDelete device_db 0 ''l1'' admin_example ''g1''") (simp add: admin_example_def device_db_def)
qed

end
