(* ===== verification/Api.thy ===== *)
theory Api
  imports ApiWorkspaces ApiMe
begin

text \<open>
  The management API as a whole (server/internal/api: functions.go, deploy.go, cli.go,
  handler.go): the function handlers, the deploy upload, the CLI login endpoints, the routing
  and the chain of authentication, approval and CSRF checks in front of it. The state is that
  of the service layer; \<open>fresh\<close>, \<open>rnd\<close> and \<open>nonce\<close> are what the handlers draw.
\<close>

record ('f, 'b) ApiHandler =
  hd_crypto :: Crypto
  hd_auth :: AuthService
  hd_json :: api_json
  hd_codec :: "accessTokenClaims codec"
  hd_env :: "'f deploy_env"
  hd_put :: "'b \<Rightarrow> string \<Rightarrow> archive \<Rightarrow> blob_error + 'b"
  hd_aead :: AEAD
  hd_envKey :: bytes
  hd_managedFunctionURL :: "(string \<Rightarrow> string \<Rightarrow> string option) option"
  hd_baseURL :: string

record draws =
  dw_now :: int
  dw_fresh :: "nat \<Rightarrow> string"
  dw_rnd :: bytes
  dw_nonce :: bytes

section \<open>Functions (functions.go)\<close>

definition function_url :: "('f, 'b) ApiHandler \<Rightarrow> DB \<Rightarrow> Function \<Rightarrow> string \<Rightarrow> string option" where
  "function_url h db fn owner =
     (case hd_managedFunctionURL h of
        Some build \<Rightarrow> build (fn_Name fn) ''/''
      | None \<Rightarrow>
          if hd_baseURL h \<noteq> [] then
            (let sel = (if owner = [] then (case OwnerSelector db fn of Inl _ \<Rightarrow> [] | Inr s \<Rightarrow> s) else owner) in
             if sel \<noteq> [] then Some (hd_baseURL h @ ''/'' @ sel @ ''/'' @ fn_Name fn) else None)
          else None)"

definition functionDTO :: "('f, 'b) ApiHandler \<Rightarrow> DB \<Rightarrow> Function \<Rightarrow> string \<Rightarrow> function_dto" where
  "functionDTO h db fn owner = \<lparr>fd_id = fn_ID fn, fd_owner_type = owner_type_String (fn_OwnerType fn), fd_name = fn_Name fn,
     fd_description = fn_Description fn, fd_created_at = fn_CreatedAt fn, fd_updated_at = fn_UpdatedAt fn,
     fd_owner = (if owner \<noteq> [] then Some owner else None), fd_active_version_id = fn_ActiveVersionID fn,
     fd_url = function_url h db fn owner\<rparr>"

definition functionDTOs :: "('f, 'b) ApiHandler \<Rightarrow> DB \<Rightarrow> Function list \<Rightarrow> string \<Rightarrow> function_dto list" where
  "functionDTOs h db fns owner = map (\<lambda>fn. functionDTO h db fn owner) fns"

text \<open>\<open>functionDTOsWithOwners\<close> with its cache of selectors, an association list by owner key.\<close>

fun functionDTOsWithOwners ::
  "('f, 'b) ApiHandler \<Rightarrow> DB \<Rightarrow> (string \<times> string) list \<Rightarrow> Function list \<Rightarrow> function_dto list" where
  "functionDTOsWithOwners h db cache [] = []"
| "functionDTOsWithOwners h db cache (fn # fns) =
     (let key = owner_type_String (fn_OwnerType fn) @ '':'' @ fn_OwnerID fn in
      case map_of cache key of
        Some owner \<Rightarrow> functionDTO h db fn owner # functionDTOsWithOwners h db cache fns
      | None \<Rightarrow>
          (let owner = (case OwnerSelector db fn of Inl _ \<Rightarrow> [] | Inr s \<Rightarrow> s) in
           functionDTO h db fn owner # functionDTOsWithOwners h db ((key, owner) # cache) fns))"

definition api_ListFunctions :: "('f, 'b) ApiHandler \<Rightarrow> DB \<Rightarrow> User \<Rightarrow> string \<Rightarrow> service_error + function_dto list" where
  "api_ListFunctions h db act owner =
     (if owner \<noteq> [] then
        (case ResolveOwner db owner of
           Inl _ \<Rightarrow> Inl NotFoundErr
         | Inr (ownerType, ownerID) \<Rightarrow>
             if \<not> CanView db act ownerType ownerID then Inl NotFoundErr
             else case ListByOwner db owner of
               Inl e \<Rightarrow> Inl e
             | Inr fns \<Rightarrow> Inr (functionDTOs h db fns owner))
      else Inr (functionDTOsWithOwners h db []
        (if u_Role act = RoleAdmin then ListAllFunctions db else ListFunctions db (u_ID act))))"

definition handleList :: "('f, 'b) ApiHandler \<Rightarrow> DB \<Rightarrow> User \<Rightarrow> (string \<Rightarrow> string) \<Rightarrow> reply" where
  "handleList h db act query =
     (case api_ListFunctions h db act (query ''owner'') of Inl e \<Rightarrow> writeServiceError e | Inr dtos \<Rightarrow> ReplyFunctions dtos)"

definition ResolveVisible :: "DB \<Rightarrow> User \<Rightarrow> string \<Rightarrow> string \<Rightarrow> service_error + Function" where
  "ResolveVisible db act owner name =
     (case Resolve db owner name of
        Inl e \<Rightarrow> Inl e
      | Inr fn \<Rightarrow> if \<not> CanView db act (fn_OwnerType fn) (fn_OwnerID fn) then Inl NotFoundErr else Inr fn)"

definition FetchPolicyLevels :: "DB \<Rightarrow> Function \<Rightarrow> service_error + fetch_policy_levels" where
  "FetchPolicyLevels db fn =
     (case loadOrg db of
        Inl e \<Rightarrow> Inl e
      | Inr org \<Rightarrow>
     (case ParseOrg (org_Settings org) of
        Inl _ \<Rightarrow> Inl Internal
      | Inr orgSet \<Rightarrow>
          if fn_OwnerType fn = OwnerTypeWorkspace then
            (case workspaces_ByID db (fn_OwnerID fn) of
               Inl _ \<Rightarrow> Inl Internal
             | Inr ws \<Rightarrow>
                 (case ParseWorkspace (ws_Settings ws) of
                    Inl _ \<Rightarrow> Inl Internal
                  | Inr wsSet \<Rightarrow> Inr \<lparr>fpl_organization = so_FetchPolicy orgSet, fpl_workspace = Some (sw_FetchPolicy wsSet)\<rparr>))
          else Inr \<lparr>fpl_organization = so_FetchPolicy orgSet, fpl_workspace = None\<rparr>))"

definition handleGet :: "('f, 'b) ApiHandler \<Rightarrow> DB \<Rightarrow> User \<Rightarrow> string \<Rightarrow> string \<Rightarrow> reply" where
  "handleGet h db act owner name =
     (case ResolveVisible db act owner name of
        Inl e \<Rightarrow> writeServiceError e
      | Inr fn \<Rightarrow>
          (case (if fn_ActiveVersionID fn \<noteq> None
                 then (case ActiveVersion db fn of Inl e \<Rightarrow> Inl e | Inr v \<Rightarrow> Inr (Some (versionDTO v))) else Inr None) of
             Inl e \<Rightarrow> writeServiceError e
           | Inr v \<Rightarrow>
               (case FetchPolicyLevels db fn of
                  Inl e \<Rightarrow> writeServiceError e
                | Inr levels \<Rightarrow> ReplyFunctionDetail (functionDTO h db fn owner) v levels)))"

definition handleListVersions :: "DB \<Rightarrow> User \<Rightarrow> (string \<Rightarrow> string) \<Rightarrow> string \<Rightarrow> string \<Rightarrow> reply" where
  "handleListVersions db act query owner name =
     (case ResolveVisible db act owner name of
        Inl e \<Rightarrow> writeServiceError e
      | Inr fn \<Rightarrow> ReplyVersions (map versionDTO (functions_ListVersions db (fn_ID fn) (limit_param (query ''limit'')))))"

definition ListInvocationLogs :: "DB \<Rightarrow> Function \<Rightarrow> string \<Rightarrow> int \<Rightarrow> InvocationLog list \<times> string" where
  "ListInvocationLogs db fn since limit =
     (let logs = invocationLogs_List db (fn_ID fn) since limit in (logs, next_cursor il_ID logs))"

definition handleLogs :: "DB \<Rightarrow> User \<Rightarrow> (string \<Rightarrow> string) \<Rightarrow> string \<Rightarrow> string \<Rightarrow> reply" where
  "handleLogs db act query owner name =
     (case ResolveVisible db act owner name of
        Inl e \<Rightarrow> writeServiceError e
      | Inr fn \<Rightarrow>
          (let (logs, nxt) = ListInvocationLogs db fn (query ''since'') (limit_param (query ''limit'')) in
           ReplyLogs (map invocationLogDTO logs) nxt))"

definition audited ::
  "('b, 'p) service_state \<Rightarrow> draws \<Rightarrow> User \<Rightarrow> string \<Rightarrow> string \<Rightarrow> string \<Rightarrow> ('b, 'p) service_state" where
  "audited st dw act action target detail =
     st\<lparr>sv_db := Audit (sv_db st) (dw_now dw) (dw_fresh dw 0) (u_ID act) action target detail\<rparr>"

definition handleActivate ::
  "('f, 'b) ApiHandler \<Rightarrow> draws \<Rightarrow> ('b, 'p) service_state \<Rightarrow> User \<Rightarrow> string \<Rightarrow> string \<Rightarrow> string
     \<Rightarrow> ('b, 'p) service_state \<times> reply" where
  "handleActivate h dw st act owner name versionID =
     (case ResolveVisible (sv_db st) act owner name of
        Inl e \<Rightarrow> (st, writeServiceError e)
      | Inr fn \<Rightarrow>
     (case CanManage (sv_db st) act fn of
        Inl e \<Rightarrow> (st, writeServiceError e)
      | Inr _ \<Rightarrow>
          (case Activate (toUnix (dw_now dw)) st fn versionID of
             (st1, Inl e) \<Rightarrow> (st1, writeServiceError e)
           | (st1, Inr fn') \<Rightarrow>
               (let st2 = audited st1 dw act ''function.rollback'' (''function:'' @ fn_ID fn')
                      (aj_marshal_map (hd_json h) [(''version_id'', Some versionID)]) in
                (st2, ReplyFunction (functionDTO h (sv_db st2) fn' owner))))))"

definition handleDelete ::
  "('f, 'b) ApiHandler \<Rightarrow> draws \<Rightarrow> ('b, 'p) service_state \<Rightarrow> User \<Rightarrow> string \<Rightarrow> string \<Rightarrow> ('b, 'p) service_state \<times> reply" where
  "handleDelete h dw st act owner name =
     (case ResolveVisible (sv_db st) act owner name of
        Inl e \<Rightarrow> (st, writeServiceError e)
      | Inr fn \<Rightarrow>
     (case CanManage (sv_db st) act fn of
        Inl e \<Rightarrow> (st, writeServiceError e)
      | Inr _ \<Rightarrow>
          (case DeleteFunction (toUnix (dw_now dw)) st fn of
             (st1, Inl e) \<Rightarrow> (st1, writeServiceError e)
           | (st1, Inr _) \<Rightarrow>
               (audited st1 dw act ''function.delete'' (''function:'' @ fn_ID fn)
                  (aj_marshal_map (hd_json h) [(''owner'', Some owner), (''name'', Some name)]), ReplyNoContent))))"

definition handleSetEnv ::
  "('f, 'b) ApiHandler \<Rightarrow> draws \<Rightarrow> ('b, 'p) service_state \<Rightarrow> User \<Rightarrow> bytes \<Rightarrow> string \<Rightarrow> string \<Rightarrow> string
     \<Rightarrow> ('b, 'p) service_state \<times> reply" where
  "handleSetEnv h dw st act body owner name key =
     (if \<not> IsValidEnvKey key then (st, ReplyError 400 ''invalid_env_key'')
      else case Resolve (sv_db st) owner name of
        Inl e \<Rightarrow> (st, writeServiceError e)
      | Inr fn \<Rightarrow>
     (case aj_value (hd_json h) body of
        None \<Rightarrow> (st, invalid_body)
      | Some val \<Rightarrow>
          (case SetEnv (hd_aead h) (dw_nonce dw) (hd_envKey h) (sv_db st) (toUnix (dw_now dw)) act fn key val of
             (db1, Inl e) \<Rightarrow> (st\<lparr>sv_db := db1\<rparr>, writeServiceError e)
           | (db1, Inr _) \<Rightarrow>
               (audited (st\<lparr>sv_db := db1\<rparr>) dw act ''function.env.set'' (''function:'' @ fn_ID fn)
                  (aj_marshal_map (hd_json h) [(''key'', Some key)]), ReplyNoContent))))"

definition handleDeleteEnv ::
  "('f, 'b) ApiHandler \<Rightarrow> draws \<Rightarrow> ('b, 'p) service_state \<Rightarrow> User \<Rightarrow> string \<Rightarrow> string \<Rightarrow> string
     \<Rightarrow> ('b, 'p) service_state \<times> reply" where
  "handleDeleteEnv h dw st act owner name key =
     (case Resolve (sv_db st) owner name of
        Inl e \<Rightarrow> (st, writeServiceError e)
      | Inr fn \<Rightarrow>
          (case DeleteEnv (sv_db st) act fn key of
             (db1, Inl e) \<Rightarrow> (st\<lparr>sv_db := db1\<rparr>, writeServiceError e)
           | (db1, Inr _) \<Rightarrow>
               (audited (st\<lparr>sv_db := db1\<rparr>) dw act ''function.env.delete'' (''function:'' @ fn_ID fn)
                  (aj_marshal_map (hd_json h) [(''key'', Some key)]), ReplyNoContent)))"

section \<open>The upload (deploy.go)\<close>

definition deployResponseBody :: "('f, 'b) ApiHandler \<Rightarrow> DB \<Rightarrow> DeployResult \<Rightarrow> deploy_reply" where
  "deployResponseBody h db res = \<lparr>dpr_dry_run = dr_DryRun res, dpr_manifest = dr_Manifest res, dpr_warnings = dr_Warnings res,
     dpr_function = map_option (\<lambda>fn. functionDTO h db fn []) (dr_Function res),
     dpr_version = map_option versionDTO (dr_Version res)\<rparr>"

text \<open>
  A body that is over the size limit or no multipart form has no parsed form; a form without
  the file part has no bundle.
\<close>

definition handleDeploy ::
  "('f, 'b) ApiHandler \<Rightarrow> draws \<Rightarrow> ('b, 'p) service_state \<Rightarrow> User \<Rightarrow> api_request \<Rightarrow> ('b, 'p) service_state \<times> reply" where
  "handleDeploy h dw st act r =
     (case ar_Form r of
        None \<Rightarrow> (st, ReplyError 413 ''too_large'')
      | Some form \<Rightarrow>
     (case ar_Bundle r of
        None \<Rightarrow> (st, ReplyError 400 ''missing_bundle'')
      | Some bundle \<Rightarrow>
          (case Deploy (hd_crypto h) (hd_env h) (hd_put h) (toUnix (dw_now dw)) (dw_fresh dw 1) (dw_fresh dw 2) st
              \<lparr>dp_Bundle = bundle, dp_Owner = form ''owner'', dp_Name = form ''name'', dp_Note = form ''note'',
               dp_DryRun = (ar_Query r ''dry_run'' = ''true''), dp_Actor = Some act\<rparr> of
             (st1, Inl e) \<Rightarrow> (st1, writeServiceError e)
           | (st1, Inr res) \<Rightarrow>
               if dr_DryRun res then (st1, ReplyDeploy 200 (deployResponseBody h (sv_db st1) res))
               else
                 let st2 = (case (dr_Function res, dr_Version res) of
                        (Some fn, Some v) \<Rightarrow> audited st1 dw act ''function.deploy'' (''function:'' @ fn_ID fn)
                           (aj_marshal_map (hd_json h) [(''owner'', Some (form ''owner'')), (''name'', Some (fn_Name fn)),
                              (''version_id'', Some (fv_ID v))])
                      | _ \<Rightarrow> st1) in
                 (st2, ReplyDeploy 201 (deployResponseBody h (sv_db st2) res)))))"

section \<open>CLI login (cli.go)\<close>

definition handleCLIAuthorize ::
  "('f, 'b) ApiHandler \<Rightarrow> draws \<Rightarrow> DB \<Rightarrow> User \<Rightarrow> bytes \<Rightarrow> DB \<times> reply" where
  "handleCLIAuthorize h dw db act body =
     (case aj_cli_authorize (hd_json h) body of
        None \<Rightarrow> (db, invalid_body)
      | Some b \<Rightarrow>
          (case IssueCLIAuthCode (hd_crypto h) db (dw_now dw) (dw_rnd dw) (u_ID act)
                  (ca_Name b) (ca_Redirect b) (ca_Challenge b) of
             (db1, Inl e) \<Rightarrow>
               (db1, if e = ErrCLIAuthInvalidRequest then ReplyError 400 ''invalid_cli_auth_request'' else writeServiceError Internal)
           | (db1, Inr code) \<Rightarrow>
               (Audit db1 (dw_now dw) (dw_fresh dw 0) (u_ID act) ''cli_login.approve'' (''user:'' @ u_ID act)
                  (aj_marshal_map (hd_json h) [(''name'', Some (ca_Name b))]), ReplyCode code)))"

definition handleCLIToken :: "('f, 'b) ApiHandler \<Rightarrow> draws \<Rightarrow> DB \<Rightarrow> bytes \<Rightarrow> DB \<times> reply" where
  "handleCLIToken h dw db body =
     (case aj_cli_token (hd_json h) body of
        None \<Rightarrow> (db, invalid_body)
      | Some (code, verifier) \<Rightarrow>
          (case ExchangeCLICode (hd_crypto h) db (dw_now dw) (dw_rnd dw) (dw_fresh dw 1) (dw_fresh dw 0) code verifier of
             (db1, Inl e) \<Rightarrow>
               (db1, if e = ErrPKCEMismatch then ReplyError 400 ''pkce_mismatch''
                     else if e = ErrCLIAuthCodeInvalid then ReplyError 400 ''invalid_grant''
                     else writeServiceError Internal)
           | (db1, Inr (plaintext, cred)) \<Rightarrow> (db1, ReplyCredential plaintext (cc_Name cred) (cc_CreatedAt cred))))"

definition handleCLIAccessToken :: "('f, 'b) ApiHandler \<Rightarrow> draws \<Rightarrow> DB \<Rightarrow> api_request \<Rightarrow> DB \<times> reply" where
  "handleCLIAccessToken h dw db r =
     (case cut_prefix ''Bearer '' (rq_Authorization (ar_req r)) of
        None \<Rightarrow> (db, ReplyError 401 ''unauthorized'')
      | Some raw \<Rightarrow>
          if raw = [] then (db, ReplyError 401 ''unauthorized'')
          else case aj_ttl (hd_json h) (ar_Body r) of
            None \<Rightarrow> (db, invalid_body)
          | Some ttlStr \<Rightarrow>
              (case (if ttlStr \<noteq> [] then de_parse_duration (hd_env h) ttlStr else Some 0) of
                 None \<Rightarrow> (db, ReplyError 400 ''invalid_ttl'')
               | Some ttl \<Rightarrow>
                   (case MintAccessTokenFromCredential (hd_crypto h) (hd_auth h) (hd_codec h) db (dw_now dw) raw ttl of
                      (db1, Inl e) \<Rightarrow>
                        (db1, if e = ErrCLICredentialInvalid then ReplyError 401 ''unauthorized'' else writeServiceError Internal)
                    | (db1, Inr (token, expiresAt)) \<Rightarrow> (db1, ReplyAccessToken token expiresAt))))"

definition routeCLI :: "('f, 'b) ApiHandler \<Rightarrow> draws \<Rightarrow> DB \<Rightarrow> User \<Rightarrow> api_request \<Rightarrow> string list \<Rightarrow> DB \<times> reply" where
  "routeCLI h dw db act r rest =
     (if rest = [''authorize''] then
        (if rq_Method (ar_req r) \<noteq> ''POST'' then (db, method_not_allowed) else handleCLIAuthorize h dw db act (ar_Body r))
      else (db, unknown_route))"

section \<open>Routing (handler.go)\<close>

definition routeFunctions ::
  "('f, 'b) ApiHandler \<Rightarrow> draws \<Rightarrow> ('b, 'p) service_state \<Rightarrow> User \<Rightarrow> api_request \<Rightarrow> string list
     \<Rightarrow> ('b, 'p) service_state \<times> reply" where
  "routeFunctions h dw st act r rest =
     (let m = rq_Method (ar_req r); db = sv_db st in
      case rest of
        [] \<Rightarrow>
          (if m = ''GET'' then (st, handleList h db act (ar_Query r))
           else if m = ''POST'' then handleDeploy h dw st act r
           else (st, method_not_allowed))
      | [owner, name] \<Rightarrow>
          (if m = ''GET'' then (st, handleGet h db act owner name)
           else if m = ''DELETE'' then handleDelete h dw st act owner name
           else (st, method_not_allowed))
      | [owner, name, sub] \<Rightarrow>
          (if sub = ''versions'' then
             (if m \<noteq> ''GET'' then (st, method_not_allowed) else (st, handleListVersions db act (ar_Query r) owner name))
           else if sub = ''logs'' then
             (if m \<noteq> ''GET'' then (st, method_not_allowed) else (st, handleLogs db act (ar_Query r) owner name))
           else (st, unknown_route))
      | [owner, name, sub, x] \<Rightarrow>
          (if sub = ''env'' then
             (if m = ''PUT'' then handleSetEnv h dw st act (ar_Body r) owner name x
              else if m = ''DELETE'' then handleDeleteEnv h dw st act owner name x
              else (st, method_not_allowed))
           else (st, unknown_route))
      | [owner, name, sub, x, action] \<Rightarrow>
          (if sub = ''versions'' \<and> action = ''activate'' then
             (if m \<noteq> ''POST'' then (st, method_not_allowed) else handleActivate h dw st act owner name x)
           else (st, unknown_route))
      | _ \<Rightarrow> (st, unknown_route))"

definition on_db :: "('b, 'p) service_state \<Rightarrow> DB \<times> reply \<Rightarrow> ('b, 'p) service_state \<times> reply" where
  "on_db st x = (st\<lparr>sv_db := fst x\<rparr>, snd x)"

definition route ::
  "('f, 'b) ApiHandler \<Rightarrow> draws \<Rightarrow> ('b, 'p) service_state \<Rightarrow> User \<Rightarrow> api_request \<Rightarrow> ('b, 'p) service_state \<times> reply" where
  "route h dw st act r =
     (let path = (case cut_prefix ''/api/v1'' (ar_Path r) of Some p \<Rightarrow> p | None \<Rightarrow> ar_Path r) in
      case splitPath path of
        [] \<Rightarrow> (st, unknown_route)
      | seg # rest \<Rightarrow>
          if seg = ''functions'' then routeFunctions h dw st act r rest
          else if seg = ''org'' then on_db st (routeOrg (hd_json h) (sv_db st) (dw_now dw) (dw_fresh dw) act r rest)
          else if seg = ''workspaces'' then on_db st (routeWorkspaces (hd_json h) (sv_db st) (dw_now dw) (dw_fresh dw) act r rest)
          else if seg = ''me'' then on_db st (routeMe (hd_json h) (sv_db st) (dw_now dw) (dw_fresh dw) act r rest)
          else if seg = ''cli'' then on_db st (routeCLI h dw (sv_db st) act r rest)
          else (st, unknown_route))"

definition isUnauthenticatedCLIPath :: "string \<Rightarrow> bool" where
  "isUnauthenticatedCLIPath path = (path = ''/api/v1/cli/token'' \<or> path = ''/api/v1/cli/access-token'')"

definition routeUnauthenticatedCLI :: "('f, 'b) ApiHandler \<Rightarrow> draws \<Rightarrow> DB \<Rightarrow> api_request \<Rightarrow> DB \<times> reply" where
  "routeUnauthenticatedCLI h dw db r =
     (if rq_Method (ar_req r) \<noteq> ''POST'' then (db, method_not_allowed)
      else if ar_Path r = ''/api/v1/cli/token'' then handleCLIToken h dw db (ar_Body r)
      else handleCLIAccessToken h dw db r)"

definition requirePendingApproved :: "AuthActor \<Rightarrow> reply option" where
  "requirePendingApproved a =
     (if u_Status (aa_User a) = UserStatusPending then Some (ReplyError 403 ''pending_approval'') else None)"

text \<open>
  \<open>ServeHTTP\<close>: \<open>Middleware\<close>, \<open>requirePendingApproved\<close> and \<open>RequireCSRF\<close> in this order before \<open>route\<close>.
\<close>

definition ServeAPI ::
  "('f, 'b) ApiHandler \<Rightarrow> draws \<Rightarrow> ('b, 'p) service_state \<Rightarrow> api_request \<Rightarrow> ('b, 'p) service_state \<times> reply" where
  "ServeAPI h dw st r =
     (if isUnauthenticatedCLIPath (ar_Path r) then on_db st (routeUnauthenticatedCLI h dw (sv_db st) r)
      else case Authenticate (hd_crypto h) (hd_auth h) (hd_codec h) (sv_db st) (dw_now dw) (ar_req r) of
        (db1, Inl _) \<Rightarrow> (st\<lparr>sv_db := db1\<rparr>, ReplyError 401 ''unauthorized'')
      | (db1, Inr a) \<Rightarrow>
          (case requirePendingApproved a of
             Some reply \<Rightarrow> (st\<lparr>sv_db := db1\<rparr>, reply)
           | None \<Rightarrow>
               (case RequireCSRF (hd_auth h) (Some a) (ar_req r) of
                  CsrfOriginFailed \<Rightarrow> (st\<lparr>sv_db := db1\<rparr>, ReplyError 403 ''origin_failed'')
                | CsrfTokenFailed \<Rightarrow> (st\<lparr>sv_db := db1\<rparr>, ReplyError 403 ''csrf_failed'')
                | CsrfPass \<Rightarrow> route h dw (st\<lparr>sv_db := db1\<rparr>) (aa_User a) r)))"

end
