(* ===== verification/Governance.thy ===== *)
theory Governance
  imports Api
begin

text \<open>
  What holds of the management API as a whole: every request leaves the organization well
  governed, whatever the caller sends, and what a request changes is what its authenticated
  caller is entitled to change.
\<close>

section \<open>Governance is kept by every request\<close>

lemma governed_functions:
  assumes "governed db" and "db_ok db'"
    and "db_users db' = db_users db" "db_workspaces db' = db_workspaces db" "db_members db' = db_members db" "db_org db' = db_org db"
    and "\<And>f. f \<in> set (db_functions db') \<Longrightarrow> fn_OwnerType f = OwnerTypeWorkspace \<Longrightarrow> has_row ws_ID (fn_OwnerID f) (db_workspaces db)"
  shows "governed db'"
  using assms openModeEnabled_cong [OF assms(6)] by (simp add: governed_defs)

lemma functions_create_governed:
  assumes g: "governed db" and f: "fn_OwnerType f = OwnerTypeWorkspace \<longrightarrow> has_row ws_ID (fn_OwnerID f) (db_workspaces db)"
  shows "governed (fst (functions_create db now fid f limit))"
proof (rule governed_functions [OF g])
  show "db_ok (fst (functions_create db now fid f limit))" using g by (simp add: governed_def functions_create_ok)
qed (use g f in \<open>auto simp: functions_create_def Let_def governed_def owners_exist_def split: if_splits\<close>)

lemma functions_Update_governed:
  assumes g: "governed db"
  shows "governed (fst (functions_Update db now f))"
proof (rule governed_functions [OF g])
  show "db_ok (fst (functions_Update db now f))" using g by (simp add: governed_def functions_Update_ok)
qed (use g in \<open>auto simp: functions_Update_def governed_def owners_exist_def split: if_splits sum.splits\<close>)

lemma ActivateVersion_governed:
  assumes g: "governed db"
  shows "governed (fst (ActivateVersion db now i v))"
proof (rule governed_functions [OF g])
  show "db_ok (fst (ActivateVersion db now i v))" using g by (simp add: governed_def ActivateVersion_ok)
qed (use g in \<open>auto simp: ActivateVersion_def governed_def owners_exist_def split: if_splits option.splits\<close>)

lemma functions_Delete_governed:
  assumes g: "governed db"
  shows "governed (fst (functions_Delete db now i))"
proof (rule governed_functions [OF g])
  show "db_ok (fst (functions_Delete db now i))" using g by (simp add: governed_def functions_Delete_ok)
qed (use g in \<open>auto simp: functions_Delete_def governed_def owners_exist_def\<close>)

lemma CreateVersion_governed:
  assumes g: "governed db"
  shows "governed (fst (functions_CreateVersion db now i v))"
proof (rule governed_frame [OF g])
  show "db_ok (fst (functions_CreateVersion db now i v))" using g by (simp add: governed_def functions_CreateVersion_ok)
qed (simp_all add: functions_CreateVersion_def Let_def)

lemma SetEnv_governed:
  assumes g: "governed db"
  shows "governed (fst (SetEnv ae nonce envKey db now actor fn key val))"
proof -
  have "governed (fst (functions_SetEnv db now i k v))" for i k v
  proof (rule governed_frame [OF g])
    show "db_ok (fst (functions_SetEnv db now i k v))" using g by (simp add: governed_def functions_SetEnv_ok)
  qed (simp_all add: functions_SetEnv_def)
  with g show ?thesis unfolding SetEnv_def
    by (auto split: sum.splits intro!: keep_case [where P = governed])
qed

lemma DeleteEnv_governed:
  assumes g: "governed db"
  shows "governed (fst (DeleteEnv db actor fn key))"
proof -
  have "governed (fst (functions_DeleteEnv db i k))" for i k
  proof (rule governed_frame [OF g])
    show "db_ok (fst (functions_DeleteEnv db i k))" using g by (simp add: governed_def functions_DeleteEnv_ok)
  qed (simp_all add: functions_DeleteEnv_def)
  with g show ?thesis unfolding DeleteEnv_def
    by (auto split: sum.splits intro!: keep_case [where P = governed])
qed

lemma deploy_function_governed:
  assumes g: "governed db" and o: "ot = OwnerTypeWorkspace \<longrightarrow> has_row ws_ID oid (db_workspaces db)"
  shows "governed (fst (deploy_function db now fid actor pl ot oid))"
proof -
  have "governed d" if "functions_CreateWithinLimit db now fid f l = (d, x)" "fn_OwnerType f = ot" "fn_OwnerID f = oid" for f l d x
    using functions_create_governed [OF g, of f now fid l] that o by (simp add: functions_CreateWithinLimit_def)
  moreover have "governed d" if "functions_Update db now f = (d, x)" for f d x
    using functions_Update_governed [OF g, of now f] that by simp
  ultimately show ?thesis
    using g unfolding deploy_function_def Let_def
    by (auto split: sum.splits store_error.splits prod.splits if_splits)
qed

lemma deploy_version_governed:
  assumes g: "governed db"
  shows "governed (fst (deploy_version db now vid v fn))"
  unfolding deploy_version_def
  using g by (auto intro!: keep_case [where P = governed] CreateVersion_governed ActivateVersion_governed)

lemma deploy_commit_governed:
  assumes g: "governed (sv_db st)"
    and o: "fst (snd place) = OwnerTypeWorkspace \<longrightarrow> has_row ws_ID (snd (snd place)) (db_workspaces (sv_db st))"
  shows "governed (sv_db (fst (deploy_commit c env now fid vid p actor pl place st)))"
proof (cases "deploy_function (sv_db st) now fid actor pl (fst (snd place)) (snd (snd place))")
  case (Pair db1 res)
  then have g1: "governed db1" using deploy_function_governed [OF g o, of now fid actor pl] by simp
  show ?thesis
  proof (cases res)
    case (Inr fn)
    with Pair deploy_version_governed [OF g1, of now vid "new_version c env p actor pl (fst place) (fn_ID fn)" fn] show ?thesis
      by (auto simp: deploy_commit_def split: prod.splits sum.splits)
  qed (use Pair g1 in \<open>simp add: deploy_commit_def\<close>)
qed

lemma deploy_place_owner:
  assumes "deploy_place db p actor pl = Inr place"
  shows "fst (snd place) = OwnerTypeWorkspace \<longrightarrow> has_row ws_ID (snd (snd place)) (db_workspaces db)"
  using assms
  by (auto simp: deploy_place_def authorizeDeploy_def workspaces_ByID_def has_row_def Let_def
      split: sum.splits if_splits dest!: lookup_row_Some)

lemma Deploy_governed:
  assumes g: "governed (sv_db st)"
  shows "governed (sv_db (fst (Deploy c env put now fid vid st p)))"
  unfolding Deploy_def
  using g by (auto split: sum.splits option.splits if_splits intro!: deploy_commit_governed dest: deploy_place_owner)

lemma Authenticate_sessions:
  "\<exists>s. fst (Authenticate c a j db now r) = db\<lparr>db_sessions := s\<rparr>"
proof -
  have r: "\<exists>s. db = db\<lparr>db_sessions := s\<rparr>" by (rule exI [of _ "db_sessions db"]) simp
  have "\<exists>s. fst (sessions_Refresh db t i e) = db\<lparr>db_sessions := s\<rparr>" for t i e
    using r by (auto simp: sessions_Refresh_def)
  with r show ?thesis
    by (auto simp: Authenticate_def AuthenticateSessionCookie_def authenticateSession_def split: option.splits sum.splits)
qed

lemma Authenticate_ok: "db_ok db \<Longrightarrow> db_ok (fst (Authenticate c a j db now r))"
  by (auto simp: Authenticate_def AuthenticateSessionCookie_def authenticateSession_def sessions_Refresh_ok split: option.splits sum.splits)

lemma Authenticate_governed:
  assumes g: "governed db"
  shows "governed (fst (Authenticate c a j db now r))"
proof -
  obtain s where "fst (Authenticate c a j db now r) = db\<lparr>db_sessions := s\<rparr>" using Authenticate_sessions by blast
  moreover have "db_ok (fst (Authenticate c a j db now r))" using g by (simp add: governed_def Authenticate_ok)
  ultimately show ?thesis by (intro governed_frame [OF g]) simp_all
qed

lemma handleCLIAuthorize_governed:
  assumes g: "governed db"
  shows "governed (fst (handleCLIAuthorize h dw db act body))"
proof -
  have "governed (fst (cliAuthCodes_Create db t x))" for t x
  proof (rule governed_frame [OF g])
    show "db_ok (fst (cliAuthCodes_Create db t x))" using g by (simp add: governed_def cliAuthCodes_Create_ok)
  qed (simp_all add: cliAuthCodes_Create_def Let_def)
  then have "governed (fst (IssueCLIAuthCode c db now rnd u n re ch))" for c now rnd u n re ch
    using g unfolding IssueCLIAuthCode_def Let_def by (auto intro!: keep_case [where P = governed])
  with g show ?thesis unfolding handleCLIAuthorize_def
    by (auto split: option.splits intro!: keep_case [where P = governed] Audit_governed)
qed

lemma handleCLIToken_governed:
  assumes g: "governed db"
  shows "governed (fst (handleCLIToken h dw db body))"
proof -
  have cc: "governed d \<Longrightarrow> governed (fst (cliCredentials_Create d t f x))" for d t f x
    by (rule governed_frame [of d]) (simp_all add: governed_def cliCredentials_Create_ok, simp_all add: cliCredentials_Create_def Let_def)
  have co: "governed (fst (cliAuthCodes_Consume db i t))" for i t
  proof (rule governed_frame [OF g])
    show "db_ok (fst (cliAuthCodes_Consume db i t))" using g by (simp add: governed_def cliAuthCodes_Consume_ok)
  qed (simp_all add: cliAuthCodes_Consume_def)
  have "governed (fst (ExchangeCLICode c db t rnd f fa code v))" for c t rnd f fa code v
    unfolding ExchangeCLICode_def GenerateCLICredential_def Let_def prod.case
    using g co by (auto simp: cc Audit_governed intro!: keep_case [where P = governed])
  with g show ?thesis unfolding handleCLIToken_def
    by (auto split: option.splits intro!: keep_case [where P = governed])
qed

lemma handleCLIAccessToken_governed:
  assumes g: "governed db"
  shows "governed (fst (handleCLIAccessToken h dw db r))"
proof -
  have "governed (fst (cliCredentials_Touch db i t))" for i t
  proof (rule governed_frame [OF g])
    show "db_ok (fst (cliCredentials_Touch db i t))" using g by (simp add: governed_def cliCredentials_Touch_ok)
  qed (simp_all add: cliCredentials_Touch_def)
  then have "governed (fst (MintAccessTokenFromCredential c a j db t raw ttl))" for c a j t raw ttl
    using g unfolding MintAccessTokenFromCredential_def
    by (auto split: sum.splits intro!: keep_case [where P = governed])
  with g show ?thesis unfolding handleCLIAccessToken_def
    by (auto split: option.splits intro!: keep_case [where P = governed])
qed

lemma keep_state_case:
  assumes "P (sv_db (fst p))" and "\<And>d e. P (sv_db d) \<Longrightarrow> P (sv_db (fst (f d e)))" and "\<And>d x. P (sv_db d) \<Longrightarrow> P (sv_db (fst (g d x)))"
  shows "P (sv_db (fst (case p of (d, Inl e) \<Rightarrow> f d e | (d, Inr x) \<Rightarrow> g d x)))"
  using assms by (cases p; cases "snd p") auto

lemma keep_db_case:
  assumes "P (fst p)" and "\<And>d e. P d \<Longrightarrow> P (sv_db (fst (f d e)))" and "\<And>d x. P d \<Longrightarrow> P (sv_db (fst (g d x)))"
  shows "P (sv_db (fst (case p of (d, Inl e) \<Rightarrow> f d e | (d, Inr x) \<Rightarrow> g d x)))"
  using assms by (cases p; cases "snd p") auto

lemma audited_governed: "governed (sv_db st) \<Longrightarrow> governed (sv_db (audited st dw act x y z))"
  by (simp add: audited_def Audit_governed)

lemma Activate_governed: "governed (sv_db st) \<Longrightarrow> governed (sv_db (fst (Activate now st fn v)))"
  unfolding Activate_def by (auto intro!: keep_db_case [where P = governed] ActivateVersion_governed)

lemma DeleteFunction_governed: "governed (sv_db st) \<Longrightarrow> governed (sv_db (fst (DeleteFunction now st fn)))"
  unfolding DeleteFunction_def Let_def by (auto intro!: keep_db_case [where P = governed] functions_Delete_governed)

lemma routeFunctions_governed:
  assumes g: "governed (sv_db st)"
  shows "governed (sv_db (fst (routeFunctions h dw st act r rest)))"
proof -
  have "governed (sv_db (fst (handleActivate h dw st act x y v)))" for x y v
    unfolding handleActivate_def Let_def
    using g by (auto split: sum.splits intro!: keep_state_case [where P = governed] Activate_governed audited_governed)
  moreover have "governed (sv_db (fst (handleDelete h dw st act x y)))" for x y
    unfolding handleDelete_def
    using g by (auto split: sum.splits intro!: keep_state_case [where P = governed] DeleteFunction_governed audited_governed)
  moreover have "governed (sv_db (fst (handleSetEnv h dw st act b x y k)))" for b x y k
    unfolding handleSetEnv_def
    using g by (auto split: sum.splits option.splits intro!: keep_db_case [where P = governed] SetEnv_governed audited_governed)
  moreover have "governed (sv_db (fst (handleDeleteEnv h dw st act x y k)))" for x y k
    unfolding handleDeleteEnv_def
    using g by (auto split: sum.splits intro!: keep_db_case [where P = governed] DeleteEnv_governed audited_governed)
  moreover have "governed (sv_db (fst (handleDeploy h dw st act r)))"
    unfolding handleDeploy_def Let_def
    using g by (auto split: option.splits intro!: keep_state_case [where P = governed] Deploy_governed audited_governed)
  ultimately show ?thesis using g
    by (auto simp: routeFunctions_def Let_def split: list.splits)
qed

lemma route_governed:
  assumes g: "governed (sv_db st)"
  shows "governed (sv_db (fst (route h dw st act r)))"
proof -
  have "governed (fst (routeCLI h dw (sv_db st) act r x))" for x
    using g by (simp add: routeCLI_def handleCLIAuthorize_governed)
  then show ?thesis using g
    by (auto simp: route_def Let_def on_db_def routeFunctions_governed routeOrg_governed routeWorkspaces_governed routeMe_governed
        split: list.splits)
qed

lemma ServeAPI_governed:
  assumes g: "governed (sv_db st)"
  shows "governed (sv_db (fst (ServeAPI h dw st r)))"
proof (cases "isUnauthenticatedCLIPath (ar_Path r)")
  case True
  with g show ?thesis
    by (simp add: ServeAPI_def on_db_def routeUnauthenticatedCLI_def handleCLIToken_governed handleCLIAccessToken_governed)
next
  case False
  then show ?thesis unfolding ServeAPI_def
    using Authenticate_governed [OF g]
    by (auto split: option.splits csrf_result.splits intro!: keep_db_case [where P = governed] route_governed)
qed

section \<open>Who changes what\<close>

definition admin_view :: "DB \<Rightarrow> Organization option \<times> LoginRule list \<times> (string \<times> Provider \<times> string \<times> Role \<times> UserStatus) list" where
  "admin_view db = (db_org db, db_login_rules db, map standing (db_users db))"

definition ws_view :: "DB \<Rightarrow> string \<Rightarrow> WorkspaceRow list \<times> WorkspaceMember list" where
  "ws_view db w = (filter (\<lambda>r. ws_ID r = w) (db_workspaces db), filter (\<lambda>m. wm_WorkspaceID m = w) (db_members db))"

definition fn_view :: "DB \<Rightarrow> string \<Rightarrow> Function list \<times> FunctionVersion list \<times> EnvVar list" where
  "fn_view db i = (filter (\<lambda>f. fn_ID f = i) (db_functions db), filter (\<lambda>v. fv_FunctionID v = i) (db_versions db),
     filter (\<lambda>e. ev_FunctionID e = i) (db_env db))"

lemma admin_view_cong:
  "db_org d = db_org db \<Longrightarrow> db_login_rules d = db_login_rules db \<Longrightarrow> db_users d = db_users db \<Longrightarrow> admin_view d = admin_view db"
  by (simp add: admin_view_def)

lemma ws_view_cong: "db_workspaces d = db_workspaces db \<Longrightarrow> db_members d = db_members db \<Longrightarrow> ws_view d = ws_view db"
  by (simp add: ws_view_def fun_eq_iff)

lemma fn_view_cong:
  "db_functions d = db_functions db \<Longrightarrow> db_versions d = db_versions db \<Longrightarrow> db_env d = db_env db \<Longrightarrow> fn_view d = fn_view db"
  by (simp add: fn_view_def fun_eq_iff)

lemma view_Audit [simp]:
  "admin_view (Audit db now f x y z d) = admin_view db" "ws_view (Audit db now f x y z d) = ws_view db"
  "fn_view (Audit db now f x y z d) = fn_view db"
  by (simp_all add: admin_view_def ws_view_def fn_view_def fun_eq_iff)

text \<open>The workspace routes leave the rest alone, and touch only workspaces the caller may manage or creates.\<close>

definition ws_entitled :: "DB \<Rightarrow> User \<Rightarrow> string \<Rightarrow> bool" where
  "ws_entitled db act w = (CanManageWorkspace (actor_of act) (workspaceRoleFor db w (u_ID act))
     \<or> \<not> has_row ws_ID w (db_workspaces db) \<and> CanCreateWorkspace (actor_of act))"

lemma filter_none: "\<forall>x \<in> set xs. \<not> P x \<Longrightarrow> filter P xs = []"
  by (simp add: filter_empty_conv)

lemma filter_delete_rows: "(\<And>r. p r \<Longrightarrow> \<not> q r) \<Longrightarrow> filter q (delete_rows p rows) = filter q rows"
  by (induction rows) (auto simp: delete_rows_def)

lemmas ws_op_defs = CreateWorkspace_def workspaces_Update_def workspaces_Delete_def workspaces_AddMember_def
  workspaces_UpdateMemberRole_def workspaces_RemoveMember_def

text \<open>Two databases that agree on the administration, the functions and the workspaces of a set.\<close>

definition ws_frame :: "DB \<Rightarrow> string set \<Rightarrow> DB \<Rightarrow> bool" where
  "ws_frame db X d = (admin_view d = admin_view db \<and> fn_view d = fn_view db \<and> (\<forall>w \<in> X. ws_view d w = ws_view db w))"

lemma ws_frame_simps [simp]: "ws_frame db X db" "ws_frame db X (Audit d now f x y z t) = ws_frame db X d"
  by (simp_all add: ws_frame_def)

lemma ws_ops_frame:
  "ws_ID r \<notin> X \<Longrightarrow> ws_frame db X (fst (workspaces_Update db t r))"
  "i \<notin> X \<Longrightarrow> ws_frame db X (fst (workspaces_Delete db i))"
  "wm_WorkspaceID m \<notin> X \<Longrightarrow> ws_frame db X (fst (workspaces_AddMember db t m))"
  "i \<notin> X \<Longrightarrow> ws_frame db X (fst (workspaces_UpdateMemberRole db t i u ro))"
  "i \<notin> X \<Longrightarrow> ws_frame db X (fst (workspaces_RemoveMember db i u))"
  by (auto simp: ws_op_defs Let_def ws_frame_def admin_view_def fn_view_def ws_view_def is_member_def
      intro!: filter_update_rows filter_delete_rows)

lemma CreateWorkspace_frame:
  "(\<And>w. w \<in> X \<Longrightarrow> has_row ws_ID w (db_workspaces db)) \<Longrightarrow> ws_frame db X (fst (CreateWorkspace db t f r u))"
  by (auto simp: CreateWorkspace_def Let_def ws_frame_def admin_view_def fn_view_def ws_view_def)

lemma manage_entitled: "requireManageWorkspaceActor db act i = Inr () \<Longrightarrow> ws_entitled db act i"
  by (auto simp: requireManageWorkspaceActor_def ws_entitled_def split: if_splits)

lemmas ws_keep = keep_case [where P = "ws_frame db X" for db X]

lemma workspace_use_cases_frame:
  "ws_frame db {w. \<not> ws_entitled db act w} (fst (api_CreateWorkspace j db now a b act x))"
  "ws_frame db {w. \<not> ws_entitled db act w} (fst (SetWorkspaceMember j db now a act i u x))"
  "ws_frame db {w. \<not> ws_entitled db act w} (fst (RemoveWorkspaceMember j db now a act i u))"
proof -
  have create: "has_row ws_ID w (db_workspaces db)" if "CanCreateWorkspace (actor_of act)" "\<not> ws_entitled db act w" for w
    using that by (auto simp: ws_entitled_def)
  then show "ws_frame db {w. \<not> ws_entitled db act w} (fst (api_CreateWorkspace j db now a b act x))"
    unfolding api_CreateWorkspace_def Let_def by (auto split: option.splits intro!: ws_keep CreateWorkspace_frame)
  show "ws_frame db {w. \<not> ws_entitled db act w} (fst (SetWorkspaceMember j db now a act i u x))"
    unfolding SetWorkspaceMember_def Let_def
    by (auto dest: manage_entitled split: option.splits sum.splits intro!: ws_keep ws_ops_frame)
  show "ws_frame db {w. \<not> ws_entitled db act w} (fst (RemoveWorkspaceMember j db now a act i u))"
    unfolding RemoveWorkspaceMember_def Let_def
    by (auto dest: manage_entitled split: sum.splits intro!: ws_keep ws_ops_frame)
qed

lemma routeWorkspaces_frame:
  shows "ws_frame db {w. \<not> ws_entitled db act w} (fst (routeWorkspaces j db now fresh act r rest))"
proof -
  let ?X = "{w. \<not> ws_entitled db act w}"
  have "ws_frame db ?X (fst (handleWorkspaceCreate j db now a b act x))" for a b x
    unfolding handleWorkspaceCreate_def by (auto split: option.splits intro!: ws_keep workspace_use_cases_frame)
  moreover have "ws_frame db ?X (fst (handleWorkspacePatch j db now a act i x))" for a i x
    unfolding handleWorkspacePatch_def merged_workspace_def Let_def
    by (auto dest: manage_entitled split: option.splits sum.splits intro!: ws_keep ws_ops_frame)
  moreover have "ws_frame db ?X (fst (handleWorkspaceDelete j db now a act i))" for a i
    unfolding handleWorkspaceDelete_def
    by (auto dest: manage_entitled split: sum.splits intro!: ws_keep ws_ops_frame)
  moreover have "ws_frame db ?X (fst (handleWorkspaceMemberPut j db now a act i u x))" for a i u x
    unfolding handleWorkspaceMemberPut_def by (auto split: option.splits intro!: ws_keep workspace_use_cases_frame)
  moreover have "ws_frame db ?X (fst (handleWorkspaceMemberDelete j db now a act i u))" for a i u
    unfolding handleWorkspaceMemberDelete_def by (auto intro!: ws_keep workspace_use_cases_frame)
  ultimately show ?thesis
    unfolding routeWorkspaces_def Let_def by (auto split: option.splits list.splits)
qed

text \<open>The caller's own routes and the CLI routes leave all of it alone.\<close>

definition all_views :: "DB \<Rightarrow> DB \<Rightarrow> bool" where
  "all_views db d = (admin_view d = admin_view db \<and> fn_view d = fn_view db \<and> ws_view d = ws_view db)"

lemma all_views_simps [simp]: "all_views db db" "all_views db (Audit d now f x y z t) = all_views db d"
  by (simp_all add: all_views_def)

lemma users_Update_language:
  assumes "unique_on u_ID (db_users db)" and "u \<in> set (db_users db)"
  shows "all_views db (fst (users_Update db now (u\<lparr>u_Language := l\<rparr>)))"
proof -
  obtain b where d: "fst (users_Update db now (u\<lparr>u_Language := l\<rparr>)) = db\<lparr>db_users := update_rows (\<lambda>r. b \<and> u_ID r = u_ID u)
      (\<lambda>_. u\<lparr>u_Language := l, u_CreatedAt := u_CreatedAt u, u_UpdatedAt := now\<rparr>) (db_users db)\<rparr>"
    using users_Update_rows [OF assms, of "u\<lparr>u_Language := l\<rparr>" now] by auto
  have "map standing (update_rows (\<lambda>r. b \<and> u_ID r = u_ID u) (\<lambda>_. u\<lparr>u_Language := l, u_CreatedAt := u_CreatedAt u, u_UpdatedAt := now\<rparr>) (db_users db))
      = map standing (db_users db)"
    using unique_on_inj [OF assms(1) _ assms(2)] by (auto simp: update_rows_def standing_def)
  then show ?thesis unfolding d by (simp add: all_views_def admin_view_def fn_view_def ws_view_def fun_eq_iff)
qed

lemma RevokeDevice_views: "all_views db (fst (RevokeDevice db now f act k i ov))"
proof -
  have "all_views db (fst (cliCredentials_Delete db i)) \<and> all_views db (fst (oauthGrants_Delete db i))" for i
    by (simp add: all_views_def admin_view_def fn_view_def ws_view_def fun_eq_iff cliCredentials_Delete_def oauthGrants_Delete_def)
  then show ?thesis unfolding RevokeDevice_def Let_def by (auto intro!: keep_case [where P = "all_views db"])
qed

lemma routeMe_views:
  assumes ok: "db_ok db"
  shows "all_views db (fst (routeMe j db now fresh act r rest))"
proof -
  note keep = keep_case [where P = "all_views db"]
  have un: "unique_on u_ID (db_users db)" using ok by (simp add: db_ok_defs)
  have lang: "all_views db (fst (set_language j db now f a u l))" if "u \<in> set (db_users db)" for f a u l
    unfolding set_language_def using users_Update_language [OF un that] by (auto intro!: keep)
  have ren: "all_views db d \<Longrightarrow> all_views db (fst (handles_Rename d n x y))" for d n x y
    by (simp add: all_views_def admin_view_def fn_view_def ws_view_def fun_eq_iff handles_Rename_def)
  have uid: "all_views db d \<Longrightarrow> all_views db (fst (set_user_id j d now f a u n))" for d f a u n
    unfolding set_user_id_def by (auto split: sum.splits intro!: keep ren)
  have "all_views db (fst (handleMePatch j db now fresh act b))" for b
  proof (cases "users_ByID db (u_ID act)")
    case (Inr u)
    then have u: "u \<in> set (db_users db)" by (auto simp: users_ByID_def dest: lookup_row_Some)
    show ?thesis unfolding handleMePatch_def Inr
      using lang [OF u] by (auto split: option.splits if_splits intro!: keep uid)
  qed (simp add: handleMePatch_def)
  moreover have "RevokeDevice db now f act ''cli'' i ov = (d, Inl e) \<Longrightarrow> d = db" for f i ov d e
    by (auto simp: RevokeDevice_def Let_def cliCredentials_Delete_def split: if_splits)
  with RevokeDevice_views have "all_views db (fst (handleDeviceDelete db now f act i))" for f i
    unfolding handleDeviceDelete_def by (auto split: prod.split sum.split) (metis fst_conv)+
  ultimately show ?thesis by (auto simp: routeMe_def Let_def split: list.splits)
qed

lemma CLI_views:
  "all_views db (fst (handleCLIAuthorize h dw db act b))" "all_views db (fst (handleCLIToken h dw db b))"
  "all_views db (fst (handleCLIAccessToken h dw db r))"
proof -
  note keep = keep_case [where P = "all_views db"]
  note views = all_views_def admin_view_def fn_view_def ws_view_def fun_eq_iff
  have "all_views db (fst (cliAuthCodes_Create db t x))" for t x
    by (simp add: views cliAuthCodes_Create_def Let_def)
  then have "all_views db (fst (IssueCLIAuthCode c db now rnd u n re ch))" for c now rnd u n re ch
    unfolding IssueCLIAuthCode_def Let_def by (auto intro!: keep)
  then show "all_views db (fst (handleCLIAuthorize h dw db act b))"
    unfolding handleCLIAuthorize_def by (auto split: option.splits intro!: keep)
  have cc: "all_views db d \<Longrightarrow> all_views db (fst (cliCredentials_Create d t f x))" for d t f x
    by (simp add: views cliCredentials_Create_def Let_def)
  have co: "all_views db (fst (cliAuthCodes_Consume db i t))" for i t
    by (simp add: views cliAuthCodes_Consume_def)
  have "all_views db (fst (ExchangeCLICode c db t rnd f fa code v))" for c t rnd f fa code v
    unfolding ExchangeCLICode_def GenerateCLICredential_def Let_def prod.case
    using co by (auto simp: cc intro!: keep)
  then show "all_views db (fst (handleCLIToken h dw db b))"
    unfolding handleCLIToken_def by (auto split: option.splits intro!: keep)
  have "all_views db (fst (cliCredentials_Touch db i t))" for i t
    by (simp add: views cliCredentials_Touch_def)
  then have "all_views db (fst (MintAccessTokenFromCredential c a j db t raw ttl))" for c a j t raw ttl
    unfolding MintAccessTokenFromCredential_def by (auto split: sum.splits intro!: keep)
  then show "all_views db (fst (handleCLIAccessToken h dw db r))"
    unfolding handleCLIAccessToken_def by (auto split: option.splits intro!: keep)
qed

text \<open>The function routes touch only functions the caller may manage or deploys.\<close>

definition fn_frame :: "DB \<Rightarrow> string \<Rightarrow> DB \<Rightarrow> bool" where
  "fn_frame db i d = (admin_view d = admin_view db \<and> ws_view d = ws_view db \<and> fn_view d i = fn_view db i)"

definition fn_entitled :: "DB \<Rightarrow> DB \<Rightarrow> User \<Rightarrow> string \<Rightarrow> bool" where
  "fn_entitled db d act i = ((\<exists>f \<in> set (db_functions db). fn_ID f = i \<and> may_manage db act f)
     \<or> (\<exists>f \<in> set (db_functions d). fn_ID f = i \<and> may_deploy db act (fn_OwnerType f) (fn_OwnerID f)))"

lemma fn_frame_simps [simp]: "fn_frame db i db" "fn_frame db i (Audit d now f x y z t) = fn_frame db i d"
  by (simp_all add: fn_frame_def)

lemma fn_frame_audited [simp]: "fn_frame db i (sv_db (audited st dw act x y z)) = fn_frame db i (sv_db st)"
  by (simp add: audited_def)

lemma fn_ops_frame:
  "k \<noteq> i \<Longrightarrow> fn_frame db i (fst (ActivateVersion db t k v))"
  "k \<noteq> i \<Longrightarrow> fn_frame db i (fst (functions_Delete db t k))"
  "k \<noteq> i \<Longrightarrow> fn_frame db i (fst (functions_SetEnv db t k key val))"
  "k \<noteq> i \<Longrightarrow> fn_frame db i (fst (functions_DeleteEnv db k key))"
  by (auto simp: ActivateVersion_def functions_Delete_def functions_SetEnv_def functions_DeleteEnv_def
      fn_frame_def admin_view_def fn_view_def ws_view_def fun_eq_iff split: option.splits
      intro!: filter_update_rows filter_delete_rows)

lemma only_function_frame:
  assumes "only_function k db d" and "k \<noteq> i"
  shows "fn_frame db i d"
proof -
  have sub: "filter (\<lambda>x. g x = i) xs = filter (\<lambda>x. g x = i) (filter (\<lambda>x. g x \<noteq> k) xs)" for g :: "'x \<Rightarrow> string" and xs
    using assms(2) by (induction xs) auto
  have rest: "d\<lparr>db_functions := db_functions db, db_versions := db_versions db, db_names := db_names db\<rparr> = db"
    using assms(1) by (simp add: only_function_def)
  have "db_org d = db_org db" "db_login_rules d = db_login_rules db" "db_users d = db_users db"
    "db_workspaces d = db_workspaces db" "db_members d = db_members db" "db_env d = db_env db"
    using rest [THEN arg_cong [where f = db_org]] rest [THEN arg_cong [where f = db_login_rules]] rest [THEN arg_cong [where f = db_users]]
      rest [THEN arg_cong [where f = db_workspaces]] rest [THEN arg_cong [where f = db_members]] rest [THEN arg_cong [where f = db_env]]
    by simp_all
  moreover have "filter (\<lambda>f. fn_ID f = i) (db_functions d) = filter (\<lambda>f. fn_ID f = i) (db_functions db)"
    "filter (\<lambda>f. fv_FunctionID f = i) (db_versions d) = filter (\<lambda>f. fv_FunctionID f = i) (db_versions db)"
    using assms(1) sub [of fn_ID "db_functions d"] sub [of fn_ID "db_functions db"]
      sub [of fv_FunctionID "db_versions d"] sub [of fv_FunctionID "db_versions db"] by (simp_all add: only_function_def)
  ultimately show ?thesis by (simp add: fn_frame_def admin_view_def fn_view_def ws_view_def fun_eq_iff)
qed

lemma deploy_version_only:
  assumes "fv_FunctionID v = fn_ID fn" and "fn \<in> set (db_functions db)" and "deploy_version db now vid v fn = (d, res)"
  shows "only_function (fn_ID fn) db d
    \<and> (\<exists>f \<in> set (db_functions d). fn_ID f = fn_ID fn \<and> fn_OwnerType f = fn_OwnerType fn \<and> fn_OwnerID f = fn_OwnerID fn)"
proof -
  have "only_function (fn_ID fn) db (fst (functions_CreateVersion db now vid v))"
    using assms(1) by (auto simp: functions_CreateVersion_def only_function_def Let_def)
  moreover have "only_function (fn_ID fn) d' (fst (ActivateVersion d' now (fn_ID fn) x))" for d' x
    by (auto simp: ActivateVersion_def only_function_def filter_update_rows split: option.splits)
  ultimately have "only_function (fn_ID fn) db d"
    using assms(3) unfolding deploy_version_def
    by (auto split: prod.splits sum.splits) (metis fst_conv only_function_trans)+
  moreover have "fn \<in> set (db_functions (fst (functions_CreateVersion db now vid v)))"
    using assms(2) by (simp add: functions_CreateVersion_def Let_def)
  moreover have "fn \<in> set (db_functions d') \<Longrightarrow> \<exists>f \<in> set (db_functions (fst (ActivateVersion d' now (fn_ID fn) x))).
      fn_ID f = fn_ID fn \<and> fn_OwnerType f = fn_OwnerType fn \<and> fn_OwnerID f = fn_OwnerID fn" for d' x
  proof -
    let ?k = "\<lambda>f. (fn_ID f, fn_OwnerType f, fn_OwnerID f)"
    assume "fn \<in> set (db_functions d')"
    moreover have "?k ` set (db_functions (fst (ActivateVersion d' now (fn_ID fn) x))) = ?k ` set (db_functions d')"
      by (simp add: ActivateVersion_def image_update_rows del: set_update_rows split: option.splits)
    ultimately have "?k fn \<in> ?k ` set (db_functions (fst (ActivateVersion d' now (fn_ID fn) x)))" by blast
    then show ?thesis by auto
  qed
  ultimately show ?thesis
    using assms(3) unfolding deploy_version_def
    by (auto split: prod.splits sum.splits) (metis fst_conv)+
qed

lemma deploy_commit_frame:
  assumes ok: "db_ok (sv_db st)" and may: "may_deploy (sv_db st) act (fst (snd place)) (snd (snd place))"
    and n: "\<not> fn_frame (sv_db st) i (sv_db (fst (deploy_commit c env now fid vid p act pl place st)))"
  shows "\<exists>f \<in> set (db_functions (sv_db (fst (deploy_commit c env now fid vid p act pl place st)))).
    fn_ID f = i \<and> may_deploy (sv_db st) act (fn_OwnerType f) (fn_OwnerID f)"
proof (cases "deploy_function (sv_db st) now fid act pl (fst (snd place)) (snd (snd place))")
  case (Pair db1 res)
  show ?thesis
  proof (cases res)
    case (Inl e)
    with Pair have "db1 = sv_db st" by (blast intro: deploy_function_Inl)
    with Pair Inl n show ?thesis by (simp add: deploy_commit_def)
  next
    case (Inr fn)
    let ?v = "new_version c env p act pl (fst place) (fn_ID fn)"
    obtain db2 res2 where dv: "deploy_version db1 now vid ?v fn = (db2, res2)" by fastforce
    have df: "only_function (fn_ID fn) (sv_db st) db1" "fn \<in> set (db_functions db1)"
      "fn_OwnerType fn = fst (snd place)" "fn_OwnerID fn = snd (snd place)"
      using deploy_function_Inr [OF ok, of now fid act pl] Pair Inr by auto
    have ov: "only_function (fn_ID fn) db1 db2"
      "\<exists>f \<in> set (db_functions db2). fn_ID f = fn_ID fn \<and> fn_OwnerType f = fn_OwnerType fn \<and> fn_OwnerID f = fn_OwnerID fn"
      using deploy_version_only [OF _ df(2) dv] by (auto simp: new_version_def)
    have st': "sv_db (fst (deploy_commit c env now fid vid p act pl place st)) = db2"
      using Pair Inr dv by (auto simp: deploy_commit_def split: sum.splits)
    have "i = fn_ID fn"
      using n only_function_frame [OF only_function_trans [OF df(1) ov(1)], of i] unfolding st' by auto
    with ov(2) df may show ?thesis unfolding st' by auto
  qed
qed

lemma Deploy_frame:
  assumes ok: "db_ok (sv_db st)" and a: "dp_Actor p = Some act"
    and n: "\<not> fn_frame (sv_db st) i (sv_db (fst (Deploy c env put now fid vid st p)))"
  shows "\<exists>f \<in> set (db_functions (sv_db (fst (Deploy c env put now fid vid st p)))).
    fn_ID f = i \<and> may_deploy (sv_db st) act (fn_OwnerType f) (fn_OwnerID f)"
proof -
  from n a obtain pl place blobs where d: "deploy_validate env (sv_db st) p = Inr pl" "deploy_place (sv_db st) p act pl = Inr place"
    and e: "Deploy c env put now fid vid st p = deploy_commit c env now fid vid p act pl place (st\<lparr>sv_blobs := blobs\<rparr>)"
    by (auto simp: Deploy_def split: sum.splits option.splits if_splits)
  have "authorizeDeploy (sv_db st) act (fst (snd place)) (snd (snd place)) (pl_org pl) = Inr ()"
    using d(2) by (auto simp: deploy_place_def split: sum.splits if_splits)
  then have "may_deploy (sv_db st) act (fst (snd place)) (snd (snd place))"
    using deploy_validate_Inr [OF d(1)] by (blast intro: authorizeDeploy_may)
  with n ok deploy_commit_frame [of "st\<lparr>sv_blobs := blobs\<rparr>" act place i] show ?thesis unfolding e by simp
qed

lemma Resolve_member: "Resolve db owner name = Inr fn \<Longrightarrow> fn \<in> set (db_functions db)"
  by (auto simp: Resolve_def functions_ByOwnerAndName_def split: sum.splits dest: lookup_row_Some)

lemma ResolveVisible_member: "ResolveVisible db act x y = Inr fn \<Longrightarrow> fn \<in> set (db_functions db)"
  by (auto simp: ResolveVisible_def split: sum.splits if_splits dest: Resolve_member)

lemma Activate_frame: "fn_ID fn \<noteq> i \<Longrightarrow> fn_frame (sv_db st) i (sv_db (fst (Activate t st fn v)))"
  unfolding Activate_def by (auto intro!: keep_db_case [where P = "fn_frame (sv_db st) i"] fn_ops_frame)

lemma DeleteFunction_frame: "fn_ID fn \<noteq> i \<Longrightarrow> fn_frame (sv_db st) i (sv_db (fst (DeleteFunction t st fn)))"
  unfolding DeleteFunction_def Let_def by (auto intro!: keep_db_case [where P = "fn_frame (sv_db st) i"] fn_ops_frame)

lemma may_not_entitled:
  "\<not> fn_entitled db d act i \<Longrightarrow> fn \<in> set (db_functions db) \<Longrightarrow> CanManage db act fn = Inr () \<Longrightarrow> fn_ID fn \<noteq> i"
  using CanManage_may by (auto simp: fn_entitled_def)

lemma routeFunctions_frame:
  assumes ok: "db_ok (sv_db st)" and n: "\<not> fn_entitled (sv_db st) (sv_db (fst (routeFunctions h dw st act r rest))) act i"
  shows "fn_frame (sv_db st) i (sv_db (fst (routeFunctions h dw st act r rest)))"
proof -
  let ?db = "sv_db st"
  note keep = keep_state_case [where P = "fn_frame ?db i"] keep_db_case [where P = "fn_frame ?db i"]
  note may = may_not_entitled [OF n]
  have "fn_frame ?db i (sv_db (fst (handleActivate h dw st act x y v)))" for x y v
    unfolding handleActivate_def Let_def
    by (auto split: sum.splits intro!: keep Activate_frame dest: ResolveVisible_member may)
  moreover have "fn_frame ?db i (sv_db (fst (handleDelete h dw st act x y)))" for x y
    unfolding handleDelete_def
    by (auto split: sum.splits intro!: keep DeleteFunction_frame dest: ResolveVisible_member may)
  moreover have "fn_frame ?db i (fst (SetEnv ae no ek ?db t act fn k v))" if "fn \<in> set (db_functions ?db)" for ae no ek t fn k v
    unfolding SetEnv_def using may [OF that]
    by (auto split: sum.splits intro!: keep_case [where P = "fn_frame ?db i"] fn_ops_frame)
  then have "fn_frame ?db i (sv_db (fst (handleSetEnv h dw st act b x y k)))" for b x y k
    unfolding handleSetEnv_def by (auto split: sum.splits option.splits intro!: keep dest: Resolve_member)
  moreover have "fn_frame ?db i (fst (DeleteEnv ?db act fn k))" if "fn \<in> set (db_functions ?db)" for fn k
    unfolding DeleteEnv_def using may [OF that]
    by (auto split: sum.splits intro!: keep_case [where P = "fn_frame ?db i"] fn_ops_frame)
  then have "fn_frame ?db i (sv_db (fst (handleDeleteEnv h dw st act x y k)))" for x y k
    unfolding handleDeleteEnv_def by (auto split: sum.splits intro!: keep dest: Resolve_member)
  moreover have "fn_frame ?db i (sv_db (fst (handleDeploy h dw st act r)))"
    if nd: "\<not> fn_entitled ?db (sv_db (fst (handleDeploy h dw st act r))) act i"
  proof (cases "ar_Form r = None \<or> ar_Bundle r = None")
    case False
    then obtain form b where fb: "ar_Form r = Some form" "ar_Bundle r = Some b" by auto
    let ?p = "\<lparr>dp_Bundle = b, dp_Owner = form ''owner'', dp_Name = form ''name'', dp_Note = form ''note'',
               dp_DryRun = (ar_Query r ''dry_run'' = ''true''), dp_Actor = Some act\<rparr>"
    let ?d = "Deploy (hd_crypto h) (hd_env h) (hd_put h) (toUnix (dw_now dw)) (dw_fresh dw 1) (dw_fresh dw 2) st ?p"
    have same: "db_functions (sv_db (fst (handleDeploy h dw st act r))) = db_functions (sv_db (fst ?d))
        \<and> (fn_frame ?db i (sv_db (fst (handleDeploy h dw st act r))) = fn_frame ?db i (sv_db (fst ?d)))"
      using fb by (cases ?d) (auto simp: handleDeploy_def Let_def audited_def split: sum.splits option.splits)
    with nd Deploy_frame [OF ok, of ?p act i] show ?thesis by (fastforce simp: fn_entitled_def)
  qed (auto simp: handleDeploy_def split: option.splits)
  ultimately show ?thesis
    using n unfolding routeFunctions_def Let_def by (auto split: list.splits)
qed

section \<open>The whole request\<close>

definition entitled_change :: "DB \<Rightarrow> User \<Rightarrow> DB \<Rightarrow> bool" where
  "entitled_change db act d =
     ((admin_view d \<noteq> admin_view db \<longrightarrow> u_Role act = RoleAdmin)
      \<and> (\<forall>w. ws_view d w \<noteq> ws_view db w \<longrightarrow> ws_entitled db act w)
      \<and> (\<forall>i. fn_view d i \<noteq> fn_view db i \<longrightarrow> u_Role act = RoleAdmin \<or> fn_entitled db d act i))"

lemma entitled_views: "all_views db d \<Longrightarrow> entitled_change db act d"
  by (simp add: entitled_change_def all_views_def)

lemma entitled_admin: "u_Role act = RoleAdmin \<Longrightarrow> entitled_change db act d"
  by (simp add: entitled_change_def ws_entitled_def CanManageWorkspace_def IsOrgAdmin_def actor_of_def)

lemma entitled_functions:
  assumes f: "\<And>i. fn_frame db i d \<or> fn_entitled db d act i"
  shows "entitled_change db act d"
proof -
  have "finite (fn_ID ` set (db_functions db) \<union> fn_ID ` set (db_functions d))" by simp
  from ex_new_if_finite [OF infinite_UNIV_listI this] obtain i
    where "i \<notin> fn_ID ` set (db_functions db) \<union> fn_ID ` set (db_functions d)" by blast
  then have "\<not> fn_entitled db d act i" by (auto simp: fn_entitled_def)
  with f [of i] have "admin_view d = admin_view db" "ws_view d = ws_view db" by (simp_all add: fn_frame_def)
  with f show ?thesis unfolding entitled_change_def fn_frame_def by metis
qed

lemma entitled_workspaces: "ws_frame db {w. \<not> ws_entitled db act w} d \<Longrightarrow> entitled_change db act d"
  by (auto simp: entitled_change_def ws_frame_def)

lemma route_entitled:
  assumes ok: "db_ok (sv_db st)"
  shows "entitled_change (sv_db st) act (sv_db (fst (route h dw st act r)))"
proof (cases "u_Role act = RoleAdmin")
  case True
  then show ?thesis by (rule entitled_admin)
next
  case False
  have fn: "entitled_change (sv_db st) act (sv_db (fst (routeFunctions h dw st act r x)))" for x
  proof (rule entitled_functions)
    show "fn_frame (sv_db st) i (sv_db (fst (routeFunctions h dw st act r x)))
        \<or> fn_entitled (sv_db st) (sv_db (fst (routeFunctions h dw st act r x))) act i" for i
      by (rule disjCI, rule routeFunctions_frame [OF ok])
  qed
  have org: "entitled_change (sv_db st) act (fst (routeOrg j (sv_db st) t f act r x))" for j t f x
    by (simp add: routeOrg_admin [OF False] entitled_views)
  have ws: "entitled_change (sv_db st) act (fst (routeWorkspaces j (sv_db st) t f act r x))" for j t f x
    by (rule entitled_workspaces, rule routeWorkspaces_frame)
  have me: "entitled_change (sv_db st) act (fst (routeMe j (sv_db st) t f act r x))" for j t f x
    by (rule entitled_views, rule routeMe_views [OF ok])
  have cli: "entitled_change (sv_db st) act (fst (routeCLI h dw (sv_db st) act r x))" for x
    by (rule entitled_views) (simp add: routeCLI_def CLI_views)
  show ?thesis
    using fn org ws me cli by (auto simp: route_def Let_def on_db_def entitled_views split: list.splits)
qed

lemma route_safe:
  assumes "isSafeMethod (rq_Method (ar_req r))"
  shows "sv_db (fst (route h dw st act r)) = sv_db st"
proof -
  have m: "rq_Method (ar_req r) \<noteq> ''POST''" "rq_Method (ar_req r) \<noteq> ''PUT''" "rq_Method (ar_req r) \<noteq> ''PATCH''"
    "rq_Method (ar_req r) \<noteq> ''DELETE''" using assms by (auto simp: isSafeMethod_def)
  have e: "(if b then (s, y) else (s, z)) = (s, if b then y else z)" for b s y z by simp
  have "sv_db (fst (routeFunctions h dw st act r x)) = sv_db st" for x
    unfolding routeFunctions_def Let_def m [THEN eq_False [THEN iffD2]] if_False not_False_eq_True if_True e
    by (simp only: fst_conv split: list.split) simp
  moreover have "fst (routeOrg j db t f act r x) = db" for j db t f x
    using m by (simp add: routeOrg_def Let_def)
  moreover have "fst (routeWorkspaces j db t f act r x) = db" for j db t f x
    by (simp add: routeWorkspaces_def Let_def m split: list.split option.split)
  moreover have "fst (routeMe j db t f act r x) = db" for j db t f x
    by (simp add: routeMe_def Let_def m split: list.split)
  moreover have "fst (routeCLI h dw db act r x) = db" for db x
    using m by (simp add: routeCLI_def)
  ultimately show ?thesis by (simp add: route_def Let_def on_db_def split: list.splits)
qed

lemma entitled_sessions:
  assumes "entitled_change (db\<lparr>db_sessions := s\<rparr>) act d"
  shows "entitled_change db act d"
proof -
  have "ws_entitled (db\<lparr>db_sessions := s\<rparr>) act w = ws_entitled db act w" for w
    by (simp add: ws_entitled_def workspaceRoleFor_def workspaces_ListMembers_def)
  moreover have "may_deploy (db\<lparr>db_sessions := s\<rparr>) act ot oid = may_deploy db act ot oid" for ot oid
    by (cases ot) (simp_all add: may_deploy_def deploy_loadOrgSettings_def org_Get_def workspaces_ByID_def)
  moreover from this have "fn_entitled (db\<lparr>db_sessions := s\<rparr>) d act i = fn_entitled db d act i" for i
    by (simp add: fn_entitled_def may_manage_def)
  moreover have "admin_view (db\<lparr>db_sessions := s\<rparr>) = admin_view db" "ws_view (db\<lparr>db_sessions := s\<rparr>) = ws_view db"
    "fn_view (db\<lparr>db_sessions := s\<rparr>) = fn_view db"
    by (simp_all add: admin_view_def ws_view_def fn_view_def fun_eq_iff)
  ultimately show ?thesis using assms by (simp add: entitled_change_def)
qed

lemma Authenticate_user:
  "snd (Authenticate c a j db now r) = Inr act \<Longrightarrow> aa_User act \<in> set (db_users db) \<and> u_Status (aa_User act) \<noteq> UserStatusDisabled"
  by (auto simp: Authenticate_def AuthenticateSessionCookie_def authenticateSession_def authenticateAccessToken_def
      split: if_splits option.splits sum.splits dest: loadActiveUser_Inr)

text \<open>
  C1. Three views of the database are covered: the administration (organization, login rules, the identities, roles and
  statuses of users), a workspace (its row and members) and a function (its row, versions and
  environment). If a management request changes one of these views, it was authenticated as an active user of the organization, used a method that is
  not safe, and passed the CSRF check; administration was changed by an organization admin; a
  workspace by somebody who may manage it, or it is new and its creator may create workspaces; a
  function by an organization admin, somebody who may manage it, or somebody who may deploy to
  the owner it now has. What a request writes outside the views is not covered: display names, languages, public user IDs,
  sessions (which a safe request may refresh), CLI codes and credentials (which the token endpoint issues to an
  unauthenticated client with a code), connected apps, the audit log.
\<close>

theorem api_changes_authorized:
  assumes "db_ok (sv_db st)" and "ServeAPI h dw st r = (st', rep)" and "\<not> all_views (sv_db st) (sv_db st')"
  shows "\<exists>a. snd (Authenticate (hd_crypto h) (hd_auth h) (hd_codec h) (sv_db st) (dw_now dw) (ar_req r)) = Inr a
    \<and> aa_User a \<in> set (db_users (sv_db st)) \<and> u_Status (aa_User a) = UserStatusActive
    \<and> \<not> isSafeMethod (rq_Method (ar_req r)) \<and> RequireCSRF (hd_auth h) (Some a) (ar_req r) = CsrfPass
    \<and> entitled_change (sv_db st) (aa_User a) (sv_db st')"
proof -
  let ?auth = "Authenticate (hd_crypto h) (hd_auth h) (hd_codec h) (sv_db st) (dw_now dw) (ar_req r)"
  obtain s where s: "fst ?auth = (sv_db st)\<lparr>db_sessions := s\<rparr>" using Authenticate_sessions by blast
  have ok1: "db_ok (fst ?auth)" using assms(1) by (rule Authenticate_ok)
  have same: "all_views (sv_db st) (fst ?auth)"
    unfolding s by (simp add: all_views_def admin_view_def ws_view_def fn_view_def fun_eq_iff)
  have path: "\<not> isUnauthenticatedCLIPath (ar_Path r)"
    using assms(2,3) by (auto simp: ServeAPI_def on_db_def routeUnauthenticatedCLI_def CLI_views split: if_splits)
  obtain a where a: "snd ?auth = Inr a"
    using assms(2,3) path same by (cases ?auth; cases "snd ?auth") (auto simp: ServeAPI_def)
  have st': "requirePendingApproved a = None" "RequireCSRF (hd_auth h) (Some a) (ar_req r) = CsrfPass"
    "st' = fst (route h dw (st\<lparr>sv_db := fst ?auth\<rparr>) (aa_User a) r)"
    using assms(2,3) path same a
    by (cases ?auth; auto simp: ServeAPI_def split: option.splits csrf_result.splits)+
  have "\<not> isSafeMethod (rq_Method (ar_req r))"
    using assms(3) same st'(3) route_safe [of r h dw "st\<lparr>sv_db := fst ?auth\<rparr>" "aa_User a"] by auto
  moreover have "u_Status (aa_User a) = UserStatusActive"
    using Authenticate_user [OF a] st'(1) by (cases "u_Status (aa_User a)") (auto simp: requirePendingApproved_def)
  moreover have "entitled_change (fst ?auth) (aa_User a) (sv_db st')"
    using route_entitled [of "st\<lparr>sv_db := fst ?auth\<rparr>" "aa_User a" h dw r] ok1 unfolding st'(3) by simp
  then have "entitled_change (sv_db st) (aa_User a) (sv_db st')" unfolding s by (rule entitled_sessions)
  ultimately show ?thesis using a st'(2) Authenticate_user [OF a] by blast
qed

section \<open>An example\<close>

text \<open>The admin enables open mode from a browser session.\<close>

definition api_handler :: "(unit, unit) ApiHandler" where
  "api_handler = \<lparr>hd_crypto = hash_example, hd_auth = svc_example, hd_json = api_json_example, hd_codec = codec_example,
     hd_env = deploy_env_example, hd_put = (\<lambda>b k a. Inr b), hd_aead = no_aead, hd_envKey = [],
     hd_managedFunctionURL = None, hd_baseURL = []\<rparr>"

definition api_draws :: draws where
  "api_draws = \<lparr>dw_now = 0, dw_fresh = (\<lambda>i. [char_of (97 + i)]), dw_rnd = [], dw_nonce = []\<rparr>"

definition api_db :: DB where
  "api_db = admin_db\<lparr>db_login_rules := [\<lparr>lr_ID = ''r'', lr_Ord = 0, lr_RuleType = LoginRuleTypeDefault, lr_Value = [], lr_Action = LoginRuleActionAllow\<rparr>],
     db_sessions := [\<lparr>se_ID = sha256Hex hash_example ''raw'', se_UserID = ''a1'', se_ExpiresAt = 9, se_CreatedAt = 0, se_UpdatedAt = 0\<rparr>]\<rparr>"

definition api_state :: "(unit, unit) service_state" where
  "api_state = \<lparr>sv_db = api_db, sv_blobs = (), sv_runtime = None\<rparr>"

definition api_example :: api_request where
  "api_example = \<lparr>ar_req = \<lparr>rq_Method = ''PATCH'', rq_Authorization = [], rq_Origin = ''https://fb.example'', rq_CSRFHeader = ''t'',
     rq_Cookies = [(''__Host-fbx_session'', b64_encode ''raw''), (''__Host-fbx_csrf'', ''t'')]\<rparr>,
     ar_Path = ''/api/v1/org'', ar_Query = (\<lambda>_. []), ar_Body = [], ar_Form = None, ar_Bundle = None\<rparr>"

definition api_db_refreshed :: DB where
  "api_db_refreshed = fst (sessions_Refresh api_db 0 (sha256Hex hash_example ''raw'') (toUnix (0 + sessionDuration api_db)))"

lemma api_db_governed: "governed api_db"
  by (simp add: governed_defs api_db_def admin_db_def admin_example_def active_admin_def db_ok_defs unique_on_def empty_db_def claims_ok_def refs_def)

lemma api_example_facts:
  "loadActiveUser api_db ''a1'' = Inr admin_example" "is_ok (sessions_Get api_db (sha256Hex hash_example ''raw'') 0)"
  "sessionCookieName svc_example = ''__Host-fbx_session''" "csrfCookieName svc_example = ''__Host-fbx_csrf''" "toUnix 0 = 0"
  "db_org (fst (handleOrgPatch api_json_example api_db_refreshed 0 ''a'' admin_example [])) \<noteq> db_org api_db"
  "(case cut_prefix ''/api/v1'' ''/api/v1/org'' of Some p \<Rightarrow> p | None \<Rightarrow> ''/api/v1/org'') = ''/org''" "splitPath ''/org'' = [''org'']"
  by code_simp+

lemma api_example_routed:
  "route api_handler api_draws (api_state\<lparr>sv_db := api_db_refreshed\<rparr>) admin_example api_example
     = on_db (api_state\<lparr>sv_db := api_db_refreshed\<rparr>) (handleOrgPatch api_json_example api_db_refreshed 0 ''a'' admin_example [])"
proof -
  have r: "ar_Path api_example = ''/api/v1/org''" "rq_Method (ar_req api_example) = ''PATCH''" "ar_Body api_example = []"
    by (simp_all add: api_example_def)
  have d: "dw_now api_draws = 0" "dw_fresh api_draws 0 = ''a''" "hd_json api_handler = api_json_example"
    by (simp_all add: api_draws_def api_handler_def) (code_simp)?
  show ?thesis unfolding route_def r Let_def api_example_facts(7) api_example_facts(8)
    by (simp add: routeOrg_def r d)
qed

lemma api_example_session:
  "sessions_Get api_db (sha256Hex hash_example ''raw'') 0 = Inr s \<Longrightarrow> se_UserID s = ''a1'' \<and> se_ID s = sha256Hex hash_example ''raw''"
  by (auto simp: sessions_Get_def api_db_def dest!: lookup_row_Some)

lemma api_example_authenticated:
  "Authenticate hash_example svc_example codec_example api_db 0 (ar_req api_example)
     = (api_db_refreshed, Inr \<lparr>aa_User = admin_example, aa_Method = MethodSession, aa_csrfCookie = ''t''\<rparr>)"
proof -
  obtain s where "sessions_Get api_db (sha256Hex hash_example ''raw'') 0 = Inr s"
    using api_example_facts(2) by (auto simp: is_ok_def split: sum.splits)
  with api_example_session show ?thesis
    by (auto simp: Authenticate_def AuthenticateSessionCookie_def authenticateSession_def Cookie_def api_example_def
        api_example_facts b64_decode_encode api_db_refreshed_def simp del: b64_encode.simps)
qed

lemma api_example_served:
  "ServeAPI api_handler api_draws api_state api_example
     = route api_handler api_draws (api_state\<lparr>sv_db := api_db_refreshed\<rparr>) admin_example api_example"
proof -
  have h: "hd_crypto api_handler = hash_example" "hd_auth api_handler = svc_example" "hd_codec api_handler = codec_example"
    "sv_db api_state = api_db" "dw_now api_draws = 0"
    by (simp_all add: api_handler_def api_state_def api_draws_def)
  have r: "isUnauthenticatedCLIPath (ar_Path api_example) = False"
    "RequireCSRF svc_example (Some \<lparr>aa_User = admin_example, aa_Method = MethodSession, aa_csrfCookie = ''t''\<rparr>) (ar_req api_example) = CsrfPass"
    "requirePendingApproved \<lparr>aa_User = admin_example, aa_Method = MethodSession, aa_csrfCookie = ''t''\<rparr> = None"
    by (simp_all add: isUnauthenticatedCLIPath_def api_example_def RequireCSRF_def isSafeMethod_def svc_example_def
        requirePendingApproved_def admin_example_def)
  show ?thesis unfolding ServeAPI_def h r api_example_authenticated by (simp add: r del: b64_encode.simps)
qed

theorem api_changes_authorized_witness:
  "\<exists>a. snd (Authenticate hash_example svc_example codec_example api_db 0 (ar_req api_example)) = Inr a
    \<and> u_Role (aa_User a) = RoleAdmin \<and> \<not> isSafeMethod (rq_Method (ar_req api_example))"
proof -
  obtain st' rep where s: "ServeAPI api_handler api_draws api_state api_example = (st', rep)" by fastforce
  then have "st' = fst (route api_handler api_draws (api_state\<lparr>sv_db := api_db_refreshed\<rparr>) admin_example api_example)"
    unfolding api_example_served by simp
  then have "db_org (sv_db st') \<noteq> db_org api_db" using api_example_facts(6) unfolding api_example_routed by (simp add: on_db_def)
  then have n: "admin_view (sv_db st') \<noteq> admin_view (sv_db api_state)" by (simp add: admin_view_def api_state_def)
  then have v: "\<not> all_views (sv_db api_state) (sv_db st')" by (simp add: all_views_def)
  have ok: "db_ok (sv_db api_state)" using api_db_governed by (simp add: governed_def api_state_def)
  have h: "hd_crypto api_handler = hash_example" "hd_auth api_handler = svc_example" "hd_codec api_handler = codec_example"
    "sv_db api_state = api_db" "dw_now api_draws = 0"
    by (simp_all add: api_handler_def api_state_def api_draws_def)
  show ?thesis
    using api_changes_authorized [OF ok s v] n unfolding entitled_change_def h by blast
qed

end
