(* ===== verification/GoForm.thy ===== *)
theory GoForm
  imports GoURL
begin

text \<open>
  Query strings (\<^verbatim>\<open>net/url\<close>): \<^verbatim>\<open>url.QueryEscape\<close> and \<^verbatim>\<open>url.Values.Encode\<close> for one value per key.
\<close>

definition query_escape :: "string \<Rightarrow> string" where
  "query_escape s = concat (map (\<lambda>c. if is_letter c \<or> is_digit c \<or> c \<in> set ''-_.~'' then [c]
     else if c = CHR '' '' then ''+''
     else [CHR ''%'', hex_digit (of_char c div 16), hex_digit (of_char c mod 16)]) s)"

definition encode_query :: "(string \<times> string) list \<Rightarrow> string" where
  "encode_query q = concat (map (\<lambda>(i, (k, v)). (if i = 0 then [] else ''&'') @ query_escape k @ ''='' @ query_escape v)
     (enumerate (0 :: nat) (sort_key fst q)))"

end
