(* ===== verification/McpFiles.thy ===== *)
theory McpFiles
  imports Bundle GoEncoding GoForm InvokeLog
begin

text \<open>
  The data handling of the MCP tools (server/internal/mcpserver/tools_functions.go): the
  files an agent uploads and downloads, the bounded recorder of an invocation's response
  and the pieces of the synthesized request. Files travel as text when they are valid
  UTF-8 and as standard base64 otherwise. The lemmas show that a complete listing, sent
  back as an upload, gives the same files, that a listing carries at most its budget, and that the
  recorder keeps the first bytes of the response up to its cap.
\<close>

section \<open>Text and base64 (unicode/utf8, encoding/base64)\<close>

text \<open>\<^verbatim>\<open>utf8.Valid\<close>: every rune is a well-formed sequence; a byte of width 1 must be ASCII.\<close>

function utf8_Valid :: "bytes \<Rightarrow> bool" where
  "utf8_Valid s =
     (if s = [] then True
      else if rune_width s = 1 \<and> of_char (hd s) \<ge> (128 :: nat) then False
      else utf8_Valid (drop (rune_width s) s))"
  by auto
termination
  by (relation "measure length") (auto simp: rune_width_pos)

declare utf8_Valid.simps [simp del]

text \<open>The standard alphabet differs from the URL alphabet in two characters and is padded.\<close>

definition std_char :: "char \<Rightarrow> char" where
  "std_char c = (if c = CHR ''-'' then CHR ''+'' else if c = CHR ''_'' then CHR ''/'' else c)"

definition std_val :: "char \<Rightarrow> nat option" where
  "std_val c = (if c = CHR ''+'' then Some 62 else if c = CHR ''/'' then Some 63
     else if c = CHR ''-'' \<or> c = CHR ''_'' then None else b64_val c)"

definition std_encode :: "bytes \<Rightarrow> string" where
  "std_encode b = (let s = map std_char (b64_encode b) in s @ replicate ((4 - length s mod 4) mod 4) (CHR ''=''))"

definition std_decode_raw :: "string \<Rightarrow> bytes option" where
  "std_decode_raw s =
     (case those (map std_val (filter (\<lambda>c. c \<noteq> CHR 0x0D \<and> c \<noteq> CHR 0x0A) s)) of
        None \<Rightarrow> None | Some vs \<Rightarrow> b64_groups vs)"

definition std_decode :: "string \<Rightarrow> bytes option" where
  "std_decode s =
     (let t = filter (\<lambda>c. c \<noteq> CHR 0x0D \<and> c \<noteq> CHR 0x0A) s;
          body = takeWhile (\<lambda>c. c \<noteq> CHR ''='') t in
      if drop (length body) t = replicate ((4 - length body mod 4) mod 4) (CHR ''='')
      then std_decode_raw body else None)"

definition decodeBase64 :: "string \<Rightarrow> bytes option" where
  "decodeBase64 s = (case std_decode s of Some d \<Rightarrow> Some d | None \<Rightarrow> std_decode_raw s)"

section \<open>Uploads (deploy_function)\<close>

record deployFileIn =
  dfl_Path :: string
  dfl_Content :: string
  dfl_Encoding :: string

datatype file_error = EmptyPath | DuplicatePath string | BadBase64 string | BadEncoding string

definition decode_file :: "deployFileIn \<Rightarrow> file_error + bytes" where
  "decode_file f =
     (if dfl_Encoding f = [] \<or> dfl_Encoding f = ''utf8'' then Inr (dfl_Content f)
      else if dfl_Encoding f = ''base64'' then
        (case decodeBase64 (dfl_Content f) of None \<Rightarrow> Inl (BadBase64 (dfl_Path f)) | Some d \<Rightarrow> Inr d)
      else Inl (BadEncoding (dfl_Path f)))"

fun collect_files :: "files \<Rightarrow> int \<Rightarrow> deployFileIn list \<Rightarrow> file_error + files \<times> int" where
  "collect_files fs total_n [] = Inr (fs, total_n)"
| "collect_files fs total_n (f # rest) =
     (if dfl_Path f = [] then Inl EmptyPath
      else if has_file fs (dfl_Path f) then Inl (DuplicatePath (dfl_Path f))
      else case decode_file f of
        Inl e \<Rightarrow> Inl e
      | Inr d \<Rightarrow> collect_files (fs @ [(dfl_Path f, d)]) (total_n + int (length d)) rest)"

definition manifestFileNames :: "string list" where
  "manifestFileNames = [''funcbox.yaml'', ''funcbox.yml'', ''funcbox.json'']"

definition conflictingManifestFile :: "files \<Rightarrow> string option" where
  "conflictingManifestFile fs = find (has_file fs) manifestFileNames"

section \<open>Downloads (get_function_files)\<close>

definition getFunctionFilesBudget :: int where
  "getFunctionFilesBudget = 2 * 2 ^ 20"

record functionFileOut =
  ffo_Path :: string
  ffo_Size :: int
  ffo_Encoding :: string
  ffo_Content :: string

definition fileEntry :: "string \<Rightarrow> bytes \<Rightarrow> bool \<Rightarrow> functionFileOut" where
  "fileEntry path d includeContent =
     (if \<not> includeContent then \<lparr>ffo_Path = path, ffo_Size = int (length d), ffo_Encoding = [], ffo_Content = []\<rparr>
      else if utf8_Valid d then \<lparr>ffo_Path = path, ffo_Size = int (length d), ffo_Encoding = ''utf8'', ffo_Content = d\<rparr>
      else \<lparr>ffo_Path = path, ffo_Size = int (length d), ffo_Encoding = ''base64'', ffo_Content = std_encode d\<rparr>)"

fun list_files :: "files \<Rightarrow> int \<Rightarrow> string list \<Rightarrow> functionFileOut list \<times> bool" where
  "list_files fs used [] = ([], False)"
| "list_files fs used (p # ps) =
     (let d = (case map_of fs p of Some d \<Rightarrow> d | None \<Rightarrow> []);
          incl = used + int (length d) \<le> getFunctionFilesBudget;
          (out, cut_off) = list_files fs (if incl then used + int (length d) else used) ps in
      (fileEntry p d incl # out, \<not> incl \<or> cut_off))"

text \<open>The listing of all files, in the order of their paths.\<close>

definition listing :: "files \<Rightarrow> functionFileOut list \<times> bool" where
  "listing fs = list_files fs 0 (sort (map fst fs))"

section \<open>The recorder of a response (boundedInvokeRecorder)\<close>

definition invokeFunctionBodyCap :: nat where
  "invokeFunctionBodyCap = 2 ^ 20"

record boundedInvokeRecorder =
  bir_header :: header
  bir_status :: int
  bir_wroteHead :: bool
  bir_body :: bytes
  bir_cap :: nat
  bir_total :: nat

definition newBoundedInvokeRecorder :: "nat \<Rightarrow> boundedInvokeRecorder" where
  "newBoundedInvokeRecorder c = \<lparr>bir_header = [], bir_status = 200, bir_wroteHead = False, bir_body = [], bir_cap = c, bir_total = 0\<rparr>"

definition bir_WriteHeader :: "boundedInvokeRecorder \<Rightarrow> int \<Rightarrow> boundedInvokeRecorder" where
  "bir_WriteHeader r status = (if bir_wroteHead r then r else r\<lparr>bir_wroteHead := True, bir_status := status\<rparr>)"

definition bir_Write :: "boundedInvokeRecorder \<Rightarrow> bytes \<Rightarrow> boundedInvokeRecorder" where
  "bir_Write r p =
     (let r1 = (if bir_wroteHead r then r else bir_WriteHeader r 200);
          room = int (bir_cap r1) - int (length (bir_body r1)) in
      r1\<lparr>bir_total := bir_total r1 + length p,
         bir_body := (if room > 0 then bir_body r1 @ take (nat (min room (int (length p)))) p else bir_body r1)\<rparr>)"

definition bir_truncated :: "boundedInvokeRecorder \<Rightarrow> bool" where
  "bir_truncated r = (bir_total r > bir_cap r)"

datatype recorder_call = RecSet string string | RecWriteHeader int | RecWrite bytes

fun bir_exec :: "boundedInvokeRecorder \<Rightarrow> recorder_call \<Rightarrow> boundedInvokeRecorder" where
  "bir_exec r (RecSet k v) = r\<lparr>bir_header := header_Set k v (bir_header r)\<rparr>"
| "bir_exec r (RecWriteHeader s) = bir_WriteHeader r s"
| "bir_exec r (RecWrite p) = bir_Write r p"

section \<open>The synthesized request (buildInvokeRequest)\<close>

text \<open>\<^verbatim>\<open>http.validMethod\<close> and \<^verbatim>\<open>textproto.CanonicalMIMEHeaderKey\<close>.\<close>

definition token_char :: "char \<Rightarrow> bool" where
  "token_char c = (is_letter c \<or> is_digit c \<or> c \<in> set ''!#$%&*+-.^_`|~'' \<or> c = CHR 0x27)"

definition valid_method :: "string \<Rightarrow> bool" where
  "valid_method m = (m \<noteq> [] \<and> list_all token_char m)"

definition upper_char :: "char \<Rightarrow> char" where
  "upper_char c = (if is_lower c then char_of (of_char c - (32 :: nat)) else c)"

fun canonical_loop :: "bool \<Rightarrow> string \<Rightarrow> string" where
  "canonical_loop up [] = []"
| "canonical_loop up (c # s) = (if up then upper_char c else lower_char c) # canonical_loop (c = CHR ''-'') s"

definition canonical_key :: "string \<Rightarrow> string" where
  "canonical_key k = (if list_all token_char k then canonical_loop True k else k)"

section \<open>Lemmas\<close>

subsection \<open>base64\<close>

lemma std_char_val: "n < 64 \<Longrightarrow> std_val (std_char (b64_char n)) = Some n \<and> std_char (b64_char n) \<notin> {CHR 0x0D, CHR 0x0A, CHR ''=''}"
proof -
  assume "n < 64"
  then consider "n = 62" | "n = 63" | "n < 62" by linarith
  then show ?thesis
  proof cases
    case 3
    have "b64_val CHR ''-'' = Some 62" "b64_val CHR ''_'' = Some 63" "b64_val CHR ''+'' = None" "b64_val CHR ''/'' = None"
      "b64_val CHR ''='' = None" "b64_val CHR 0x0D = None" "b64_val CHR 0x0A = None" by code_simp+
    with 3 b64_char_val [of n] have "b64_char n \<notin> {CHR ''-'', CHR ''_'', CHR ''+'', CHR ''/'', CHR ''='', CHR 0x0D, CHR 0x0A}"
      by auto
    with 3 b64_char_val [of n] show ?thesis by (auto simp: std_char_def std_val_def)
  qed (simp_all add: b64_char_def std_char_def std_val_def)
qed

lemma takeWhile_append_stop: "\<forall>x \<in> set xs. P x \<Longrightarrow> ys = [] \<or> \<not> P (hd ys) \<Longrightarrow> takeWhile P (xs @ ys) = xs"
  by (cases ys) auto

lemma std_decode_encode [simp]: "std_decode (std_encode b) = Some b"
proof -
  let ?c = "\<lambda>c. c \<noteq> CHR 0x0D \<and> c \<noteq> CHR 0x0A"
  define s where "s = map (\<lambda>n. std_char (b64_char n)) (b64_vals b)"
  define pad where "pad = replicate ((4 - length s mod 4) mod 4) (CHR ''='')"
  have v: "std_val (std_char (b64_char n)) = Some n" "std_char (b64_char n) \<notin> {CHR 0x0D, CHR 0x0A, CHR ''=''}"
    if "n \<in> set (b64_vals b)" for n using that b64_vals_less std_char_val by blast+
  have enc: "std_encode b = s @ pad"
    by (simp add: std_encode_def Let_def b64_encode_vals s_def pad_def comp_def)
  have f: "filter ?c (s @ pad) = s @ pad" "filter ?c s = s"
    using v(2) by (auto simp: s_def pad_def filter_id_conv)
  have "pad = [] \<or> hd pad = CHR ''=''" unfolding pad_def by (cases "(4 - length s mod 4) mod 4") simp_all
  moreover have "\<forall>c \<in> set s. c \<noteq> CHR ''=''" using v(2) by (auto simp: s_def)
  ultimately have "takeWhile (\<lambda>c. c \<noteq> CHR ''='') (s @ pad) = s" by (intro takeWhile_append_stop) auto
  moreover have "std_decode_raw s = Some b"
    using v(1) those_map_Some [of "b64_vals b" "\<lambda>n. std_val (std_char (b64_char n))" "\<lambda>n. n"]
    by (simp add: std_decode_raw_def f(2)) (simp add: s_def comp_def b64_groups_vals)
  ultimately show ?thesis by (simp add: std_decode_def enc f Let_def) (simp add: pad_def)
qed

subsection \<open>A listing as an upload\<close>

text \<open>The entry of an upload an agent makes from an entry of a listing.\<close>

definition reupload :: "functionFileOut \<Rightarrow> deployFileIn" where
  "reupload e = \<lparr>dfl_Path = ffo_Path e, dfl_Content = ffo_Content e, dfl_Encoding = ffo_Encoding e\<rparr>"

lemma decode_reupload [simp]: "decode_file (reupload (fileEntry p d True)) = Inr d"
  by (simp add: decode_file_def reupload_def fileEntry_def decodeBase64_def)

lemma reupload_path [simp]: "dfl_Path (reupload (fileEntry p d b)) = p"
  by (simp add: reupload_def fileEntry_def)

lemma collect_files_reupload:
  assumes "distinct (map fst (fs @ gs))" and "[] \<notin> fst ` set gs"
  shows "collect_files fs n (map (\<lambda>f. reupload (fileEntry (fst f) (snd f) True)) gs) = Inr (fs @ gs, n + total_size gs)"
  using assms
proof (induction gs arbitrary: fs n)
  case (Cons g gs)
  from Cons.prems have "\<not> has_file fs (fst g)" by (auto simp: has_file_iff)
  moreover have "collect_files (fs @ [(fst g, snd g)]) (n + int (length (snd g))) (map (\<lambda>f. reupload (fileEntry (fst f) (snd f) True)) gs)
      = Inr ((fs @ [(fst g, snd g)]) @ gs, n + int (length (snd g)) + total_size gs)"
    using Cons.prems by (intro Cons.IH) auto
  ultimately show ?case using Cons.prems by (auto simp: total_size_def)
qed (simp add: total_size_def)

definition stored :: "files \<Rightarrow> string \<Rightarrow> bytes" where
  "stored fs p = (case map_of fs p of Some d \<Rightarrow> d | None \<Rightarrow> [])"

lemma list_files_complete:
  "used + sum_list (map (\<lambda>p. int (length (stored fs p))) ps) \<le> getFunctionFilesBudget \<Longrightarrow>
     list_files fs used ps = (map (\<lambda>p. fileEntry p (stored fs p) True) ps, False)"
proof (induction ps arbitrary: used)
  case (Cons p ps)
  have "0 \<le> sum_list (map (\<lambda>p. int (length (stored fs p))) ps)" by (rule sum_list_nonneg) auto
  with Cons.prems have "used + int (length (stored fs p)) \<le> getFunctionFilesBudget" by simp
  with Cons.prems Cons.IH [of "used + int (length (stored fs p))"] show ?case
    by (simp add: stored_def Let_def add.assoc)
qed simp

lemma list_files_cut:
  "snd (list_files fs used ps) \<Longrightarrow> used + sum_list (map (\<lambda>p. int (length (stored fs p))) ps) > getFunctionFilesBudget"
  using list_files_complete [of used fs ps] by (cases "used + sum_list (map (\<lambda>p. int (length (stored fs p))) ps) \<le> getFunctionFilesBudget") auto

lemma list_files_uncut:
  "used \<le> getFunctionFilesBudget \<Longrightarrow> \<not> snd (list_files fs used ps) \<Longrightarrow>
     used + sum_list (map (\<lambda>p. int (length (stored fs p))) ps) \<le> getFunctionFilesBudget"
proof (induction ps arbitrary: used)
  case (Cons p ps)
  then have "used + int (length (stored fs p)) \<le> getFunctionFilesBudget"
    "\<not> snd (list_files fs (used + int (length (stored fs p))) ps)"
    by (auto simp: stored_def Let_def split: prod.splits if_splits)
  with Cons.IH [of "used + int (length (stored fs p))"] show ?case by (simp add: add.assoc)
qed simp

definition content_size :: "functionFileOut list \<Rightarrow> int" where
  "content_size out = sum_list (map (\<lambda>e. if ffo_Encoding e = [] then 0 else ffo_Size e) out)"

lemma list_files_budget:
  "used \<le> getFunctionFilesBudget \<Longrightarrow> used + content_size (fst (list_files fs used ps)) \<le> getFunctionFilesBudget"
proof (induction ps arbitrary: used)
  case (Cons p ps)
  show ?case
  proof (cases "used + int (length (stored fs p)) \<le> getFunctionFilesBudget")
    case True
    with Cons.IH [of "used + int (length (stored fs p))"] show ?thesis
      by (auto simp: content_size_def stored_def fileEntry_def Let_def split: prod.splits)
  next
    case False
    with Cons.IH [of used] Cons.prems show ?thesis
      by (auto simp: content_size_def stored_def fileEntry_def Let_def split: prod.splits)
  qed
qed (simp add: content_size_def)

lemma total_size_stored:
  assumes "distinct (map fst fs)"
  shows "sum_list (map (\<lambda>p. int (length (stored fs p))) (sort (map fst fs))) = total_size fs"
proof -
  have "sum_list (map (\<lambda>p. int (length (stored fs p))) (sort (map fst fs))) = total_size (sorted_files fs)"
    by (simp add: total_size_def sorted_files_def stored_def comp_def)
  then show ?thesis using total_size_mset [OF sorted_files_mset [OF assms]] by simp
qed

lemma listing_complete:
  assumes "distinct (map fst fs)" and "total_size fs \<le> getFunctionFilesBudget"
  shows "listing fs = (map (\<lambda>f. fileEntry (fst f) (snd f) True) (sorted_files fs), False)"
proof -
  have "list_files fs 0 (sort (map fst fs)) = (map (\<lambda>p. fileEntry p (stored fs p) True) (sort (map fst fs)), False)"
    using assms by (intro list_files_complete) (simp add: total_size_stored)
  then show ?thesis by (simp add: listing_def sorted_files_def stored_def comp_def)
qed

lemma listing_truncated:
  assumes "distinct (map fst fs)"
  shows "snd (listing fs) \<longleftrightarrow> total_size fs > getFunctionFilesBudget"
proof
  assume "total_size fs > getFunctionFilesBudget"
  then show "snd (listing fs)"
    using list_files_uncut [of 0 fs "sort (map fst fs)"] total_size_stored [OF assms] getFunctionFilesBudget_def
    by (auto simp: listing_def)
next
  assume "snd (listing fs)"
  with list_files_cut [of fs 0 "sort (map fst fs)"] total_size_stored [OF assms] show "total_size fs > getFunctionFilesBudget"
    by (simp add: listing_def)
qed

subsection \<open>The recorder\<close>

fun wrote :: "recorder_call \<Rightarrow> bytes" where
  "wrote (RecWrite p) = p"
| "wrote _ = []"

fun first_code :: "recorder_call list \<Rightarrow> int" where
  "first_code [] = 200"
| "first_code (RecSet k v # calls) = first_code calls"
| "first_code (RecWriteHeader s # calls) = s"
| "first_code (RecWrite p # calls) = 200"

definition recorded :: "boundedInvokeRecorder \<Rightarrow> nat \<Rightarrow> bytes \<Rightarrow> bool" where
  "recorded r c w = (bir_cap r = c \<and> bir_body r = take c w \<and> bir_total r = length w)"

lemma recorded_step: "recorded r c w \<Longrightarrow> recorded (bir_exec r e) c (w @ wrote e)"
  by (cases e) (auto simp: recorded_def bir_Write_def bir_WriteHeader_def Let_def min_def nat_diff_distrib)

lemma recorded_run: "recorded r c w \<Longrightarrow> recorded (foldl bir_exec r calls) c (w @ concat (map wrote calls))"
proof (induction calls arbitrary: r w)
  case (Cons e calls)
  from Cons.IH [OF recorded_step [OF Cons.prems]] show ?case by simp
qed simp

lemma status_kept: "bir_wroteHead r \<Longrightarrow> bir_wroteHead (foldl bir_exec r calls) \<and> bir_status (foldl bir_exec r calls) = bir_status r"
proof (induction calls arbitrary: r)
  case (Cons e calls)
  then have "bir_wroteHead (bir_exec r e) \<and> bir_status (bir_exec r e) = bir_status r"
    by (cases e) (simp_all add: bir_WriteHeader_def bir_Write_def Let_def)
  with Cons.IH show ?case by simp
qed simp

lemma status_first: "\<not> bir_wroteHead r \<Longrightarrow> bir_status r = 200 \<Longrightarrow> bir_status (foldl bir_exec r calls) = first_code calls"
proof (induction calls arbitrary: r rule: first_code.induct)
  case (3 s calls)
  then show ?case using status_kept [of "bir_WriteHeader r s" calls] by (simp add: bir_WriteHeader_def)
next
  case (4 p calls)
  then show ?case using status_kept [of "bir_Write r p" calls] by (simp add: bir_WriteHeader_def bir_Write_def Let_def)
qed simp_all

lemma recorder_result:
  fixes c calls defines "r \<equiv> foldl bir_exec (newBoundedInvokeRecorder c) calls"
  shows "bir_body r = take c (concat (map wrote calls))" "bir_total r = length (concat (map wrote calls))"
    "bir_status r = first_code calls" "bir_truncated r \<longleftrightarrow> length (concat (map wrote calls)) > c"
proof -
  have "recorded r c (concat (map wrote calls))"
    using recorded_run [of "newBoundedInvokeRecorder c" c "[]" calls] by (simp add: r_def recorded_def newBoundedInvokeRecorder_def)
  then show "bir_body r = take c (concat (map wrote calls))" "bir_total r = length (concat (map wrote calls))"
    "bir_truncated r \<longleftrightarrow> length (concat (map wrote calls)) > c" by (auto simp: recorded_def bir_truncated_def)
  show "bir_status r = first_code calls"
    unfolding r_def by (rule status_first) (simp_all add: newBoundedInvokeRecorder_def)
qed

end
