(* ===== verification/McpServer.thy ===== *)
theory McpServer
  imports Governance McpFiles Invoke
begin

text \<open>
  Package mcpserver (server/internal/mcpserver): the tools an AI agent calls over the
  Streamable HTTP endpoint. Every call is authenticated afresh from its own bearer token;
  a tool is a thin layer over a use case of the management API, the deployer or the
  invoker, so the state is that of the service layer. A call is a value of \<open>tool_call\<close>
  with the decoded input of the tool, and its result a typed output or an error; the texts
  of error messages made by the service layer are not modelled. Parameters: the YAML
  encoder of a typed manifest, the JSON encoder of a settings patch, the cookies and the
  request URI \<^verbatim>\<open>net/http\<close> reads off a request, the JSON and HTML a denial is rendered as
  (\<open>mc_deny\<close>), and the JavaScript pool (\<open>mc_guest\<close>: it fails to start, or handles the request by calls
  on the response writer while its output is captured).
  The session protocol of the go-sdk is not modelled; the bookkeeping of sessions is.
\<close>

section \<open>Inputs\<close>

record deployManifestIn =
  dmi_Name :: string
  dmi_Main :: string
  dmi_Description :: string
  dmi_Timeout :: string
  dmi_Memory :: string
  dmi_Env :: "string list"
  dmi_Visibility :: string
  dmi_Nodejs :: "bool option"
  dmi_Fetch :: "(string \<times> string list) option option"

record deployFunctionIn =
  dfi_Owner :: string
  dfi_Name :: string
  dfi_Note :: string
  dfi_DryRun :: bool
  dfi_Files :: "deployFileIn list"
  dfi_Manifest :: "deployManifestIn option"

record getFunctionFilesIn =
  gfi_Owner :: string
  gfi_Name :: string
  gfi_VersionID :: string
  gfi_File :: string

record invokeFunctionIn =
  ifi_Owner :: string
  ifi_Name :: string
  ifi_Method :: string
  ifi_Path :: string
  ifi_Query :: "(string \<times> string) list"
  ifi_Headers :: "(string \<times> string) list"
  ifi_Body :: string
  ifi_BodyEncoding :: string

record listAuditLogsIn =
  lai_Cursor :: string
  lai_Limit :: int
  lai_Action :: string
  lai_UserID :: string

datatype tool_call =
    ListFunctionsTool string
  | GetFunctionTool string string
  | DeployFunctionTool deployFunctionIn
  | GetFunctionFilesTool getFunctionFilesIn
  | InvokeFunctionTool invokeFunctionIn
  | GetFunctionLogsTool string string string int
  | RollbackFunctionTool string string string
  | DeleteFunctionTool string string
  | ListUsersTool string
  | ApproveUserTool string
  | RejectUserTool string
  | SetUserRoleTool string string
  | SetUserStatusTool string string
  | ListWorkspacesTool
  | CreateWorkspaceTool string
  | GetWorkspaceTool string
  | SetWorkspaceMemberTool string string string
  | RemoveWorkspaceMemberTool string string
  | GetOrgSettingsTool
  | UpdateOrgSettingsTool "(string \<times> string) list"
  | ListLoginRulesTool
  | ReplaceLoginRulesTool "LoginRuleInput list"
  | ListAuditLogsTool listAuditLogsIn
  | ListConnectedDevicesTool
  | RevokeDeviceTool string string

section \<open>Results\<close>

datatype tool_error = ToolText string | ToolService service_error | ToolManifestHint | ToolFile file_error

record mcp_workspace =
  mws_id :: string
  mws_name :: string
  mws_settings_gen :: int
  mws_created_at :: unix

record deployFunctionOut =
  dfo_URL :: string
  dfo_VersionID :: string
  dfo_Warnings :: "warning list"
  dfo_DryRun :: bool

record invokeFunctionOut =
  ifo_Status :: int
  ifo_Headers :: "(string \<times> string) list"
  ifo_Body :: string
  ifo_BodyEncoding :: string
  ifo_Truncated :: bool

datatype tool_output =
    OutFunctions "function_dto list"
  | OutFunction function_dto
  | OutFunctionDetail function_dto "version_dto option" "fetch_policy_levels option" "string list"
  | OutDeploy deployFunctionOut
  | OutFiles "functionFileOut list" bool
  | OutInvoke invokeFunctionOut
  | OutLogs "log_dto list" string
  | OutDeleted
  | OutUsers "user_dto list"
  | OutUser user_dto
  | OutWorkspaces "mcp_workspace list"
  | OutWorkspace mcp_workspace "(string \<times> string) list"
  | OutMember string string
  | OutRemoved
  | OutOrgSettings string Org int
  | OutOrgUpdated string Org int bool
  | OutLoginRules "login_rule_dto list"
  | OutAuditLogs "AuditLog list" string
  | OutDevices "DeviceInfo list"
  | OutRevoked

definition toolError :: "service_error \<Rightarrow> tool_error" where
  "toolError e = ToolService e"

definition deployToolError :: "service_error \<Rightarrow> bool \<Rightarrow> tool_error" where
  "deployToolError e usedTypedManifest =
     (if \<not> usedTypedManifest \<and> err_Code e = ''manifest_parse_error'' then ToolManifestHint else toolError e)"

section \<open>The handler and authentication (mcpserver.go)\<close>

record ('f, 'b, 'p) McpHandler =
  mc_ControlOrigin :: string
  mc_api :: "('f, 'b) ApiHandler"
  mc_invoker :: "Invoker option"
  mc_blob_Get :: "('b \<Rightarrow> string \<Rightarrow> blob_error + archive) option"
  mc_cookieCodec :: "invokeCookieClaims codec"
  mc_verify :: "string \<Rightarrow> IDToken option"
  mc_toYAML :: "deployManifestIn \<Rightarrow> bytes option"
  mc_marshal_settings :: "(string \<times> string) list \<Rightarrow> bytes option"
  mc_cookies :: "header \<Rightarrow> (string \<times> string) list"
  mc_RequestURI :: "string \<Rightarrow> string"
  mc_deny :: "denial \<Rightarrow> recorder_call list"
  mc_guest :: "'p Manager option \<Rightarrow> guest_call \<Rightarrow> 'p Manager option \<times> (denial + rw_event list \<times> int \<times> capture)"

definition authenticateHeader :: "('f, 'b, 'p) McpHandler \<Rightarrow> DB \<Rightarrow> int \<Rightarrow> string \<Rightarrow> auth_error + User" where
  "authenticateHeader h db now hdr =
     (let c = hd_crypto (mc_api h); a = hd_auth (mc_api h); j = hd_codec (mc_api h) in
      case cut_prefix ''Bearer '' hdr of
        None \<Rightarrow> Inl ErrUnauthenticated
      | Some raw \<Rightarrow>
          if \<not> prefix AccessTokenPrefix raw then Inl ErrUnauthenticated
          else case AccessTokenAudience c a j now raw of
            None \<Rightarrow> Inl ErrUnauthenticated
          | Some aud \<Rightarrow>
              if aud \<noteq> [] \<and> aud \<noteq> AudienceMCP then Inl ErrUnauthenticated
              else case authenticateAccessToken c a j db now raw of
                Inl e \<Rightarrow> Inl e
              | Inr act \<Rightarrow> if u_Status (aa_User act) = UserStatusPending then Inl ErrUnauthenticated else Inr (aa_User act))"

definition requireActor :: "('f, 'b, 'p) McpHandler \<Rightarrow> DB \<Rightarrow> int \<Rightarrow> string \<Rightarrow> tool_error + User" where
  "requireActor h db now hdr =
     (case authenticateHeader h db now hdr of Inl _ \<Rightarrow> Inl (ToolText ''authentication required'') | Inr u \<Rightarrow> Inr u)"

text \<open>A request of the endpoint: refused with a challenge, or handed to the SDK on behalf of a user.\<close>

datatype mcp_reply = Write401 string | Bound User

definition mcp_ServeHTTP :: "('f, 'b, 'p) McpHandler \<Rightarrow> DB \<Rightarrow> int \<Rightarrow> string \<Rightarrow> mcp_reply" where
  "mcp_ServeHTTP h db now hdr =
     (case authenticateHeader h db now hdr of
        Inl _ \<Rightarrow> Write401 (''Bearer resource_metadata=\"'' @ mc_ControlOrigin h @ ''/.well-known/oauth-protected-resource\"'')
      | Inr u \<Rightarrow> Bound u)"

text \<open>\<open>Enabled\<close>: the gate the router asks; it fails closed.\<close>

definition Enabled :: "DB \<Rightarrow> bool" where
  "Enabled db =
     (case org_Get db of
        Inl _ \<Rightarrow> False
      | Inr org \<Rightarrow> (case ParseOrg (org_Settings org) of Inl _ \<Rightarrow> False | Inr os \<Rightarrow> so_McpEnabled os))"

section \<open>Sessions (mcpserver.go)\<close>

definition mcpMaxSessionsPerUser :: nat where
  "mcpMaxSessionsPerUser = 10"

definition mcpMaxSessionsGlobal :: nat where
  "mcpMaxSessionsGlobal = 400"

type_synonym sessions = "(nat \<times> string) list"

definition pruneClosedSessionsLocked :: "(nat \<Rightarrow> bool) \<Rightarrow> sessions \<Rightarrow> sessions" where
  "pruneClosedSessionsLocked live ss = filter (\<lambda>s. live (fst s)) ss"

definition adminTools :: "User \<Rightarrow> bool" where
  "adminTools u = CanUpdateOrgSettings (actor_of u)"

definition registerTools :: "('f, 'b, 'p) McpHandler \<Rightarrow> User \<Rightarrow> string list" where
  "registerTools h u =
     (if adminTools u then [''list_users'', ''approve_user'', ''reject_user'', ''set_user_role'', ''set_user_status''] else [])
     @ [''list_functions'', ''get_function'', ''deploy_function'']
     @ (if mc_blob_Get h \<noteq> None then [''get_function_files''] else [])
     @ (if mc_invoker h \<noteq> None then [''invoke_function''] else [])
     @ [''get_function_logs'', ''rollback_function'', ''delete_function'']
     @ [''list_workspaces'', ''create_workspace'', ''get_workspace'', ''add_workspace_member'', ''set_workspace_member_role'',
        ''remove_workspace_member'']
     @ (if adminTools u then [''get_org_settings'', ''update_org_settings'', ''list_login_rules'', ''replace_login_rules''] else [])
     @ (if adminTools u then [''list_audit_logs''] else [])
     @ [''list_connected_devices'', ''revoke_device'']"

text \<open>\<open>getServer\<close>: the tracked sessions and, if a session may start, the tools it lists.\<close>

definition getServer ::
  "('f, 'b, 'p) McpHandler \<Rightarrow> (nat \<Rightarrow> bool) \<Rightarrow> nat \<Rightarrow> User option \<Rightarrow> sessions \<Rightarrow> sessions \<times> string list option" where
  "getServer h live server act ss =
     (case act of
        None \<Rightarrow> (ss, None)
      | Some u \<Rightarrow>
          (let ss1 = pruneClosedSessionsLocked live ss in
           if length ss1 \<ge> mcpMaxSessionsGlobal then (ss1, None)
           else if length (filter (\<lambda>s. snd s = u_ID u) ss1) \<ge> mcpMaxSessionsPerUser then (ss1, None)
           else (ss1 @ [(server, u_ID u)], Some (registerTools h u))))"

section \<open>Functions (tools_functions.go)\<close>

definition listFunctions :: "('f, 'b, 'p) McpHandler \<Rightarrow> DB \<Rightarrow> User \<Rightarrow> string \<Rightarrow> tool_error + tool_output" where
  "listFunctions h db u owner =
     (case api_ListFunctions (mc_api h) db u owner of Inl e \<Rightarrow> Inl (toolError e) | Inr dtos \<Rightarrow> Inr (OutFunctions dtos))"

definition getFunction :: "('f, 'b, 'p) McpHandler \<Rightarrow> DB \<Rightarrow> User \<Rightarrow> string \<Rightarrow> string \<Rightarrow> tool_error + tool_output" where
  "getFunction h db u owner name =
     (if owner = [] \<or> name = [] then Inl (ToolText ''owner and name are both required'')
      else case ResolveVisible db u owner name of
        Inl e \<Rightarrow> Inl (toolError e)
      | Inr fn \<Rightarrow> Inr (OutFunctionDetail (functionDTO (mc_api h) db fn owner)
          (if fn_ActiveVersionID fn \<noteq> None then (case ActiveVersion db fn of Inl _ \<Rightarrow> None | Inr v \<Rightarrow> Some (versionDTO v)) else None)
          (case FetchPolicyLevels db fn of Inl _ \<Rightarrow> None | Inr l \<Rightarrow> Some l)
          (sort (ListEnvKeys db fn))))"

text \<open>The upload up to the packed bundle.\<close>

definition deploy_bundle :: "('f, 'b, 'p) McpHandler \<Rightarrow> deployFunctionIn \<Rightarrow> tool_error + archive" where
  "deploy_bundle h inp =
     (if dfi_Owner inp = [] then Inl (ToolText ''owner is required'')
      else if dfi_Files inp = [] then Inl (ToolText ''files must contain at least one entry'')
      else case collect_files [] 0 (dfi_Files inp) of
        Inl e \<Rightarrow> Inl (ToolFile e)
      | Inr (fs, total_n) \<Rightarrow>
          (case (case dfi_Manifest inp of
                   None \<Rightarrow> Inr (fs, total_n)
                 | Some m \<Rightarrow>
                     if conflictingManifestFile fs \<noteq> None then Inl (ToolText ''provide exactly one of manifest and manifest file'')
                     else case mc_toYAML h m of
                       None \<Rightarrow> Inl (ToolText ''failed to encode the manifest parameter'')
                     | Some y \<Rightarrow> Inr (fs @ [(''funcbox.yaml'', y)], total_n + int (length y))) of
             Inl e \<Rightarrow> Inl e
           | Inr (fs1, total1) \<Rightarrow>
               if length fs1 > MaxFiles \<or> total1 > MaxUnpackedBytes then Inl (ToolText ''this bundle is too large to deploy over MCP'')
               else case Pack fs1 of
                 Inl _ \<Rightarrow> Inl (ToolText ''failed to pack files into a bundle'')
               | Inr packed \<Rightarrow> Inr packed))"

definition deployFunction ::
  "('f, 'b, 'p) McpHandler \<Rightarrow> draws \<Rightarrow> ('b, 'p) service_state \<Rightarrow> User \<Rightarrow> deployFunctionIn
     \<Rightarrow> ('b, 'p) service_state \<times> (tool_error + tool_output)" where
  "deployFunction h dw st u inp =
     (case deploy_bundle h inp of
        Inl e \<Rightarrow> (st, Inl e)
      | Inr packed \<Rightarrow>
          (case Deploy (hd_crypto (mc_api h)) (hd_env (mc_api h)) (hd_put (mc_api h)) (toUnix (dw_now dw)) (dw_fresh dw 1) (dw_fresh dw 2) st
              \<lparr>dp_Bundle = packed, dp_Owner = dfi_Owner inp, dp_Name = dfi_Name inp, dp_Note = dfi_Note inp,
               dp_DryRun = dfi_DryRun inp, dp_Actor = Some u\<rparr> of
             (st1, Inl e) \<Rightarrow> (st1, Inl (deployToolError e (dfi_Manifest inp \<noteq> None)))
           | (st1, Inr res) \<Rightarrow>
               (case (dr_DryRun res, dr_Function res, dr_Version res) of
                  (False, Some fn, Some v) \<Rightarrow>
                    (audited st1 dw u ''function.deploy'' (''function:'' @ fn_ID fn)
                       (aj_marshal_map (hd_json (mc_api h)) [(''owner'', Some (dfi_Owner inp)), (''name'', Some (fn_Name fn)),
                          (''version_id'', Some (fv_ID v))]),
                     Inr (OutDeploy \<lparr>dfo_URL = (case function_url (mc_api h) (sv_db st1) fn (dfi_Owner inp) of None \<Rightarrow> [] | Some s \<Rightarrow> s),
                       dfo_VersionID = fv_ID v, dfo_Warnings = dr_Warnings res, dfo_DryRun = False\<rparr>))
                | _ \<Rightarrow> (st1, Inr (OutDeploy \<lparr>dfo_URL = [], dfo_VersionID = [], dfo_Warnings = dr_Warnings res,
                         dfo_DryRun = dr_DryRun res\<rparr>)))))"

definition resolveVersion :: "DB \<Rightarrow> Function \<Rightarrow> string \<Rightarrow> service_error + FunctionVersion" where
  "resolveVersion db fn versionID =
     (case (if versionID = [] then fn_ActiveVersionID fn else Some versionID) of
        None \<Rightarrow> Inl NotFoundErr
      | Some vid \<Rightarrow>
          (case functions_Version db vid of
             Inl e \<Rightarrow> Inl (if e = ErrNotFound then NotFoundErr else Internal)
           | Inr v \<Rightarrow> if fv_FunctionID v \<noteq> fn_ID fn then Inl NotFoundErr else Inr v))"

definition unpackVersion ::
  "('b \<Rightarrow> string \<Rightarrow> blob_error + archive) \<Rightarrow> 'b \<Rightarrow> FunctionVersion \<Rightarrow> tool_error + files" where
  "unpackVersion blob_Get blobs v =
     (case blob_Get blobs (BundleBlobKey (fv_BundleHash v)) of
        Inl _ \<Rightarrow> Inl (ToolText ''failed to load the bundle of this version from storage'')
      | Inr r \<Rightarrow>
          (case Unpack r of Inl _ \<Rightarrow> Inl (ToolText ''failed to unpack the bundle of this version'') | Inr fs \<Rightarrow> Inr fs))"

definition getFunctionFiles ::
  "('f, 'b, 'p) McpHandler \<Rightarrow> ('b, 'p) service_state \<Rightarrow> User \<Rightarrow> getFunctionFilesIn \<Rightarrow> tool_error + tool_output" where
  "getFunctionFiles h st u inp =
     (case mc_blob_Get h of
        None \<Rightarrow> Inl (ToolText ''unknown tool'')
      | Some blob_Get \<Rightarrow>
          if gfi_Owner inp = [] \<or> gfi_Name inp = [] then Inl (ToolText ''owner and name are both required'')
          else case ResolveVisible (sv_db st) u (gfi_Owner inp) (gfi_Name inp) of
            Inl e \<Rightarrow> Inl (toolError e)
          | Inr fn \<Rightarrow>
              (case CanManage (sv_db st) u fn of
                 Inl e \<Rightarrow> Inl (toolError e)
               | Inr _ \<Rightarrow>
                   (case resolveVersion (sv_db st) fn (gfi_VersionID inp) of
                      Inl e \<Rightarrow> Inl (toolError e)
                    | Inr v \<Rightarrow>
                        (case unpackVersion blob_Get (sv_blobs st) v of
                           Inl e \<Rightarrow> Inl e
                         | Inr fs \<Rightarrow>
                             if gfi_File inp \<noteq> [] then
                               (case map_of fs (gfi_File inp) of
                                  None \<Rightarrow> Inl (ToolText ''file not found in this version'')
                                | Some d \<Rightarrow> Inr (OutFiles [fileEntry (gfi_File inp) d True] False))
                             else (case listing fs of (out, truncated) \<Rightarrow> Inr (OutFiles out truncated))))))"

definition getFunctionLogs :: "DB \<Rightarrow> User \<Rightarrow> string \<Rightarrow> string \<Rightarrow> string \<Rightarrow> int \<Rightarrow> tool_error + tool_output" where
  "getFunctionLogs db u owner name since limit =
     (if owner = [] \<or> name = [] then Inl (ToolText ''owner and name are both required'')
      else case ResolveVisible db u owner name of
        Inl e \<Rightarrow> Inl (toolError e)
      | Inr fn \<Rightarrow> (case ListInvocationLogs db fn since limit of (logs, nxt) \<Rightarrow> Inr (OutLogs (map invocationLogDTO logs) nxt)))"

definition rollbackFunction ::
  "('f, 'b, 'p) McpHandler \<Rightarrow> draws \<Rightarrow> ('b, 'p) service_state \<Rightarrow> User \<Rightarrow> string \<Rightarrow> string \<Rightarrow> string
     \<Rightarrow> ('b, 'p) service_state \<times> (tool_error + tool_output)" where
  "rollbackFunction h dw st u owner name versionID =
     (if owner = [] \<or> name = [] \<or> versionID = [] then (st, Inl (ToolText ''owner, name, and version_id are all required''))
      else case ResolveVisible (sv_db st) u owner name of
        Inl e \<Rightarrow> (st, Inl (toolError e))
      | Inr fn \<Rightarrow>
          (case CanManage (sv_db st) u fn of
             Inl e \<Rightarrow> (st, Inl (toolError e))
           | Inr _ \<Rightarrow>
               (case Activate (toUnix (dw_now dw)) st fn versionID of
                  (st1, Inl e) \<Rightarrow> (st1, Inl (toolError e))
                | (st1, Inr fn') \<Rightarrow>
                    (let st2 = audited st1 dw u ''function.rollback'' (''function:'' @ fn_ID fn')
                           (aj_marshal_map (hd_json (mc_api h)) [(''version_id'', Some versionID)]) in
                     (st2, Inr (OutFunction (functionDTO (mc_api h) (sv_db st2) fn' owner)))))))"

definition deleteFunction ::
  "('f, 'b, 'p) McpHandler \<Rightarrow> draws \<Rightarrow> ('b, 'p) service_state \<Rightarrow> User \<Rightarrow> string \<Rightarrow> string
     \<Rightarrow> ('b, 'p) service_state \<times> (tool_error + tool_output)" where
  "deleteFunction h dw st u owner name =
     (if owner = [] \<or> name = [] then (st, Inl (ToolText ''owner and name are both required''))
      else case ResolveVisible (sv_db st) u owner name of
        Inl e \<Rightarrow> (st, Inl (toolError e))
      | Inr fn \<Rightarrow>
          (case CanManage (sv_db st) u fn of
             Inl e \<Rightarrow> (st, Inl (toolError e))
           | Inr _ \<Rightarrow>
               (case DeleteFunction (toUnix (dw_now dw)) st fn of
                  (st1, Inl e) \<Rightarrow> (st1, Inl (toolError e))
                | (st1, Inr _) \<Rightarrow>
                    (audited st1 dw u ''function.delete'' (''function:'' @ fn_ID fn)
                       (aj_marshal_map (hd_json (mc_api h)) [(''owner'', Some owner), (''name'', Some name)]), Inr OutDeleted))))"

subsection \<open>Invocation\<close>

definition invokeTokenTTL :: int where
  "invokeTokenTTL = 5 * 60 * 10 ^ 9"

definition invoke_target :: "invokeFunctionIn \<Rightarrow> string" where
  "invoke_target inp =
     (let p = (if ifi_Path inp = [] then ''/'' else ifi_Path inp);
          path = (if \<not> prefix ''/'' p then ''/'' @ p else p) in
      ''/'' @ ifi_Owner inp @ ''/'' @ ifi_Name inp @ path
        @ (if ifi_Query inp \<noteq> [] then ''?'' @ encode_query (ifi_Query inp) else []))"

definition invoke_body :: "invokeFunctionIn \<Rightarrow> tool_error + bytes" where
  "invoke_body inp =
     (if ifi_Body inp = [] then Inr []
      else if ifi_BodyEncoding inp = [] \<or> ifi_BodyEncoding inp = ''utf8'' then Inr (ifi_Body inp)
      else if ifi_BodyEncoding inp = ''base64'' then
        (case decodeBase64 (ifi_Body inp) of None \<Rightarrow> Inl (ToolText ''invalid base64 body'') | Some d \<Rightarrow> Inr d)
      else Inl (ToolText ''body_encoding must be utf8 or base64''))"

text \<open>The headers of the input, each key in canonical form, and then the minted token.\<close>

definition invoke_headers :: "invokeFunctionIn \<Rightarrow> string \<Rightarrow> header" where
  "invoke_headers inp token =
     header_Set ''Authorization'' (''Bearer '' @ token) (foldl (\<lambda>hs (k, v). header_Set (canonical_key k) v hs) [] (ifi_Headers inp))"

definition buildInvokeRequest ::
  "('f, 'b, 'p) McpHandler \<Rightarrow> DB \<Rightarrow> int \<Rightarrow> User \<Rightarrow> invokeFunctionIn \<Rightarrow> tool_error + InvokeRequest" where
  "buildInvokeRequest h db now u inp =
     (let meth = (if ifi_Method inp = [] then ''GET'' else ifi_Method inp); target = invoke_target inp in
      case invoke_body inp of
        Inl e \<Rightarrow> Inl e
      | Inr body \<Rightarrow>
          if \<not> valid_method meth then Inl (ToolText ''failed to build the invocation request'')
          else case url_Parse target of
            None \<Rightarrow> Inl (ToolText ''failed to build the invocation request'')
          | Some url \<Rightarrow>
              (case IssueAccessToken (hd_crypto (mc_api h)) (hd_auth (mc_api h)) (hd_codec (mc_api h)) db now (u_ID u) invokeTokenTTL of
                 Inl _ \<Rightarrow> Inl (ToolText ''failed to authenticate the synthesized invocation'')
               | Inr (token, _) \<Rightarrow>
                   (let hs = invoke_headers inp token in
                    Inr \<lparr>ir_req = \<lparr>rq_Method = meth, rq_Authorization = header_Get ''Authorization'' hs, rq_Origin = header_Get ''Origin'' hs,
                              rq_CSRFHeader = header_Get ''X-Csrf-Token'' hs, rq_Cookies = mc_cookies h hs\<rparr>,
                         ir_Host = (case url_Parse (mc_ControlOrigin h) of Some origin \<Rightarrow> url_Host origin | None \<Rightarrow> url_Host url),
                         ir_RequestURI = mc_RequestURI h target, ir_Path = url_Path url, ir_ContentLength = int (length body),
                         ir_Header = hs\<rparr>)))"

definition invoke_output :: "boundedInvokeRecorder \<Rightarrow> invokeFunctionOut" where
  "invoke_output r =
     (let ct = header_Get ''Content-Type'' (bir_header r) in
      \<lparr>ifo_Status = bir_status r,
       ifo_Headers = (''content-length'', nat_str (bir_total r)) # (if ct \<noteq> [] then [(''content-type'', ct)] else []),
       ifo_Body = (if utf8_Valid (bir_body r) then bir_body r else std_encode (bir_body r)),
       ifo_BodyEncoding = (if utf8_Valid (bir_body r) then ''utf8'' else ''base64''),
       ifo_Truncated = bir_truncated r\<rparr>)"

text \<open>What the wrapped writer of an invocation has received, as calls on it.\<close>

definition client_calls :: "client_response \<Rightarrow> recorder_call list" where
  "client_calls w = map (\<lambda>(k, vs). RecSet k (case vs of v # _ \<Rightarrow> v | [] \<Rightarrow> [])) (cr_header w)
     @ (case cr_committed w of None \<Rightarrow> [] | Some (status, _) \<Rightarrow> [RecWriteHeader status])
     @ (if cr_body w = [] then [] else [RecWrite (cr_body w)])"

text \<open>
  \<open>Invoker.Serve\<close> with its effects: a denial is rendered; otherwise the guest runs, its pool is dropped
  when it ran out of memory, and the invocation is logged.
\<close>

definition invoker_Serve ::
  "('f, 'b, 'p) McpHandler \<Rightarrow> draws \<Rightarrow> ('b, 'p) service_state \<Rightarrow> Invoker \<Rightarrow> InvokeRequest \<Rightarrow> string \<Rightarrow> string
     \<Rightarrow> ('b, 'p) service_state \<times> recorder_call list" where
  "invoker_Serve h dw st iv r owner name =
     (let deny = (\<lambda>e. mc_deny h (if e = ErrNotFound then DenyError 404 ''not_found'' else DenyError 500 ''internal'')) in
      case resolveOwner (sv_db st) owner of
        Inl e \<Rightarrow> (st, deny e)
      | Inr (ownerType, ownerID) \<Rightarrow>
          (case functions_ByOwnerAndName (sv_db st) ownerType ownerID name of
             Inl e \<Rightarrow> (st, deny e)
           | Inr fn \<Rightarrow>
               (case serveFunction (hd_crypto (mc_api h)) (hd_codec (mc_api h)) (mc_cookieCodec h) (mc_verify h)
                      (de_parse_duration (hd_env (mc_api h))) iv (sv_db st) (dw_now dw) r fn of
                  Inl d \<Rightarrow> (st, mc_deny h d)
                | Inr g \<Rightarrow>
                    (case mc_guest h (sv_runtime st) g of
                       (rt, Inl d) \<Rightarrow> (st\<lparr>sv_runtime := rt\<rparr>, mc_deny h d)
                     | (rt, Inr (evs, duration, capt)) \<Rightarrow>
                         (let iw = rw_run evs (new_writer []) in
                          (st\<lparr>sv_runtime := map_option (\<lambda>m. if isLikelyOOM iw then Invalidate m (fv_ID (gc_version g)) else m) rt,
                              sv_db := appendInvocationLog (sv_db st) (dw_now dw) (dw_fresh dw 0) (fn_ID fn) (fv_ID (gc_version g))
                                (rq_Method (ir_req r)) (ir_Path r) (finalStatus iw) duration capt\<rparr>,
                           client_calls (iw_client iw)))))))"

definition invokeFunction ::
  "('f, 'b, 'p) McpHandler \<Rightarrow> draws \<Rightarrow> ('b, 'p) service_state \<Rightarrow> User \<Rightarrow> invokeFunctionIn
     \<Rightarrow> ('b, 'p) service_state \<times> (tool_error + tool_output)" where
  "invokeFunction h dw st u inp =
     (case mc_invoker h of
        None \<Rightarrow> (st, Inl (ToolText ''unknown tool''))
      | Some iv \<Rightarrow>
          if ifi_Owner inp = [] \<or> ifi_Name inp = [] then (st, Inl (ToolText ''owner and name are both required''))
          else case buildInvokeRequest h (sv_db st) (dw_now dw) u inp of
            Inl e \<Rightarrow> (st, Inl e)
          | Inr r \<Rightarrow>
              (case invoker_Serve h dw st iv r (ifi_Owner inp) (ifi_Name inp) of
                 (st1, calls) \<Rightarrow>
                   (st1, Inr (OutInvoke (invoke_output (foldl bir_exec (newBoundedInvokeRecorder invokeFunctionBodyCap) calls))))))"

section \<open>The edit loop\<close>

text \<open>
  C13. An agent that downloads a version and deploys what it got, unchanged, uploads the same
  bundle: as long as the files fit the listing's budget of 2 MiB, the listing is complete (it is cut
  exactly when they do not, and never carries more content than the budget), every file, text or binary,
  decodes to its bytes, and the packed bundle is the canonical archive of the version's files.
\<close>

theorem edit_loop:
  assumes "packable fs" and "fs \<noteq> []" and "dfi_Owner inp \<noteq> []" and "dfi_Manifest inp = None"
    and "dfi_Files inp = map reupload (fst (listing fs))"
  shows "content_size (fst (listing fs)) \<le> getFunctionFilesBudget
    \<and> (snd (listing fs) \<longleftrightarrow> total_size fs > getFunctionFilesBudget)
    \<and> (total_size fs \<le> getFunctionFilesBudget \<longrightarrow>
        (\<exists>a. deploy_bundle h inp = Inr a \<and> Pack fs = Inr a \<and> Unpack a = Inr (sorted_files fs)))"
proof (intro conjI impI)
  have "\<not> safe_path []" by (simp add: safe_path_def plain_comp_def)
  then have d: "distinct (map fst fs)" and e: "[] \<notin> fst ` set fs"
    using assms(1) by (auto simp: packable_def list_all_iff)
  show "content_size (fst (listing fs)) \<le> getFunctionFilesBudget"
    using list_files_budget [of 0 fs "sort (map fst fs)"] by (simp add: listing_def getFunctionFilesBudget_def)
  show "snd (listing fs) \<longleftrightarrow> total_size fs > getFunctionFilesBudget" by (rule listing_truncated [OF d])
  assume fits: "total_size fs \<le> getFunctionFilesBudget"
  have s: "distinct (map fst ([] @ sorted_files fs))" "[] \<notin> fst ` set (sorted_files fs)"
    using d e set_map [of fst "sorted_files fs"] by (simp, metis set_map set_sort sorted_files_fst)
  have "collect_files [] 0 (dfi_Files inp) = Inr (sorted_files fs, total_size fs)"
    using collect_files_reupload [OF s, of 0] total_size_mset [OF sorted_files_mset [OF d]]
    by (simp add: assms(5) listing_complete [OF d fits] comp_def)
  moreover have "dfi_Files inp \<noteq> []"
    using assms(2) by (simp add: assms(5) listing_complete [OF d fits] sorted_files_def sort_key_Nil)
  moreover have "length (sorted_files fs) \<le> MaxFiles" "total_size fs \<le> MaxUnpackedBytes"
    using assms(1) by (simp_all add: packable_def sorted_files_def)
  moreover have "Pack (sorted_files fs) = Pack fs"
    using d by (intro Pack_order_independent) (simp_all add: sorted_files_map_of)
  ultimately show "\<exists>a. deploy_bundle h inp = Inr a \<and> Pack fs = Inr a \<and> Unpack a = Inr (sorted_files fs)"
    using assms(3,4) Unpack_Pack_sorted [OF assms(1)] by (auto simp: deploy_bundle_def)
qed

section \<open>Acting as the caller\<close>

lemma authenticateHeader_user:
  assumes "authenticateHeader h db now hdr = Inr u"
  shows "u \<in> set (db_users db) \<and> u_Status u = UserStatusActive \<and> checkLoginRules db (u_Email u)
    \<and> (\<exists>raw cl. hdr = ''Bearer '' @ raw \<and> verifyAccessToken (hd_crypto (mc_api h)) (hd_auth (mc_api h)) (hd_codec (mc_api h)) now raw = Inr cl
        \<and> (atc_Aud cl = [] \<or> atc_Aud cl = AudienceMCP) \<and> atc_Sub cl = u_ID u)"
proof -
  obtain raw where raw: "cut_prefix ''Bearer '' hdr = Some raw" "prefix AccessTokenPrefix raw"
    using assms by (auto simp: authenticateHeader_def Let_def split: option.splits if_splits)
  then obtain cl where cl: "verifyAccessToken (hd_crypto (mc_api h)) (hd_auth (mc_api h)) (hd_codec (mc_api h)) now raw = Inr cl"
    "atc_Aud cl = [] \<or> atc_Aud cl = AudienceMCP"
    using assms by (auto simp: authenticateHeader_def AccessTokenAudience_def Let_def split: sum.splits if_splits)
  then have u: "loadActiveUser db (atc_Sub cl) = Inr u" "u_Status u \<noteq> UserStatusPending"
    using assms raw by (auto simp: authenticateHeader_def AccessTokenAudience_def authenticateAccessToken_def Let_def split: sum.splits if_splits)
  have "hdr = ''Bearer '' @ raw" using raw(1) by (auto simp: cut_prefix_def split: if_splits elim: prefixE)
  moreover have "u \<in> set (db_users db)" "u_Status u \<noteq> UserStatusDisabled" "u_ID u = atc_Sub cl"
    "checkLoginRules db (u_Email u)" using u(1) by (auto dest: loadActiveUser_Inr)
  moreover from this(2) u(2) have "u_Status u = UserStatusActive" by (cases "u_Status u") auto
  ultimately show ?thesis using cl by auto
qed

lemma header_Get_Set [simp]: "header_Get k (header_Set k v h) = v"
  by (induction h) (auto simp: header_Get_def header_Set_def header_Del_def)

lemma verified_subject: "verifyAccessToken c a j now raw = Inr cl \<Longrightarrow> atc_Sub cl \<noteq> []"
  by (auto simp: verifyAccessToken_def split: option.splits if_splits)

lemma invokeTokenTTL_used: "toUnix now < toUnix (now + ClampAccessTokenTTL invokeTokenTTL)"
  by (simp add: toUnix_def ClampAccessTokenTTL_def invokeTokenTTL_def MaxAccessTokenTTL_def)

text \<open>
  C14. \<open>invoke_function\<close> acts as the authenticated caller: whatever method, path, query, headers and body
  the agent asks for, the synthesized request carries a fresh token that the invocation path
  resolves to exactly the user of the tool call; a supplied \<^verbatim>\<open>Authorization\<close> or \<^verbatim>\<open>Cookie\<close>
  header cannot change that. The JSON codec of the claims is required to round-trip.
\<close>

theorem invoke_acts_as_caller:
  assumes "\<And>cl. cd_unmarshal (hd_codec (mc_api h)) (cd_marshal (hd_codec (mc_api h)) cl) = Some cl" and "db_ok db"
    and "requireActor h db now hdr = Inr u" and "buildInvokeRequest h db now u inp = Inr r"
  shows "ResolveInvokeCaller (hd_crypto (mc_api h)) (hd_auth (mc_api h)) (hd_codec (mc_api h)) ji verify db now (ir_req r) auds fid host = Inr u"
proof -
  let ?c = "hd_crypto (mc_api h)" let ?a = "hd_auth (mc_api h)" let ?j = "hd_codec (mc_api h)"
  have "authenticateHeader h db now hdr = Inr u" using assms(3) by (simp add: requireActor_def split: sum.splits)
  from authenticateHeader_user [OF this] verified_subject
  have u: "u \<in> set (db_users db)" "u_Status u = UserStatusActive" "u_ID u \<noteq> []" and rules: "checkLoginRules db (u_Email u)"
    by auto
  have un: "unique_on u_ID (db_users db)" "unique_on u_Email (db_users db)" using assms(2) by (simp_all add: db_ok_defs)
  have byid: "users_ByID db (u_ID u) = Inr u" using lookup_row_key [OF un(1) u(1)] by (simp add: users_ByID_def)
  define cl where "cl = \<lparr>atc_Sub = u_ID u, atc_Email = u_Email u, atc_IAT = toUnix now,
     atc_EXP = toUnix (now + ClampAccessTokenTTL invokeTokenTTL), atc_Kind = accessTokenKind, atc_Aud = []\<rparr>"
  have tok: "IssueAccessToken ?c ?a ?j db now (u_ID u) invokeTokenTTL
      = Inr (signAccessToken ?c ?a ?j cl, now + ClampAccessTokenTTL invokeTokenTTL)"
    by (simp add: IssueAccessToken_def issueAccessToken_def byid cl_def Let_def)
  have ver: "verifyAccessToken ?c ?a ?j now (signAccessToken ?c ?a ?j cl) = Inr cl"
    using verify_signed [of ?j cl] assms(1) u(3) invokeTokenTTL_used [of now] by (simp add: cl_def)
  have "rq_Authorization (ir_req r) = ''Bearer '' @ signAccessToken ?c ?a ?j cl"
    using assms(4) tok by (auto simp: buildInvokeRequest_def invoke_headers_def Let_def split: sum.splits option.splits if_splits)
  moreover have "cut_prefix ''Bearer '' (''Bearer '' @ signAccessToken ?c ?a ?j cl) = Some (signAccessToken ?c ?a ?j cl)"
    "prefix AccessTokenPrefix (signAccessToken ?c ?a ?j cl)" "signAccessToken ?c ?a ?j cl \<noteq> []"
    by (simp_all only: cut_prefix_Some signAccessToken_def prefixI) (simp add: AccessTokenPrefix_def)
  ultimately have "ResolveInvokeCaller ?c ?a ?j ji verify db now (ir_req r) auds fid host = loadActiveUserByEmail db (u_Email u)"
    using ver by (simp add: ResolveInvokeCaller_def) (simp add: cl_def)
  moreover have "loadActiveUserByEmail db (u_Email u) = Inr u"
    using lookup_row_key [OF un(2) u(1)] u(2) rules
    by (simp add: loadActiveUserByEmail_def users_ByEmail_def validateActiveUser_def)
  ultimately show ?thesis by simp
qed

section \<open>The response of an invocation\<close>

definition decoded :: "string \<Rightarrow> string \<Rightarrow> bytes option" where
  "decoded encoding body = (if encoding = ''utf8'' then Some body else decodeBase64 body)"

text \<open>
  What \<open>invoke_function\<close> answers: the status the invocation committed first, the first 1 MiB of what it
  wrote, the full length as \<^verbatim>\<open>content-length\<close>, and a flag that says whether the body was cut.
\<close>

lemma invoke_response:
  assumes "invokeFunction h dw st u inp = (st', Inr (OutInvoke out))"
  shows "\<exists>iv r calls. mc_invoker h = Some iv \<and> buildInvokeRequest h (sv_db st) (dw_now dw) u inp = Inr r
    \<and> invoker_Serve h dw st iv r (ifi_Owner inp) (ifi_Name inp) = (st', calls)
    \<and> ifo_Status out = first_code calls
    \<and> decoded (ifo_BodyEncoding out) (ifo_Body out) = Some (take (2 ^ 20) (concat (map wrote calls)))
    \<and> (ifo_Truncated out \<longleftrightarrow> length (concat (map wrote calls)) > 2 ^ 20)
    \<and> map_of (ifo_Headers out) ''content-length'' = Some (nat_str (length (concat (map wrote calls))))"
proof -
  obtain iv r where r: "mc_invoker h = Some iv" "buildInvokeRequest h (sv_db st) (dw_now dw) u inp = Inr r"
    using assms by (auto simp: invokeFunction_def split: option.splits if_splits sum.splits)
  moreover obtain st1 calls where c: "invoker_Serve h dw st iv r (ifi_Owner inp) (ifi_Name inp) = (st1, calls)" by fastforce
  ultimately have "st1 = st'" "out = invoke_output (foldl bir_exec (newBoundedInvokeRecorder invokeFunctionBodyCap) calls)"
    using assms by (auto simp: invokeFunction_def split: if_splits)
  with r c recorder_result [of invokeFunctionBodyCap calls] show ?thesis
    by (auto simp: invoke_output_def Let_def decoded_def decodeBase64_def invokeFunctionBodyCap_def)
qed

section \<open>Bounded resources\<close>

text \<open>A start of a session: which sessions are still open, the handle of the new one, and its authenticated user.\<close>

type_synonym session_start = "(nat \<Rightarrow> bool) \<times> nat \<times> User option"

definition start_sessions :: "('f, 'b, 'p) McpHandler \<Rightarrow> session_start list \<Rightarrow> sessions" where
  "start_sessions h starts = foldl (\<lambda>ss (live, server, act). fst (getServer h live server act ss)) [] starts"

definition sessions_ok :: "sessions \<Rightarrow> bool" where
  "sessions_ok ss = (length ss \<le> mcpMaxSessionsGlobal \<and> (\<forall>i. length (filter (\<lambda>s. snd s = i) ss) \<le> mcpMaxSessionsPerUser))"

lemma prune_ok: "sessions_ok ss \<Longrightarrow> sessions_ok (pruneClosedSessionsLocked live ss)"
proof -
  assume ok: "sessions_ok ss"
  have "length (filter (\<lambda>s. snd s = i) (filter P ss)) \<le> length (filter (\<lambda>s. snd s = i) ss)" for i P
    by (induction ss) auto
  then show ?thesis using ok unfolding sessions_ok_def pruneClosedSessionsLocked_def
    by (meson le_trans length_filter_le)
qed

lemma getServer_ok: "sessions_ok ss \<Longrightarrow> sessions_ok (fst (getServer h live server act ss))"
  using prune_ok [of ss live]
  by (auto simp: getServer_def Let_def sessions_ok_def split: option.split)

text \<open>
  However often clients start sessions, whoever they are and whichever of their sessions
  have closed, the endpoint tracks at most 400 of them and at most 10 of any one user.
\<close>

lemma sessions_bounded:
  "length (start_sessions h starts) \<le> 400 \<and> length (filter (\<lambda>s. snd s = i) (start_sessions h starts)) \<le> 10"
proof -
  have "sessions_ok ss \<Longrightarrow> sessions_ok (foldl (\<lambda>ss (live, server, act). fst (getServer h live server act ss)) ss starts)" for ss
    by (induction starts arbitrary: ss) (auto simp: getServer_ok)
  then have "sessions_ok (start_sessions h starts)" unfolding start_sessions_def by (simp add: sessions_ok_def)
  then show ?thesis by (simp add: sessions_ok_def mcpMaxSessionsGlobal_def mcpMaxSessionsPerUser_def)
qed

section \<open>An example\<close>

text \<open>The endpoint of the example organization, and a token its admin got for it.\<close>

definition mcp_handler :: "(unit, unit, unit) McpHandler" where
  "mcp_handler = \<lparr>mc_ControlOrigin = ''https://fb.example'', mc_api = api_handler, mc_invoker = Some call_invoker, mc_blob_Get = None,
     mc_cookieCodec = cookie_codec, mc_verify = id_token_example, mc_toYAML = (\<lambda>_. None), mc_marshal_settings = (\<lambda>_. None),
     mc_cookies = (\<lambda>_. []), mc_RequestURI = id, mc_deny = (\<lambda>_. []), mc_guest = (\<lambda>m _. (m, Inr ([], 0, empty_capture)))\<rparr>"

definition mcp_claims :: accessTokenClaims where
  "mcp_claims = \<lparr>atc_Sub = ''a1'', atc_Email = ''ann@x.org'', atc_IAT = 0, atc_EXP = 900, atc_Kind = accessTokenKind, atc_Aud = AudienceMCP\<rparr>"

definition mcp_token :: string where
  "mcp_token = signAccessToken hash_example svc_example codec_example mcp_claims"

lemma mcp_handler_parts [simp]:
  "hd_crypto (mc_api mcp_handler) = hash_example" "hd_auth (mc_api mcp_handler) = svc_example" "hd_codec (mc_api mcp_handler) = codec_example"
  by (simp_all add: mcp_handler_def api_handler_def)

lemma mcp_token_verified: "verifyAccessToken hash_example svc_example codec_example 0 mcp_token = Inr mcp_claims"
  unfolding mcp_token_def by (subst verify_signed) (simp_all add: codec_example_law toUnix_def mcp_claims_def)

lemma mcp_token_actor: "requireActor mcp_handler api_db 0 (''Bearer '' @ mcp_token) = Inr admin_example"
proof -
  have "cut_prefix ''Bearer '' (''Bearer '' @ mcp_token) = Some mcp_token" "prefix AccessTokenPrefix mcp_token"
    by (simp_all only: cut_prefix_Some mcp_token_def signAccessToken_def prefixI)
  moreover have "loadActiveUser api_db (atc_Sub mcp_claims) = Inr admin_example" by (simp add: mcp_claims_def api_example_facts(1))
  moreover have "atc_Aud mcp_claims = AudienceMCP" "u_Status admin_example \<noteq> UserStatusPending"
    by (simp_all add: mcp_claims_def admin_example_def)
  ultimately show ?thesis
    by (simp add: requireActor_def authenticateHeader_def AccessTokenAudience_def authenticateAccessToken_def mcp_token_verified)
qed

definition edit_files :: files where
  "edit_files = [(''index.js'', ''x''), (''a.bin'', [CHR 0xFF])]"

theorem edit_loop_witness:
  "\<exists>a. deploy_bundle mcp_handler \<lparr>dfi_Owner = ''ann'', dfi_Name = ''f'', dfi_Note = [], dfi_DryRun = False,
       dfi_Files = map reupload (fst (listing edit_files)), dfi_Manifest = None\<rparr> = Inr a
     \<and> Unpack a = Inr (sorted_files edit_files)"
proof -
  have "packable edit_files" by code_simp
  moreover have "total_size edit_files \<le> getFunctionFilesBudget" "edit_files \<noteq> []" by code_simp+
  ultimately show ?thesis
    using edit_loop [of edit_files "\<lparr>dfi_Owner = ''ann'', dfi_Name = ''f'', dfi_Note = [], dfi_DryRun = False,
       dfi_Files = map reupload (fst (listing edit_files)), dfi_Manifest = None\<rparr>" mcp_handler] by auto
qed

definition invoke_example :: invokeFunctionIn where
  "invoke_example = \<lparr>ifi_Owner = ''ann'', ifi_Name = ''f'', ifi_Method = [], ifi_Path = [], ifi_Query = [],
     ifi_Headers = [(''authorization'', ''Bearer x'')], ifi_Body = [], ifi_BodyEncoding = []\<rparr>"

lemma build_example: "\<exists>r. buildInvokeRequest mcp_handler api_db 0 admin_example invoke_example = Inr r"
proof -
  have "is_ok (IssueAccessToken hash_example svc_example codec_example api_db 0 ''a1'' invokeTokenTTL)"
    by (rule Issue_ok) (simp add: api_example_facts(1) is_ok_def)
  then obtain tok where t: "IssueAccessToken hash_example svc_example codec_example api_db 0 (u_ID admin_example) invokeTokenTTL = Inr tok"
    by (auto simp: is_ok_def admin_example_def split: sum.splits)
  have "invoke_target invoke_example = ''/ann/f/''" "valid_method ''GET''" "url_Parse ''/ann/f/'' \<noteq> None" by code_simp+
  then show ?thesis
    using t by (cases tok) (auto simp: buildInvokeRequest_def Let_def invoke_body_def, auto simp: invoke_example_def)
qed

theorem invoke_acts_as_caller_witness:
  "\<exists>r. buildInvokeRequest mcp_handler api_db 0 admin_example invoke_example = Inr r
     \<and> ResolveInvokeCaller hash_example svc_example codec_example cookie_codec id_token_example api_db 0 (ir_req r) [] ''f1'' ''fb.example''
         = Inr admin_example"
proof -
  obtain r where r: "buildInvokeRequest mcp_handler api_db 0 admin_example invoke_example = Inr r" using build_example by blast
  have ok: "db_ok api_db" using api_db_governed by (simp add: governed_def)
  have "cd_unmarshal (hd_codec (mc_api mcp_handler)) (cd_marshal (hd_codec (mc_api mcp_handler)) cl) = Some cl" for cl
    by (simp add: codec_example_law)
  from invoke_acts_as_caller [OF this ok mcp_token_actor r] r show ?thesis by auto
qed

end
