(* ===== verification/McpTools.thy ===== *)
theory McpTools
  imports McpServer
begin

text \<open>
  The remaining tool groups of package mcpserver (tools_users.go, tools_workspaces.go,
  tools_org.go, tools_audit.go, tools_devices.go) and the dispatch of a call. Every
  handler authenticates first, then checks its own input, then calls the use case it shares with
  the management API. The theorems: of the administration, the workspaces and the functions, a tool call changes only
  what its authenticated caller is entitled to change, and an API request or tool call that is served while no other
  is leaves a well governed organization well governed.
\<close>

section \<open>Users (tools_users.go)\<close>

definition validUserStatus :: "string \<Rightarrow> bool" where
  "validUserStatus s = (status_of s \<noteq> None)"

definition listUsers :: "DB \<Rightarrow> User \<Rightarrow> string \<Rightarrow> tool_error + tool_output" where
  "listUsers db u status =
     (if status \<noteq> [] \<and> \<not> validUserStatus status then Inl (ToolText ''status must be active, pending, or disabled'')
      else case ListUsers db u of
        Inl e \<Rightarrow> Inl (toolError e)
      | Inr users \<Rightarrow> Inr (OutUsers (map userDTO
          (filter (\<lambda>usr. \<not> (status \<noteq> [] \<and> status_String (u_Status usr) \<noteq> status)) users))))"

text \<open>The call of \<open>PatchUser\<close> that four of the handlers end in.\<close>

definition patch_user ::
  "('f, 'b, 'p) McpHandler \<Rightarrow> draws \<Rightarrow> DB \<Rightarrow> User \<Rightarrow> string \<Rightarrow> string option \<Rightarrow> string option \<Rightarrow> DB \<times> (tool_error + tool_output)" where
  "patch_user h dw db u userID role status =
     (case PatchUser (hd_json (mc_api h)) db (dw_now dw) (dw_fresh dw 0) u userID role status of
        (db1, Inl e) \<Rightarrow> (db1, Inl (toolError e))
      | (db1, Inr (updated, _)) \<Rightarrow> (db1, Inr (OutUser (userDTO updated))))"

definition approveUser :: "('f, 'b, 'p) McpHandler \<Rightarrow> draws \<Rightarrow> DB \<Rightarrow> User \<Rightarrow> string \<Rightarrow> DB \<times> (tool_error + tool_output)" where
  "approveUser h dw db u userID =
     (if userID = [] then (db, Inl (ToolText ''user_id is required''))
      else patch_user h dw db u userID None (Some (status_String UserStatusActive)))"

definition rejectUser :: "('f, 'b, 'p) McpHandler \<Rightarrow> draws \<Rightarrow> DB \<Rightarrow> User \<Rightarrow> string \<Rightarrow> DB \<times> (tool_error + tool_output)" where
  "rejectUser h dw db u userID =
     (if userID = [] then (db, Inl (ToolText ''user_id is required''))
      else patch_user h dw db u userID None (Some (status_String UserStatusDisabled)))"

definition setUserRole :: "('f, 'b, 'p) McpHandler \<Rightarrow> draws \<Rightarrow> DB \<Rightarrow> User \<Rightarrow> string \<Rightarrow> string \<Rightarrow> DB \<times> (tool_error + tool_output)" where
  "setUserRole h dw db u userID role =
     (if userID = [] \<or> role = [] then (db, Inl (ToolText ''user_id and role are both required''))
      else patch_user h dw db u userID (Some role) None)"

definition setUserStatus :: "('f, 'b, 'p) McpHandler \<Rightarrow> draws \<Rightarrow> DB \<Rightarrow> User \<Rightarrow> string \<Rightarrow> string \<Rightarrow> DB \<times> (tool_error + tool_output)" where
  "setUserStatus h dw db u userID status =
     (if userID = [] \<or> status = [] then (db, Inl (ToolText ''user_id and status are both required''))
      else patch_user h dw db u userID None (Some status))"

section \<open>Workspaces (tools_workspaces.go)\<close>

definition workspace_summary :: "WorkspaceRow \<Rightarrow> mcp_workspace" where
  "workspace_summary ws = \<lparr>mws_id = ws_ID ws, mws_name = ws_Name ws, mws_settings_gen = ws_SettingsGen ws,
     mws_created_at = ws_CreatedAt ws\<rparr>"

definition mcp_workspaceDTO :: "WorkspaceRow \<Rightarrow> WorkspaceMember list \<Rightarrow> tool_output" where
  "mcp_workspaceDTO ws members = OutWorkspace (workspace_summary ws) (map member_dto members)"

definition listWorkspaces :: "DB \<Rightarrow> User \<Rightarrow> tool_error + tool_output" where
  "listWorkspaces db u = Inr (OutWorkspaces (map workspace_summary (ListWorkspaces db u)))"

definition createWorkspace :: "('f, 'b, 'p) McpHandler \<Rightarrow> draws \<Rightarrow> DB \<Rightarrow> User \<Rightarrow> string \<Rightarrow> DB \<times> (tool_error + tool_output)" where
  "createWorkspace h dw db u name =
     (if name = [] then (db, Inl (ToolText ''name is required''))
      else case api_CreateWorkspace (hd_json (mc_api h)) db (dw_now dw) (dw_fresh dw 1) (dw_fresh dw 0) u name of
        (db1, Inl e) \<Rightarrow> (db1, Inl (toolError e))
      | (db1, Inr ws) \<Rightarrow> (db1, Inr (mcp_workspaceDTO ws
          [\<lparr>wm_WorkspaceID = ws_ID ws, wm_UserID = u_ID u, wm_Role = RoleAdmin, wm_CreatedAt = 0, wm_UpdatedAt = 0\<rparr>])))"

definition getWorkspace :: "DB \<Rightarrow> User \<Rightarrow> string \<Rightarrow> tool_error + tool_output" where
  "getWorkspace db u workspaceID =
     (if workspaceID = [] then Inl (ToolText ''workspace_id is required'')
      else case GetWorkspace db u workspaceID of
        Inl e \<Rightarrow> Inl (toolError e)
      | Inr (ws, _, members) \<Rightarrow> Inr (mcp_workspaceDTO ws members))"

definition setWorkspaceMember ::
  "('f, 'b, 'p) McpHandler \<Rightarrow> draws \<Rightarrow> DB \<Rightarrow> User \<Rightarrow> string \<Rightarrow> string \<Rightarrow> string \<Rightarrow> DB \<times> (tool_error + tool_output)" where
  "setWorkspaceMember h dw db u workspaceID userID role =
     (if workspaceID = [] \<or> userID = [] \<or> role = [] then (db, Inl (ToolText ''workspace_id, user_id, and role are all required''))
      else case SetWorkspaceMember (hd_json (mc_api h)) db (dw_now dw) (dw_fresh dw 0) u workspaceID userID role of
        (db1, Inl e) \<Rightarrow> (db1, Inl (toolError e))
      | (db1, Inr _) \<Rightarrow> (db1, Inr (OutMember userID role)))"

definition removeWorkspaceMember ::
  "('f, 'b, 'p) McpHandler \<Rightarrow> draws \<Rightarrow> DB \<Rightarrow> User \<Rightarrow> string \<Rightarrow> string \<Rightarrow> DB \<times> (tool_error + tool_output)" where
  "removeWorkspaceMember h dw db u workspaceID userID =
     (if workspaceID = [] \<or> userID = [] then (db, Inl (ToolText ''workspace_id and user_id are both required''))
      else case RemoveWorkspaceMember (hd_json (mc_api h)) db (dw_now dw) (dw_fresh dw 0) u workspaceID userID of
        (db1, Inl e) \<Rightarrow> (db1, Inl (toolError e))
      | (db1, Inr _) \<Rightarrow> (db1, Inr OutRemoved))"

section \<open>Organization (tools_org.go) and audit log (tools_audit.go)\<close>

definition getOrgSettings :: "DB \<Rightarrow> User \<Rightarrow> tool_error + tool_output" where
  "getOrgSettings db u =
     (if \<not> CanUpdateOrgSettings (actor_of u) then Inl (ToolText ''organization admin required'')
      else case GetOrgSettings db of
        Inl e \<Rightarrow> Inl (toolError e)
      | Inr (name, orgSet, gen) \<Rightarrow> Inr (OutOrgSettings name orgSet gen))"

definition updateOrgSettings ::
  "('f, 'b, 'p) McpHandler \<Rightarrow> draws \<Rightarrow> DB \<Rightarrow> User \<Rightarrow> (string \<times> string) list \<Rightarrow> DB \<times> (tool_error + tool_output)" where
  "updateOrgSettings h dw db u patches =
     (if patches = [] then (db, Inl (ToolText ''settings is required''))
      else case mc_marshal_settings h patches of
        None \<Rightarrow> (db, Inl (ToolText ''failed to encode settings''))
      | Some patch \<Rightarrow>
          (case UpdateOrgSettings (hd_json (mc_api h)) db (dw_now dw) (dw_fresh dw 0) u patch of
             (db1, Inl e) \<Rightarrow> (db1, Inl (toolError e))
           | (db1, Inr (name, orgSet, gen, just)) \<Rightarrow> (db1, Inr (OutOrgUpdated name orgSet gen just))))"

definition listLoginRules :: "DB \<Rightarrow> User \<Rightarrow> tool_error + tool_output" where
  "listLoginRules db u =
     (if \<not> CanUpdateOrgSettings (actor_of u) then Inl (ToolText ''organization admin required'')
      else Inr (OutLoginRules (map loginRuleDTO (ListLoginRules db))))"

definition replaceLoginRules ::
  "('f, 'b, 'p) McpHandler \<Rightarrow> draws \<Rightarrow> DB \<Rightarrow> User \<Rightarrow> LoginRuleInput list \<Rightarrow> DB \<times> (tool_error + tool_output)" where
  "replaceLoginRules h dw db u items =
     (case ReplaceLoginRules (hd_json (mc_api h)) db (dw_now dw) (\<lambda>i. dw_fresh dw (i + 1)) (dw_fresh dw 0) u items of
        (db1, Inl e) \<Rightarrow> (db1, Inl (toolError e))
      | (db1, Inr rules) \<Rightarrow> (db1, Inr (OutLoginRules (map loginRuleDTO rules))))"

text \<open>The filters apply to one page; the cursor is that of the unfiltered page.\<close>

definition listAuditLogs :: "DB \<Rightarrow> User \<Rightarrow> listAuditLogsIn \<Rightarrow> tool_error + tool_output" where
  "listAuditLogs db u inp =
     (case ListAuditLogs db u (lai_Cursor inp) (lai_Limit inp) of
        Inl e \<Rightarrow> Inl (toolError e)
      | Inr (logs, nxt) \<Rightarrow> Inr (OutAuditLogs
          (filter (\<lambda>l. \<not> (lai_Action inp \<noteq> [] \<and> al_Action l \<noteq> lai_Action inp) \<and> \<not> (lai_UserID inp \<noteq> [] \<and> al_ActorID l \<noteq> lai_UserID inp))
             logs) nxt))"

section \<open>Devices (tools_devices.go)\<close>

definition listConnectedDevices :: "DB \<Rightarrow> User \<Rightarrow> tool_error + tool_output" where
  "listConnectedDevices db u = Inr (OutDevices (ListDevices db u))"

definition revokeDevice :: "draws \<Rightarrow> DB \<Rightarrow> User \<Rightarrow> string \<Rightarrow> string \<Rightarrow> DB \<times> (tool_error + tool_output)" where
  "revokeDevice dw db u kind ident =
     (if kind = [] \<or> ident = [] then (db, Inl (ToolText ''kind and id are both required''))
      else if kind \<noteq> ''cli'' \<and> kind \<noteq> ''oauth'' then (db, Inl (ToolText ''kind must be cli or oauth''))
      else case RevokeDevice db (dw_now dw) (dw_fresh dw 0) u kind ident False of
        (db1, Inl e) \<Rightarrow> (db1, Inl (toolError e))
      | (db1, Inr _) \<Rightarrow> (db1, Inr OutRevoked))"

section \<open>A tool call\<close>

definition on_tool :: "('b, 'p) service_state \<Rightarrow> DB \<times> (tool_error + tool_output) \<Rightarrow> ('b, 'p) service_state \<times> (tool_error + tool_output)" where
  "on_tool st p = (st\<lparr>sv_db := fst p\<rparr>, snd p)"

fun run_tool ::
  "('f, 'b, 'p) McpHandler \<Rightarrow> draws \<Rightarrow> ('b, 'p) service_state \<Rightarrow> User \<Rightarrow> tool_call
     \<Rightarrow> ('b, 'p) service_state \<times> (tool_error + tool_output)" where
  "run_tool h dw st u (ListFunctionsTool owner) = (st, listFunctions h (sv_db st) u owner)"
| "run_tool h dw st u (GetFunctionTool owner name) = (st, getFunction h (sv_db st) u owner name)"
| "run_tool h dw st u (DeployFunctionTool inp) = deployFunction h dw st u inp"
| "run_tool h dw st u (GetFunctionFilesTool inp) = (st, getFunctionFiles h st u inp)"
| "run_tool h dw st u (InvokeFunctionTool inp) = invokeFunction h dw st u inp"
| "run_tool h dw st u (GetFunctionLogsTool owner name since limit) = (st, getFunctionLogs (sv_db st) u owner name since limit)"
| "run_tool h dw st u (RollbackFunctionTool owner name vid) = rollbackFunction h dw st u owner name vid"
| "run_tool h dw st u (DeleteFunctionTool owner name) = deleteFunction h dw st u owner name"
| "run_tool h dw st u (ListUsersTool status) = (st, listUsers (sv_db st) u status)"
| "run_tool h dw st u (ApproveUserTool i) = on_tool st (approveUser h dw (sv_db st) u i)"
| "run_tool h dw st u (RejectUserTool i) = on_tool st (rejectUser h dw (sv_db st) u i)"
| "run_tool h dw st u (SetUserRoleTool i role) = on_tool st (setUserRole h dw (sv_db st) u i role)"
| "run_tool h dw st u (SetUserStatusTool i status) = on_tool st (setUserStatus h dw (sv_db st) u i status)"
| "run_tool h dw st u ListWorkspacesTool = (st, listWorkspaces (sv_db st) u)"
| "run_tool h dw st u (CreateWorkspaceTool name) = on_tool st (createWorkspace h dw (sv_db st) u name)"
| "run_tool h dw st u (GetWorkspaceTool i) = (st, getWorkspace (sv_db st) u i)"
| "run_tool h dw st u (SetWorkspaceMemberTool w i role) = on_tool st (setWorkspaceMember h dw (sv_db st) u w i role)"
| "run_tool h dw st u (RemoveWorkspaceMemberTool w i) = on_tool st (removeWorkspaceMember h dw (sv_db st) u w i)"
| "run_tool h dw st u GetOrgSettingsTool = (st, getOrgSettings (sv_db st) u)"
| "run_tool h dw st u (UpdateOrgSettingsTool patches) = on_tool st (updateOrgSettings h dw (sv_db st) u patches)"
| "run_tool h dw st u ListLoginRulesTool = (st, listLoginRules (sv_db st) u)"
| "run_tool h dw st u (ReplaceLoginRulesTool items) = on_tool st (replaceLoginRules h dw (sv_db st) u items)"
| "run_tool h dw st u (ListAuditLogsTool inp) = (st, listAuditLogs (sv_db st) u inp)"
| "run_tool h dw st u ListConnectedDevicesTool = (st, listConnectedDevices (sv_db st) u)"
| "run_tool h dw st u (RevokeDeviceTool kind i) = on_tool st (revokeDevice dw (sv_db st) u kind i)"

text \<open>Every handler starts with \<open>requireActor\<close> on the header of its own request.\<close>

definition CallTool ::
  "('f, 'b, 'p) McpHandler \<Rightarrow> draws \<Rightarrow> ('b, 'p) service_state \<Rightarrow> string \<Rightarrow> tool_call
     \<Rightarrow> ('b, 'p) service_state \<times> (tool_error + tool_output)" where
  "CallTool h dw st hdr tc =
     (case requireActor h (sv_db st) (dw_now dw) hdr of
        Inl e \<Rightarrow> (st, Inl e)
      | Inr u \<Rightarrow> run_tool h dw st u tc)"

section \<open>Governance\<close>

text \<open>A handler that turns the result of a use case into the result of the tool keeps what the use case keeps.\<close>

lemma tool_keeps:
  assumes "P (fst p)"
  shows "P (fst (case p of (d, Inl e) \<Rightarrow> (d, f e) | (d, Inr x) \<Rightarrow> (d, g x)))"
  using assms by (cases p; cases "snd p") auto

lemma invoker_Serve_db:
  "\<exists>l. sv_db (fst (invoker_Serve h dw st iv r owner name)) = (sv_db st)\<lparr>db_invocation_logs := l\<rparr>"
proof -
  have r: "\<exists>l. db = db\<lparr>db_invocation_logs := l\<rparr>" for db :: DB by (rule exI [of _ "db_invocation_logs db"]) simp
  then have "\<exists>l. appendInvocationLog db t f i v m p s d c = db\<lparr>db_invocation_logs := l\<rparr>" for db t f i v m p s d c
    by (auto simp: appendInvocationLog_def invocationLogs_Append_def Let_def)
  with r show ?thesis
    unfolding invoker_Serve_def Let_def by (auto split: sum.split prod.split)
qed

lemma invoker_Serve_ok: "db_ok (sv_db st) \<Longrightarrow> db_ok (sv_db (fst (invoker_Serve h dw st iv r owner name)))"
  unfolding invoker_Serve_def Let_def appendInvocationLog_def
  by (auto simp: invocationLogs_Append_ok split: sum.split prod.split)

lemma invokeFunction_cases:
  "fst (invokeFunction h dw st u inp) = st \<or> (\<exists>iv r. fst (invokeFunction h dw st u inp)
     = fst (invoker_Serve h dw st iv r (ifi_Owner inp) (ifi_Name inp)))"
  unfolding invokeFunction_def by (auto split: option.split sum.split prod.split) (metis fst_conv)

lemma invokeFunction_governed:
  assumes g: "governed (sv_db st)"
  shows "governed (sv_db (fst (invokeFunction h dw st u inp)))"
  using invokeFunction_cases [of h dw st u inp]
proof
  assume "\<exists>iv r. fst (invokeFunction h dw st u inp) = fst (invoker_Serve h dw st iv r (ifi_Owner inp) (ifi_Name inp))"
  then obtain iv r where e: "fst (invokeFunction h dw st u inp) = fst (invoker_Serve h dw st iv r (ifi_Owner inp) (ifi_Name inp))" by blast
  obtain l where l: "sv_db (fst (invoker_Serve h dw st iv r (ifi_Owner inp) (ifi_Name inp))) = (sv_db st)\<lparr>db_invocation_logs := l\<rparr>"
    using invoker_Serve_db by blast
  have "db_ok (sv_db (fst (invoker_Serve h dw st iv r (ifi_Owner inp) (ifi_Name inp))))"
    using g by (simp add: governed_def invoker_Serve_ok)
  then show ?thesis unfolding e l by (intro governed_frame [OF g]) simp_all
qed (use g in simp)

lemma invokeFunction_views: "all_views (sv_db st) (sv_db (fst (invokeFunction h dw st u inp)))"
proof -
  have v: "all_views db (db\<lparr>db_invocation_logs := l\<rparr>)" for db l
    by (simp add: all_views_def admin_view_def fn_view_def ws_view_def fun_eq_iff)
  show ?thesis using invokeFunction_cases [of h dw st u inp] invoker_Serve_db v by (metis all_views_simps(1))
qed

lemma deployFunction_governed: "governed (sv_db st) \<Longrightarrow> governed (sv_db (fst (deployFunction h dw st u inp)))"
  unfolding deployFunction_def Let_def
  by (auto split: sum.split bool.split option.split intro!: keep_state_case [where P = governed] Deploy_governed audited_governed)

lemma rollbackFunction_governed: "governed (sv_db st) \<Longrightarrow> governed (sv_db (fst (rollbackFunction h dw st u owner name v)))"
  unfolding rollbackFunction_def Let_def
  by (auto split: sum.split intro!: keep_state_case [where P = governed] Activate_governed audited_governed)

lemma deleteFunction_governed: "governed (sv_db st) \<Longrightarrow> governed (sv_db (fst (deleteFunction h dw st u owner name)))"
  unfolding deleteFunction_def
  by (auto split: sum.split intro!: keep_state_case [where P = governed] DeleteFunction_governed audited_governed)

lemmas tool_defs = patch_user_def approveUser_def rejectUser_def setUserRole_def setUserStatus_def createWorkspace_def
  setWorkspaceMember_def removeWorkspaceMember_def updateOrgSettings_def replaceLoginRules_def revokeDevice_def

lemma db_tools_governed:
  assumes "governed db"
  shows "governed (fst (patch_user h dw db u i ro s))" "governed (fst (createWorkspace h dw db u x))"
    "governed (fst (setWorkspaceMember h dw db u x i y))" "governed (fst (removeWorkspaceMember h dw db u x i))"
    "governed (fst (updateOrgSettings h dw db u fs))" "governed (fst (replaceLoginRules h dw db u items))"
    "governed (fst (revokeDevice dw db u k i))"
  using assms unfolding tool_defs
  by (auto split: option.split intro!: keep_case [where P = governed] PatchUser_governed api_CreateWorkspace_governed
      SetWorkspaceMember_governed RemoveWorkspaceMember_governed UpdateOrgSettings_governed ReplaceLoginRules_governed
      RevokeDevice_governed)

lemma run_tool_governed:
  assumes g: "governed (sv_db st)"
  shows "governed (sv_db (fst (run_tool h dw st u tc)))"
  using g
  by (cases tc) (simp_all add: on_tool_def deployFunction_governed rollbackFunction_governed deleteFunction_governed
      invokeFunction_governed db_tools_governed approveUser_def rejectUser_def setUserRole_def setUserStatus_def)

lemma CallTool_governed: "governed (sv_db st) \<Longrightarrow> governed (sv_db (fst (CallTool h dw st hdr tc)))"
  by (simp add: CallTool_def run_tool_governed split: sum.split)

section \<open>Who changes what\<close>

lemma deployFunction_entitled:
  assumes ok: "db_ok (sv_db st)"
  shows "entitled_change (sv_db st) u (sv_db (fst (deployFunction h dw st u inp)))"
proof (cases "deploy_bundle h inp")
  case (Inr packed)
  let ?p = "\<lparr>dp_Bundle = packed, dp_Owner = dfi_Owner inp, dp_Name = dfi_Name inp, dp_Note = dfi_Note inp,
               dp_DryRun = dfi_DryRun inp, dp_Actor = Some u\<rparr>"
  let ?d = "Deploy (hd_crypto (mc_api h)) (hd_env (mc_api h)) (hd_put (mc_api h)) (toUnix (dw_now dw)) (dw_fresh dw 1) (dw_fresh dw 2) st ?p"
  have same: "db_functions (sv_db (fst (deployFunction h dw st u inp))) = db_functions (sv_db (fst ?d))
      \<and> (fn_frame (sv_db st) i (sv_db (fst (deployFunction h dw st u inp))) = fn_frame (sv_db st) i (sv_db (fst ?d)))" for i
    using Inr by (cases ?d) (auto simp: deployFunction_def audited_def split: sum.split option.split bool.split)
  show ?thesis
  proof (rule entitled_functions)
    show "fn_frame (sv_db st) i (sv_db (fst (deployFunction h dw st u inp)))
        \<or> fn_entitled (sv_db st) (sv_db (fst (deployFunction h dw st u inp))) u i" for i
      using same [of i] Deploy_frame [OF ok, of ?p u i] by (fastforce simp: fn_entitled_def)
  qed
qed (simp add: deployFunction_def entitled_views)

lemma managed_tools_entitled:
  "entitled_change (sv_db st) u (sv_db (fst (rollbackFunction h dw st u owner name v)))"
  "entitled_change (sv_db st) u (sv_db (fst (deleteFunction h dw st u owner name)))"
proof -
  note keep = keep_state_case [where P = "fn_frame (sv_db st) i" for i]
  have "fn_frame (sv_db st) i (sv_db (fst (rollbackFunction h dw st u owner name v)))" if n: "\<not> fn_entitled (sv_db st) d u i" for i d
    unfolding rollbackFunction_def Let_def
    by (auto split: sum.split intro!: keep Activate_frame dest: ResolveVisible_member may_not_entitled [OF n])
  then show "entitled_change (sv_db st) u (sv_db (fst (rollbackFunction h dw st u owner name v)))"
    by (intro entitled_functions) blast
  have "fn_frame (sv_db st) i (sv_db (fst (deleteFunction h dw st u owner name)))" if n: "\<not> fn_entitled (sv_db st) d u i" for i d
    unfolding deleteFunction_def
    by (auto split: sum.split intro!: keep DeleteFunction_frame dest: ResolveVisible_member may_not_entitled [OF n])
  then show "entitled_change (sv_db st) u (sv_db (fst (deleteFunction h dw st u owner name)))"
    by (intro entitled_functions) blast
qed

lemma workspace_tools_entitled:
  "entitled_change db u (fst (createWorkspace h dw db u x))"
  "entitled_change db u (fst (setWorkspaceMember h dw db u x i y))"
  "entitled_change db u (fst (removeWorkspaceMember h dw db u x i))"
  unfolding createWorkspace_def setWorkspaceMember_def removeWorkspaceMember_def
  by (auto intro!: entitled_workspaces ws_keep workspace_use_cases_frame)

text \<open>The administration tools do nothing for anybody but an organization admin.\<close>

lemma admin_tools_same:
  assumes "u_Role u \<noteq> RoleAdmin"
  shows "fst (patch_user h dw db u i ro s) = db" "fst (updateOrgSettings h dw db u fs) = db"
    "fst (replaceLoginRules h dw db u items) = db"
proof -
  have "requireOrgAdminActor u = Inl Forbidden"
    using assms by (simp add: requireOrgAdminActor_def CanUpdateOrgSettings_def IsOrgAdmin_def actor_of_def)
  then show "fst (patch_user h dw db u i ro s) = db" "fst (updateOrgSettings h dw db u fs) = db"
    "fst (replaceLoginRules h dw db u items) = db"
    by (simp_all add: patch_user_def PatchUser_def updateOrgSettings_def UpdateOrgSettings_def merged_org_def replaceLoginRules_def
        ReplaceLoginRules_def split: option.split)
qed

lemma revokeDevice_views: "all_views db (fst (revokeDevice dw db u k i))"
  unfolding revokeDevice_def by (auto intro!: keep_case [where P = "all_views db"] RevokeDevice_views)

lemma run_tool_entitled:
  assumes ok: "db_ok (sv_db st)"
  shows "entitled_change (sv_db st) u (sv_db (fst (run_tool h dw st u tc)))"
proof (cases "u_Role u = RoleAdmin")
  case False
  then show ?thesis
    by (cases tc) (simp_all add: on_tool_def entitled_views deployFunction_entitled [OF ok] managed_tools_entitled
        invokeFunction_views workspace_tools_entitled admin_tools_same revokeDevice_views
        approveUser_def rejectUser_def setUserRole_def setUserStatus_def)
qed (rule entitled_admin)

text \<open>
  C2. If a tool call changes one of three views of the database, namely the administration (the organization's
  name and settings, the login rules, the roles and statuses of users), a workspace with its members, or a
  function with its versions and environment, then the call
  carried a valid access token of an active user of the organization, issued for general use or for
  the MCP endpoint, and the change of these views is one this user is entitled to make over the management API. Other
  tables (audit and invocation logs, CLI credentials and connected apps) are outside the views; what
  revoking a device removes is the subject of C26.
\<close>

theorem mcp_changes_authorized:
  assumes "db_ok (sv_db st)" and "CallTool h dw st hdr tc = (st', res)" and "\<not> all_views (sv_db st) (sv_db st')"
  shows "\<exists>u raw cl. u \<in> set (db_users (sv_db st)) \<and> u_Status u = UserStatusActive \<and> hdr = ''Bearer '' @ raw
    \<and> verifyAccessToken (hd_crypto (mc_api h)) (hd_auth (mc_api h)) (hd_codec (mc_api h)) (dw_now dw) raw = Inr cl
    \<and> (atc_Aud cl = [] \<or> atc_Aud cl = AudienceMCP) \<and> atc_Sub cl = u_ID u
    \<and> entitled_change (sv_db st) u (sv_db st')"
proof -
  have "authenticateHeader h (sv_db st) (dw_now dw) hdr \<noteq> Inl e" for e
    using assms(2,3) by (auto simp: CallTool_def requireActor_def)
  then obtain u where u: "authenticateHeader h (sv_db st) (dw_now dw) hdr = Inr u"
    by (cases "authenticateHeader h (sv_db st) (dw_now dw) hdr") auto
  with assms(2) have "run_tool h dw st u tc = (st', res)" by (simp add: CallTool_def requireActor_def)
  with run_tool_entitled [OF assms(1), of u h dw tc] have "entitled_change (sv_db st) u (sv_db st')" by simp
  with authenticateHeader_user [OF u] show ?thesis by blast
qed

text \<open>
  C5. The management API and the MCP endpoint serve the same organization. A request to either, by anybody, accepted or refused,
  that is served while no other request is, leaves a well governed organization well governed: the store's invariant, an active admin, an
  admin for every workspace, no workspaces in open mode, no function of a missing workspace. So does every
  sequence of such requests, one after another. Requests that overlap are not covered: the
  checks and the writes of a request are separate transactions, and the last lemma of this section shows two
  demotions that each pass the check and together leave no admin.
\<close>

theorem mcp_keeps_governance:
  assumes "governed (sv_db st)"
  shows "governed (sv_db (fst (ServeAPI (mc_api h) dw st r))) \<and> governed (sv_db (fst (CallTool h dw st hdr tc)))"
  using assms by (simp add: ServeAPI_governed CallTool_governed)

text \<open>
  Both admins of an organization are demoted at the same time. Alone, either request is carried out and leaves the other
  admin; but when the second one has read the users before the first one writes, its own write leaves nobody.
\<close>

definition second_admin :: User where
  "second_admin = admin_example\<lparr>u_ID := ''a2'', u_ProviderSubject := ''s2'', u_Email := ''bob@x.org''\<rparr>"

definition two_admins :: DB where
  "two_admins = admin_db\<lparr>db_users := [admin_example, second_admin]\<rparr>"

definition has_active_admin :: "DB \<Rightarrow> bool" where
  "has_active_admin db = list_ex (\<lambda>u. u_Role u = RoleAdmin \<and> u_Status u = UserStatusActive) (db_users db)"

lemma overlapping_demotions:
  "let first = PatchUser api_json_example two_admins 0 ''l1'' second_admin ''a1'' (Some ''member'') None;
       second = PatchUser api_json_example two_admins 0 ''l2'' admin_example ''a2'' (Some ''member'') None;
       both = fst (users_Update (fst first) 0 (second_admin\<lparr>u_Role := RoleMember\<rparr>)) in
   is_ok (snd first) \<and> has_active_admin (fst first) \<and> is_ok (snd second) \<and> has_active_admin (fst second)
   \<and> \<not> has_active_admin both"
  by code_simp

section \<open>An example\<close>

text \<open>The admin of the example replaces the login rules from an agent.\<close>

definition tool_example :: tool_call where
  "tool_example = ReplaceLoginRulesTool [\<lparr>lri_Type = ''default'', lri_Value = [], lri_Action = ''allow''\<rparr>]"

lemma tool_example_changes:
  "CallTool mcp_handler api_draws api_state (''Bearer '' @ mcp_token) tool_example
     = run_tool mcp_handler api_draws api_state admin_example tool_example"
  "db_login_rules (fst (replaceLoginRules mcp_handler api_draws api_db admin_example
     [\<lparr>lri_Type = ''default'', lri_Value = [], lri_Action = ''allow''\<rparr>])) \<noteq> db_login_rules api_db"
proof -
  show "CallTool mcp_handler api_draws api_state (''Bearer '' @ mcp_token) tool_example
     = run_tool mcp_handler api_draws api_state admin_example tool_example"
    using mcp_token_actor by (simp add: CallTool_def api_state_def api_draws_def del: append.simps)
qed code_simp

theorem mcp_changes_authorized_witness:
  "\<exists>(u :: User) raw (cl :: accessTokenClaims). ''Bearer '' @ mcp_token = ''Bearer '' @ raw \<and> u_Role u = RoleAdmin
     \<and> verifyAccessToken hash_example svc_example codec_example 0 raw = Inr cl \<and> atc_Sub cl = u_ID u"
proof -
  obtain st' res where c: "CallTool mcp_handler api_draws api_state (''Bearer '' @ mcp_token) tool_example = (st', res)" by fastforce
  have ok: "db_ok (sv_db api_state)" using api_db_governed by (simp add: governed_def api_state_def)
  have "sv_db st' = fst (replaceLoginRules mcp_handler api_draws api_db admin_example
      [\<lparr>lri_Type = ''default'', lri_Value = [], lri_Action = ''allow''\<rparr>])"
    using c unfolding tool_example_changes(1) by (auto simp: tool_example_def on_tool_def api_state_def)
  then have n: "admin_view (sv_db st') \<noteq> admin_view (sv_db api_state)"
    using tool_example_changes(2) by (simp add: admin_view_def api_state_def)
  then have "\<not> all_views (sv_db api_state) (sv_db st')" by (simp add: all_views_def)
  from mcp_changes_authorized [OF ok c this] n show ?thesis
    unfolding mcp_handler_parts entitled_change_def by (auto simp: api_draws_def)
qed

theorem mcp_keeps_governance_witness:
  "governed (sv_db (fst (ServeAPI (mc_api mcp_handler) api_draws api_state api_example)))
   \<and> governed (sv_db (fst (CallTool mcp_handler api_draws api_state (''Bearer '' @ mcp_token) tool_example)))"
  by (rule mcp_keeps_governance) (simp add: api_state_def api_db_governed)

end
