(* ===== verification/FetchCache.thy ===== *)
theory FetchCache
  imports ApiWorkspaces
begin

text \<open>
  The cache of effective fetch policies (server/internal/invoke/effective.go) beside the use cases
  that change settings (server/internal/api/org.go, workspaces.go, auth/login.go). Requests run at the same
  time: an update reads and merges a settings row at one moment and writes it at another, and a fetch
  reads the organization's settings, reads the workspace's settings and consults the cache at three
  moments. Between them anything else may happen, with one exception: two updates of the same row do
  not overlap. The last lemma on the cache shows what goes wrong when they do.

  The theorems: a fetch is judged by the settings it read, never by older ones, and a dial goes out exactly if every level
  of policy and the guard on addresses allow it.
\<close>

section \<open>A row with a generation\<close>

text \<open>
  The rows a table has held so far under one key, the row it holds now and the row an update wants to write: a
  generation determines the settings.
\<close>

definition register_inv :: "('r \<Rightarrow> int) \<Rightarrow> ('r \<Rightarrow> 's) \<Rightarrow> 'r set \<Rightarrow> 'r option \<Rightarrow> 'r option \<Rightarrow> bool" where
  "register_inv gen val past cur pend \<longleftrightarrow>
     (\<forall>x \<in> past. \<forall>y \<in> past. gen x = gen y \<longrightarrow> val x = val y)
     \<and> (\<forall>c. cur = Some c \<longrightarrow> c \<in> past \<and> (\<forall>x \<in> past. gen x \<le> gen c))
     \<and> (\<forall>p. pend = Some p \<longrightarrow> (\<forall>x \<in> past. gen x < gen p))"

lemma register_read:
  assumes "register_inv gen val past (Some c) pend" and "gen p = gen c + 1"
  shows "register_inv gen val past (Some c) (Some p)"
proof -
  have "gen x < gen p" if "x \<in> past" for x
    using assms that unfolding register_inv_def by (smt (verit))
  then show ?thesis using assms(1) unfolding register_inv_def by blast
qed

lemma register_drop: "register_inv gen val past cur pend \<Longrightarrow> register_inv gen val past cur None"
  unfolding register_inv_def by blast

lemma register_gone: "register_inv gen val past cur pend \<Longrightarrow> register_inv gen val past None pend"
  unfolding register_inv_def by blast

lemma register_write:
  assumes "register_inv gen val past cur (Some p)" and "gen q = gen p"
  shows "register_inv gen val (insert q past) (Some q) None"
proof -
  have lt: "gen x < gen q" if "x \<in> past" for x
    using assms that unfolding register_inv_def by simp
  then have "gen x \<noteq> gen q" if "x \<in> past" for x using that by force
  with assms(1) have "\<forall>x \<in> insert q past. \<forall>y \<in> insert q past. gen x = gen y \<longrightarrow> val x = val y"
    unfolding register_inv_def by (metis insert_iff)
  moreover have "\<forall>x \<in> insert q past. gen x \<le> gen q" using lt less_imp_le by blast
  ultimately show ?thesis unfolding register_inv_def by blast
qed

lemma register_new: "register_inv gen val {c} (Some c) None"
  unfolding register_inv_def by blast

section \<open>Histories\<close>

text \<open>
  \<open>fs_past\<close> are the databases so far, the present one among them: a read of a fetch in progress may have seen any of them. \<open>fs_org\<close>
  and \<open>fs_spaces\<close> are the rows of the updates in progress.
\<close>

record fetch_state =
  fs_db :: DB
  fs_cache :: effectiveCache
  fs_past :: "DB set"
  fs_org :: "Organization option"
  fs_spaces :: "string \<Rightarrow> WorkspaceRow option"

definition observe :: "fetch_state \<Rightarrow> DB \<Rightarrow> fetch_state" where
  "observe s db = s\<lparr>fs_db := db, fs_past := insert db (fs_past s)\<rparr>"

text \<open>The settings a fetch for a version has read, each at some moment.\<close>

definition settings_read :: "(string \<Rightarrow> OwnerType) \<Rightarrow> (string \<Rightarrow> string) \<Rightarrow> DB set \<Rightarrow> string \<Rightarrow> ownerSettings \<Rightarrow> ownerSettings \<Rightarrow> bool" where
  "settings_read ot oid past v org ws \<longleftrightarrow>
     (\<exists>d \<in> past. loadOrgSettings d = Some org)
     \<and> (if ot v = OwnerTypeWorkspace then \<exists>d \<in> past. loadWorkspaceSettings d (oid v) = Some ws else ws = no_workspace)"

text \<open>
  A version belongs to a fixed owner, \<open>ot\<close> and \<open>oid\<close>, and has a fixed fetch section \<open>man\<close> in its manifest. Identifiers of workspaces
  are not used again. Steps: the two halves of each update, or its end after the first half; creation and
  deletion of a workspace; open mode switched on by the first login; a fetch after its reads, and an insertion into the cache by
  a fetch that missed; everything else that leaves the settings alone or creates the organization.
\<close>

inductive fetch_step ::
  "(string \<Rightarrow> OwnerType) \<Rightarrow> (string \<Rightarrow> string) \<Rightarrow> (string \<Rightarrow> NormalizedFetch) \<Rightarrow> fetch_state \<Rightarrow> fetch_state \<Rightarrow> bool"
  for ot :: "string \<Rightarrow> OwnerType" and oid :: "string \<Rightarrow> string" and man :: "string \<Rightarrow> NormalizedFetch" where
  read_org: "fs_org s = None \<Longrightarrow> merged_org j (fs_db s) act patch = Inr (cur, o', just) \<Longrightarrow>
     fetch_step ot oid man s (s\<lparr>fs_org := Some o'\<rparr>)"
| write_org: "fs_org s = Some o' \<Longrightarrow> fetch_step ot oid man s (observe (s\<lparr>fs_org := None\<rparr>) (fst (org_Update (fs_db s) now o')))"
| drop_org: "fetch_step ot oid man s (s\<lparr>fs_org := None\<rparr>)"
| read_space: "fs_spaces s w = None \<Longrightarrow> merged_workspace j (fs_db s) act w body = Inr (wsSet, ws') \<Longrightarrow>
     fetch_step ot oid man s (s\<lparr>fs_spaces := (fs_spaces s)(w := Some ws')\<rparr>)"
| write_space: "fs_spaces s w = Some ws' \<Longrightarrow>
     fetch_step ot oid man s (observe (s\<lparr>fs_spaces := (fs_spaces s)(w := None)\<rparr>) (fst (workspaces_Update (fs_db s) now ws')))"
| drop_space: "fetch_step ot oid man s (s\<lparr>fs_spaces := (fs_spaces s)(w := None)\<rparr>)"
| create_space: "\<forall>d \<in> fs_past s. workspaces_ByID d fresh = Inl ErrNotFound \<Longrightarrow>
     fetch_step ot oid man s (observe s (fst (api_CreateWorkspace j (fs_db s) now fresh a act name)))"
| delete_space: "fetch_step ot oid man s (observe s (fst (handleWorkspaceDelete j (fs_db s) now a act w)))"
| open_mode: "fs_org s = None \<Longrightarrow> fetch_step ot oid man s (observe s (fst (applyBootstrapOpenMode (fs_db s) now)))"
| fetch: "settings_read ot oid (fs_past s) v org ws \<Longrightarrow> buildFetchPolicy (man v) (ot v) (oid v) v = Inr ad \<Longrightarrow>
     fetch_step ot oid man s (s\<lparr>fs_cache := fst (resolve_loaded (fs_cache s) org ws (fpa_versionID ad) (fpa_manifestLevel ad))\<rparr>)"
| insert: "settings_read ot oid (fs_past s) v org ws \<Longrightarrow> buildFetchPolicy (man v) (ot v) (oid v) v = Inr ad \<Longrightarrow>
     fetch_step ot oid man s (s\<lparr>fs_cache := (fs_cache s)(cache_key (os_gen org) (os_gen ws) (fpa_versionID ad)
       \<mapsto> snd (resolve_loaded newEffectiveCache org ws (fpa_versionID ad) (fpa_manifestLevel ad)))\<rparr>)"
| other: "(db_org (fs_db s) \<noteq> None \<longrightarrow> db_org db' = db_org (fs_db s)) \<Longrightarrow> db_workspaces db' = db_workspaces (fs_db s) \<Longrightarrow>
     fetch_step ot oid man s (observe s db')"

text \<open>A server starts with an empty cache and no update in progress.\<close>

inductive fetch_reachable ::
  "(string \<Rightarrow> OwnerType) \<Rightarrow> (string \<Rightarrow> string) \<Rightarrow> (string \<Rightarrow> NormalizedFetch) \<Rightarrow> fetch_state \<Rightarrow> bool"
  for ot oid man where
  start: "fetch_reachable ot oid man \<lparr>fs_db = db, fs_cache = newEffectiveCache, fs_past = {db}, fs_org = None, fs_spaces = (\<lambda>_. None)\<rparr>"
| step: "fetch_reachable ot oid man s \<Longrightarrow> fetch_step ot oid man s s' \<Longrightarrow> fetch_reachable ot oid man s'"

section \<open>A generation determines the settings\<close>

definition space_at :: "DB \<Rightarrow> string \<Rightarrow> WorkspaceRow option" where
  "space_at db w = lookup_row (\<lambda>r. ws_ID r = w) (db_workspaces db)"

lemma ByID_space_at: "workspaces_ByID db w = found (space_at db w)"
  by (simp add: workspaces_ByID_def space_at_def)

lemma space_at_ID: "space_at db w = Some r \<Longrightarrow> ws_ID r = w"
  unfolding space_at_def by (drule lookup_row_Some) simp

definition org_rows :: "DB set \<Rightarrow> Organization set" where
  "org_rows past = {x. \<exists>d \<in> past. db_org d = Some x}"

definition space_rows :: "DB set \<Rightarrow> string \<Rightarrow> WorkspaceRow set" where
  "space_rows past w = {x. \<exists>d \<in> past. space_at d w = Some x}"

definition org_inv :: "fetch_state \<Rightarrow> bool" where
  "org_inv s \<longleftrightarrow> register_inv org_SettingsGen org_Settings (org_rows (fs_past s)) (db_org (fs_db s)) (fs_org s)
     \<and> (db_org (fs_db s) = None \<longrightarrow> org_rows (fs_past s) = {} \<and> fs_org s = None)"

definition space_inv :: "fetch_state \<Rightarrow> string \<Rightarrow> bool" where
  "space_inv s w \<longleftrightarrow> register_inv ws_SettingsGen ws_Settings (space_rows (fs_past s) w) (space_at (fs_db s) w) (fs_spaces s w)
     \<and> (\<forall>p. fs_spaces s w = Some p \<longrightarrow> ws_ID p = w \<and> space_rows (fs_past s) w \<noteq> {})"

lemma rows_insert [simp]:
  "org_rows (insert d past) = (case db_org d of None \<Rightarrow> org_rows past | Some x \<Rightarrow> insert x (org_rows past))"
  "space_rows (insert d past) w = (case space_at d w of None \<Rightarrow> space_rows past w | Some x \<Rightarrow> insert x (space_rows past w))"
  by (auto simp: org_rows_def space_rows_def split: option.splits)

lemma observe_simps [simp]:
  "fs_db (observe s d) = d" "fs_past (observe s d) = insert d (fs_past s)" "fs_org (observe s d) = fs_org s"
  "fs_spaces (observe s d) = fs_spaces s" "fs_cache (observe s d) = fs_cache s"
  by (simp_all add: observe_def)

lemma register_again: "register_inv gen val past (Some c) pend \<Longrightarrow> insert c past = past"
  unfolding register_inv_def by blast

lemma org_inv_other [simp]: "org_inv (s\<lparr>fs_cache := c\<rparr>) = org_inv s" "org_inv (s\<lparr>fs_spaces := f\<rparr>) = org_inv s"
  by (simp_all add: org_inv_def)

lemma org_same: "org_inv s \<Longrightarrow> db_org db' = db_org (fs_db s) \<Longrightarrow> org_inv (observe s db')"
  by (cases "db_org (fs_db s)") (auto simp: org_inv_def register_again)

lemma space_inv_other [simp]: "space_inv (s\<lparr>fs_cache := c\<rparr>) w = space_inv s w" "space_inv (s\<lparr>fs_org := p\<rparr>) w = space_inv s w"
  by (simp_all add: space_inv_def)

lemma space_same: "space_inv s w \<Longrightarrow> space_at db' w = space_at (fs_db s) w \<Longrightarrow> space_inv (observe s db') w"
  by (cases "space_at (fs_db s) w") (auto simp: space_inv_def register_again)

lemma space_gone: "space_inv s w \<Longrightarrow> space_at db' w = None \<Longrightarrow> space_inv (observe s db') w"
  by (auto simp: space_inv_def intro: register_gone)

text \<open>What the store does to the rows.\<close>

lemma org_Update_row: "db_org (fst (org_Update db now p)) =
    (case db_org db of None \<Rightarrow> None | Some old \<Rightarrow> Some (p\<lparr>org_CreatedAt := org_CreatedAt old, org_UpdatedAt := now\<rparr>))"
  "db_workspaces (fst (org_Update db now p)) = db_workspaces db"
  by (simp_all add: org_Update_def Let_def split: option.split)

lemma lookup_update:
  assumes "\<And>r. ws_ID (f r) = w"
  shows "lookup_row (\<lambda>r. ws_ID r = y) (update_rows (\<lambda>r. ws_ID r = w) f rows)
      = map_option (\<lambda>r. if ws_ID r = w then f r else r) (lookup_row (\<lambda>r. ws_ID r = y) rows)"
  using assms by (induction rows) (auto simp: lookup_row_def update_rows_def)

lemma workspaces_Update_row: "space_at (fst (workspaces_Update db now p)) w =
    (if w = ws_ID p then map_option (\<lambda>r. p\<lparr>ws_CreatedAt := ws_CreatedAt r, ws_UpdatedAt := now\<rparr>) (space_at db w) else space_at db w)"
  "db_org (fst (workspaces_Update db now p)) = db_org db"
proof -
  have none: "space_at db (ws_ID p) = None" if "\<not> has_row ws_ID (ws_ID p) (db_workspaces db)"
    using that unfolding space_at_def lookup_row_None by (simp add: has_row_iff)
  have "space_at (db\<lparr>db_workspaces := update_rows (\<lambda>r. ws_ID r = ws_ID p) f (db_workspaces db)\<rparr>) w
      = map_option (\<lambda>r. if ws_ID r = ws_ID p then f r else r) (space_at db w)" if "\<And>r. ws_ID (f r) = ws_ID p" for f
    unfolding space_at_def using that by (simp add: lookup_update)
  then show "space_at (fst (workspaces_Update db now p)) w =
      (if w = ws_ID p then map_option (\<lambda>r. p\<lparr>ws_CreatedAt := ws_CreatedAt r, ws_UpdatedAt := now\<rparr>) (space_at db w) else space_at db w)"
    using none space_at_ID [of db w] by (cases "space_at db w") (auto simp: workspaces_Update_def)
qed (simp add: workspaces_Update_def)

lemma Audit_rows [simp]: "space_at (Audit db now f x y z d) w = space_at db w"
  by (simp add: space_at_def)

lemma handleWorkspaceDelete_rows:
  "db_org (fst (handleWorkspaceDelete j db now a act w)) = db_org db"
  "space_at (fst (handleWorkspaceDelete j db now a act w)) x = space_at db x
     \<or> space_at (fst (handleWorkspaceDelete j db now a act w)) x = None"
proof -
  have del: "lookup_row (\<lambda>r. ws_ID r = x) rows = Some y"
    if "lookup_row (\<lambda>r. ws_ID r = x) (delete_rows (\<lambda>w. ws_ID w = i) rows) = Some y" for i y and rows :: "WorkspaceRow list"
    using that
  proof (cases "i = x")
    case True
    then have "lookup_row (\<lambda>r. ws_ID r = x) (delete_rows (\<lambda>w. ws_ID w = i) rows) = None"
      by (auto simp: lookup_row_None delete_rows_def)
    with that show ?thesis by simp
  next
    case False
    with that show ?thesis by (induction rows) (auto simp: lookup_row_def delete_rows_def split: if_splits)
  qed
  have "space_at (fst (workspaces_Delete db i)) x = space_at db x \<or> space_at (fst (workspaces_Delete db i)) x = None" for i
  proof (cases "lookup_row (\<lambda>r. ws_ID r = x) (delete_rows (\<lambda>w. ws_ID w = i) (db_workspaces db))")
    case (Some y)
    from del [OF this] Some show ?thesis by (simp add: workspaces_Delete_def space_at_def)
  qed (simp add: workspaces_Delete_def space_at_def)
  then show "space_at (fst (handleWorkspaceDelete j db now a act w)) x = space_at db x
     \<or> space_at (fst (handleWorkspaceDelete j db now a act w)) x = None"
    by (simp add: handleWorkspaceDelete_def case_prod_beta split: sum.split)
  show "db_org (fst (handleWorkspaceDelete j db now a act w)) = db_org db"
    by (auto simp: handleWorkspaceDelete_def workspaces_Delete_def split: sum.split)
qed

lemma api_CreateWorkspace_rows:
  "db_org (fst (api_CreateWorkspace j db now fresh a act name)) = db_org db"
  "x \<noteq> fresh \<or> space_at db x \<noteq> None \<Longrightarrow> space_at (fst (api_CreateWorkspace j db now fresh a act name)) x = space_at db x"
proof -
  have append: "lookup_row P (rows @ [r]) = (case lookup_row P rows of None \<Rightarrow> if P r then Some r else None | Some y \<Rightarrow> Some y)"
    for P r and rows :: "WorkspaceRow list"
    by (induction rows) (auto simp: lookup_row_def)
  show "x \<noteq> fresh \<or> space_at db x \<noteq> None \<Longrightarrow> space_at (fst (api_CreateWorkspace j db now fresh a act name)) x = space_at db x"
    by (auto simp: api_CreateWorkspace_def CreateWorkspace_def new_workspace_def assign_id_def space_at_def Let_def append split: option.split)
  show "db_org (fst (api_CreateWorkspace j db now fresh a act name)) = db_org db"
    by (auto simp: api_CreateWorkspace_def CreateWorkspace_def Let_def split: option.split)
qed

text \<open>The first half of an update bumps the generation of the row it read.\<close>

lemma merged_org_row:
  "merged_org j db act patch = Inr (cur, p, just) \<Longrightarrow> \<exists>c. db_org db = Some c \<and> org_SettingsGen p = org_SettingsGen c + 1"
  by (auto simp: merged_org_def org_Get_def found_def Let_def split: sum.splits option.splits if_splits)

lemma merged_workspace_row:
  "merged_workspace j db act w body = Inr (wsSet, p) \<Longrightarrow>
     \<exists>c. space_at db w = Some c \<and> ws_ID p = w \<and> ws_SettingsGen p = ws_SettingsGen c + 1"
  using space_at_ID [of db w]
  by (auto simp: merged_workspace_def resolveWorkspace_def ByID_space_at found_def Let_def split: sum.splits option.splits)

lemma open_mode_row:
  "db_org (fst (applyBootstrapOpenMode db now)) = db_org db
   \<or> (\<exists>c q. db_org db = Some c \<and> db_org (fst (applyBootstrapOpenMode db now)) = Some q \<and> org_SettingsGen q = org_SettingsGen c + 1)"
  "db_workspaces (fst (applyBootstrapOpenMode db now)) = db_workspaces db"
  by (auto simp: applyBootstrapOpenMode_def org_Get_def org_Update_def found_def Let_def split: sum.splits option.splits)

lemma org_inv_step:
  assumes "fetch_step ot oid man s s'" and "org_inv s"
  shows "org_inv s'"
  using assms
proof (induction rule: fetch_step.induct)
  case (read_org s j act patch cur p just)
  then show ?case using merged_org_row [OF read_org.hyps(2)]
    by (auto simp: org_inv_def intro: register_read)
next
  case (write_org s p now)
  then show ?case
    by (cases "db_org (fs_db s)") (auto simp: org_inv_def org_Update_row intro: register_write)
next
  case (open_mode s now)
  then show ?case
  proof (cases "db_org (fst (applyBootstrapOpenMode (fs_db s) now)) = db_org (fs_db s)")
    case False
    then obtain c q where cq: "db_org (fs_db s) = Some c" "db_org (fst (applyBootstrapOpenMode (fs_db s) now)) = Some q"
      "org_SettingsGen q = org_SettingsGen c + 1" using open_mode_row(1) by metis
    then have "register_inv org_SettingsGen org_Settings (insert q (org_rows (fs_past s))) (Some q) None"
      using open_mode.prems by (auto simp: org_inv_def intro: register_write register_read)
    with cq open_mode.hyps show ?thesis by (simp add: org_inv_def)
  qed (rule org_same)
next
  case (other s db')
  then show ?case
    by (cases "db_org (fs_db s)"; cases "db_org db'") (auto simp: org_inv_def register_again register_new)
next
  case (drop_org s)
  then show ?case by (auto simp: org_inv_def intro: register_drop)
qed (simp_all add: org_same handleWorkspaceDelete_rows api_CreateWorkspace_rows workspaces_Update_row)

lemma space_inv_step:
  assumes "fetch_step ot oid man s s'" and "\<forall>w. space_inv s w"
  shows "space_inv s' w"
  using assms
proof (induction rule: fetch_step.induct)
  case (read_space s w' j act body wsSet p)
  obtain c where c: "space_at (fs_db s) w' = Some c" "ws_ID p = w'" "ws_SettingsGen p = ws_SettingsGen c + 1"
    using merged_workspace_row [OF read_space.hyps(2)] by blast
  have inv: "space_inv s w" "space_inv s w'" using read_space.prems by blast+
  then have reg: "register_inv ws_SettingsGen ws_Settings (space_rows (fs_past s) w') (Some c) (fs_spaces s w')"
    using c(1) by (simp add: space_inv_def)
  then have "space_rows (fs_past s) w' \<noteq> {}" by (auto simp: register_inv_def)
  with c inv register_read [OF reg c(3)] show ?case by (simp add: space_inv_def)
next
  case (write_space s w' p now)
  then have inv: "space_inv s w" "space_inv s w'" by blast+
  then have p: "ws_ID p = w'" using write_space.hyps by (simp add: space_inv_def)
  show ?case
  proof (cases "w = w'")
    case True
    then show ?thesis using inv p write_space.hyps
      by (cases "space_at (fs_db s) w") (auto simp: space_inv_def workspaces_Update_row intro: register_write register_drop)
  next
    case False
    then show ?thesis using inv p by (intro space_same) (auto simp: space_inv_def workspaces_Update_row)
  qed
next
  case (drop_space s w')
  then show ?case by (auto simp: space_inv_def intro: register_drop)
next
  case (create_space s fresh j now a act name)
  then have inv: "space_inv s w" by blast
  show ?case
  proof (cases "w = fresh")
    case True
    then have "space_rows (fs_past s) w = {}"
      using create_space.hyps by (auto simp: space_rows_def ByID_space_at found_def split: option.splits)
    then show ?thesis using inv
      by (auto simp: space_inv_def register_inv_def split: option.split)
  next
    case False
    then show ?thesis using inv by (intro space_same) (simp_all add: api_CreateWorkspace_rows)
  qed
next
  case (delete_space s j now a act w')
  then show ?case using handleWorkspaceDelete_rows(2) [of j "fs_db s" now a act w' w] by (auto intro: space_same space_gone)
next
  case (write_org s p now)
  then show ?case by (intro space_same) (simp_all add: space_at_def org_Update_row)
next
  case (open_mode s now)
  then show ?case by (intro space_same) (simp_all add: space_at_def open_mode_row)
next
  case (other s db')
  then show ?case by (intro space_same) (simp_all add: space_at_def)
qed simp_all

lemma fetch_reachable_rows: "fetch_reachable ot oid man s \<Longrightarrow> org_inv s \<and> (\<forall>w. space_inv s w) \<and> fs_db s \<in> fs_past s"
proof (induction rule: fetch_reachable.induct)
  case (start db)
  then show ?case
    by (cases "db_org db") (auto simp: org_inv_def space_inv_def register_new register_inv_def org_rows_def space_rows_def)
next
  case (step s s')
  then have "fs_db s' \<in> fs_past s'" by (auto elim: fetch_step.cases)
  with step show ?case using org_inv_step space_inv_step by blast
qed

lemma fetch_past_grows: "fetch_step ot oid man s s' \<Longrightarrow> fs_past s \<subseteq> fs_past s'"
  by (auto elim: fetch_step.cases)

lemma loadOrgSettings_determined:
  assumes "org_inv s" "d \<in> fs_past s" "d' \<in> fs_past s"
    and "loadOrgSettings d = Some x" "loadOrgSettings d' = Some y" "os_gen x = os_gen y"
  shows "x = y"
proof -
  obtain o1 o2 where o: "db_org d = Some o1" "db_org d' = Some o2" "os_gen x = org_SettingsGen o1" "os_gen y = org_SettingsGen o2"
    using assms(4,5) by (auto simp: loadOrgSettings_def org_Get_def found_def split: sum.splits option.splits)
  then have "{o1, o2} \<subseteq> org_rows (fs_past s)" using assms(2,3) by (auto simp: org_rows_def)
  then have "org_Settings o1 = org_Settings o2"
    using assms(1,6) o unfolding org_inv_def register_inv_def by auto
  then show ?thesis using assms(4-6) o by (auto simp: loadOrgSettings_def org_Get_def found_def split: sum.splits)
qed

lemma loadWorkspaceSettings_determined:
  assumes "space_inv s w" "d \<in> fs_past s" "d' \<in> fs_past s"
    and "loadWorkspaceSettings d w = Some x" "loadWorkspaceSettings d' w = Some y" "os_gen x = os_gen y"
  shows "x = y"
proof -
  obtain r1 r2 where r: "space_at d w = Some r1" "space_at d' w = Some r2" "os_gen x = ws_SettingsGen r1" "os_gen y = ws_SettingsGen r2"
    using assms(4,5) by (auto simp: loadWorkspaceSettings_def ByID_space_at found_def split: sum.splits option.splits)
  then have "{r1, r2} \<subseteq> space_rows (fs_past s) w" using assms(2,3) by (auto simp: space_rows_def)
  then have "ws_Settings r1 = ws_Settings r2"
    using assms(1,6) r unfolding space_inv_def register_inv_def by auto
  then show ?thesis using assms(4-6) r by (auto simp: loadWorkspaceSettings_def ByID_space_at found_def split: sum.splits)
qed

lemma settings_read_determined:
  assumes "org_inv s" "\<forall>w. space_inv s w" "settings_read ot oid (fs_past s) v org ws" "settings_read ot oid (fs_past s) v org' ws'"
    and "os_gen org = os_gen org'" "os_gen ws = os_gen ws'"
  shows "org = org'" "ws = ws'"
proof -
  show "org = org'" using assms loadOrgSettings_determined unfolding settings_read_def by metis
  show "ws = ws'"
    using assms loadWorkspaceSettings_determined unfolding settings_read_def by (cases "ot v = OwnerTypeWorkspace") (simp_all, metis)
qed

section \<open>The cache is transparent\<close>

text \<open>
  The reference, computed without any cache: the level a manifest declares, and the levels that apply to a version right now.
\<close>

definition stored_level :: "NormalizedFetch \<Rightarrow> FetchPolicy option" where
  "stored_level f =
     (case (ParseFetchMode (nf_Mode f), map_result ParsePattern (nf_Allow f)) of
        (Inr mode, Inr allow) \<Rightarrow> Some \<lparr>fp_mode = mode, fp_allow = allow\<rparr>
      | _ \<Rightarrow> None)"

definition fetch_levels :: "DB \<Rightarrow> OwnerType \<Rightarrow> string \<Rightarrow> NormalizedFetch \<Rightarrow> FetchPolicy list option" where
  "fetch_levels db ot oid f =
     (case (loadOrgSettings db, stored_level f) of
        (Some org, Some lvl) \<Rightarrow>
          (if ot = OwnerTypeWorkspace then map_option (\<lambda>ws. [os_fetch org, os_fetch ws, lvl]) (loadWorkspaceSettings db oid)
           else Some [os_fetch org, lvl])
      | _ \<Rightarrow> None)"

definition fresh_policy :: "DB \<Rightarrow> OwnerType \<Rightarrow> string \<Rightarrow> NormalizedFetch \<Rightarrow> EffectivePolicy" where
  "fresh_policy db ot oid f = (case fetch_levels db ot oid f of None \<Rightarrow> deny_policy | Some ls \<Rightarrow> Effective ls)"

definition read_levels :: "ownerSettings \<Rightarrow> ownerSettings \<Rightarrow> OwnerType \<Rightarrow> FetchPolicy \<Rightarrow> FetchPolicy list" where
  "read_levels org ws ot lvl = (if ot = OwnerTypeWorkspace then [os_fetch org, os_fetch ws, lvl] else [os_fetch org, lvl])"

lemma buildFetchPolicy_level:
  "buildFetchPolicy f t i v = Inr a \<Longrightarrow>
     stored_level f = Some (fpa_manifestLevel a) \<and> fpa_ownerType a = t \<and> fpa_ownerID a = i \<and> fpa_versionID a = v
     \<and> fpa_literalIPs a = List.map_filter patternLiteralIP (fp_allow (fpa_manifestLevel a))"
  by (auto simp: buildFetchPolicy_def newFetchPolicyAdapter_def stored_level_def split: sum.splits)

lemma loaded_exists: "loadWorkspaceSettings d w = Some ws \<Longrightarrow> os_exists ws"
  by (auto simp: loadWorkspaceSettings_def split: sum.splits)

lemma resolve_loaded_levels:
  assumes "settings_read ot oid past v org ws"
  shows "resolve_loaded c org ws v lvl = (case c (cache_key (os_gen org) (os_gen ws) v) of Some eff \<Rightarrow> (c, eff)
    | None \<Rightarrow> (c(cache_key (os_gen org) (os_gen ws) v \<mapsto> Effective (read_levels org ws (ot v) lvl)), Effective (read_levels org ws (ot v) lvl)))"
  using assms by (auto simp: settings_read_def resolve_loaded_def read_levels_def no_workspace_def Let_def dest: loaded_exists
      split: if_splits option.split)

text \<open>The invariant: an entry is the policy of settings that were read at its generations.\<close>

definition cache_inv :: "(string \<Rightarrow> OwnerType) \<Rightarrow> (string \<Rightarrow> string) \<Rightarrow> (string \<Rightarrow> NormalizedFetch) \<Rightarrow> fetch_state \<Rightarrow> bool" where
  "cache_inv ot oid man s \<longleftrightarrow>
     (\<forall>g h v eff. fs_cache s (cache_key g h v) = Some eff \<longrightarrow>
        (\<exists>org ws lvl. settings_read ot oid (fs_past s) v org ws \<and> os_gen org = g \<and> os_gen ws = h
           \<and> stored_level (man v) = Some lvl \<and> eff = Effective (read_levels org ws (ot v) lvl)))"

lemma settings_read_mono: "settings_read ot oid past v org ws \<Longrightarrow> past \<subseteq> past' \<Longrightarrow> settings_read ot oid past' v org ws"
  unfolding settings_read_def by (auto split: if_splits)

lemma cache_inv_same:
  assumes "cache_inv ot oid man s" "fs_cache s' = fs_cache s" "fs_past s \<subseteq> fs_past s'"
  shows "cache_inv ot oid man s'"
  using assms unfolding cache_inv_def by (metis settings_read_mono)

lemma cache_inv_insert:
  assumes "cache_inv ot oid man s" "settings_read ot oid (fs_past s) v org ws" "stored_level (man v) = Some lvl"
  shows "cache_inv ot oid man (s\<lparr>fs_cache := (fs_cache s)(cache_key (os_gen org) (os_gen ws) v \<mapsto> Effective (read_levels org ws (ot v) lvl))\<rparr>)"
  using assms unfolding cache_inv_def by (auto simp: cache_key_inj)

lemma cache_inv_step:
  assumes "fetch_step ot oid man s s'" and "cache_inv ot oid man s"
  shows "cache_inv ot oid man s'"
  using assms
proof (induction rule: fetch_step.induct)
  case (fetch s v org ws ad)
  note ad = buildFetchPolicy_level [OF fetch.hyps(2)]
  show ?case
  proof (cases "fs_cache s (cache_key (os_gen org) (os_gen ws) v)")
    case None
    then show ?thesis using ad fetch cache_inv_insert [OF fetch.prems fetch.hyps(1)]
      by (simp add: resolve_loaded_levels [OF fetch.hyps(1)])
  qed (use ad fetch in \<open>simp add: resolve_loaded_levels [OF fetch.hyps(1)]\<close>)
next
  case (insert s v org ws ad)
  then show ?case using buildFetchPolicy_level [OF insert.hyps(2)] cache_inv_insert [OF insert.prems insert.hyps(1)]
    by (simp add: resolve_loaded_levels [OF insert.hyps(1)] newEffectiveCache_def)
qed (rule cache_inv_same; auto)+

lemma reachable_cache_inv: "fetch_reachable ot oid man s \<Longrightarrow> cache_inv ot oid man s"
  by (induction rule: fetch_reachable.induct) (auto simp: cache_inv_def newEffectiveCache_def dest: cache_inv_step)

lemma resolve_loaded_reachable:
  assumes "fetch_reachable ot oid man s" and "settings_read ot oid (fs_past s) v org ws" and "stored_level (man v) = Some lvl"
  shows "snd (resolve_loaded (fs_cache s) org ws v lvl) = Effective (read_levels org ws (ot v) lvl)"
proof (cases "fs_cache s (cache_key (os_gen org) (os_gen ws) v)")
  case None
  then show ?thesis by (simp add: resolve_loaded_levels [OF assms(2)])
next
  case (Some eff)
  with reachable_cache_inv [OF assms(1)] assms(3) obtain org' ws' where
    r: "settings_read ot oid (fs_past s) v org' ws'" "os_gen org = os_gen org'" "os_gen ws = os_gen ws'" "eff = Effective (read_levels org' ws' (ot v) lvl)"
    unfolding cache_inv_def by (metis option.inject)
  note rows = fetch_reachable_rows [OF assms(1)]
  have "org = org'" "ws = ws'" using settings_read_determined [OF _ _ assms(2) r(1-3)] rows by blast+
  moreover have "snd (resolve_loaded (fs_cache s) org ws v lvl) = eff"
    using Some by (simp add: resolve_loaded_levels [OF assms(2)])
  ultimately show ?thesis using r(4) by simp
qed

lemma resolve_reachable:
  assumes "fetch_reachable ot oid man s" and "buildFetchPolicy (man v) (ot v) (oid v) v = Inr a"
  shows "snd (resolveFetch (fs_cache s) (fs_db s) (fpa_ownerType a) (fpa_ownerID a) (fpa_versionID a) (fpa_manifestLevel a))
    = fresh_policy (fs_db s) (ot v) (oid v) (man v)"
proof -
  note a = buildFetchPolicy_level [OF assms(2)]
  have now: "fs_db s \<in> fs_past s" using fetch_reachable_rows [OF assms(1)] by blast
  have read: "snd (resolve_loaded (fs_cache s) org ws v (fpa_manifestLevel a)) = Effective (read_levels org ws (ot v) (fpa_manifestLevel a))"
    if "loadOrgSettings (fs_db s) = Some org" "(if ot v = OwnerTypeWorkspace then loadWorkspaceSettings (fs_db s) (oid v) else Some no_workspace) = Some ws" for org ws
    using that now a by (intro resolve_loaded_reachable [OF assms(1)]) (auto simp: settings_read_def split: if_splits)
  show ?thesis
    using read a by (auto simp: resolveFetch_def fresh_policy_def fetch_levels_def read_levels_def split: option.splits if_splits)
qed

text \<open>
  C31. The policy cache is transparent. Take any history in which the halves of settings updates (the
  management API's patches of the organization and of workspaces, the first login's switch to open mode), creation and
  deletion of workspaces, other operations, and the reads and cache accesses of outbound fetches of any
  versions interleave in any way, except that two updates of the same settings row do not overlap; when they do, an
  entry can go stale, as the last lemma of this section shows. Then the policy a fetch of a version gets when it reads the settings now is the one
  computed afresh from the organization's, the owning workspace's and the manifest's levels, and the deny policy if
  settings cannot be read; and a fetch that read the organization's and the workspace's settings at two earlier moments
  gets the policy of exactly the settings it read, whatever the cache holds by then.
\<close>

theorem fetch_cache_transparent:
  assumes "fetch_reachable ot oid man s" and "buildFetchPolicy (man v) (ot v) (oid v) v = Inr a"
  shows "snd (resolveFetch (fs_cache s) (fs_db s) (fpa_ownerType a) (fpa_ownerID a) (fpa_versionID a) (fpa_manifestLevel a))
      = fresh_policy (fs_db s) (ot v) (oid v) (man v)
    \<and> (settings_read ot oid (fs_past s) v org ws \<longrightarrow>
         Some (snd (resolve_loaded (fs_cache s) org ws (fpa_versionID a) (fpa_manifestLevel a)))
         = map_option (\<lambda>lvl. Effective (if ot v = OwnerTypeWorkspace then [os_fetch org, os_fetch ws, lvl] else [os_fetch org, lvl]))
             (stored_level (man v)))"
  using resolve_reachable [OF assms] buildFetchPolicy_level [OF assms(2)] resolve_loaded_reachable [OF assms(1), of v]
  by (simp add: read_levels_def)

text \<open>A concrete history: one fetch fills the cache, an update opens the organization up, and the next fetch is let through.\<close>

definition fetch_adapter :: fetchPolicyAdapter where
  "fetch_adapter = (case buildFetchPolicy fetch_manifest OwnerTypeUser ''u1'' ''v1'' of Inr a \<Rightarrow> a)"

lemma fetch_adapter_built: "buildFetchPolicy fetch_manifest OwnerTypeUser ''u1'' ''v1'' = Inr fetch_adapter"
  by code_simp

definition fetch_json :: api_json where
  "fetch_json = api_json_example\<lparr>aj_org := (\<lambda>mode. Some (empty_org_doc\<lparr>od_fetch_policy := Some \<lparr>fd_mode = Some mode, fd_allow = Some [''evil.example'']\<rparr>\<rparr>))\<rparr>"

text \<open>The row an update with the given mode writes after it read the settings of \<open>fetch_db\<close>.\<close>

definition opened_org :: "string \<Rightarrow> Organization" where
  "opened_org mode = (case merged_org fetch_json fetch_db admin_example mode of Inr (_, o', _) \<Rightarrow> o')"

lemma opened_org_merged:
  "\<exists>cur just. merged_org fetch_json fetch_db admin_example ''allowlist'' = Inr (cur, opened_org ''allowlist'', just)"
proof -
  have "is_ok (merged_org fetch_json fetch_db admin_example ''allowlist'')" by code_simp
  then show ?thesis by (auto simp: opened_org_def is_ok_def split: sum.splits)
qed

definition fetch_s0 :: fetch_state where
  "fetch_s0 = \<lparr>fs_db = fetch_db, fs_cache = newEffectiveCache, fs_past = {fetch_db}, fs_org = None, fs_spaces = (\<lambda>_. None)\<rparr>"

definition fetch_s1 :: fetch_state where
  "fetch_s1 = fetch_s0\<lparr>fs_cache := fst (resolve_loaded newEffectiveCache (the (loadOrgSettings fetch_db)) no_workspace ''v1'' (fpa_manifestLevel fetch_adapter))\<rparr>"

definition fetch_s2 :: fetch_state where
  "fetch_s2 = observe fetch_s1 (fst (org_Update fetch_db 5 (opened_org ''allowlist'')))"

lemma fetch_s0_reachable: "fetch_reachable ot oid man fetch_s0"
  unfolding fetch_s0_def by (rule fetch_reachable.start)

lemma fetch_s2_reachable: "fetch_reachable (\<lambda>_. OwnerTypeUser) (\<lambda>_. ''u1'') (\<lambda>_. fetch_manifest) fetch_s2"
proof -
  have "is_ok (case loadOrgSettings fetch_db of None \<Rightarrow> Inl () | Some x \<Rightarrow> Inr x)" by code_simp
  then have "settings_read (\<lambda>_. OwnerTypeUser) (\<lambda>_. ''u1'') (fs_past fetch_s0) ''v1'' (the (loadOrgSettings fetch_db)) no_workspace"
    by (auto simp: settings_read_def fetch_s0_def is_ok_def split: option.splits)
  from fetch_reachable.step [OF fetch_s0_reachable fetch_step.fetch [OF this fetch_adapter_built]]
  have s1: "fetch_reachable (\<lambda>_. OwnerTypeUser) (\<lambda>_. ''u1'') (\<lambda>_. fetch_manifest) fetch_s1"
    using buildFetchPolicy_level [OF fetch_adapter_built] by (simp add: fetch_s1_def fetch_s0_def)
  have same: "fetch_s1\<lparr>fs_org := None\<rparr> = fetch_s1" by (simp add: fetch_s1_def fetch_s0_def)
  have s1_simps: "fs_db fetch_s1 = fetch_db" "fs_org fetch_s1 = None" by (simp_all add: fetch_s1_def fetch_s0_def)
  obtain cur just where "merged_org fetch_json (fs_db fetch_s1) admin_example ''allowlist'' = Inr (cur, opened_org ''allowlist'', just)"
    using opened_org_merged s1_simps by auto
  note read = fetch_step.read_org [OF s1_simps(2) this]
  have "fs_org (fetch_s1\<lparr>fs_org := Some (opened_org ''allowlist'')\<rparr>) = Some (opened_org ''allowlist'')" by simp
  from fetch_reachable.step [OF fetch_reachable.step [OF s1 read] fetch_step.write_org [OF this, where now = 5]] show ?thesis
    using s1_simps same by (simp add: fetch_s2_def)
qed

theorem fetch_cache_transparent_witness:
  "Decision (snd (resolveFetch (fs_cache fetch_s2) (fs_db fetch_s2) (fpa_ownerType fetch_adapter) (fpa_ownerID fetch_adapter)
     (fpa_versionID fetch_adapter) (fpa_manifestLevel fetch_adapter))) ''evil.example'' 443"
proof -
  have "Decision (fresh_policy (fst (org_Update fetch_db 5 (opened_org ''allowlist''))) OwnerTypeUser ''u1'' fetch_manifest) ''evil.example'' 443"
    by code_simp
  then have "Decision (fresh_policy (fs_db fetch_s2) OwnerTypeUser ''u1'' fetch_manifest) ''evil.example'' 443"
    by (simp add: fetch_s2_def)
  then show ?thesis using fetch_cache_transparent [OF fetch_s2_reachable fetch_adapter_built] by simp
qed

text \<open>
  The generation is read and written back in two steps without a check. When two updates
  both read generation 1, both write generation 2; a fetch between the two writes caches the
  first update's policy under that generation, and the second update has no effect on the
  version until the settings change again.
\<close>

lemma interleaved_updates_go_stale:
  "let db1 = fst (org_Update fetch_db 5 (opened_org ''allow-all''));
       c1 = fst (resolveFetch newEffectiveCache db1 OwnerTypeUser ''u1'' ''v1'' (fpa_manifestLevel fetch_adapter));
       db2 = fst (org_Update db1 6 (opened_org ''deny'')) in
   \<not> Decision (fresh_policy db2 OwnerTypeUser ''u1'' fetch_manifest) ''evil.example'' 443
   \<and> Decision (snd (resolveFetch c1 db2 OwnerTypeUser ''u1'' ''v1'' (fpa_manifestLevel fetch_adapter))) ''evil.example'' 443"
  by code_simp

section \<open>What a dial may reach\<close>

lemma Decision_fresh:
  "Decision (fresh_policy db ot oid f) host port \<longleftrightarrow>
     (\<exists>ls. fetch_levels db ot oid f = Some ls \<and> list_all (\<lambda>l. level_permits l host port) ls)"
proof (cases "fetch_levels db ot oid f")
  case None
  then show ?thesis by (simp add: fresh_policy_def deny_policy_def Decision_levels level_permits_def)
next
  case (Some ls)
  then have "ls \<noteq> []" by (auto simp: fetch_levels_def split: option.splits if_splits)
  then show ?thesis using Some by (simp add: fresh_policy_def Decision_levels)
qed

text \<open>An entry of the manifest's list that is an address, with a port or without one.\<close>

definition listed_literally :: "NormalizedFetch \<Rightarrow> ip \<Rightarrow> bool" where
  "listed_literally f a \<longleftrightarrow>
     (\<exists>entry \<in> set (nf_Allow f). (case split_host_port entry of Inr (h, _) \<Rightarrow> parse_ip h | Inl _ \<Rightarrow> parse_ip entry) = Some a)"

lemma literal_entries:
  "map_result ParsePattern entries = Inr ps \<Longrightarrow>
     (\<exists>p \<in> set ps. patternLiteralIP p = Some a)
     \<longleftrightarrow> (\<exists>entry \<in> set entries. (case split_host_port entry of Inr (h, _) \<Rightarrow> parse_ip h | Inl _ \<Rightarrow> parse_ip entry) = Some a)"
proof (induction entries arbitrary: ps)
  case (Cons e es)
  then obtain p qs where "ps = p # qs" "ParsePattern e = Inr p" "map_result ParsePattern es = Inr qs" by (auto split: sum.splits)
  moreover from this(2) have "patternLiteralIP p = (case split_host_port e of Inr (h, _) \<Rightarrow> parse_ip h | Inl _ \<Rightarrow> parse_ip e)"
    using ParsePattern_Inr(1) by (simp add: patternLiteralIP_def Let_def)
  ultimately show ?case using Cons.IH [of qs] by simp
qed simp

lemma literal_addresses:
  assumes "buildFetchPolicy f t i v = Inr ad"
  shows "a \<in> set (fpa_literalIPs ad) \<longleftrightarrow> listed_literally f a"
proof -
  obtain mode ps where "map_result ParsePattern (nf_Allow f) = Inr ps" "fpa_literalIPs ad = List.map_filter patternLiteralIP ps"
    using assms by (auto simp: buildFetchPolicy_def newFetchPolicyAdapter_def split: sum.splits)
  then show ?thesis using literal_entries [of "nf_Allow f" ps a]
    by (force simp: listed_literally_def List.map_filter_def)
qed

text \<open>
  C7. What a running function may dial. Let a version's fetch hooks be built from the fetch section of its manifest. At any
  moment of any history of C31's kind (updates of one settings row do not overlap), a connection to an address goes out exactly when the
  organization's current level, the workspace's if one owns the function, and the manifest's level (its mode and its list, parsed) all permit the name dialled
  (the address itself if there is none) and the port, and the address itself parses and is
  either not one of the guarded ones or an entry of the manifest's list. Every name that
  may be dialled may be resolved. Unreadable settings refuse everything.
\<close>

theorem dial_policy:
  assumes "fetch_reachable ot oid man s" and "buildFetchPolicy (man v) (ot v) (oid v) v = Inr a"
  shows "(DialHook (Some (adapter_hooks (fs_cache s) (fs_db s) a)) nw host ip port \<longleftrightarrow>
      (\<exists>ls. fetch_levels (fs_db s) (ot v) (oid v) (man v) = Some ls
         \<and> list_all (\<lambda>l. level_permits l (if host = [] then ip else host) port) ls)
      \<and> (\<exists>parsed. parse_ip ip = Some parsed \<and> (\<not> BlockedIP (Some parsed) \<or> listed_literally (man v) parsed)))
    \<and> (host \<noteq> [] \<and> DialHook (Some (adapter_hooks (fs_cache s) (fs_db s) a)) nw host ip port
      \<longrightarrow> ResolveHook (Some (adapter_hooks (fs_cache s) (fs_db s) a)) host)"
    (is "(?dial \<longleftrightarrow> ?levels \<and> ?addr) \<and> _")
proof (rule conjI)
  show "host \<noteq> [] \<and> DialHook (Some (adapter_hooks (fs_cache s) (fs_db s) a)) nw host ip port
      \<longrightarrow> ResolveHook (Some (adapter_hooks (fs_cache s) (fs_db s) a)) host"
    using adapter.dial_resolves [where c = "fs_cache s" and db = "fs_db s" and a = a] unfolding adapter_hooks_eta by blast
  have "?dial \<longleftrightarrow> AllowHost (adapter_hooks (fs_cache s) (fs_db s) a) (if host = [] then ip else host) port \<and> AllowIP (adapter_hooks (fs_cache s) (fs_db s) a) ip"
    using adapter.dial_guarded [where c = "fs_cache s" and db = "fs_db s" and a = a] unfolding adapter_hooks_eta by blast
  also have "AllowIP (adapter_hooks (fs_cache s) (fs_db s) a) ip \<longleftrightarrow> ?addr"
    by (auto simp: adapter_hooks_def adapter_AllowIP_def Let_def literal_addresses [OF assms(2)] split: option.split)
  also have "AllowHost (adapter_hooks (fs_cache s) (fs_db s) a) h port \<longleftrightarrow>
      Decision (fresh_policy (fs_db s) (ot v) (oid v) (man v)) h port" for h
    using resolve_reachable [OF assms] by (simp add: adapter_hooks_def adapter_AllowHost_def Let_def case_prod_beta)
  finally show "?dial \<longleftrightarrow> ?levels \<and> ?addr" by (simp only: Decision_fresh)
qed

theorem dial_policy_witness:
  "\<not> DialHook (Some (adapter_hooks (fs_cache fetch_s0) (fs_db fetch_s0) fetch_adapter)) ''tcp'' ''evil.example'' ''93.184.216.34'' 443"
proof -
  have "DialHook (Some (adapter_hooks (fs_cache fetch_s0) (fs_db fetch_s0) fetch_adapter)) ''tcp'' ''evil.example'' ''93.184.216.34'' 443 \<longrightarrow>
      (\<exists>ls. fetch_levels fetch_db OwnerTypeUser ''u1'' fetch_manifest = Some ls
         \<and> list_all (\<lambda>l. level_permits l ''evil.example'' 443) ls)"
    using dial_policy [OF fetch_s0_reachable fetch_adapter_built, of "''tcp''" "''evil.example''" "''93.184.216.34''" 443]
    by (simp add: fetch_s0_def)
  moreover have "\<not> list_all (\<lambda>l. level_permits l ''evil.example'' 443) (the (fetch_levels fetch_db OwnerTypeUser ''u1'' fetch_manifest))"
    by code_simp
  ultimately show ?thesis by force
qed

text \<open>
  The guard on addresses can be switched off by the manifest alone. The organization
  permits one name and not the loopback address; a manifest that lists that name and
  the loopback address makes the dial of the name to the loopback address go out.
\<close>

lemma literal_address_bypass:
  "let hooks = adapter_hooks newEffectiveCache (fst (org_Update fetch_db 5 (opened_org ''allowlist''))) fetch_adapter in
   DialHook (Some hooks) ''tcp'' ''evil.example'' ''127.0.0.1'' 80 \<and> \<not> DialHook (Some hooks) ''tcp'' [] ''127.0.0.1'' 80
   \<and> BlockedIP (parse_ip ''127.0.0.1'')"
  by code_simp

end
