(* ===== verification/GC.thy ===== *)
theory GC
  imports Service
begin

text \<open>
  Garbage collection of bundles (server/cmd/funcbox-server/gc.go): scan the versions of every
  function for the bundle keys they refer to, list the stored bundles, delete those no
  version refers to. The three phases are separate definitions, because a live server may
  deploy between them.
\<close>

section \<open>The command (gc.go)\<close>

definition referencedBundleKeys :: "DB \<Rightarrow> string list" where
  "referencedBundleKeys db =
     concat (map (\<lambda>fn. map (\<lambda>v. BundleBlobKey (fv_BundleHash v)) (functions_ListVersions db (fn_ID fn) 0))
       (functions_ListAll db))"

definition gc_unreferenced :: "string \<Rightarrow> string list \<Rightarrow> 'c fs_files \<Rightarrow> string list" where
  "gc_unreferenced root referenced fs =
     sort (filter (\<lambda>key. key \<notin> set referenced) (fs_List root fs ''bundles/sha256/''))"

definition gc_delete :: "string \<Rightarrow> 'c fs_files \<Rightarrow> string list \<Rightarrow> 'c fs_files" where
  "gc_delete root fs keys = foldl (\<lambda>fs k. case fs_Delete root fs k of Inl _ \<Rightarrow> fs | Inr fs' \<Rightarrow> fs') fs keys"

definition gc_failed :: "string \<Rightarrow> 'c fs_files \<Rightarrow> string list \<Rightarrow> nat" where
  "gc_failed root fs keys = length (filter (\<lambda>k. \<not> is_ok (fs_Delete root fs k)) keys)"

definition runGC :: "string \<Rightarrow> bool \<Rightarrow> DB \<Rightarrow> 'c fs_files \<Rightarrow> 'c fs_files \<times> (nat + string list)" where
  "runGC root do_apply db fs =
     (let unreferenced = gc_unreferenced root (referencedBundleKeys db) fs in
      if unreferenced = [] then (fs, Inr [])
      else if \<not> do_apply then (fs, Inr unreferenced)
      else (gc_delete root fs unreferenced,
            if gc_failed root fs unreferenced > 0 then Inl (gc_failed root fs unreferenced) else Inr unreferenced))"

section \<open>Nothing referenced is collected\<close>

lemma referenced_iff:
  assumes "db_ok db"
  shows "k \<in> set (referencedBundleKeys db) \<longleftrightarrow> (\<exists>v \<in> set (db_versions db). k = BundleBlobKey (fv_BundleHash v))"
proof -
  have f: "\<exists>f \<in> set (db_functions db). fn_ID f = fv_FunctionID v" if "v \<in> set (db_versions db)" for v
    using assms that by (force simp: db_ok_defs refs_def)
  show ?thesis
    by (auto simp: referencedBundleKeys_def functions_ListAll_def functions_ListVersions_def Let_def)
      (use f in force)
qed

lemma gc_delete_get:
  "k \<notin> set keys \<Longrightarrow> fs_Get root (gc_delete root fs keys) k = fs_Get root fs k"
  unfolding gc_delete_def by (rule fs.delete_many)

lemma gc_delete_gone:
  "k \<in> set keys \<Longrightarrow> ValidateKey k = Inr () \<Longrightarrow> fs_Get root (gc_delete root fs keys) k = Inl ErrNotExist"
proof (induction keys arbitrary: fs)
  case (Cons k' keys)
  have step: "gc_delete root fs (k' # keys) = gc_delete root (case fs_Delete root fs k' of Inl _ \<Rightarrow> fs | Inr fs' \<Rightarrow> fs') keys"
    by (simp add: gc_delete_def)
  show ?case
  proof (cases "k \<in> set keys")
    case False
    with Cons.prems have "k' = k" by simp
    obtain fs' where d: "fs_Delete root fs k = Inr fs'"
      using Cons.prems(2) by (simp add: fs_Delete_def fs_path_below)
    show ?thesis using gc_delete_get [OF False, of root fs'] fs.delete_get [OF d] step d \<open>k' = k\<close> by simp
  qed (use Cons.IH Cons.prems step in simp)
qed simp

lemma listed:
  assumes "fs_Get root fs k = Inr c" "prefix pre k" "\<not> prefix ''.tmp-'' (base_name (under_root root @ k))"
  shows "k \<in> set (fs_List root fs pre)"
proof -
  have v: "ValidateKey k = Inr ()" using assms(1) by (auto simp: fs_Get_def fs_path_def split: sum.splits)
  with assms(1) have "map_of fs (under_root root @ k) = Some c"
    by (simp add: fs_Get_def fs_path_below split: option.splits)
  then have "under_root root @ k \<in> set (map fst fs)" by (force dest: map_of_SomeD)
  with assms(2,3) show ?thesis
    by (auto simp: fs_List_def image_iff intro!: exI [of _ "under_root root @ k"])
qed

text \<open>
  The condition under which collection is safe while the server runs: every bundle a
  version refers to was already referred to when the store was scanned, or was not stored
  yet when the bundles were listed.
\<close>

lemma gc_live_safe:
  assumes "\<And>v. v \<in> set (db_versions db') \<Longrightarrow> BundleBlobKey (fv_BundleHash v) \<in> set (referencedBundleKeys db)
      \<or> BundleBlobKey (fv_BundleHash v) \<notin> set (fs_List root fs ''bundles/sha256/'')"
    and "v \<in> set (db_versions db')"
  shows "fs_Get root (gc_delete root fs' (gc_unreferenced root (referencedBundleKeys db) fs)) (BundleBlobKey (fv_BundleHash v))
    = fs_Get root fs' (BundleBlobKey (fv_BundleHash v))"
  using assms by (intro gc_delete_get) (auto simp: gc_unreferenced_def)


definition gc_files :: "archive fs_files" where
  "gc_files = [(''/data/bundles/sha256/h.tar.gz'', BadGzip), (''/data/bundles/sha256/00.tar.gz'', BadGzip)]"


text \<open>
  Collecting on a live server can lose a bundle: a deploy stores its bundle before it
  creates the version that refers to it, so a scan of the store between the two, followed
  by the listing, finds the bundle unreferenced. The deploy then succeeds, and its active
  version has no bundle.
\<close>

lemma gc_race:
  "case deploy_commit deploy_crypto deploy_env_example 9 ''f1'' ''v1'' deploy_request user_example deploy_plan_example
      (deploy_packed, OwnerTypeUser, ''u1'')
      (deploy_stored\<lparr>sv_blobs := fst (runGC ''/data'' True (sv_db deploy_stored) (sv_blobs deploy_stored))\<rparr>) of
    (st', r) \<Rightarrow> is_ok r \<and> map fv_BundleHash (db_versions (sv_db st')) = [''7a'']
      \<and> fs_Get ''/data'' (sv_blobs st') (BundleBlobKey ''7a'') = Inl ErrNotExist"
  by code_simp

end
