(* ===== verification/Config.thy ===== *)
theory Config
  imports GoURL Manifest
begin

text \<open>
  Package config (server/internal/config/config.go): the process configuration read from
  the environment. The environment is a function from a variable's name to its value if it
  is set. \<^verbatim>\<open>time.ParseDuration\<close> and the table of public suffixes
  (golang.org/x/net/publicsuffix) are parameters. \<^verbatim>\<open>strings.EqualFold\<close> and
  \<^verbatim>\<open>strings.ToLower\<close> fold ASCII letters.

  The origins are normalized: a stored origin parses, has the scheme http or https and a
  host in lower case. A domain of managed functions is a DNS name in lower case. Hosting is
  accepted only if the control host is no managed function host but
  \<^verbatim>\<open>dashboard\<close>, and the URL of a managed function carries the authority the router
  maps back to the function's name (theory Routing).
\<close>

section \<open>Configuration\<close>

record Config =
  cf_Addr :: string
  cf_BaseURL :: string
  cf_ControlURL :: string
  cf_FunctionDomain :: string
  cf_LandingURL :: string
  cf_OriginProfile :: string
  cf_DB :: string
  cf_Blob :: string
  cf_InvokeTimeout :: int
  cf_PoolMaxFunctions :: int
  cf_AuthMode :: string
  cf_AuthProvider :: string
  cf_GoogleClientID :: string
  cf_GoogleClientSecret :: string
  cf_GitHubClientID :: string
  cf_GitHubClientSecret :: string
  cf_SessionSecret :: string
  cf_DashboardDistDir :: string
  cf_OpenMode :: bool

text \<open>\<open>NilURL\<close> stands for the panic on the nil URL of a failed parse whose error is dropped.\<close>

datatype config_error =
  EmptyAddr | URLMismatch | NotAnOrigin string string | BadScheme string string | NoHostname string string
  | BadDNSName string string | BadLabel string string | BadProfile string | HostingPair | ControlCollision string | LandingIsControl
  | NeedsHTTPS | NotRegistrable | NotSameSite | NotCrossSite | BadTimeout string | TimeoutNotPositive string
  | BadPoolMax string | NegativePoolMax string | BadAuthMode string | BadAuthProvider string
  | NoFunctionDomain | BadFunctionName string | NilURL

definition DefaultAddr :: string where
  "DefaultAddr = '':8080''"

definition DefaultInvokeTimeout :: int where
  "DefaultInvokeTimeout = 30 * 10 ^ 9"

definition DefaultPoolMaxFunctions :: int where
  "DefaultPoolMaxFunctions = 10"

type_synonym environ = "string \<Rightarrow> string option"

definition Getenv :: "environ \<Rightarrow> string \<Rightarrow> string" where
  "Getenv env name = (case env name of None \<Rightarrow> [] | Some v \<Rightarrow> v)"

section \<open>Origins and names\<close>

definition parseOrigin :: "string \<Rightarrow> string \<Rightarrow> bool \<Rightarrow> config_error + string" where
  "parseOrigin name raw allowHTTP =
     (case url_Parse raw of
        None \<Rightarrow> Inl (NotAnOrigin name raw)
      | Some u \<Rightarrow>
          if url_Scheme u = [] \<or> url_Host u = [] \<or> url_HasUser u \<or> url_Path u \<noteq> [] \<or> url_RawQuery u \<noteq> [] \<or> url_Fragment u \<noteq> []
          then Inl (NotAnOrigin name raw)
          else if url_Scheme u \<noteq> ''https'' \<and> \<not> (allowHTTP \<and> url_Scheme u = ''http'') then Inl (BadScheme name raw)
          else if url_Hostname u = [] then Inl (NoHostname name raw)
          else Inr (trim_suffix (origin_String (u\<lparr>url_Host := to_lower (url_Host u)\<rparr>)) ''/''))"

definition dns_char :: "char \<Rightarrow> bool" where
  "dns_char c = (is_lower c \<or> is_digit c \<or> c = CHR ''-'')"

definition dns_label :: "string \<Rightarrow> bool" where
  "dns_label label =
     (label \<noteq> [] \<and> length label \<le> 63 \<and> hd label \<noteq> CHR ''-'' \<and> last label \<noteq> CHR ''-'' \<and> list_all dns_char label)"

definition parseDNSName :: "string \<Rightarrow> string \<Rightarrow> config_error + string" where
  "parseDNSName name raw =
     (let domain = to_lower (trim_suffix raw ''.'') in
      if domain = [] \<or> list_ex (\<lambda>c. c \<in> {CHR ''/'', CHR '':'', CHR ''@'', CHR ''['', CHR '']'', CHR '' '', CHR 0x5C, CHR 0x09, CHR 0x0D, CHR 0x0A}) raw
         \<or> parse_ip domain \<noteq> None \<or> length domain > 253
      then Inl (BadDNSName name raw)
      else if list_all dns_label (split_on (CHR ''.'') domain) then Inr domain
      else Inl (BadLabel name raw))"

definition validateHosting :: "(string \<Rightarrow> string option) \<Rightarrow> Config \<Rightarrow> config_error + unit" where
  "validateHosting etld1 cfg =
     (if cf_ControlURL cfg = [] \<and> cf_FunctionDomain cfg = [] \<and> cf_LandingURL cfg = [] then Inr ()
      else if cf_ControlURL cfg = [] \<or> cf_FunctionDomain cfg = [] then Inl HostingPair
      else case url_Parse (cf_ControlURL cfg) of
        None \<Rightarrow> Inl NilURL
      | Some control \<Rightarrow>
          (let host = url_Hostname control; domain = cf_FunctionDomain cfg;
               label = trim_suffix (to_lower host) (''.'' @ domain) in
           if (to_lower host = to_lower domain
               \<or> suffix (''.'' @ domain) (to_lower host) \<and> count_list host (CHR ''.'') = count_list domain (CHR ''.'') + 1)
              \<and> label \<noteq> ''dashboard''
           then Inl (ControlCollision host)
           else case (if cf_LandingURL cfg = [] then Inr ()
                      else case url_Parse (cf_LandingURL cfg) of
                        None \<Rightarrow> Inl NilURL
                      | Some landing \<Rightarrow>
                          if to_lower (url_Host landing) = to_lower (url_Host control) then Inl LandingIsControl else Inr ()) of
             Inl e \<Rightarrow> Inl e
           | Inr _ \<Rightarrow>
               if cf_OriginProfile cfg = ''development'' then Inr ()
               else if url_Scheme control \<noteq> ''https'' then Inl NeedsHTTPS
               else case (etld1 host, etld1 domain) of
                 (Some controlSite, Some functionSite) \<Rightarrow>
                   (let sameSite = to_lower controlSite = to_lower functionSite in
                    if cf_OriginProfile cfg = ''same-site'' \<and> \<not> sameSite then Inl NotSameSite
                    else if cf_OriginProfile cfg = ''cross-site'' \<and> sameSite then Inl NotCrossSite
                    else Inr ())
               | _ \<Rightarrow> Inl NotRegistrable))"

section \<open>Managed function URLs\<close>

definition controlPort :: "Config \<Rightarrow> string" where
  "controlPort cfg =
     (case url_Parse (cf_ControlURL cfg) of
        None \<Rightarrow> []
      | Some control \<Rightarrow> if url_Port control \<noteq> [] then '':'' @ url_Port control else [])"

definition managed_scheme :: "Config \<Rightarrow> string" where
  "managed_scheme cfg =
     (if cf_OriginProfile cfg = ''development''
         \<and> (case url_Parse (cf_ControlURL cfg) of None \<Rightarrow> False | Some control \<Rightarrow> url_Scheme control = ''http'')
      then ''http'' else ''https'')"

definition rooted_path :: "string \<Rightarrow> string" where
  "rooted_path requestPath = (if requestPath = [] then ''/'' else if \<not> prefix ''/'' requestPath then ''/'' @ requestPath else requestPath)"

definition ManagedFunctionURL :: "Config \<Rightarrow> string \<Rightarrow> string \<Rightarrow> config_error + string" where
  "ManagedFunctionURL cfg name requestPath =
     (if cf_FunctionDomain cfg = [] then Inl NoFunctionDomain
      else if \<not> is_ok (parseDNSName ''function name'' name) \<or> CHR ''.'' \<in> set name then Inl (BadFunctionName name)
      else Inr (managed_scheme cfg @ ''://'' @ to_lower name @ ''.'' @ cf_FunctionDomain cfg @ controlPort cfg @ rooted_path requestPath))"

section \<open>FromEnv\<close>

definition env_urls :: "environ \<Rightarrow> Config \<Rightarrow> config_error + Config" where
  "env_urls env cfg =
     (let baseURL = Getenv env ''FUNCBOX_BASE_URL''; controlURL = Getenv env ''FUNCBOX_CONTROL_URL'' in
      if controlURL \<noteq> [] \<and> baseURL \<noteq> [] \<and> baseURL \<noteq> controlURL then Inl URLMismatch
      else if controlURL \<noteq> [] then
        (case parseOrigin ''FUNCBOX_CONTROL_URL'' controlURL True of
           Inl e \<Rightarrow> Inl e
         | Inr normalized \<Rightarrow> Inr (cfg\<lparr>cf_ControlURL := normalized, cf_BaseURL := normalized\<rparr>))
      else if baseURL \<noteq> [] then
        (case parseOrigin ''FUNCBOX_BASE_URL'' baseURL True of
           Inl e \<Rightarrow> Inl e
         | Inr normalized \<Rightarrow> Inr (cfg\<lparr>cf_BaseURL := normalized\<rparr>))
      else Inr cfg)"

definition env_domain :: "environ \<Rightarrow> Config \<Rightarrow> config_error + Config" where
  "env_domain env cfg =
     (let v = Getenv env ''FUNCBOX_FUNCTION_DOMAIN'' in
      if v = [] then Inr cfg
      else case parseDNSName ''FUNCBOX_FUNCTION_DOMAIN'' v of
        Inl e \<Rightarrow> Inl e | Inr domain \<Rightarrow> Inr (cfg\<lparr>cf_FunctionDomain := domain\<rparr>))"

definition env_landing :: "environ \<Rightarrow> Config \<Rightarrow> config_error + Config" where
  "env_landing env cfg =
     (let v = Getenv env ''FUNCBOX_LANDING_URL'' in
      if v = [] then Inr cfg
      else case parseOrigin ''FUNCBOX_LANDING_URL'' v True of
        Inl e \<Rightarrow> Inl e | Inr normalized \<Rightarrow> Inr (cfg\<lparr>cf_LandingURL := normalized\<rparr>))"

definition originProfiles :: "string list" where
  "originProfiles = [''same-site'', ''cross-site'', ''development'']"

definition env_profile :: "environ \<Rightarrow> string" where
  "env_profile env = (let v = Getenv env ''FUNCBOX_ORIGIN_PROFILE'' in if v = [] then ''same-site'' else v)"

definition env_hosting :: "(string \<Rightarrow> string option) \<Rightarrow> environ \<Rightarrow> Config \<Rightarrow> config_error + Config" where
  "env_hosting etld1 env cfg =
     (case env_domain env cfg of
        Inl e \<Rightarrow> Inl e
      | Inr cfg1 \<Rightarrow>
          (case env_landing env cfg1 of
             Inl e \<Rightarrow> Inl e
           | Inr cfg2 \<Rightarrow>
               (let cfg3 = cfg2\<lparr>cf_OriginProfile := env_profile env\<rparr> in
                if env_profile env \<notin> set originProfiles then Inl (BadProfile (env_profile env))
                else case validateHosting etld1 cfg3 of Inl e \<Rightarrow> Inl e | Inr _ \<Rightarrow> Inr cfg3)))"

definition env_limits :: "(string \<Rightarrow> int option) \<Rightarrow> environ \<Rightarrow> Config \<Rightarrow> config_error + Config" where
  "env_limits parse_duration env cfg =
     (case (let v = Getenv env ''FUNCBOX_INVOKE_TIMEOUT'' in
            if v = [] then Inr cfg
            else case parse_duration v of
              None \<Rightarrow> Inl (BadTimeout v)
            | Some d \<Rightarrow> if d \<le> 0 then Inl (TimeoutNotPositive v) else Inr (cfg\<lparr>cf_InvokeTimeout := d\<rparr>)) of
        Inl e \<Rightarrow> Inl e
      | Inr cfg1 \<Rightarrow>
          (let v = Getenv env ''FUNCBOX_POOL_MAX_FUNCTIONS'' in
           if v = [] then Inr cfg1
           else case atoi v of
             None \<Rightarrow> Inl (BadPoolMax v)
           | Some n \<Rightarrow> if n < 0 then Inl (NegativePoolMax v) else Inr (cfg1\<lparr>cf_PoolMaxFunctions := n\<rparr>)))"

definition authModes :: "string list" where
  "authModes = [[], ''google'', ''dev'']"

definition authProviders :: "string list" where
  "authProviders = [[], ''google'', ''github'']"

definition env_auth :: "environ \<Rightarrow> Config \<Rightarrow> config_error + Config" where
  "env_auth env cfg =
     (let mode = Getenv env ''FUNCBOX_AUTH_MODE''; provider = Getenv env ''FUNCBOX_AUTH_PROVIDER'' in
      if mode \<notin> set authModes then Inl (BadAuthMode mode)
      else if provider \<notin> set authProviders then Inl (BadAuthProvider provider)
      else Inr (cfg\<lparr>cf_AuthMode := mode, cf_AuthProvider := provider,
        cf_GoogleClientID := Getenv env ''FUNCBOX_GOOGLE_CLIENT_ID'', cf_GoogleClientSecret := Getenv env ''FUNCBOX_GOOGLE_CLIENT_SECRET'',
        cf_GitHubClientID := Getenv env ''FUNCBOX_GITHUB_CLIENT_ID'', cf_GitHubClientSecret := Getenv env ''FUNCBOX_GITHUB_CLIENT_SECRET'',
        cf_SessionSecret := Getenv env ''FUNCBOX_SESSION_SECRET'', cf_DashboardDistDir := Getenv env ''FUNCBOX_DASHBOARD_DIST_DIR'',
        cf_OpenMode := (Getenv env ''FUNCBOX_OPEN_MODE'' = ''1'')\<rparr>))"

definition default_config :: Config where
  "default_config = \<lparr>cf_Addr = DefaultAddr, cf_BaseURL = [], cf_ControlURL = [], cf_FunctionDomain = [], cf_LandingURL = [],
     cf_OriginProfile = [], cf_DB = [], cf_Blob = [], cf_InvokeTimeout = DefaultInvokeTimeout,
     cf_PoolMaxFunctions = DefaultPoolMaxFunctions, cf_AuthMode = [], cf_AuthProvider = [], cf_GoogleClientID = [],
     cf_GoogleClientSecret = [], cf_GitHubClientID = [], cf_GitHubClientSecret = [], cf_SessionSecret = [],
     cf_DashboardDistDir = [], cf_OpenMode = False\<rparr>"

definition FromEnv :: "(string \<Rightarrow> string option) \<Rightarrow> (string \<Rightarrow> int option) \<Rightarrow> environ \<Rightarrow> config_error + Config" where
  "FromEnv etld1 parse_duration env =
     (case (case env ''FUNCBOX_ADDR'' of
              None \<Rightarrow> Inr default_config
            | Some v \<Rightarrow> if v = [] then Inl EmptyAddr else Inr (default_config\<lparr>cf_Addr := v\<rparr>)) of
        Inl e \<Rightarrow> Inl e
      | Inr c0 \<Rightarrow>
          (case env_urls env c0 of
             Inl e \<Rightarrow> Inl e
           | Inr c1 \<Rightarrow>
               (case env_hosting etld1 env c1 of
                  Inl e \<Rightarrow> Inl e
                | Inr c2 \<Rightarrow>
                    (case env_limits parse_duration env (c2\<lparr>cf_DB := Getenv env ''FUNCBOX_DB'', cf_Blob := Getenv env ''FUNCBOX_BLOB''\<rparr>) of
                       Inl e \<Rightarrow> Inl e
                     | Inr c3 \<Rightarrow> env_auth env c3))))"

section \<open>Lower case and labels\<close>

lemma trim_suffix_append [simp]: "trim_suffix (a @ s) s = a"
  by (simp add: trim_suffix_def suffix_def)

lemma trim_suffix_None: "\<not> suffix p s \<Longrightarrow> trim_suffix s p = s"
  by (simp add: trim_suffix_def)

lemma trim_suffix_set: "set (trim_suffix s p) \<subseteq> set s"
  by (auto simp: trim_suffix_def dest: in_set_takeD)

lemma lower_char_low: "of_char d < (65 :: nat) \<Longrightarrow> lower_char c = d \<longleftrightarrow> c = d"
proof (cases "is_upper c")
  case True
  assume d: "of_char d < (65 :: nat)"
  from True have u: "(65 :: nat) \<le> of_char c" "of_char c \<le> (90 :: nat)" by (auto simp: is_upper_def less_eq_char_def)
  then have "of_char (lower_char c) = (of_char c + 32 :: nat)" using True by (simp add: lower_char_def)
  with u d have "lower_char c \<noteq> d" "c \<noteq> d" by auto
  then show ?thesis by simp
qed (simp add: lower_char_def)

lemma lower_char_dot: "lower_char c = CHR ''.'' \<longleftrightarrow> c = CHR ''.''"
  by (rule lower_char_low) simp

lemma count_to_lower: "count_list (to_lower s) (CHR ''.'') = count_list s (CHR ''.'')"
  by (induction s) (simp_all add: to_lower_def lower_char_dot)

lemma dns_char_lower: "dns_char c \<Longrightarrow> lower_char c = c"
  by (auto simp: dns_char_def is_lower_def is_digit_def is_upper_def less_eq_char_def intro!: lower_char_id)

lemma dns_label_lower: "dns_label s \<Longrightarrow> to_lower s = s"
  by (auto simp: dns_label_def to_lower_def list_all_iff dns_char_lower intro: map_idI)

lemma dns_char_plain:
  "dns_char c \<Longrightarrow> c \<notin> {CHR ''/'', CHR '':'', CHR ''@'', CHR ''['', CHR '']'', CHR '' '', CHR 0x5C, CHR 0x09, CHR 0x0D, CHR 0x0A, CHR ''.'', CHR ''%''}"
  by (auto simp: dns_char_def is_lower_def is_digit_def less_eq_char_def)

lemma not_dns_char [simp]: "\<not> dns_char (CHR ''.'')" "\<not> dns_char (CHR '':'')" "\<not> dns_char (CHR ''['')" "\<not> dns_char (CHR '']'')"
  by (simp_all add: dns_char_def is_lower_def is_digit_def)

text \<open>A DNS name: labels joined by dots.\<close>

definition dns_name :: "string \<Rightarrow> bool" where
  "dns_name d = (d \<noteq> [] \<and> to_lower d = d \<and> last d \<noteq> CHR ''.'' \<and> (\<forall>c \<in> set d. dns_char c \<or> c = CHR ''.''))"

lemma split_on_covers: "x \<in> set s \<Longrightarrow> x \<noteq> c \<Longrightarrow> \<exists>p \<in> set (split_on c s). x \<in> set p"
  by (induction s) (auto split: list.splits)

lemma split_on_end: "split_on c (s @ [c]) = split_on c s @ [[]]"
  by (induction s) (auto split: list.splits)

lemma dns_labels_name:
  assumes "list_all dns_label (split_on (CHR ''.'') d)"
  shows "dns_name d"
proof -
  have all: "dns_char c" if "c \<in> set d" "c \<noteq> CHR ''.''" for c
    using split_on_covers [OF that] assms by (auto simp: list_all_iff dns_label_def)
  have nonempty: "[] \<notin> set (split_on (CHR ''.'') d)" using assms by (auto simp: list_all_iff dns_label_def)
  then have ne: "d \<noteq> []" by auto
  have "last d \<noteq> CHR ''.''"
  proof
    assume "last d = CHR ''.''"
    with ne have "d = butlast d @ [CHR ''.'']" by (metis append_butlast_last_id)
    then have "split_on (CHR ''.'') d = split_on (CHR ''.'') (butlast d) @ [[]]" by (metis split_on_end)
    with nonempty show False by simp
  qed
  moreover have "to_lower d = d"
    using all lower_char_dot dns_char_lower by (auto simp: to_lower_def intro!: map_idI)
  ultimately show ?thesis using ne all by (auto simp: dns_name_def)
qed

lemma parseDNSName_Inr: "parseDNSName n raw = Inr d \<Longrightarrow> dns_name d \<and> d = to_lower (trim_suffix raw ''.'')"
  by (auto simp: parseDNSName_def Let_def dns_labels_name split: if_splits)

section \<open>Accepted hosting\<close>

lemma validateHosting_cong:
  "cf_ControlURL c = cf_ControlURL c' \<Longrightarrow> cf_FunctionDomain c = cf_FunctionDomain c' \<Longrightarrow> cf_LandingURL c = cf_LandingURL c'
   \<Longrightarrow> cf_OriginProfile c = cf_OriginProfile c' \<Longrightarrow> validateHosting etld1 c = validateHosting etld1 c'"
  by (simp only: validateHosting_def)

lemma env_domain_Inr: "env_domain env c = Inr c' \<Longrightarrow> cf_FunctionDomain c' = cf_FunctionDomain c \<or> dns_name (cf_FunctionDomain c')"
  by (auto simp: env_domain_def Let_def dest: parseDNSName_Inr split: sum.splits if_splits)

lemma env_landing_Inr: "env_landing env c = Inr c' \<Longrightarrow> cf_FunctionDomain c' = cf_FunctionDomain c"
  by (auto simp: env_landing_def Let_def split: sum.splits if_splits)

lemma env_hosting_Inr:
  "env_hosting etld1 env c = Inr c' \<Longrightarrow> validateHosting etld1 c' = Inr ()
     \<and> (cf_FunctionDomain c' = cf_FunctionDomain c \<or> dns_name (cf_FunctionDomain c'))"
  by (auto simp: env_hosting_def Let_def dest!: env_domain_Inr env_landing_Inr split: sum.splits if_splits)

definition same_hosting :: "Config \<Rightarrow> Config \<Rightarrow> bool" where
  "same_hosting c c' = (cf_ControlURL c' = cf_ControlURL c \<and> cf_FunctionDomain c' = cf_FunctionDomain c
     \<and> cf_LandingURL c' = cf_LandingURL c \<and> cf_OriginProfile c' = cf_OriginProfile c)"

lemma env_limits_same: "env_limits pd env c = Inr c' \<Longrightarrow> same_hosting c c'"
  by (auto simp: env_limits_def same_hosting_def Let_def split: sum.splits option.splits if_splits)

lemma env_auth_same: "env_auth env c = Inr c' \<Longrightarrow> same_hosting c c'"
  by (auto simp: env_auth_def same_hosting_def Let_def split: if_splits)

lemma env_urls_domain: "env_urls env c = Inr c' \<Longrightarrow> cf_FunctionDomain c' = cf_FunctionDomain c"
  by (auto simp: env_urls_def Let_def split: sum.splits if_splits)

lemma FromEnv_hosting:
  assumes "FromEnv etld1 parse_duration env = Inr cfg"
  shows "validateHosting etld1 cfg = Inr ()" "cf_FunctionDomain cfg = [] \<or> dns_name (cf_FunctionDomain cfg)"
proof -
  obtain c1 c2 c3 where c: "env_hosting etld1 env c1 = Inr c2" "env_auth env c3 = Inr cfg" "cf_FunctionDomain c1 = []"
    "env_limits parse_duration env (c2\<lparr>cf_DB := Getenv env ''FUNCBOX_DB'', cf_Blob := Getenv env ''FUNCBOX_BLOB''\<rparr>) = Inr c3"
    using assms env_urls_domain by (force simp: FromEnv_def default_config_def split: sum.splits option.splits if_splits)
  have h: "validateHosting etld1 c2 = Inr ()" "cf_FunctionDomain c2 = [] \<or> dns_name (cf_FunctionDomain c2)"
    using env_hosting_Inr [OF c(1)] c(3) by auto
  have same: "cf_ControlURL cfg = cf_ControlURL c2" "cf_FunctionDomain cfg = cf_FunctionDomain c2"
    "cf_LandingURL cfg = cf_LandingURL c2" "cf_OriginProfile cfg = cf_OriginProfile c2"
    using env_limits_same [OF c(4)] env_auth_same [OF c(2)] by (simp_all add: same_hosting_def)
  show "validateHosting etld1 cfg = Inr ()" using h(1) validateHosting_cong [OF same] by simp
  show "cf_FunctionDomain cfg = [] \<or> dns_name (cf_FunctionDomain cfg)" using h(2) same by simp
qed

text \<open>The control host is not the host of a managed function, except for the label \<^verbatim>\<open>dashboard\<close>.\<close>

lemma validateHosting_separates:
  assumes ok: "validateHosting etld1 cfg = Inr ()" and ctl: "cf_ControlURL cfg \<noteq> []" and dom: "dns_name (cf_FunctionDomain cfg)"
  obtains control where "url_Parse (cf_ControlURL cfg) = Some control"
    "cf_LandingURL cfg = [] \<or> (\<exists>landing. url_Parse (cf_LandingURL cfg) = Some landing)"
    "\<And>name. to_lower (url_Hostname control) = name @ ''.'' @ cf_FunctionDomain cfg \<Longrightarrow> CHR ''.'' \<notin> set name \<Longrightarrow> name = ''dashboard''"
proof -
  obtain control where c: "url_Parse (cf_ControlURL cfg) = Some control"
    using ok ctl by (auto simp: validateHosting_def split: if_splits option.splits)
  have l: "cf_LandingURL cfg = [] \<or> (\<exists>landing. url_Parse (cf_LandingURL cfg) = Some landing)"
    using ok ctl by (auto simp: validateHosting_def c Let_def split: if_splits option.splits sum.splits)
  have "name = ''dashboard''" if host: "to_lower (url_Hostname control) = name @ ''.'' @ cf_FunctionDomain cfg" and nd: "CHR ''.'' \<notin> set name" for name
  proof (rule ccontr)
    assume "name \<noteq> ''dashboard''"
    moreover have "count_list (url_Hostname control) (CHR ''.'') = count_list (cf_FunctionDomain cfg) (CHR ''.'') + 1"
      using count_to_lower [of "url_Hostname control"] nd by (simp add: host count_notin)
    moreover have "suffix (''.'' @ cf_FunctionDomain cfg) (to_lower (url_Hostname control))" by (simp add: host suffix_def)
    ultimately show False
      using ok ctl dom by (auto simp: validateHosting_def c Let_def host dns_name_def trim_suffix_append [of name "''.'' @ cf_FunctionDomain cfg", simplified])
  qed
  with c l show thesis by (rule that)
qed

end
