(* ===== verification/Routing.thy ===== *)
theory Routing
  imports Config Prelude
begin

text \<open>
  Package server (server/internal/server): the router in front of every subsystem
  (routes.go) and the middleware around it (middleware.go). A request is dispatched to a
  destination: a handler of the control plane, an invocation of a function by path or by
  host, a redirect or an error page. The handlers themselves are modelled in their own
  theories; here a handler is present or absent.
\<close>

section \<open>Requests and destinations\<close>

text \<open>What the router reads of a request; \<open>wr_RequestURI\<close> is \<^verbatim>\<open>r.URL.RequestURI()\<close>.\<close>

record WebRequest =
  wr_Method :: string
  wr_Host :: string
  wr_Path :: string
  wr_RequestURI :: string

text \<open>A handler field is modelled by whether it is set; the gate is a function on requests.\<close>

record Deps =
  rd_API :: bool
  rd_Invoker :: bool
  rd_Auth :: bool
  rd_DevOIDC :: bool
  rd_Dashboard :: bool
  rd_Metrics :: bool
  rd_ControlURL :: string
  rd_FunctionDomain :: string
  rd_LandingURL :: string
  rd_MCP :: bool
  rd_OAuth :: bool
  rd_MCPGate :: "(WebRequest \<Rightarrow> bool) option"
  rd_BaseURL :: string

datatype control_handler = HAPI | HDashboard | HMetrics | HAuth | HDevOIDC | HMCP | HOAuth

text \<open>\<open>Panicked\<close> is the panic on the nil URL of a failed parse whose error is dropped.\<close>

datatype destination =
  Misdirected
  | NotFoundPage
  | NotImplemented string
  | RedirectTo nat string
  | Healthz
  | ToControl control_handler
  | InvokePath string string
  | InvokeHost string string
  | AuthCallback string string
  | Panicked
  | InternalServerError

type_synonym response = "(string \<times> string) list \<times> destination"

section \<open>Paths and hosts (routes.go)\<close>

definition pathSegments :: "string \<Rightarrow> string list" where
  "pathSegments path =
     (let trimmed = trim_char (CHR ''/'') path in if trimmed = [] then [] else split_on (CHR ''/'') trimmed)"

definition normalizedRequestHost :: "string \<Rightarrow> string option" where
  "normalizedRequestHost authority =
     (if authority = [] \<or> list_ex (\<lambda>c. c \<in> {CHR 0x5C, CHR ''/'', CHR ''@'', CHR '' '', CHR 0x09, CHR 0x0D, CHR 0x0A}) authority
      then None
      else
        case (case split_host_port authority of
                Inr (h, _) \<Rightarrow> Some h
              | Inl _ \<Rightarrow> if CHR '':'' \<in> set authority then None else Some authority) of
          None \<Rightarrow> None
        | Some h \<Rightarrow> (let host = to_lower (trim_suffix h ''.'') in if host = [] \<or> parse_ip host \<noteq> None then None else Some host))"

definition managedFunctionName :: "string \<Rightarrow> string \<Rightarrow> string option" where
  "managedFunctionName host domain =
     (let suf = ''.'' @ to_lower (trim_suffix domain ''.'') in
      if \<not> suffix suf host then None
      else let name = trim_suffix host suf in
        if name = [] \<or> CHR ''.'' \<in> set name \<or> length name > 63 \<or> hd name = CHR ''-'' \<or> last name = CHR ''-'' then None
        else if \<not> list_all dns_char name then None
        else Some name)"

definition mcpGateAllows :: "Deps \<Rightarrow> WebRequest \<Rightarrow> bool" where
  "mcpGateAllows deps r = (case rd_MCPGate deps of None \<Rightarrow> False | Some g \<Rightarrow> g r)"

definition reservedRoutes :: "string list" where
  "reservedRoutes = [''assets'']"

section \<open>The router (routes.go)\<close>

definition control_headers :: "(string \<times> string) list" where
  "control_headers = [(''Content-Security-Policy'', ''frame-ancestors '' @ [CHR 0x27] @ ''none'' @ [CHR 0x27]), (''X-Content-Type-Options'', ''nosniff'')]"

definition handler_or :: "bool \<Rightarrow> control_handler \<Rightarrow> string \<Rightarrow> destination" where
  "handler_or present h msg = (if present then ToControl h else NotImplemented msg)"

definition control_destination :: "Deps \<Rightarrow> WebRequest \<Rightarrow> destination" where
  "control_destination deps r =
     (if wr_Path r = ''/'' then RedirectTo 302 ''/dashboard''
      else if wr_Path r = ''/healthz'' then Healthz
      else case pathSegments (wr_Path r) of
        [] \<Rightarrow> NotFoundPage
      | s # rest \<Rightarrow>
          if s = ''api'' then handler_or (rd_API deps) HAPI ''funcbox: api is not implemented yet''
          else if s = ''dashboard'' then handler_or (rd_Dashboard deps) HDashboard ''funcbox: dashboard is not implemented yet''
          else if s = ''metrics'' then handler_or (rd_Metrics deps) HMetrics ''funcbox: metrics are not enabled (FUNCBOX_METRICS=1 required)''
          else if s = ''auth'' then handler_or (rd_Auth deps) HAuth ''funcbox: auth is not implemented yet''
          else if s = ''dev'' \<and> (case rest of t # _ \<Rightarrow> t = ''oidc'' | [] \<Rightarrow> False) then
            handler_or (rd_DevOIDC deps) HDevOIDC ''funcbox: dev oidc is not enabled (FUNCBOX_AUTH_MODE=dev required)''
          else if s = ''dev'' then NotImplemented ''funcbox: dev is not implemented yet''
          else if s = ''mcp'' then
            (if \<not> rd_MCP deps then NotImplemented ''funcbox: mcp is not implemented yet''
             else if \<not> mcpGateAllows deps r then NotFoundPage else ToControl HMCP)
          else if s = ''oauth'' \<or> s = ''.well-known'' then
            (if \<not> rd_OAuth deps then NotImplemented ''funcbox: oauth is not implemented yet''
             else if \<not> mcpGateAllows deps r then NotFoundPage else ToControl HOAuth)
          else if s \<in> set reservedRoutes then NotImplemented (''funcbox: '' @ s @ '' is not implemented yet'')
          else case rest of
            f # _ \<Rightarrow> if \<not> rd_Invoker deps then NotImplemented ''funcbox: function invocation is not implemented yet'' else InvokePath s f
          | [] \<Rightarrow> NotFoundPage)"

definition serveControl :: "Deps \<Rightarrow> WebRequest \<Rightarrow> response" where
  "serveControl deps r = (control_headers, control_destination deps r)"

definition safe_method :: "WebRequest \<Rightarrow> bool" where
  "safe_method r = (wr_Method r = ''GET'' \<or> wr_Method r = ''HEAD'')"

definition serve_function_host :: "Deps \<Rightarrow> WebRequest \<Rightarrow> string \<Rightarrow> destination" where
  "serve_function_host deps r host =
     (case managedFunctionName host (rd_FunctionDomain deps) of
        None \<Rightarrow> Misdirected
      | Some name \<Rightarrow>
          if \<not> rd_Invoker deps then NotImplemented ''funcbox: function invocation is not implemented yet''
          else if wr_Path r = ''/.funcbox/auth/callback'' then AuthCallback name host
          else if prefix ''/.funcbox/'' (wr_Path r) then NotFoundPage
          else InvokeHost name host)"

definition serveByHost :: "Deps \<Rightarrow> WebRequest \<Rightarrow> response" where
  "serveByHost deps r =
     (case normalizedRequestHost (wr_Host r) of
        None \<Rightarrow> ([], Misdirected)
      | Some host \<Rightarrow>
          (case url_Parse (rd_ControlURL deps) of
             None \<Rightarrow> ([], Panicked)
           | Some control \<Rightarrow>
               if host = to_lower (url_Hostname control) then serveControl deps r
               else if rd_LandingURL deps = [] then ([], serve_function_host deps r host)
               else case url_Parse (rd_LandingURL deps) of
                 None \<Rightarrow> ([], Panicked)
               | Some landing \<Rightarrow>
                   if host = to_lower (url_Hostname landing) then
                     ([], if \<not> safe_method r then Misdirected
                          else RedirectTo 308 (trim_suffix (rd_ControlURL deps) ''/'' @ wr_RequestURI r))
                   else ([], serve_function_host deps r host)))"

definition router_ServeHTTP :: "Deps \<Rightarrow> WebRequest \<Rightarrow> response" where
  "router_ServeHTTP deps r =
     (if rd_ControlURL deps \<noteq> [] \<or> rd_FunctionDomain deps \<noteq> [] then serveByHost deps r else serveControl deps r)"

section \<open>Middleware (middleware.go)\<close>

definition loopbackHostAliases :: "string list" where
  "loopbackHostAliases = [''localhost'', ''127.0.0.1'', ''::1'']"

definition isLoopbackHost :: "string \<Rightarrow> bool" where
  "isLoopbackHost host = (host \<in> set loopbackHostAliases)"

definition splitRequestHost :: "string \<Rightarrow> string \<times> string" where
  "splitRequestHost authority =
     (case split_host_port authority of
        Inr (h, p) \<Rightarrow> (to_lower h, p)
      | Inl _ \<Rightarrow> (trim_prefix (trim_suffix (to_lower authority) '']'') ''['', []))"

definition effectivePort :: "string \<Rightarrow> string \<Rightarrow> string" where
  "effectivePort scheme port = (if port \<noteq> [] then port else if scheme = ''https'' then ''443'' else ''80'')"

definition canonicalControlOrigin :: "Deps \<Rightarrow> string" where
  "canonicalControlOrigin deps = (if rd_ControlURL deps \<noteq> [] then rd_ControlURL deps else rd_BaseURL deps)"

definition api_facing :: "string list \<Rightarrow> bool" where
  "api_facing segments =
     (case segments of
        [] \<Rightarrow> False
      | s # rest \<Rightarrow> s = ''api'' \<or> s = ''mcp'' \<or> s = ''.well-known''
          \<or> s = ''oauth'' \<and> (case rest of t # _ \<Rightarrow> t \<noteq> ''authorize'' | [] \<Rightarrow> True))"

definition loopbackAliasRedirectTarget :: "string \<Rightarrow> WebRequest \<Rightarrow> string option" where
  "loopbackAliasRedirectTarget canonicalOrigin r =
     (if canonicalOrigin = [] then None
      else if api_facing (pathSegments (wr_Path r)) then None
      else case url_Parse canonicalOrigin of
        None \<Rightarrow> None
      | Some canon \<Rightarrow>
          (let canonHost = to_lower (url_Hostname canon); (reqHost, reqPort) = splitRequestHost (wr_Host r) in
           if url_Hostname canon = [] \<or> \<not> isLoopbackHost canonHost then None
           else if reqHost = [] \<or> \<not> isLoopbackHost reqHost \<or> reqHost = canonHost then None
           else if effectivePort (url_Scheme canon) (url_Port canon) \<noteq> effectivePort (url_Scheme canon) reqPort then None
           else Some (trim_suffix canonicalOrigin ''/'' @ wr_RequestURI r)))"

definition canonicalOriginMiddleware :: "Deps \<Rightarrow> (WebRequest \<Rightarrow> response) \<Rightarrow> WebRequest \<Rightarrow> response" where
  "canonicalOriginMiddleware deps next r =
     (case loopbackAliasRedirectTarget (canonicalControlOrigin deps) r of
        Some target \<Rightarrow> ([], RedirectTo (if safe_method r then 302 else 307) target)
      | None \<Rightarrow> next r)"

definition recoverMiddleware :: "(WebRequest \<Rightarrow> response) \<Rightarrow> WebRequest \<Rightarrow> response" where
  "recoverMiddleware next r = (case next r of (h, d) \<Rightarrow> (h, if d = Panicked then InternalServerError else d))"

definition New_server :: "Deps \<Rightarrow> WebRequest \<Rightarrow> response" where
  "New_server deps = recoverMiddleware (canonicalOriginMiddleware deps (router_ServeHTTP deps))"

text \<open>The label of the request metrics and the path of the request log.\<close>

definition routeClass :: "string \<Rightarrow> string" where
  "routeClass path =
     (case pathSegments path of
        [] \<Rightarrow> ''root''
      | s # rest \<Rightarrow>
          if s \<in> {''api'', ''dashboard'', ''auth'', ''dev'', ''metrics'', ''mcp'', ''oauth''} then s
          else if s = ''.well-known'' then ''well-known''
          else if s = ''healthz'' then ''healthz''
          else if rest \<noteq> [] then ''invoke'' else ''other'')"

definition log_path :: "string \<Rightarrow> string" where
  "log_path path = (if path = ''/.funcbox/auth/callback'' then ''/.funcbox/auth/callback?[REDACTED]'' else path)"

text \<open>The writer that records the status for the log and the metrics.\<close>

record statusWriter =
  sw_status :: int
  sw_wroteHeader :: bool

datatype write_call = CallWriteHeader int | CallWrite

fun sw_step :: "statusWriter \<Rightarrow> write_call \<Rightarrow> statusWriter" where
  "sw_step w (CallWriteHeader code) = (if \<not> sw_wroteHeader w then w\<lparr>sw_status := code, sw_wroteHeader := True\<rparr> else w)"
| "sw_step w CallWrite = (if \<not> sw_wroteHeader w then w\<lparr>sw_status := 200, sw_wroteHeader := True\<rparr> else w)"

definition logged_status :: "write_call list \<Rightarrow> int" where
  "logged_status calls = sw_status (foldl sw_step \<lparr>sw_status = 200, sw_wroteHeader = False\<rparr> calls)"

text \<open>The configuration the server is built from (cmd/funcbox-server).\<close>

definition configured :: "Config \<Rightarrow> Deps \<Rightarrow> bool" where
  "configured cfg deps =
     (rd_ControlURL deps = cf_ControlURL cfg \<and> rd_FunctionDomain deps = cf_FunctionDomain cfg
      \<and> rd_LandingURL deps = cf_LandingURL cfg \<and> rd_BaseURL deps = cf_BaseURL cfg)"

section \<open>Hosts\<close>

lemma normalizedRequestHost_Some:
  "normalizedRequestHost a = Some h \<Longrightarrow> h \<noteq> [] \<and> to_lower h = h \<and> parse_ip h = None"
  by (auto simp: normalizedRequestHost_def Let_def split: if_splits sum.splits option.splits)

lemma managedFunctionName_iff:
  assumes "dns_name d"
  shows "managedFunctionName h d = Some n \<longleftrightarrow> h = n @ ''.'' @ d \<and> dns_label n"
proof -
  have d: "to_lower (trim_suffix d ''.'') = d"
    using assms by (cases d rule: rev_cases) (auto simp: dns_name_def trim_suffix_def suffix_def)
  have "CHR ''.'' \<notin> set n" if "list_all dns_char n" using that not_dns_char by (auto simp: list_all_iff)
  moreover have "trim_suffix (n @ CHR ''.'' # d) (CHR ''.'' # d) = n" for n
    using trim_suffix_append [of n "CHR ''.'' # d"] by simp
  ultimately show ?thesis
    by (auto simp: managedFunctionName_def Let_def d dns_label_def suffix_def)
qed

text \<open>The destinations of the control plane.\<close>

fun control_plane :: "destination \<Rightarrow> bool" where
  "control_plane Healthz = True"
| "control_plane (ToControl _) = True"
| "control_plane (InvokePath _ _) = True"
| "control_plane _ = False"

fun function_plane :: "destination \<Rightarrow> (string \<times> string) option" where
  "function_plane (InvokeHost name host) = Some (name, host)"
| "function_plane (AuthCallback name host) = Some (name, host)"
| "function_plane _ = None"

lemma serve_function_host_planes:
  "\<not> control_plane (serve_function_host deps r host)"
  "function_plane (serve_function_host deps r host) = Some (n, h)
     \<Longrightarrow> h = host \<and> managedFunctionName host (rd_FunctionDomain deps) = Some n"
  "serve_function_host deps r host \<noteq> Panicked"
  by (auto simp: serve_function_host_def split: option.splits if_splits)

text \<open>What the control origin never does: reach a function by its host, panic or answer 500.\<close>

fun control_side :: "destination \<Rightarrow> bool" where
  "control_side (InvokeHost _ _) = False"
| "control_side (AuthCallback _ _) = False"
| "control_side Panicked = False"
| "control_side InternalServerError = False"
| "control_side _ = True"

lemma side_cases:
  "control_side x \<Longrightarrow> control_side y \<Longrightarrow> control_side (if b then x else y)"
  "control_side x \<Longrightarrow> (\<And>a as. control_side (f a as)) \<Longrightarrow> control_side (case l of [] \<Rightarrow> x | a # as \<Rightarrow> f a as)"
  by (simp_all split: list.split)

lemma control_destination_side: "control_side (control_destination deps r)"
  unfolding control_destination_def handler_or_def by (intro side_cases; simp only: control_side.simps)

lemma control_destination_plane:
  "function_plane (control_destination deps r) = None" "control_destination deps r \<noteq> Panicked"
  "control_destination deps r \<noteq> InternalServerError"
  using control_destination_side [of deps r] by (cases "control_destination deps r"; simp)+

text \<open>What the router does with a host, in a deployment with separate origins.\<close>

lemma serveByHost_cases:
  assumes "serveByHost deps r = (hs, d)" "url_Parse (rd_ControlURL deps) = Some control"
    and "rd_LandingURL deps = [] \<or> (\<exists>landing. url_Parse (rd_LandingURL deps) = Some landing)"
  shows "d \<noteq> Panicked"
    "control_plane d \<Longrightarrow> hs = control_headers \<and> normalizedRequestHost (wr_Host r) = Some (to_lower (url_Hostname control))"
    "function_plane d = Some (n, h) \<Longrightarrow> hs = [] \<and> normalizedRequestHost (wr_Host r) = Some h
       \<and> h \<noteq> to_lower (url_Hostname control) \<and> managedFunctionName h (rd_FunctionDomain deps) = Some n"
  using assms control_destination_plane [of deps r] serve_function_host_planes(1,3)
  by (auto simp: serveByHost_def serveControl_def dest!: serve_function_host_planes(2) split: option.splits if_splits)

lemma serveByHost_never_500: "serveByHost deps r = (hs, d) \<Longrightarrow> d \<noteq> InternalServerError"
  using control_destination_plane(3) [of deps r]
  by (auto simp: serveByHost_def serveControl_def serve_function_host_def split: option.splits if_splits)

lemma New_server_router:
  assumes "New_server deps r = (hs, d)" "\<And>c t. d \<noteq> RedirectTo c t"
  obtains d' where "router_ServeHTTP deps r = (hs, d')" "d = (if d' = Panicked then InternalServerError else d')"
  using assms by (auto simp: New_server_def recoverMiddleware_def canonicalOriginMiddleware_def split: option.splits prod.splits)

section \<open>Authorities\<close>

lemma index_of_notin: "c \<notin> set s \<Longrightarrow> index_of c s = None"
  by (induction s) auto

lemma index_of_append: "c \<notin> set s \<Longrightarrow> index_of c (s @ c # t) = Some (length s)"
  by (induction s) auto

lemma last_index_of_notin: "c \<notin> set s \<Longrightarrow> last_index_of c s = None"
  by (simp add: last_index_of_def index_of_notin)

lemma last_index_of_append: "c \<notin> set t \<Longrightarrow> last_index_of c (s @ c # t) = Some (length s)"
  by (simp add: last_index_of_def index_of_append)

lemma split_host_only: "CHR '':'' \<notin> set h \<Longrightarrow> split_host_port h = Inl MissingPort"
  by (simp add: split_host_port_def last_index_of_notin)

lemma split_name_port:
  assumes "set h \<inter> set '':[]'' = {}" "set p \<inter> set '':[]'' = {}"
  shows "split_host_port (h @ '':'' @ p) = Inr (h, p)"
proof -
  have "\<not> prefix ''['' (h @ '':'' @ p)" using assms(1) by (cases h) auto
  then show ?thesis using assms last_index_of_append [of "CHR '':''" p h] by (auto simp: split_host_port_def)
qed

lemma split_literal_port:
  assumes "set h \<inter> set ''[]'' = {}" "set p \<inter> set '':[]'' = {}"
  shows "split_host_port (''['' @ h @ '']:'' @ p) = Inr (h, p)"
proof -
  have "last_index_of (CHR '':'') ((''['' @ h @ '']'') @ CHR '':'' # p) = Some (length (''['' @ h @ '']''))"
    using assms(2) by (intro last_index_of_append) auto
  moreover have "index_of (CHR '']'') ((CHR ''['' # h) @ CHR '']'' # CHR '':'' # p) = Some (length (CHR ''['' # h))"
    using assms(1) by (intro index_of_append) auto
  ultimately show ?thesis using assms by (auto simp: split_host_port_def)
qed

text \<open>An authority that is a DNS name, with the port of the control origin or without a port.\<close>

lemma dns_name_plain: "dns_name d \<Longrightarrow> set d \<inter> set '':[]'' = {}"
  by (auto simp: dns_name_def)

lemma split_dns_port:
  assumes "dns_name h" "ps = [] \<or> (\<exists>p. ps = '':'' @ p \<and> list_all is_digit p)"
  shows "case split_host_port (h @ ps) of Inr (h', _) \<Rightarrow> h' = h | Inl _ \<Rightarrow> ps = [] \<and> CHR '':'' \<notin> set h"
proof -
  have "set p \<inter> set '':[]'' = {}" if "list_all is_digit p" for p
    using that by (auto simp: list_all_iff is_digit_def)
  then show ?thesis
    using assms dns_name_plain [OF assms(1)] by (auto simp: split_host_only split_name_port [simplified])
qed

lemma dns_name_no_space:
  assumes "dns_name h" "ps = [] \<or> (\<exists>p. ps = '':'' @ p \<and> list_all is_digit p)" "c \<in> set (h @ ps)"
  shows "c \<notin> {CHR 0x5C, CHR ''/'', CHR ''@'', CHR '' '', CHR 0x09, CHR 0x0D, CHR 0x0A}"
proof -
  have "dns_char c \<or> c = CHR ''.'' \<or> c = CHR '':''"
    using assms by (auto simp: dns_name_def list_all_iff dns_char_def)
  then show ?thesis using dns_char_plain [of c] by auto
qed

lemma normalized_dns:
  assumes "dns_name h" "ps = [] \<or> (\<exists>p. ps = '':'' @ p \<and> list_all is_digit p)" "parse_ip h = None"
  shows "normalizedRequestHost (h @ ps) = Some h"
proof -
  have ne: "h @ ps \<noteq> []" "\<not> list_ex (\<lambda>c. c \<in> {CHR 0x5C, CHR ''/'', CHR ''@'', CHR '' '', CHR 0x09, CHR 0x0D, CHR 0x0A}) (h @ ps)"
    using assms(1) dns_name_no_space [OF assms(1,2)] by (auto simp: dns_name_def list_ex_iff)
  have "trim_suffix h ''.'' = h"
    using assms(1) by (cases h rule: rev_cases) (auto simp: dns_name_def trim_suffix_def suffix_def)
  moreover have "to_lower h = h" "h \<noteq> []" using assms(1) by (simp_all add: dns_name_def)
  ultimately show ?thesis
    using split_dns_port [OF assms(1,2)] assms(3) ne
    by (auto simp: normalizedRequestHost_def Let_def split: sum.splits)
qed

lemma splitRequestHost_dns:
  assumes "dns_name h" "ps = [] \<or> (\<exists>p. ps = '':'' @ p \<and> list_all is_digit p)"
  shows "fst (splitRequestHost (h @ ps)) = h"
proof -
  have "to_lower h = h" "h \<noteq> []" using assms(1) by (simp_all add: dns_name_def)
  moreover have "\<not> suffix '']'' h" "\<not> prefix ''['' h"
    using dns_name_plain [OF assms(1)] by (auto simp: suffix_def prefix_def)
  then have "trim_prefix (trim_suffix h '']'') ''['' = h" by (simp add: trim_suffix_def trim_prefix_def)
  ultimately show ?thesis
    using split_dns_port [OF assms] by (auto simp: splitRequestHost_def to_lower_def split: sum.splits)
qed

lemma url_splitHostPort_digits: "snd (url_splitHostPort h) = p \<Longrightarrow> list_all is_digit p"
proof -
  have "drop (Suc i) h = tl (drop i h)" for i by (simp add: drop_Suc tl_drop)
  then show "snd (url_splitHostPort h) = p \<Longrightarrow> list_all is_digit p"
    by (auto simp: url_splitHostPort_def validOptionalPort_def Let_def split: option.splits if_splits list.splits)
qed

lemma controlPort_digits: "controlPort cfg = [] \<or> (\<exists>p. controlPort cfg = '':'' @ p \<and> list_all is_digit p)"
  using url_splitHostPort_digits by (auto simp: controlPort_def url_Port_def split: option.splits)

lemma validateName_label: "is_ok (validateName name) \<Longrightarrow> dns_label name"
  by (auto simp: validateName_def validateDNSLabel_def is_ok_def nameRE_iff dns_label_def list_all_iff dns_char_def label_char_def
      split: if_splits)

lemma dns_name_sub: "dns_label n \<Longrightarrow> dns_name d \<Longrightarrow> dns_name (n @ ''.'' @ d)"
  using dns_label_lower [of n]
  by (auto simp: dns_name_def dns_label_def list_all_iff) (simp add: to_lower_def lower_char_dot)

lemma function_host_not_loopback:
  assumes "parse_ip (n @ ''.'' @ d) = None" "dns_label n"
  shows "\<not> isLoopbackHost (n @ ''.'' @ d)"
proof
  assume "isLoopbackHost (n @ ''.'' @ d)"
  moreover have "CHR ''.'' \<notin> set ''localhost''" "CHR ''.'' \<notin> set ''::1''" by simp_all
  then have "n @ ''.'' @ d \<noteq> ''localhost''" "n @ ''.'' @ d \<noteq> ''::1''"
    by (metis in_set_conv_decomp append_Cons append_Nil)+
  ultimately have "n @ ''.'' @ d = ''127.0.0.1''"
    unfolding isLoopbackHost_def loopbackHostAliases_def by (auto simp del: append_Cons append_Nil)
  moreover have "parse_ip ''127.0.0.1'' \<noteq> None" by code_simp
  ultimately show False using assms(1) by simp
qed

text \<open>An accepted configuration with a control URL: no valid function name makes the control host a function host.\<close>

lemma accepted_hosting:
  assumes "FromEnv etld1 parse_duration env = Inr cfg" "cf_ControlURL cfg \<noteq> []"
  shows "\<exists>control. url_Parse (cf_ControlURL cfg) = Some control
    \<and> (cf_LandingURL cfg = [] \<or> (\<exists>landing. url_Parse (cf_LandingURL cfg) = Some landing))
    \<and> dns_name (cf_FunctionDomain cfg)
    \<and> (\<forall>name. is_ok (validateName name) \<longrightarrow> to_lower (url_Hostname control) \<noteq> name @ ''.'' @ cf_FunctionDomain cfg)"
proof -
  have ok: "validateHosting etld1 cfg = Inr ()" and dom: "cf_FunctionDomain cfg = [] \<or> dns_name (cf_FunctionDomain cfg)"
    using FromEnv_hosting [OF assms(1)] by auto
  have "cf_FunctionDomain cfg \<noteq> []" using ok assms(2) by (auto simp: validateHosting_def)
  with dom have dns: "dns_name (cf_FunctionDomain cfg)" by simp
  show ?thesis
  proof (rule validateHosting_separates [OF ok assms(2) dns])
    fix control
    assume c: "url_Parse (cf_ControlURL cfg) = Some control"
      "cf_LandingURL cfg = [] \<or> (\<exists>landing. url_Parse (cf_LandingURL cfg) = Some landing)"
    assume sep: "\<And>name. to_lower (url_Hostname control) = name @ ''.'' @ cf_FunctionDomain cfg \<Longrightarrow> CHR ''.'' \<notin> set name \<Longrightarrow> name = ''dashboard''"
    have "to_lower (url_Hostname control) \<noteq> name @ ''.'' @ cf_FunctionDomain cfg" if v: "is_ok (validateName name)" for name
    proof
      assume "to_lower (url_Hostname control) = name @ ''.'' @ cf_FunctionDomain cfg"
      moreover have "CHR ''.'' \<notin> set name" using validateName_label [OF v] not_dns_char by (auto simp: dns_label_def list_all_iff)
      ultimately have "name = ''dashboard''" by (rule sep)
      with v show False
        by (simp add: validateName_def validateDNSLabel_def IsReserved_def ReservedNames_def is_ok_def split: if_splits)
    qed
    with c dns show ?thesis by blast
  qed
qed

lemma not_loopback_kept: "\<not> isLoopbackHost (fst (splitRequestHost (wr_Host r))) \<Longrightarrow> loopbackAliasRedirectTarget origin r = None"
  by (auto simp: loopbackAliasRedirectTarget_def Let_def split: option.split prod.split)

text \<open>
  C9. Separate origins. In a deployment accepted by \<^verbatim>\<open>FromEnv\<close> with a control URL, no request
  makes the router panic. A handler of the control plane serves only requests whose host is the control host, with the
  framing headers. A managed function is reached only through the host made of its name
  and the function domain, which is never the control host, and no host of a name that is not
  reserved is the control host.
\<close>

theorem host_isolation:
  assumes "FromEnv etld1 parse_duration env = Inr cfg" "configured cfg deps" "cf_ControlURL cfg \<noteq> []"
    and "New_server deps r = (hs, d)"
  shows "\<exists>control. url_Parse (cf_ControlURL cfg) = Some control \<and> d \<noteq> InternalServerError
    \<and> (control_plane d \<longrightarrow> hs = control_headers \<and> normalizedRequestHost (wr_Host r) = Some (to_lower (url_Hostname control)))
    \<and> (\<forall>name host. function_plane d = Some (name, host) \<longrightarrow>
         host = name @ ''.'' @ cf_FunctionDomain cfg \<and> dns_label name \<and> normalizedRequestHost (wr_Host r) = Some host
         \<and> host \<noteq> to_lower (url_Hostname control) \<and> hs = [])
    \<and> (\<forall>name. is_ok (validateName name) \<longrightarrow> to_lower (url_Hostname control) \<noteq> name @ ''.'' @ cf_FunctionDomain cfg)"
proof -
  obtain control where c: "url_Parse (cf_ControlURL cfg) = Some control"
      "cf_LandingURL cfg = [] \<or> (\<exists>landing. url_Parse (cf_LandingURL cfg) = Some landing)"
    and dns: "dns_name (cf_FunctionDomain cfg)"
    and names: "\<And>name. is_ok (validateName name) \<Longrightarrow> to_lower (url_Hostname control) \<noteq> name @ ''.'' @ cf_FunctionDomain cfg"
    using accepted_hosting [OF assms(1,3)] by auto
  have deps: "rd_ControlURL deps = cf_ControlURL cfg" "rd_FunctionDomain deps = cf_FunctionDomain cfg" "rd_LandingURL deps = cf_LandingURL cfg"
    using assms(2) by (simp_all add: configured_def)
  show ?thesis
  proof (cases "\<exists>code t. d = RedirectTo code t")
    case True
    with c(1) names show ?thesis by auto
  next
    case False
    then obtain d' where d': "router_ServeHTTP deps r = (hs, d')" "d = (if d' = Panicked then InternalServerError else d')"
      using New_server_router [OF assms(4)] by blast
    then have by_host: "serveByHost deps r = (hs, d')" using assms(3) by (simp add: router_ServeHTTP_def deps)
    note cases = serveByHost_cases [OF by_host, unfolded deps, OF c]
    have "d = d'" using cases(1) d'(2) by simp
    then show ?thesis
      using c(1) names cases managedFunctionName_iff [OF dns] d'(2) serveByHost_never_500 [OF by_host] by auto
  qed
qed

text \<open>
  C35. The URL of a managed function reaches the function. Take an accepted configuration with
  a control URL, a server set up from it with an invoker, and a valid function name such that the configured landing page is not on the function's host and
  name and domain together do not read as an IPv4 address. Then the URL built for the name consists of a scheme, an
  authority and a path, and every request that names that authority as its host and whose path is outside
  \<^verbatim>\<open>/.funcbox/\<close> is an invocation of exactly that function; the port of the
  control origin, which the URL repeats, does not matter. The two conditions are needed: a
  landing page may be configured on the host of a function and takes it away, and so does a host of digits.
\<close>

theorem function_url_routes:
  assumes "FromEnv etld1 parse_duration env = Inr cfg" "configured cfg deps" "cf_ControlURL cfg \<noteq> []" "rd_Invoker deps"
    and "is_ok (validateName name)" "ManagedFunctionURL cfg name path = Inr u"
    and "parse_ip (name @ ''.'' @ cf_FunctionDomain cfg) = None"
    and "\<And>landing. cf_LandingURL cfg \<noteq> [] \<Longrightarrow> url_Parse (cf_LandingURL cfg) = Some landing
           \<Longrightarrow> to_lower (url_Hostname landing) \<noteq> name @ ''.'' @ cf_FunctionDomain cfg"
  shows "\<exists>scheme authority p. u = scheme @ ''://'' @ authority @ p \<and> scheme \<in> {''http'', ''https''} \<and> prefix ''/'' p
    \<and> (\<forall>r. wr_Host r = authority \<longrightarrow> \<not> prefix ''/.funcbox/'' (wr_Path r) \<longrightarrow>
         New_server deps r = ([], InvokeHost name (name @ ''.'' @ cf_FunctionDomain cfg)))"
proof -
  let ?host = "name @ ''.'' @ cf_FunctionDomain cfg"
  obtain control where c: "url_Parse (cf_ControlURL cfg) = Some control"
      "cf_LandingURL cfg = [] \<or> (\<exists>landing. url_Parse (cf_LandingURL cfg) = Some landing)"
      "to_lower (url_Hostname control) \<noteq> ?host"
    and dns: "dns_name (cf_FunctionDomain cfg)"
    using accepted_hosting [OF assms(1,3)] assms(5) by auto
  have label: "dns_label name" using assms(5) by (rule validateName_label)
  have host: "dns_name ?host" using dns_name_sub [OF label dns] .
  have deps: "rd_ControlURL deps = cf_ControlURL cfg" "rd_FunctionDomain deps = cf_FunctionDomain cfg" "rd_LandingURL deps = cf_LandingURL cfg"
    using assms(2) by (simp_all add: configured_def)
  have served: "New_server deps r = ([], InvokeHost name ?host)"
    if r: "wr_Host r = ?host @ controlPort cfg" "\<not> prefix ''/.funcbox/'' (wr_Path r)" for r
  proof -
    have "normalizedRequestHost (wr_Host r) = Some ?host"
      using normalized_dns [OF host controlPort_digits assms(7)] by (simp add: r(1))
    moreover have "managedFunctionName ?host (cf_FunctionDomain cfg) = Some name"
      using managedFunctionName_iff [OF dns] label by blast
    moreover have "wr_Path r \<noteq> ''/.funcbox/auth/callback''" using r(2) by auto
    ultimately have "router_ServeHTTP deps r = ([], InvokeHost name ?host)"
      using c assms(3,4,8) r(2) by (auto simp: router_ServeHTTP_def serveByHost_def deps serve_function_host_def)
    moreover have "\<not> isLoopbackHost ?host" using assms(7) label by (rule function_host_not_loopback)
    then have "loopbackAliasRedirectTarget o' r = None" for o'
      using splitRequestHost_dns [OF host controlPort_digits [of cfg]] r(1) not_loopback_kept [of r o'] by (simp add: r(1))
    ultimately show ?thesis by (simp add: New_server_def recoverMiddleware_def canonicalOriginMiddleware_def)
  qed
  have "u = managed_scheme cfg @ ''://'' @ (?host @ controlPort cfg) @ rooted_path path"
    using assms(6) dns_label_lower [OF label] by (simp add: ManagedFunctionURL_def split: if_splits)
  moreover have "managed_scheme cfg \<in> {''http'', ''https''}" "prefix ''/'' (rooted_path path)"
    by (auto simp: managed_scheme_def rooted_path_def)
  ultimately show ?thesis using served by blast
qed

section \<open>Loopback aliases\<close>

lemma hex_val_less: "hex_val c = Some v \<Longrightarrow> v < 16"
  by (auto simp: hex_val_def is_digit_def less_eq_char_def split: if_splits)

lemma host_escape_not_colon:
  assumes "is_hex a" "is_hex b" "hex_group [a] \<ge> 8 \<or> (a = CHR ''2'' \<and> b = CHR ''5'')"
  shows "byte_of_hex a b \<noteq> CHR '':''"
proof (cases "hex_group [a] \<ge> 8")
  case True
  obtain x y where v: "hex_val a = Some x" "hex_val b = Some y" using assms(1,2) by (auto simp: is_hex_def)
  then have "8 \<le> x" "x < 16" "y < 16" using True hex_val_less by (auto simp: hex_group_def)
  then have "of_char (byte_of_hex a b) = 16 * x + y" by (simp add: byte_of_hex_def hex_group_def v)
  with \<open>8 \<le> x\<close> have "of_char (byte_of_hex a b) \<noteq> (58 :: nat)" by simp
  then show ?thesis by auto
next
  case False
  with assms(3) have "a = CHR ''2''" "b = CHR ''5''" by auto
  moreover have "byte_of_hex (CHR ''2'') (CHR ''5'') \<noteq> CHR '':''" by code_simp
  ultimately show ?thesis by simp
qed

lemma unescape_host_colon: "unescape_host s = Some (CHR '':'' # t) \<Longrightarrow> \<exists>s'. s = CHR '':'' # s' \<and> unescape_host s' = Some t"
  using host_escape_not_colon by (cases s) (auto split: if_splits list.splits)

lemma parseHost_double: "parseHost h = Some H \<Longrightarrow> \<not> prefix ''::'' H"
proof
  assume p: "parseHost h = Some H" and "prefix ''::'' H"
  then obtain t where H: "H = CHR '':'' # CHR '':'' # t" by (auto simp: prefix_def)
  have n: "unescape_host h = Some H" "\<forall>i. index_of (CHR '':'') h = Some i \<longrightarrow> validOptionalPort (drop i h)"
    using p H by (auto simp: parseHost_def Let_def split: option.splits nat.splits if_splits)
  obtain s1 where s1: "h = CHR '':'' # s1" "unescape_host s1 = Some (CHR '':'' # t)"
    using unescape_host_colon [OF n(1) [unfolded H]] by auto
  obtain t' where "h = CHR '':'' # CHR '':'' # t'" using unescape_host_colon [OF s1(2)] s1(1) by auto
  then have "index_of (CHR '':'') h = Some 0" "\<not> validOptionalPort h" by (simp_all add: validOptionalPort_def is_digit_def)
  with n(2) show False by auto
qed

lemma parseAuthority_double: "parseAuthority a = Some (user, H) \<Longrightarrow> \<not> prefix ''::'' H"
  by (auto simp: parseAuthority_def Let_def dest!: parseHost_double split: option.splits if_splits prod.splits)

lemma parse_hierarchical_double: "parse_hierarchical sch rest q f = Some u \<Longrightarrow> \<not> prefix ''::'' (url_Host u)"
  by (auto simp: parse_hierarchical_def Let_def dest!: parseAuthority_double split: option.splits if_splits)

lemma url_parse_double: "url_parse s = Some u \<Longrightarrow> \<not> prefix ''::'' (url_Host u)"
  unfolding url_parse_def Let_def
  by (auto dest!: parse_hierarchical_double simp del: prefix_code split: option.split_asm if_split_asm)

lemma url_Host_double: "url_Parse origin = Some u \<Longrightarrow> \<not> prefix ''::'' (url_Host u)"
  by (auto simp: url_Parse_def dest!: url_parse_double split: prod.splits option.splits if_splits)

lemma bracketed: "prefix ''['' s \<Longrightarrow> suffix '']'' s \<Longrightarrow> s = ''['' @ butlast (tl s) @ '']''"
proof -
  assume p: "prefix ''['' s" and e: "suffix '']'' s"
  then obtain t where t: "s = CHR ''['' # t" by (auto simp: prefix_def)
  with e have "t \<noteq> [] \<and> last t = CHR '']''" by (auto simp: suffix_def Cons_eq_append_conv)
  then have "t = butlast t @ [CHR '']'']" by (metis append_butlast_last_id)
  then show ?thesis by (simp add: t)
qed

text \<open>The host of a URL, split into its name and its port.\<close>

lemma url_host_shape:
  assumes "url_splitHostPort H = (h, p)"
  shows "\<exists>ps. list_all is_digit p \<and> (ps = [] \<or> ps = '':'' @ p) \<and> (H = h @ ps \<or> H = ''['' @ h @ '']'' @ ps)"
proof -
  obtain base where b: "(\<exists>ps. (ps = [] \<or> ps = '':'' @ p) \<and> H = base @ ps)"
    "h = (if prefix ''['' base \<and> suffix '']'' base then butlast (tl base) else base)"
  proof (cases "last_index_of (CHR '':'') H")
    case None
    with assms that [of H] show ?thesis by (auto simp: url_splitHostPort_def)
  next
    case (Some i)
    have "H = take i H @ '':'' @ drop (Suc i) H" if "validOptionalPort (drop i H)" "drop i H \<noteq> []"
      using that append_take_drop_id [of i H] by (cases "drop i H") (auto simp: validOptionalPort_def drop_Suc tl_drop [symmetric])
    moreover have "drop (Suc i) H = [] \<and> take i H = H" if "drop i H = []" using that by simp
    ultimately show ?thesis
      using assms Some that [of "take i H"] that [of H] by (fastforce simp: url_splitHostPort_def split: if_splits)
  qed
  moreover have "list_all is_digit p" using assms url_splitHostPort_digits [of H p] by simp
  ultimately show ?thesis using bracketed [of base] by (auto split: if_splits)
qed

lemma to_lower_set: "c \<in> set h \<Longrightarrow> lower_char c = c \<Longrightarrow> c \<in> set (to_lower h)"
  by (force simp: to_lower_def)

lemma to_lower_literal: "to_lower h = ''::1'' \<Longrightarrow> h = ''::1''"
  by (auto simp: to_lower_def lower_char_low map_eq_Cons_conv)

lemma alias_cases:
  assumes "isLoopbackHost (to_lower h)"
  shows "set h \<inter> set ''[]'' = {}" "CHR '':'' \<in> set h \<Longrightarrow> h = ''::1''"
proof -
  have l: "lower_char (CHR ''['') = CHR ''[''" "lower_char (CHR '']'') = CHR '']''" "lower_char (CHR '':'') = CHR '':''" by code_simp+
  have al: "to_lower h = ''localhost'' \<or> to_lower h = ''127.0.0.1'' \<or> to_lower h = ''::1''"
    using assms by (simp add: isLoopbackHost_def loopbackHostAliases_def)
  then have "set (to_lower h) \<inter> set ''[]'' = {}" by (elim disjE) simp_all
  then show "set h \<inter> set ''[]'' = {}" using l(1,2) to_lower_set [of _ h] by fastforce
  assume "CHR '':'' \<in> set h"
  then have "CHR '':'' \<in> set (to_lower h)" using l(3) by (rule to_lower_set)
  then have "to_lower h = ''::1''" using al by (elim disjE) simp_all
  then show "h = ''::1''" by (rule to_lower_literal)
qed

lemma splitRequestHost_fallback:
  assumes "split_host_port H = Inl e"
  shows "fst (splitRequestHost H) = trim_prefix (trim_suffix (to_lower H) '']'') ''[''"
  using assms by (simp add: splitRequestHost_def)

lemma alias_host:
  assumes "url_splitHostPort H = (h, p)" "isLoopbackHost (to_lower h)" "\<not> prefix ''::'' H"
  shows "fst (splitRequestHost H) = to_lower h"
proof -
  note h = alias_cases [OF assms(2)]
  obtain ps where p: "list_all is_digit p" "ps = [] \<or> ps = '':'' @ p" "H = h @ ps \<or> H = ''['' @ h @ '']'' @ ps"
    using url_host_shape [OF assms(1)] by blast
  have digits: "set p \<inter> set '':[]'' = {}" using p(1) by (auto simp: list_all_iff is_digit_def)
  have lower: "lower_char (CHR ''['') = CHR ''[''" "lower_char (CHR '']'') = CHR '']''" by code_simp+
  from p(3) show ?thesis
  proof
    assume H: "H = h @ ps"
    then have plain: "set h \<inter> set '':[]'' = {}" using h assms(3) by auto
    have "set (to_lower h) \<inter> set ''[]'' = {}"
      using assms(2) unfolding isLoopbackHost_def loopbackHostAliases_def by auto
    then have "\<not> suffix '']'' (to_lower h)" "\<not> prefix ''['' (to_lower h)" by (auto simp: suffix_def prefix_def)
    then have "fst (splitRequestHost h) = to_lower h"
      using splitRequestHost_fallback [OF split_host_only] plain by (simp add: trim_suffix_def trim_prefix_def)
    moreover have "fst (splitRequestHost (h @ '':'' @ p)) = to_lower h"
      by (simp only: splitRequestHost_def split_name_port [OF plain digits] sum.case prod.case fst_conv)
    ultimately show ?thesis using p(2) by (auto simp: H)
  next
    assume H: "H = ''['' @ h @ '']'' @ ps"
    have "\<exists>e. split_host_port (''['' @ h @ '']'') = Inl e"
    proof (cases "CHR '':'' \<in> set h")
      case True
      moreover have "split_host_port ''[::1]'' = Inl MissingPort" by code_simp
      ultimately show ?thesis using h(2) by simp
    next
      case False
      then show ?thesis using split_host_only [of "''['' @ h @ '']''"] by simp
    qed
    then have "fst (splitRequestHost (''['' @ h @ '']'')) = trim_prefix (trim_suffix (''['' @ to_lower h @ '']'') '']'') ''[''"
      using splitRequestHost_fallback lower by (fastforce simp: to_lower_def)
    also have "\<dots> = to_lower h"
      using trim_suffix_append [of "''['' @ to_lower h" "'']''"] by (simp add: trim_prefix_def)
    finally show ?thesis
      using p(2) split_literal_port [OF h(1) digits] by (auto simp: H splitRequestHost_def)
  qed
qed

text \<open>
  The redirect between loopback aliases. It happens only when the canonical origin
  and the request are on different loopback names with the same port, never for the paths of
  bearer clients, and its target is the canonical origin followed by the request's own path
  and query. A request that follows it, with the host of the canonical origin, is not
  redirected again.
\<close>

lemma loopback_redirect_once:
  assumes "loopbackAliasRedirectTarget origin r = Some target"
  shows "\<exists>canon. url_Parse origin = Some canon \<and> target = trim_suffix origin ''/'' @ wr_RequestURI r
    \<and> isLoopbackHost (to_lower (url_Hostname canon)) \<and> isLoopbackHost (fst (splitRequestHost (wr_Host r)))
    \<and> fst (splitRequestHost (wr_Host r)) \<noteq> to_lower (url_Hostname canon)
    \<and> effectivePort (url_Scheme canon) (snd (splitRequestHost (wr_Host r))) = effectivePort (url_Scheme canon) (url_Port canon)
    \<and> \<not> api_facing (pathSegments (wr_Path r))
    \<and> (\<forall>r'. wr_Host r' = url_Host canon \<longrightarrow> loopbackAliasRedirectTarget origin r' = None)"
proof -
  obtain canon where c: "url_Parse origin = Some canon" "target = trim_suffix origin ''/'' @ wr_RequestURI r"
    "isLoopbackHost (to_lower (url_Hostname canon))" "isLoopbackHost (fst (splitRequestHost (wr_Host r)))"
    "fst (splitRequestHost (wr_Host r)) \<noteq> to_lower (url_Hostname canon)"
    "effectivePort (url_Scheme canon) (snd (splitRequestHost (wr_Host r))) = effectivePort (url_Scheme canon) (url_Port canon)"
    "\<not> api_facing (pathSegments (wr_Path r))"
    using assms by (auto simp: loopbackAliasRedirectTarget_def Let_def split: option.splits if_splits prod.splits)
  have "loopbackAliasRedirectTarget origin r' = None" if "wr_Host r' = url_Host canon" for r'
  proof -
    have "fst (splitRequestHost (wr_Host r')) = to_lower (url_Hostname canon)"
      using alias_host [of "url_Host canon" "url_Hostname canon" "url_Port canon"] c(1,3) url_Host_double that
      by (simp add: url_Hostname_def url_Port_def)
    then show ?thesis by (auto simp: loopbackAliasRedirectTarget_def c(1) Let_def split: prod.split)
  qed
  with c show ?thesis by blast
qed

section \<open>Invocation by path\<close>

lemma trim_right_append: "x \<noteq> [] \<Longrightarrow> last x \<noteq> c \<Longrightarrow> trim_right_char c (x @ y) = x @ trim_right_char c y"
  by (cases x rule: rev_cases) (auto simp: trim_right_char_def dropWhile_append)

lemma segments_of_path:
  assumes "owner \<noteq> []" "CHR ''/'' \<notin> set owner" "name \<noteq> []" "CHR ''/'' \<notin> set name" "sub = [] \<or> prefix ''/'' sub"
  shows "\<exists>rest. pathSegments (''/'' @ owner @ ''/'' @ name @ sub) = owner # name # rest"
proof -
  let ?c = "CHR ''/''" and ?s = "trim_right_char (CHR ''/'') sub"
  have "hd owner \<noteq> ?c" "last (owner @ ''/'' @ name) \<noteq> ?c" using assms(1-4) by (auto dest: hd_in_set last_in_set)
  then have "trim_char ?c (''/'' @ owner @ ''/'' @ name @ sub) = (owner @ ''/'' @ name) @ ?s"
    using assms(1,3) trim_right_append [of "owner @ ''/'' @ name" ?c sub]
    by (cases owner) (auto simp: trim_char_def)
  moreover have "?s = [] \<or> (\<exists>t. ?s = ?c # t)"
    using assms(5) trim_right_char_prefix [of ?c sub] by (cases ?s) (auto simp: prefix_def)
  ultimately show ?thesis
    using assms(1-4) split_on_append [of ?c owner] split_on_append [of ?c name] split_on_single [of ?c name]
    by (auto simp: pathSegments_def Let_def)
qed

lemma label_no_slash: "is_ok (validateName s) \<Longrightarrow> s \<noteq> [] \<and> CHR ''/'' \<notin> set s"
  using validateName_label [of s] dns_char_plain by (fastforce simp: dns_label_def list_all_iff)

text \<open>
  C36. Invocation by path. On the control origin a path made of a valid owner and a
  valid function name, with anything below it, invokes that function, whatever handlers
  are configured, except for the owners \<^verbatim>\<open>mcp\<close> and \<^verbatim>\<open>oauth\<close>: these are
  valid public IDs, but their functions cannot be reached by path.
\<close>

theorem path_invocation:
  assumes "is_ok (ValidateUserID owner)" "is_ok (validateName name)" "rd_Invoker deps"
    and "wr_Path r = ''/'' @ owner @ ''/'' @ name @ sub" "sub = [] \<or> prefix ''/'' sub"
  shows "(owner \<notin> {''mcp'', ''oauth''} \<longrightarrow> serveControl deps r = (control_headers, InvokePath owner name))
    \<and> (owner \<in> {''mcp'', ''oauth''} \<longrightarrow> (\<forall>ow n. snd (serveControl deps r) \<noteq> InvokePath ow n))
    \<and> is_ok (ValidateUserID ''mcp'') \<and> is_ok (ValidateUserID ''oauth'')"
proof -
  have v: "is_ok (validateName owner)" using assms(1) by (simp add: validateName_def ValidateUserID_def)
  obtain rest where seg: "pathSegments (wr_Path r) = owner # name # rest"
    using segments_of_path [of owner name sub] label_no_slash [OF v] label_no_slash [OF assms(2)] assms(4,5) by auto
  have "count_list (wr_Path r) (CHR ''/'') > 1" by (simp add: assms(4))
  then have path: "wr_Path r \<noteq> ''/''" "wr_Path r \<noteq> ''/healthz''" by auto
  have "\<not> IsReserved owner" "CHR ''.'' \<notin> set owner"
    using v validateName_label [OF v] not_dns_char by (auto simp: validateName_def validateDNSLabel_def is_ok_def dns_label_def list_all_iff split: if_splits)
  then have ne: "owner \<noteq> ''api''" "owner \<noteq> ''dashboard''" "owner \<noteq> ''metrics''" "owner \<noteq> ''auth''" "owner \<noteq> ''dev''"
    "owner \<noteq> ''assets''" "owner \<noteq> ''.well-known''" by (auto simp: IsReserved_def ReservedNames_def)
  have "control_destination deps r = InvokePath owner name" if "owner \<noteq> ''mcp''" "owner \<noteq> ''oauth''"
    using that ne by (simp add: control_destination_def path seg assms(3) reservedRoutes_def)
  moreover have "control_destination deps r \<noteq> InvokePath ow n" if "owner = ''mcp'' \<or> owner = ''oauth''" for ow n
    using that by (elim disjE) (simp_all add: control_destination_def path seg)
  moreover have "is_ok (ValidateUserID ''mcp'')" "is_ok (ValidateUserID ''oauth'')" by code_simp+
  ultimately show ?thesis by (simp add: serveControl_def)
qed

section \<open>Examples\<close>

definition hosting_env :: environ where
  "hosting_env = map_of [(''FUNCBOX_CONTROL_URL'', ''http://Localhost:80''), (''FUNCBOX_FUNCTION_DOMAIN'', ''run.test.''),
     (''FUNCBOX_ORIGIN_PROFILE'', ''development'')]"

definition hosting_cfg :: Config where
  "hosting_cfg = default_config\<lparr>cf_BaseURL := ''http://localhost:80'', cf_ControlURL := ''http://localhost:80'',
     cf_FunctionDomain := ''run.test'', cf_OriginProfile := ''development''\<rparr>"

definition route_deps :: Deps where
  "route_deps = \<lparr>rd_API = True, rd_Invoker = True, rd_Auth = True, rd_DevOIDC = False, rd_Dashboard = True, rd_Metrics = False,
     rd_ControlURL = ''http://localhost:80'', rd_FunctionDomain = ''run.test'', rd_LandingURL = [], rd_MCP = True, rd_OAuth = True,
     rd_MCPGate = None, rd_BaseURL = ''http://localhost:80''\<rparr>"

definition get_page :: "string \<Rightarrow> string \<Rightarrow> WebRequest" where
  "get_page host path = \<lparr>wr_Method = ''GET'', wr_Host = host, wr_Path = path, wr_RequestURI = path\<rparr>"

lemma hosting_accepted: "FromEnv (\<lambda>_. None) (\<lambda>_. None) hosting_env = Inr hosting_cfg"
  by code_simp

lemma hosting_configured: "configured hosting_cfg route_deps" "cf_ControlURL hosting_cfg \<noteq> []" "rd_Invoker route_deps"
  by code_simp+

theorem host_isolation_witness:
  "New_server route_deps (get_page ''Report.run.test.:80'' ''/api/v1'') = ([], InvokeHost ''report'' ''report.run.test'')
   \<and> normalizedRequestHost ''Report.run.test.:80'' = Some (''report'' @ ''.run.test'')"
proof -
  have r: "New_server route_deps (get_page ''Report.run.test.:80'' ''/api/v1'') = ([], InvokeHost ''report'' ''report.run.test'')"
    by code_simp
  show ?thesis using host_isolation [OF hosting_accepted hosting_configured(1,2) r] r by (auto simp: get_page_def)
qed

theorem function_url_routes_witness:
  "\<exists>scheme authority p. ManagedFunctionURL hosting_cfg ''report'' ''x'' = Inr (scheme @ ''://'' @ authority @ p)
     \<and> New_server route_deps (get_page authority ''/x'') = ([], InvokeHost ''report'' ''report.run.test'')"
proof -
  have valid: "is_ok (validateName ''report'')" "parse_ip (''report'' @ ''.'' @ cf_FunctionDomain hosting_cfg) = None"
    "cf_LandingURL hosting_cfg = []" by code_simp+
  have u: "ManagedFunctionURL hosting_cfg ''report'' ''x'' = Inr (''http://report.run.test:80/x'')" by code_simp
  obtain scheme authority p where a: "''http://report.run.test:80/x'' = scheme @ ''://'' @ authority @ p"
      "\<forall>r. wr_Host r = authority \<longrightarrow> \<not> prefix ''/.funcbox/'' (wr_Path r) \<longrightarrow>
         New_server route_deps r = ([], InvokeHost ''report'' (''report'' @ ''.'' @ cf_FunctionDomain hosting_cfg))"
    using function_url_routes [OF hosting_accepted hosting_configured(1-3) valid(1) u valid(2)] valid(3) by auto
  have "New_server route_deps (get_page authority ''/x'') = ([], InvokeHost ''report'' (''report'' @ ''.'' @ cf_FunctionDomain hosting_cfg))"
    using a(2) by (simp add: get_page_def)
  with u a(1) show ?thesis by (auto simp: hosting_cfg_def)
qed

theorem path_invocation_witness:
  "serveControl route_deps (get_page ''localhost'' ''/alice/report/'') = (control_headers, InvokePath ''alice'' ''report'')"
proof -
  have "is_ok (ValidateUserID ''alice'')" "is_ok (validateName ''report'')" by code_simp+
  then show ?thesis
    using path_invocation [of "''alice''" "''report''" route_deps "get_page ''localhost'' ''/alice/report/''" "''/''"]
    by (auto simp: get_page_def route_deps_def)
qed

end
