(* ===== verification/SignIn.thy ===== *)
theory SignIn
  imports InvokeSSO GoForm
begin

text \<open>
  Package auth, the browser sign-in: the routes, the signed state that survives the round trip to
  the identity provider, the start and the callback of a login (login.go, session.go) and the
  GitHub provider with its confirmation of an account link (github.go). A response is the list of cookies it
  sets and a reply. The identity providers are parameters: what the exchange of a code, the
  verification of an ID token and the two GitHub API calls return. The URL of the provider's
  authorization endpoint is built by a library; the reply keeps the parameters it carries.
\<close>

section \<open>Requests, responses and providers\<close>

record http_cookie =
  hc_Name :: string
  hc_Value :: string
  hc_Path :: string
  hc_MaxAge :: int
  hc_HttpOnly :: bool
  hc_Secure :: bool

record oauthState =
  ost_State :: string
  ost_Nonce :: string
  ost_Verifier :: string
  ost_ReturnTo :: string
  ost_IssuedAt :: int

record linkState =
  lks_Subject :: string
  lks_Email :: string
  lks_Login :: string
  lks_NewHandle :: string
  lks_ExistingUserID :: string
  lks_ReturnTo :: string
  lks_IssuedAt :: int

datatype auth_reply =
    RedirectTo string
  | RedirectProvider string string string
  | NotAvailable
  | LinkPage linkState string
  | NoRoute
  | MethodNotAllowed

record auth_response =
  ap_Cookies :: "http_cookie list"
  ap_Reply :: auth_reply

record githubUserResponse =
  gu_ID :: int
  gu_Login :: string

record githubEmailResponse =
  ge_Email :: string
  ge_Primary :: bool
  ge_Verified :: bool

record oidc_claims =
  oc_email :: string
  oc_email_verified :: bool
  oc_name :: string

record oidc_token =
  ot_Subject :: string
  ot_Nonce :: string
  ot_Claims :: "oidc_claims option"

text \<open>
  \<open>idp_Exchange\<close> gives the ID token of the answer, empty if it has none; \<open>idp_Discovered\<close> is whether the
  discovery of the issuer succeeds.
\<close>

record identity_provider =
  idp_GitHub :: bool
  idp_Discovered :: bool
  idp_Exchange :: "string \<Rightarrow> string \<Rightarrow> string option"
  idp_Verify :: "string \<Rightarrow> oidc_token option"
  idp_githubExchange :: "string \<Rightarrow> string option"
  idp_githubUser :: "string \<Rightarrow> githubUserResponse option"
  idp_githubEmails :: "string \<Rightarrow> githubEmailResponse list option"

text \<open>What one request may draw: the random tokens and the identifiers of new rows.\<close>

record login_draws =
  ld_state :: string
  ld_nonce :: string
  ld_verifier :: string
  ld_session :: bytes
  ld_csrf :: string
  ld_user :: string
  ld_rules :: "nat \<Rightarrow> string"
  ld_audit :: string
  ld_link :: string

record sign_in =
  si_crypto :: Crypto
  si_auth :: AuthService
  si_stateCodec :: "oauthState codec"
  si_linkCodec :: "linkState codec"
  si_detail :: "(string \<times> string) list \<Rightarrow> string"
  si_provider :: identity_provider

section \<open>Signed states (login.go, github.go)\<close>

definition oauthStateMaxAge :: int where
  "oauthStateMaxAge = 10 * 60 * 10 ^ 9"

definition linkStateMaxAge :: int where
  "linkStateMaxAge = 10 * 60 * 10 ^ 9"

text \<open>The format both share: the payload in base64, a dot, the HMAC in hexadecimal.\<close>

definition sign_payload :: "Crypto \<Rightarrow> AuthService \<Rightarrow> bytes \<Rightarrow> string" where
  "sign_payload c a p = b64_encode p @ CHR ''.'' # hmacHex c (as_csrfKey a) p"

definition open_payload :: "Crypto \<Rightarrow> AuthService \<Rightarrow> string \<Rightarrow> bytes option" where
  "open_payload c a v =
     (case cut CHR ''.'' v of (payloadB64, sig, ok) \<Rightarrow>
        if \<not> ok then None
        else case b64_decode payloadB64 of
          None \<Rightarrow> None
        | Some p \<Rightarrow> if hmacHex c (as_csrfKey a) p \<noteq> sig then None else Some p)"

definition signState :: "Crypto \<Rightarrow> AuthService \<Rightarrow> oauthState codec \<Rightarrow> oauthState \<Rightarrow> string" where
  "signState c a j st = sign_payload c a (cd_marshal j st)"

definition parseState :: "Crypto \<Rightarrow> AuthService \<Rightarrow> oauthState codec \<Rightarrow> int \<Rightarrow> string \<Rightarrow> oauthState option" where
  "parseState c a j now v =
     (case open_payload c a v of
        None \<Rightarrow> None
      | Some p \<Rightarrow>
          (case cd_unmarshal j p of
             None \<Rightarrow> None
           | Some st \<Rightarrow> if now - ost_IssuedAt st * 10 ^ 9 > oauthStateMaxAge then None else Some st))"

definition signLinkState :: "Crypto \<Rightarrow> AuthService \<Rightarrow> linkState codec \<Rightarrow> linkState \<Rightarrow> string" where
  "signLinkState c a j st = sign_payload c a (cd_marshal j st)"

definition parseLinkState :: "Crypto \<Rightarrow> AuthService \<Rightarrow> linkState codec \<Rightarrow> int \<Rightarrow> string \<Rightarrow> linkState option" where
  "parseLinkState c a j now v =
     (case open_payload c a v of
        None \<Rightarrow> None
      | Some p \<Rightarrow>
          (case cd_unmarshal j p of
             None \<Rightarrow> None
           | Some st \<Rightarrow> if now - lks_IssuedAt st * 10 ^ 9 > linkStateMaxAge then None else Some st))"

section \<open>Cookies (login.go, session.go)\<close>

definition oauthStateCookieNamePrefix :: "AuthService \<Rightarrow> string" where
  "oauthStateCookieNamePrefix a = (if secureCookies a then ''__Host-fbx_oauth_state'' else ''fbx_oauth_state_insecure'')"

definition oauthStateCookieName :: "AuthService \<Rightarrow> string \<Rightarrow> string" where
  "oauthStateCookieName a state = oauthStateCookieNamePrefix a @ ''-'' @ state"

definition set_cookie :: "AuthService \<Rightarrow> string \<Rightarrow> string \<Rightarrow> string \<Rightarrow> int \<Rightarrow> bool \<Rightarrow> http_cookie" where
  "set_cookie a name v path maxAge httpOnly =
     \<lparr>hc_Name = name, hc_Value = v, hc_Path = path, hc_MaxAge = maxAge, hc_HttpOnly = httpOnly, hc_Secure = secureCookies a\<rparr>"

definition setOAuthStateCookie :: "AuthService \<Rightarrow> string \<Rightarrow> string \<Rightarrow> http_cookie list" where
  "setOAuthStateCookie a state v =
     [set_cookie a (oauthStateCookieName a state) v ''/'' (oauthStateMaxAge div 10 ^ 9) True,
      set_cookie a ''fbx_oauth_state'' [] ''/auth'' (- 1) True]"

text \<open>\<^verbatim>\<open>int(d.Seconds())\<close> rounds towards zero.\<close>

definition whole_seconds :: "int \<Rightarrow> int" where
  "whole_seconds t = (if t < 0 then - ((- t) div 10 ^ 9) else t div 10 ^ 9)"

definition setSessionCookies :: "AuthService \<Rightarrow> string \<Rightarrow> string \<Rightarrow> int \<Rightarrow> http_cookie list" where
  "setSessionCookies a csrfToken rawSessionToken maxAge =
     [set_cookie a (sessionCookieName a) rawSessionToken ''/'' (whole_seconds maxAge) True,
      set_cookie a (csrfCookieName a) csrfToken ''/'' (whole_seconds maxAge) False,
      set_cookie a ''fbx_session'' [] ''/'' (- 1) True, set_cookie a ''fbx_csrf'' [] ''/'' (- 1) False]"

definition clearSessionCookies :: "AuthService \<Rightarrow> http_cookie list" where
  "clearSessionCookies a = map (\<lambda>name. set_cookie a name [] ''/'' (- 1) (name = sessionCookieName a \<or> name = ''fbx_session''))
     [sessionCookieName a, csrfCookieName a, ''fbx_session'', ''fbx_csrf'']"

section \<open>The login flow (login.go)\<close>

definition loginFailed :: "string \<Rightarrow> auth_reply" where
  "loginFailed message = RedirectTo (defaultReturnTo @ ''?login_error='' @ query_escape message)"

definition LoginURL :: "string \<Rightarrow> string" where
  "LoginURL returnTo = ''/auth/login'' @ (if returnTo \<noteq> [] then ''?return_to='' @ query_escape returnTo else [])"

definition DashboardURL :: "AuthService \<Rightarrow> string" where
  "DashboardURL a = trim_suffix (as_ControlOrigin a) ''/'' @ defaultReturnTo"

text \<open>The cookies that are cleared, and the state or the reason it is refused.\<close>

definition consumeOAuthStateCookie :: "sign_in \<Rightarrow> int \<Rightarrow> Request \<Rightarrow> string \<Rightarrow> http_cookie list \<times> (string + oauthState)" where
  "consumeOAuthStateCookie s now r queryState =
     (let a = si_auth s; name = oauthStateCookieName a queryState in
      ([set_cookie a name [] ''/'' (- 1) True, set_cookie a ''fbx_oauth_state'' [] ''/auth'' (- 1) True],
       (case Cookie r name of
          None \<Rightarrow> Inl ''missing OAuth state cookie (it may have expired -- try logging in again)''
        | Some v \<Rightarrow>
            (case parseState (si_crypto s) a (si_stateCodec s) now v of
               None \<Rightarrow> Inl ''invalid or expired OAuth state''
             | Some st \<Rightarrow> if ost_State st \<noteq> queryState then Inl ''OAuth state mismatch'' else Inr st))))"

definition start_login :: "sign_in \<Rightarrow> oauthState \<Rightarrow> auth_response" where
  "start_login s st =
     \<lparr>ap_Cookies = setOAuthStateCookie (si_auth s) (ost_State st) (signState (si_crypto s) (si_auth s) (si_stateCodec s) st),
      ap_Reply = RedirectProvider (ost_State st) (ost_Nonce st) (ost_Verifier st)\<rparr>"

definition handleGitHubLogin :: "sign_in \<Rightarrow> int \<Rightarrow> login_draws \<Rightarrow> string \<Rightarrow> auth_response" where
  "handleGitHubLogin s now d return_to =
     start_login s \<lparr>ost_State = ld_state d, ost_Nonce = [], ost_Verifier = [], ost_ReturnTo = sanitizeReturnTo return_to,
       ost_IssuedAt = toUnix now\<rparr>"

definition handleLogin :: "sign_in \<Rightarrow> int \<Rightarrow> login_draws \<Rightarrow> string \<Rightarrow> auth_response" where
  "handleLogin s now d return_to =
     (if idp_GitHub (si_provider s) then handleGitHubLogin s now d return_to
      else if \<not> idp_Discovered (si_provider s) then \<lparr>ap_Cookies = [], ap_Reply = NotAvailable\<rparr>
      else start_login s \<lparr>ost_State = ld_state d, ost_Nonce = ld_nonce d, ost_Verifier = ld_verifier d,
        ost_ReturnTo = sanitizeReturnTo return_to, ost_IssuedAt = toUnix now\<rparr>)"

definition completeLogin :: "sign_in \<Rightarrow> DB \<Rightarrow> int \<Rightarrow> login_draws \<Rightarrow> User \<Rightarrow> string \<Rightarrow> DB \<times> auth_response" where
  "completeLogin s db now d u returnTo =
     (case createSession (si_crypto s) db now (ld_session d) (u_ID u) of
        (db1, Inl _) \<Rightarrow> (db1, \<lparr>ap_Cookies = [], ap_Reply = loginFailed ''failed to create session''\<rparr>)
      | (db1, Inr (_, rawSessionToken)) \<Rightarrow>
          (Audit db1 now (ld_audit d) (u_ID u) ''user.login'' (''user:'' @ u_ID u) (si_detail s [(''email'', u_Email u)]),
           \<lparr>ap_Cookies = setSessionCookies (si_auth s) (ld_csrf d) rawSessionToken (sessionDuration db1),
            ap_Reply = RedirectTo (if returnTo = [] then defaultReturnTo else returnTo)\<rparr>))"

text \<open>The identity the provider vouches for: subject, e-mail address and name.\<close>

definition callback_identity :: "identity_provider \<Rightarrow> oauthState \<Rightarrow> string \<Rightarrow> string + string \<times> string \<times> string" where
  "callback_identity idp st code =
     (if \<not> idp_Discovered idp then Inl ''authentication is not available''
      else case idp_Exchange idp code (ost_Verifier st) of
        None \<Rightarrow> Inl ''token exchange failed''
      | Some rawIDToken \<Rightarrow>
          if rawIDToken = [] then Inl ''identity provider response had no id_token''
          else case idp_Verify idp rawIDToken of
            None \<Rightarrow> Inl ''id token verification failed''
          | Some tok \<Rightarrow>
              if ot_Nonce tok \<noteq> ost_Nonce st then Inl ''id token nonce mismatch''
              else case ot_Claims tok of
                None \<Rightarrow> Inl ''failed to decode id token claims''
              | Some cl \<Rightarrow>
                  if oc_email cl = [] \<or> \<not> oc_email_verified cl then Inl ''email address is not verified by the identity provider''
                  else Inr (ot_Subject tok, oc_email cl, oc_name cl))"

definition add_cookies :: "http_cookie list \<Rightarrow> auth_response \<Rightarrow> auth_response" where
  "add_cookies cs resp = resp\<lparr>ap_Cookies := cs @ ap_Cookies resp\<rparr>"

definition failed :: "string \<Rightarrow> auth_response" where
  "failed message = \<lparr>ap_Cookies = [], ap_Reply = loginFailed message\<rparr>"

text \<open>The common start of both callbacks; the continuation gets the state and the code.\<close>

definition with_state ::
  "sign_in \<Rightarrow> DB \<Rightarrow> int \<Rightarrow> Request \<Rightarrow> (string \<Rightarrow> string) \<Rightarrow> (oauthState \<Rightarrow> string \<Rightarrow> DB \<times> auth_response option) \<Rightarrow> DB \<times> auth_response option" where
  "with_state s db now r q k =
     (case consumeOAuthStateCookie s now r (q ''state'') of
        (cs, Inl message) \<Rightarrow> (db, Some (add_cookies cs (failed message)))
      | (cs, Inr st) \<Rightarrow>
          (case (if q ''error'' \<noteq> [] then (db, Some (failed (''identity provider returned an error: '' @ q ''error'')))
                 else if q ''code'' = [] then (db, Some (failed ''missing authorization code''))
                 else k st (q ''code'')) of
             (db1, resp) \<Rightarrow> (db1, map_option (add_cookies cs) resp)))"

definition finish_oidc :: "sign_in \<Rightarrow> DB \<Rightarrow> int \<Rightarrow> login_draws \<Rightarrow> oauthState \<Rightarrow> string \<Rightarrow> DB \<times> auth_response option" where
  "finish_oidc s db now d st code =
     (case callback_identity (si_provider s) st code of
        Inl message \<Rightarrow> (db, Some (failed message))
      | Inr (sub, email, name) \<Rightarrow>
          (case upsertUser (si_auth s) db now (ld_user d) (ld_rules d) sub email name of
             (db1, None) \<Rightarrow> (db1, None)
           | (db1, Some (Inl e)) \<Rightarrow>
               (db1, Some (failed (if e = ErrLoginDenied then ''this email address is not permitted to sign in'' else ''failed to complete sign-in'')))
           | (db1, Some (Inr u)) \<Rightarrow>
               (let returnTo = (if ost_ReturnTo st \<noteq> [] \<and> \<not> validLocalReturnTo (ost_ReturnTo st) then [] else ost_ReturnTo st) in
                apsnd Some (completeLogin s db1 now d u returnTo))))"

section \<open>GitHub (github.go)\<close>

fun selectVerifiedPrimaryEmail :: "githubEmailResponse list \<Rightarrow> string option" where
  "selectVerifiedPrimaryEmail [] = None"
| "selectVerifiedPrimaryEmail (e # es) =
     (if ge_Primary e then (if ge_Verified e \<and> ge_Email e \<noteq> [] then Some (ge_Email e) else None)
      else selectVerifiedPrimaryEmail es)"

definition githubHandleFromLogin :: "string \<Rightarrow> string" where
  "githubHandleFromLogin login = to_lower login"

datatype github_error = GitHubDenied | GitHubHandleTaken | GitHubStore auth_error

datatype githubLoginResult = GitHubUser User | NeedsConfirmation string

definition github_user :: "string \<Rightarrow> string \<Rightarrow> string \<Rightarrow> Role \<Rightarrow> UserStatus \<Rightarrow> User" where
  "github_user subject email ghLogin role st = (new_user subject email ghLogin role st)\<lparr>u_Provider := ProviderGitHub\<rparr>"

definition github_known :: "DB \<Rightarrow> int \<Rightarrow> User \<Rightarrow> string \<Rightarrow> DB \<times> (github_error + githubLoginResult)" where
  "github_known db now u email =
     (if u_Status u = UserStatusDisabled then (db, Inl GitHubDenied)
      else if \<not> checkLoginRules db email then (db, Inl GitHubDenied)
      else if u_Email u \<noteq> email then
        (case users_Update db (toUnix now) (u\<lparr>u_Email := email\<rparr>) of
           (db1, Inl e) \<Rightarrow> (db1, Inl (GitHubStore (ErrAuthStore e)))
         | (db1, Inr u1) \<Rightarrow> (db1, Inr (GitHubUser u1)))
      else (db, Inr (GitHubUser u)))"

definition claim_handle :: "DB \<Rightarrow> int \<Rightarrow> string \<Rightarrow> string \<Rightarrow> DB \<times> (github_error + unit)" where
  "claim_handle db now handle userID =
     (case handles_Create db (toUnix now) \<lparr>pu_UserID = handle, pu_InternalUserID = userID, pu_CreatedAt = 0, pu_UpdatedAt = 0\<rparr> of
        (db1, Inl e) \<Rightarrow> (db1, Inl (GitHubStore (ErrAuthStore e)))
      | (db1, Inr _) \<Rightarrow> (db1, Inr ()))"

definition github_member ::
  "DB \<Rightarrow> int \<Rightarrow> string \<Rightarrow> string \<Rightarrow> string \<Rightarrow> string \<Rightarrow> string \<Rightarrow> DB \<times> (github_error + githubLoginResult)" where
  "github_member db now fresh subject email ghLogin handle =
     (if \<not> checkLoginRules db email then (db, Inl GitHubDenied)
      else case users_Create db (toUnix now) fresh (github_user subject email ghLogin RoleMember (initialUserStatus db)) of
        (db1, Inl e) \<Rightarrow>
          (case users_ByProviderSubject db1 ProviderGitHub subject of
             Inr u \<Rightarrow> if e = ErrConflict then (db1, Inr (GitHubUser u)) else (db1, Inl (GitHubStore (ErrAuthStore e)))
           | Inl _ \<Rightarrow> (db1, Inl (GitHubStore (ErrAuthStore e))))
      | (db1, Inr u) \<Rightarrow>
          (case claim_handle db1 now handle (u_ID u) of
             (db2, Inl e) \<Rightarrow> (db2, Inl e)
           | (db2, Inr _) \<Rightarrow> (db2, Inr (GitHubUser u))))"

definition github_first ::
  "AuthService \<Rightarrow> DB \<Rightarrow> int \<Rightarrow> string \<Rightarrow> (nat \<Rightarrow> string) \<Rightarrow> string \<Rightarrow> string \<Rightarrow> string \<Rightarrow> string
     \<Rightarrow> DB \<times> (github_error + githubLoginResult)" where
  "github_first a db now fresh fresh_rules subject email ghLogin handle =
     (case BootstrapFirstUser db (toUnix now) fresh (github_user subject email ghLogin RoleMember UserStatusActive) ''funcbox'' of
        (db1, Inl ErrConflict) \<Rightarrow> github_member db1 now fresh subject email ghLogin handle
      | (db1, Inl e) \<Rightarrow> (db1, Inl (GitHubStore (ErrAuthStore e)))
      | (db1, Inr u) \<Rightarrow>
          (case claim_handle db1 now handle (u_ID u) of
             (db2, Inl e) \<Rightarrow> (db2, Inl e)
           | (db2, Inr _) \<Rightarrow>
               (case seedBootstrapLoginRule a db2 now fresh_rules email of
                  (db3, Inl e) \<Rightarrow> (db3, Inl (GitHubStore e))
                | (db3, Inr _) \<Rightarrow> (db3, Inr (GitHubUser u)))))"

definition github_existing :: "DB \<Rightarrow> User \<Rightarrow> string \<Rightarrow> string \<Rightarrow> github_error + githubLoginResult" where
  "github_existing db existing email handleOwnerID =
     (if u_Status existing = UserStatusDisabled then Inl GitHubDenied
      else if \<not> checkLoginRules db email then Inl GitHubDenied
      else if handleOwnerID \<noteq> [] \<and> handleOwnerID \<noteq> u_ID existing then Inl GitHubHandleTaken
      else Inr (NeedsConfirmation (u_ID existing)))"

definition resolveGitHubLogin ::
  "AuthService \<Rightarrow> DB \<Rightarrow> int \<Rightarrow> string \<Rightarrow> (nat \<Rightarrow> string) \<Rightarrow> string \<Rightarrow> string \<Rightarrow> string \<Rightarrow> string
     \<Rightarrow> DB \<times> (github_error + githubLoginResult)" where
  "resolveGitHubLogin a db now fresh fresh_rules subject email ghLogin handle =
     (case users_ByProviderSubject db ProviderGitHub subject of
        Inr u \<Rightarrow> github_known db now u email
      | Inl e \<Rightarrow>
          if e \<noteq> ErrNotFound then (db, Inl (GitHubStore (ErrAuthStore e)))
          else
            let handleOwnerID = (case handles_ByUserID db handle of Inr pid \<Rightarrow> pu_InternalUserID pid | Inl _ \<Rightarrow> []) in
            case users_ByEmail db email of
              Inr existing \<Rightarrow> (db, github_existing db existing email handleOwnerID)
            | Inl _ \<Rightarrow>
                if handleOwnerID \<noteq> [] then (db, Inl GitHubHandleTaken)
                else if users_List db = [] then github_first a db now fresh fresh_rules subject email ghLogin handle
                else github_member db now fresh subject email ghLogin handle)"

definition github_failure :: "github_error \<Rightarrow> string" where
  "github_failure e =
     (case e of
        GitHubDenied \<Rightarrow> ''this email address is not permitted to sign in''
      | GitHubHandleTaken \<Rightarrow> ''the funcbox handle matching this GitHub username is already in use by another account''
      | GitHubStore _ \<Rightarrow> ''failed to complete sign-in'')"

text \<open>The identity GitHub vouches for: profile and verified primary address. A GitHub error text is not modelled.\<close>

definition github_identity :: "identity_provider \<Rightarrow> string \<Rightarrow> string + githubUserResponse \<times> string" where
  "github_identity idp code =
     (case idp_githubExchange idp code of
        None \<Rightarrow> Inl ''token exchange failed''
      | Some token \<Rightarrow>
          (case idp_githubUser idp token of
             None \<Rightarrow> Inl ''failed to fetch GitHub profile''
           | Some ghUser \<Rightarrow>
               (case idp_githubEmails idp token of
                  None \<Rightarrow> Inl ''failed to fetch GitHub email addresses''
                | Some emails \<Rightarrow>
                    (case selectVerifiedPrimaryEmail emails of
                       None \<Rightarrow> Inl ''this GitHub account has no verified primary email address''
                     | Some email \<Rightarrow>
                         if \<not> is_ok (ValidateUserID (githubHandleFromLogin (gu_Login ghUser)))
                         then Inl ''this GitHub username cannot be used as a funcbox handle''
                         else Inr (ghUser, email)))))"

definition finish_github :: "sign_in \<Rightarrow> DB \<Rightarrow> int \<Rightarrow> login_draws \<Rightarrow> oauthState \<Rightarrow> string \<Rightarrow> DB \<times> auth_response option" where
  "finish_github s db now d st code =
     (case github_identity (si_provider s) code of
        Inl message \<Rightarrow> (db, Some (failed message))
      | Inr (ghUser, email) \<Rightarrow>
          (let handle = githubHandleFromLogin (gu_Login ghUser); subject = int_str (gu_ID ghUser) in
           case resolveGitHubLogin (si_auth s) db now (ld_user d) (ld_rules d) subject email (gu_Login ghUser) handle of
             (db1, Inl e) \<Rightarrow> (db1, Some (failed (github_failure e)))
           | (db1, Inr (NeedsConfirmation existing)) \<Rightarrow>
               (db1, Some \<lparr>ap_Cookies = [], ap_Reply = RedirectTo (''/auth/link/confirm?token='' @ query_escape
                  (signLinkState (si_crypto s) (si_auth s) (si_linkCodec s) \<lparr>lks_Subject = subject, lks_Email = email,
                     lks_Login = gu_Login ghUser, lks_NewHandle = handle, lks_ExistingUserID = existing,
                     lks_ReturnTo = ost_ReturnTo st, lks_IssuedAt = toUnix now\<rparr>))\<rparr>)
           | (db1, Inr (GitHubUser u)) \<Rightarrow> apsnd Some (completeLogin s db1 now d u (ost_ReturnTo st))))"

definition handleCallback ::
  "sign_in \<Rightarrow> DB \<Rightarrow> int \<Rightarrow> login_draws \<Rightarrow> Request \<Rightarrow> (string \<Rightarrow> string) \<Rightarrow> DB \<times> auth_response option" where
  "handleCallback s db now d r q =
     with_state s db now r q (if idp_GitHub (si_provider s) then finish_github s db now d else finish_oidc s db now d)"

section \<open>Linking an account (github.go)\<close>

definition link_confirm_invalid :: string where
  "link_confirm_invalid = ''this account link confirmation is invalid or has expired -- please sign in again''"

definition handleLinkConfirmForm :: "sign_in \<Rightarrow> int \<Rightarrow> string \<Rightarrow> auth_response" where
  "handleLinkConfirmForm s now token =
     (case parseLinkState (si_crypto s) (si_auth s) (si_linkCodec s) now token of
        None \<Rightarrow> failed link_confirm_invalid
      | Some st \<Rightarrow> \<lparr>ap_Cookies = [], ap_Reply = LinkPage st token\<rparr>)"

definition link_handle :: "DB \<Rightarrow> int \<Rightarrow> string \<Rightarrow> string \<Rightarrow> string \<Rightarrow> DB \<times> (github_error + unit)" where
  "link_handle db now userID oldHandle newHandle =
     (if oldHandle = newHandle then (db, Inr ())
      else if oldHandle = [] then claim_handle db now newHandle userID
      else case handles_Rename db (toUnix now) oldHandle newHandle of
        (db1, Inl e) \<Rightarrow> (db1, Inl (GitHubStore (ErrAuthStore e)))
      | (db1, Inr _) \<Rightarrow> (db1, Inr ()))"

definition provider_String :: "Provider \<Rightarrow> string" where
  "provider_String p = (case p of ProviderGoogle \<Rightarrow> ''google'' | ProviderGitHub \<Rightarrow> ''github'')"

definition completeGitHubLink :: "sign_in \<Rightarrow> DB \<Rightarrow> int \<Rightarrow> login_draws \<Rightarrow> linkState \<Rightarrow> DB \<times> (github_error + User)" where
  "completeGitHubLink s db now d st =
     (case users_ByID db (lks_ExistingUserID st) of
        Inl e \<Rightarrow> (db, Inl (GitHubStore (ErrAuthStore e)))
      | Inr u \<Rightarrow>
          if u_Status u = UserStatusDisabled then (db, Inl GitHubDenied)
          else if \<not> checkLoginRules db (lks_Email st) then (db, Inl GitHubDenied)
          else
            let oldHandle = (case handles_ByOwner db (u_ID u) of Inr pid \<Rightarrow> pu_UserID pid | Inl _ \<Rightarrow> []);
                u1 = u\<lparr>u_Provider := ProviderGitHub, u_ProviderSubject := lks_Subject st, u_Email := lks_Email st\<rparr> in
            case users_Update db (toUnix now) u1 of
              (db1, Inl e) \<Rightarrow> (db1, Inl (GitHubStore (ErrAuthStore e)))
            | (db1, Inr u2) \<Rightarrow>
                (case link_handle db1 now (u_ID u) oldHandle (lks_NewHandle st) of
                   (db2, Inl e) \<Rightarrow> (db2, Inl e)
                 | (db2, Inr _) \<Rightarrow>
                     (Audit db2 now (ld_link d) (u_ID u) ''user.provider.link'' (''user:'' @ u_ID u)
                        (si_detail s [(''old_provider'', provider_String (u_Provider u)), (''old_subject'', u_ProviderSubject u),
                           (''old_handle'', oldHandle), (''new_provider'', provider_String ProviderGitHub),
                           (''new_subject'', lks_Subject st), (''new_handle'', lks_NewHandle st)]), Inr u2)))"

text \<open>\<open>form\<close> is the value of the form field \<^verbatim>\<open>token\<close>, \<open>None\<close> when the form does not parse.\<close>

definition handleLinkConfirmSubmit :: "sign_in \<Rightarrow> DB \<Rightarrow> int \<Rightarrow> login_draws \<Rightarrow> string option \<Rightarrow> DB \<times> auth_response" where
  "handleLinkConfirmSubmit s db now d form =
     (case form of
        None \<Rightarrow> (db, failed ''invalid confirmation request'')
      | Some token \<Rightarrow>
          (case parseLinkState (si_crypto s) (si_auth s) (si_linkCodec s) now token of
             None \<Rightarrow> (db, failed link_confirm_invalid)
           | Some st \<Rightarrow>
               (case completeGitHubLink s db now d st of
                  (db1, Inl e) \<Rightarrow>
                    (db1, failed (if e = GitHubDenied then ''this email address is not permitted to sign in'' else ''failed to complete account link''))
                | (db1, Inr u) \<Rightarrow> completeLogin s db1 now d u (lks_ReturnTo st))))"

section \<open>Routes (login.go)\<close>

datatype auth_route = RouteLogin | RouteCallback | RouteLogout | RouteInvoke | RouteLinkForm | RouteLinkSubmit

definition auth_Routes :: "string \<Rightarrow> string \<Rightarrow> auth_reply + auth_route" where
  "auth_Routes meth path =
     (let get = (meth = ''GET'' \<or> meth = ''HEAD'') in
      if path = ''/auth/login'' then (if get then Inr RouteLogin else Inl MethodNotAllowed)
      else if path = ''/auth/callback'' then (if get then Inr RouteCallback else Inl MethodNotAllowed)
      else if path = ''/auth/logout'' then (if get \<or> meth = ''POST'' then Inr RouteLogout else Inl MethodNotAllowed)
      else if path = ''/auth/invoke'' then (if get then Inr RouteInvoke else Inl MethodNotAllowed)
      else if path = ''/auth/link/confirm'' then
        (if get then Inr RouteLinkForm else if meth = ''POST'' then Inr RouteLinkSubmit else Inl MethodNotAllowed)
      else Inl NoRoute)"

section \<open>Lemmas\<close>

lemma cut_join: "cut ch s = (b, t, True) \<Longrightarrow> s = b @ ch # t"
proof -
  assume c: "cut ch s = (b, t, True)"
  then have "dropWhile (\<lambda>x. x \<noteq> ch) s \<noteq> []" by (auto simp: cut_def split: if_splits)
  then have "dropWhile (\<lambda>x. x \<noteq> ch) s = ch # tl (dropWhile (\<lambda>x. x \<noteq> ch) s)"
    using hd_dropWhile by (metis (mono_tags) list.collapse)
  moreover have "b = takeWhile (\<lambda>x. x \<noteq> ch) s" "t = tl (dropWhile (\<lambda>x. x \<noteq> ch) s)"
    using c by (simp_all add: cut_def split: if_splits)
  ultimately show ?thesis by (metis takeWhile_dropWhile_id)
qed

lemma open_payload_Some:
  "open_payload c a v = Some p \<Longrightarrow> \<exists>b. v = b @ CHR ''.'' # hmacHex c (as_csrfKey a) p \<and> b64_decode b = Some p"
proof -
  assume "open_payload c a v = Some p"
  then obtain b sig where b: "cut CHR ''.'' v = (b, sig, True)" "b64_decode b = Some p" "hmacHex c (as_csrfKey a) p = sig"
    by (auto simp: open_payload_def split: prod.splits option.splits if_splits)
  then show ?thesis using cut_join [OF b(1)] by blast
qed

lemma open_sign [simp]: "open_payload c a (sign_payload c a p) = Some p"
  by (simp add: open_payload_def sign_payload_def cut_dot [OF b64_encode_no_dot])

lemma parse_sign_state:
  assumes "cd_unmarshal j (cd_marshal j st) = Some st"
  shows "parseState c a j now (signState c a j st) = (if now - ost_IssuedAt st * 10 ^ 9 > oauthStateMaxAge then None else Some st)"
  using assms by (simp add: parseState_def signState_def)

lemma createSession_Inl_same: "createSession c db now raw i = (d, Inl e) \<Longrightarrow> d = db"
  by (auto simp: createSession_def sessions_Create_def Let_def split: prod.splits sum.splits if_splits)

text \<open>What a login leaves alone, and whose account it ends at.\<close>

lemma login_writes_sessions:
  "users_Update db t u = (db', r1) \<Longrightarrow> db_sessions db' = db_sessions db"
  "users_Create db t i u = (db', r1) \<Longrightarrow> db_sessions db' = db_sessions db"
  "BootstrapFirstUser db t i u n = (db', r1) \<Longrightarrow> db_sessions db' = db_sessions db"
  "handles_Create db t h = (db', r2) \<Longrightarrow> db_sessions db' = db_sessions db"
  "handles_Rename db t x y = (db', r3) \<Longrightarrow> db_sessions db' = db_sessions db"
  "org_Update db t og = (db', r4) \<Longrightarrow> db_sessions db' = db_sessions db"
  "replace_rules db fr rules = (db', r5) \<Longrightarrow> db_sessions db' = db_sessions db"
  by (auto simp: users_Update_def users_Create_def BootstrapFirstUser_def handles_Create_def handles_Rename_def org_Update_def
      replace_rules_def org_ReplaceLoginRules_def Let_def split: option.splits if_splits sum.splits prod.splits)

lemma claim_sessions:
  "claimUserID db now u = (db', r1) \<Longrightarrow> db_sessions db' = db_sessions db"
  "claim_handle db now h i = (db', r2) \<Longrightarrow> db_sessions db' = db_sessions db"
  by (auto simp: claimUserID_def claim_handle_def dest!: login_writes_sessions split: option.splits sum.splits prod.splits)

lemma seed_sessions: "seedBootstrapLoginRule a db now fr email = (db', r) \<Longrightarrow> db_sessions db' = db_sessions db"
  by (auto simp: seedBootstrapLoginRule_def applyBootstrapOpenMode_def dest!: login_writes_sessions
      split: option.splits sum.splits prod.splits if_splits)

lemma Audit_sessions [simp]: "db_sessions (Audit db now i actor act target detail) = db_sessions db"
  by (auto simp: Audit_def audit_Append_def Let_def)

definition bound_to :: "DB \<Rightarrow> User \<Rightarrow> Provider \<Rightarrow> string \<Rightarrow> string \<Rightarrow> bool" where
  "bound_to db u p sub email \<longleftrightarrow> u \<in> set (db_users db)
     \<and> u_Provider u = p \<and> u_ProviderSubject u = sub \<and> u_Email u = email \<and> u_Status u \<noteq> UserStatusDisabled"

lemma known_account:
  assumes "users_ByProviderSubject db p sub = Inr u"
  shows "upsert_known db now u email name = (db1, Inr v1) \<Longrightarrow> bound_to db1 v1 p sub email \<and> checkLoginRules db email"
    and "github_known db now u email = (db2, Inr r2) \<Longrightarrow> \<exists>v. r2 = GitHubUser v \<and> bound_to db2 v p sub email \<and> checkLoginRules db email"
  using ByProviderSubject_Inr [OF assms]
  by (auto simp: upsert_known_def github_known_def bound_to_def users_Update_def update_rows_def Let_def
      split: if_splits prod.splits sum.splits option.splits)

lemma known_sessions:
  "upsert_known db now u email name = (db1, r1) \<Longrightarrow> db_sessions db1 = db_sessions db"
  "github_known db now u email = (db2, r2) \<Longrightarrow> db_sessions db2 = db_sessions db"
  by (auto simp: upsert_known_def github_known_def dest!: login_writes_sessions split: if_splits prod.splits sum.splits)

lemma created_account:
  "users_Create db t fresh u = (db1, Inr v) \<Longrightarrow> u_Status u \<noteq> UserStatusDisabled \<Longrightarrow>
     bound_to db1 v (u_Provider u) (u_ProviderSubject u) (u_Email u)"
  "BootstrapFirstUser db t fresh u n = (db1, Inr v) \<Longrightarrow> bound_to db1 v (u_Provider u) (u_ProviderSubject u) (u_Email u)"
  by (auto simp: users_Create_def BootstrapFirstUser_def bound_to_def Let_def split: if_splits)

lemma bound_to_cong: "bound_to db u p sub email \<Longrightarrow> db_users db' = db_users db \<Longrightarrow> bound_to db' u p sub email"
  by (simp add: bound_to_def)

lemma claim_users: "claim_handle db now h i = (db', r) \<Longrightarrow> db_users db' = db_users db \<and> db_login_rules db' = db_login_rules db"
  by (auto simp: claim_handle_def handles_Create_def Let_def split: sum.splits prod.splits if_splits)

lemma member_sessions:
  "upsert_member db now fresh sub email name = (db1, r1) \<Longrightarrow> db_sessions db1 = db_sessions db"
  "github_member db now fresh sub email name h = (db2, r2) \<Longrightarrow> db_sessions db2 = db_sessions db"
  by (auto simp: upsert_member_def github_member_def dest!: login_writes_sessions claim_sessions
      split: if_splits prod.splits sum.splits option.splits)

lemma first_sessions:
  "upsert_first a db now fresh fr sub email name = (db1, r1) \<Longrightarrow> db_sessions db1 = db_sessions db"
  "github_first a db now fresh fr sub email name h = (db2, r2) \<Longrightarrow> db_sessions db2 = db_sessions db"
  by (auto simp: upsert_first_def github_first_def dest!: login_writes_sessions claim_sessions member_sessions seed_sessions
      split: if_splits prod.splits sum.splits option.splits store_error.splits)

lemma upsertUser_sessions: "upsertUser a db now fresh fr sub email name = (db1, r1) \<Longrightarrow> db_sessions db1 = db_sessions db"
  by (auto simp: upsertUser_def dest!: known_sessions member_sessions first_sessions split: if_splits prod.splits sum.splits)

lemma resolveGitHubLogin_sessions:
  "resolveGitHubLogin a db now fresh fr sub email login h = (db2, r2) \<Longrightarrow> db_sessions db2 = db_sessions db"
  by (auto simp: resolveGitHubLogin_def Let_def dest!: known_sessions member_sessions first_sessions split: if_splits prod.splits sum.splits)

lemma initial_not_disabled [simp]: "initialUserStatus db \<noteq> UserStatusDisabled"
  by (simp add: initialUserStatus_def)

lemma create_conflict_same: "users_Create db t fresh u = (db1, Inl e) \<Longrightarrow> db1 = db"
  by (auto simp: users_Create_def Let_def split: if_splits)

lemma member_account:
  assumes "users_ByProviderSubject db ProviderGoogle sub = Inl e"
    and "upsert_member db now fresh sub email name = (db1, Some (Inr v))"
  shows "bound_to db1 v ProviderGoogle sub email \<and> checkLoginRules db email"
proof -
  let ?n = "new_user sub email name RoleMember (initialUserStatus db)"
  have rules: "checkLoginRules db email" using assms(2) by (auto simp: upsert_member_def split: if_splits)
  then obtain db0 where c: "users_Create db (toUnix now) fresh ?n = (db0, Inr v)" "claimUserID db0 now v = (db1, Some (Inr ()))"
    using assms by (auto simp: upsert_member_def dest!: create_conflict_same split: prod.splits sum.splits option.splits if_splits)
  from created_account(1) [OF c(1)] claimUserID_frame [OF c(2)] rules show ?thesis
    by (auto simp: new_user_def intro: bound_to_cong)
qed

lemma github_member_account:
  assumes "users_ByProviderSubject db ProviderGitHub sub = Inl e"
    and "github_member db now fresh sub email login h = (db1, Inr x)"
  shows "\<exists>v. x = GitHubUser v \<and> bound_to db1 v ProviderGitHub sub email \<and> checkLoginRules db email"
proof -
  let ?n = "github_user sub email login RoleMember (initialUserStatus db)"
  have rules: "checkLoginRules db email" using assms(2) by (auto simp: github_member_def split: if_splits)
  then obtain db0 v where c: "users_Create db (toUnix now) fresh ?n = (db0, Inr v)" "claim_handle db0 now h (u_ID v) = (db1, Inr ())"
      "x = GitHubUser v"
    using assms by (auto simp: github_member_def dest!: create_conflict_same split: prod.splits sum.splits if_splits)
  from created_account(1) [OF c(1)] claim_users [OF c(2)] c(3) rules show ?thesis
    by (auto simp: github_user_def new_user_def intro: bound_to_cong)
qed

lemma first_account:
  assumes "db_users db = []" and "upsert_first a db now fresh fr sub email name = (db1, Some (Inr v))"
  shows "bound_to db1 v ProviderGoogle sub email"
proof -
  let ?n = "new_user sub email name RoleMember UserStatusActive"
  obtain d1 d2 where b: "BootstrapFirstUser db (toUnix now) fresh ?n ''funcbox'' = (d1, Inr v)"
      "claimUserID d1 now v = (d2, Some (Inr ()))" "seedBootstrapLoginRule a d2 now fr email = (db1, Inr ())"
    using assms by (auto simp: upsert_first_def BootstrapFirstUser_def Let_def split: prod.splits sum.splits option.splits)
  then show ?thesis using created_account(2) [OF b(1)] claimUserID_frame(1) [OF b(2)] seed_rules [OF b(3)]
    by (auto simp: new_user_def intro: bound_to_cong)
qed

lemma github_first_account:
  assumes "db_users db = []" and "github_first a db now fresh fr sub email login h = (db1, Inr x)"
  shows "\<exists>v. x = GitHubUser v \<and> bound_to db1 v ProviderGitHub sub email"
proof -
  let ?n = "github_user sub email login RoleMember UserStatusActive"
  obtain d1 d2 v where b: "BootstrapFirstUser db (toUnix now) fresh ?n ''funcbox'' = (d1, Inr v)"
      "claim_handle d1 now h (u_ID v) = (d2, Inr ())" "seedBootstrapLoginRule a d2 now fr email = (db1, Inr ())" "x = GitHubUser v"
    using assms by (auto simp: github_first_def BootstrapFirstUser_def Let_def split: prod.splits sum.splits option.splits)
  then show ?thesis using created_account(2) [OF b(1)] claim_users [OF b(2)] seed_rules [OF b(3)]
    by (auto simp: github_user_def new_user_def intro: bound_to_cong)
qed

lemma ByProviderSubject_Inl: "users_ByProviderSubject db p sub = Inl e \<Longrightarrow> e = ErrNotFound"
  by (auto simp: users_ByProviderSubject_def found_def split: option.splits)

lemma upsertUser_account:
  assumes "upsertUser a db now fresh fr sub email name = (db1, Some (Inr v))"
  shows "bound_to db1 v ProviderGoogle sub email \<and> (db_users db = [] \<or> checkLoginRules db email)"
proof (cases "users_ByProviderSubject db ProviderGoogle sub")
  case (Inl e)
  then show ?thesis using assms ByProviderSubject_Inl [OF Inl] first_account member_account [OF Inl]
    by (fastforce simp: upsertUser_def split: if_splits)
next
  case (Inr u)
  then show ?thesis using assms known_account(1) [OF Inr] by (auto simp: upsertUser_def split: prod.splits)
qed

lemma resolve_account:
  assumes "resolveGitHubLogin a db now fresh fr sub email login h = (db1, Inr (GitHubUser v))"
  shows "bound_to db1 v ProviderGitHub sub email \<and> (db_users db = [] \<or> checkLoginRules db email)"
proof (cases "users_ByProviderSubject db ProviderGitHub sub")
  case (Inl e)
  then have "e = ErrNotFound" by (rule ByProviderSubject_Inl)
  then have "if db_users db = [] then github_first a db now fresh fr sub email login h = (db1, Inr (GitHubUser v))
      else github_member db now fresh sub email login h = (db1, Inr (GitHubUser v))"
    using assms Inl by (auto simp: resolveGitHubLogin_def github_existing_def Let_def split: if_splits sum.splits)
  then show ?thesis using github_first_account github_member_account [OF Inl] by (fastforce split: if_splits)
next
  case (Inr u)
  then show ?thesis using assms known_account(2) [OF Inr] by (fastforce simp: resolveGitHubLogin_def)
qed

text \<open>What the provider has to say before an identity counts.\<close>

definition vouched_oidc :: "identity_provider \<Rightarrow> oauthState \<Rightarrow> string \<Rightarrow> string \<Rightarrow> string \<Rightarrow> bool" where
  "vouched_oidc idp st code sub email \<longleftrightarrow>
     (\<exists>raw tok cl. idp_Exchange idp code (ost_Verifier st) = Some raw \<and> idp_Verify idp raw = Some tok
        \<and> ot_Nonce tok = ost_Nonce st \<and> ot_Subject tok = sub \<and> ot_Claims tok = Some cl
        \<and> oc_email cl = email \<and> email \<noteq> [] \<and> oc_email_verified cl)"

definition vouched_github :: "identity_provider \<Rightarrow> string \<Rightarrow> string \<Rightarrow> string \<Rightarrow> bool" where
  "vouched_github idp code sub email \<longleftrightarrow>
     (\<exists>token gu es e. idp_githubExchange idp code = Some token \<and> idp_githubUser idp token = Some gu \<and> sub = int_str (gu_ID gu)
        \<and> idp_githubEmails idp token = Some es \<and> e \<in> set es \<and> ge_Primary e \<and> ge_Verified e \<and> ge_Email e = email \<and> email \<noteq> [])"

lemma selectVerifiedPrimaryEmail_Some:
  "selectVerifiedPrimaryEmail es = Some m \<Longrightarrow> \<exists>e \<in> set es. ge_Primary e \<and> ge_Verified e \<and> ge_Email e = m \<and> m \<noteq> []"
  by (induction es rule: selectVerifiedPrimaryEmail.induct) (auto split: if_splits)

lemma callback_identity_vouched: "callback_identity idp st code = Inr (sub, email, name) \<Longrightarrow> vouched_oidc idp st code sub email"
  by (auto simp: callback_identity_def vouched_oidc_def split: if_splits option.splits)

lemma github_identity_vouched:
  "github_identity idp code = Inr (gu, email) \<Longrightarrow> vouched_github idp code (int_str (gu_ID gu)) email"
  by (auto simp: github_identity_def vouched_github_def dest!: selectVerifiedPrimaryEmail_Some split: if_splits option.splits)

lemma consume_Inr:
  assumes "snd (consumeOAuthStateCookie s now r x) = Inr st"
  shows "\<exists>b p. Cookie r (oauthStateCookieName (si_auth s) x) = Some (b @ CHR ''.'' # hmacHex (si_crypto s) (as_csrfKey (si_auth s)) p)
    \<and> b64_decode b = Some p \<and> cd_unmarshal (si_stateCodec s) p = Some st \<and> ost_State st = x
    \<and> now \<le> ost_IssuedAt st * 10 ^ 9 + oauthStateMaxAge"
proof -
  obtain v p where v: "Cookie r (oauthStateCookieName (si_auth s) x) = Some v"
      "open_payload (si_crypto s) (si_auth s) v = Some p" "cd_unmarshal (si_stateCodec s) p = Some st"
    and st: "ost_State st = x" "\<not> now - ost_IssuedAt st * 10 ^ 9 > oauthStateMaxAge"
    using assms by (auto simp: consumeOAuthStateCookie_def parseState_def Let_def split: option.splits if_splits)
  obtain b where "v = b @ CHR ''.'' # hmacHex (si_crypto s) (as_csrfKey (si_auth s)) p" "b64_decode b = Some p"
    using open_payload_Some [OF v(2)] by blast
  moreover have "now \<le> ost_IssuedAt st * 10 ^ 9 + oauthStateMaxAge" using st(2) by simp
  ultimately show ?thesis using v st(1) by blast
qed

section \<open>A session needs a vouched identity\<close>

lemma Audit_users [simp]: "db_users (Audit db now i actor act target detail) = db_users db"
  by (auto simp: Audit_def audit_Append_def Let_def)

definition signed_in :: "sign_in \<Rightarrow> DB \<Rightarrow> DB \<Rightarrow> login_draws \<Rightarrow> User \<Rightarrow> bool" where
  "signed_in s db db' d u \<longleftrightarrow> (\<exists>se. db_sessions db' = db_sessions db @ [se] \<and> se_UserID se = u_ID u
     \<and> se_ID se = sha256Hex (si_crypto s) (ld_session d))"

lemma completeLogin_effect:
  assumes "completeLogin s db now d u rt = (db', resp)"
  shows "db_users db' = db_users db"
    and "db_sessions db' \<noteq> db_sessions db \<Longrightarrow> signed_in s db db' d u"
    and "db_sessions db' = db_sessions db \<Longrightarrow> ap_Cookies resp = []"
    and "ap_Cookies resp = [] \<or> ap_Reply resp = RedirectTo (if rt = [] then defaultReturnTo else rt)"
  using assms createSession_Inr createSession_Inl_same
  by (fastforce simp: completeLogin_def signed_in_def split: prod.splits sum.splits)+

lemma with_state_cases:
  assumes "with_state s db now r q k = (db', resp)" and "db_sessions db' \<noteq> db_sessions db"
  obtains st resp0 where "snd (consumeOAuthStateCookie s now r (q ''state'')) = Inr st" "q ''error'' = []" "q ''code'' \<noteq> []"
    "k st (q ''code'') = (db', resp0)" "resp = map_option (add_cookies (fst (consumeOAuthStateCookie s now r (q ''state'')))) resp0"
  using assms by (auto simp: with_state_def split: prod.splits sum.splits if_splits)

lemma finish_oidc_bound:
  assumes "finish_oidc s db now d st code = (db', resp)" and "db_sessions db' \<noteq> db_sessions db"
  shows "\<exists>sub email u. vouched_oidc (si_provider s) st code sub email \<and> bound_to db' u ProviderGoogle sub email
    \<and> (db_users db = [] \<or> checkLoginRules db email) \<and> signed_in s db db' d u"
proof -
  obtain sub email name where i: "callback_identity (si_provider s) st code = Inr (sub, email, name)"
    using assms by (auto simp: finish_oidc_def split: sum.splits)
  obtain db1 o1 where u: "upsertUser (si_auth s) db now (ld_user d) (ld_rules d) sub email name = (db1, o1)" by fastforce
  note same = upsertUser_sessions [OF u]
  then obtain v where v: "o1 = Some (Inr v)" using assms i u
    by (auto simp: finish_oidc_def split: option.splits sum.splits)
  then obtain rt resp0 where c: "completeLogin s db1 now d v rt = (db', resp0)"
    using assms(1) i u by (auto simp: finish_oidc_def Let_def apsnd_def map_prod_def split: prod.splits)
  have "signed_in s db db' d v" using completeLogin_effect(2) [OF c] assms(2) same by (simp add: signed_in_def)
  moreover have "bound_to db' v ProviderGoogle sub email \<and> (db_users db = [] \<or> checkLoginRules db email)"
    using upsertUser_account u v completeLogin_effect(1) [OF c] bound_to_cong by blast
  ultimately show ?thesis using callback_identity_vouched [OF i] by blast
qed

lemma finish_github_bound:
  assumes "finish_github s db now d st code = (db', resp)" and "db_sessions db' \<noteq> db_sessions db"
  shows "\<exists>sub email u. vouched_github (si_provider s) code sub email \<and> bound_to db' u ProviderGitHub sub email
    \<and> (db_users db = [] \<or> checkLoginRules db email) \<and> signed_in s db db' d u"
proof -
  obtain gu email where i: "github_identity (si_provider s) code = Inr (gu, email)"
    using assms by (auto simp: finish_github_def split: sum.splits)
  let ?res = "resolveGitHubLogin (si_auth s) db now (ld_user d) (ld_rules d) (int_str (gu_ID gu)) email (gu_Login gu) (githubHandleFromLogin (gu_Login gu))"
  obtain db1 r1 where u: "?res = (db1, r1)" by fastforce
  note same = resolveGitHubLogin_sessions [OF u]
  then obtain v where v: "r1 = Inr (GitHubUser v)" using assms i u
    by (auto simp: finish_github_def Let_def split: sum.splits githubLoginResult.splits)
  then obtain resp0 where c: "completeLogin s db1 now d v (ost_ReturnTo st) = (db', resp0)"
    using assms(1) i u by (auto simp: finish_github_def Let_def apsnd_def map_prod_def split: prod.splits)
  have "signed_in s db db' d v" using completeLogin_effect(2) [OF c] assms(2) same by (simp add: signed_in_def)
  moreover have "bound_to db' v ProviderGitHub (int_str (gu_ID gu)) email \<and> (db_users db = [] \<or> checkLoginRules db email)"
    using resolve_account u v completeLogin_effect(1) [OF c] bound_to_cong by blast
  ultimately show ?thesis using github_identity_vouched [OF i] by blast
qed

text \<open>
  C21. A browser callback signs someone in only with both halves of the proof. If a callback
  writes a session, then the browser presented the cookie of exactly this login: its name
  carries the state of the query, its value an HMAC under the server's key over a state that
  equals the query's and was issued at most ten minutes before. The provider reported no error
  and vouched for the identity: an ID token with the login's nonce and a verified address, or
  a GitHub profile whose primary address is verified. One session is added, under the hash of the fresh token,
  for the stored account bound to that very subject and address, which is not disabled and
  whose address the login rules admit (unless it is the first account of all).
\<close>

theorem callback_bound:
  assumes "handleCallback s db now d r q = (db', resp)" and "db_sessions db' \<noteq> db_sessions db"
  shows "\<exists>b p st sub email u.
      Cookie r (oauthStateCookieName (si_auth s) (q ''state'')) = Some (b @ CHR ''.'' # hmacHex (si_crypto s) (as_csrfKey (si_auth s)) p)
    \<and> b64_decode b = Some p \<and> cd_unmarshal (si_stateCodec s) p = Some st \<and> ost_State st = q ''state''
    \<and> now \<le> ost_IssuedAt st * 10 ^ 9 + oauthStateMaxAge \<and> q ''error'' = []
    \<and> (if idp_GitHub (si_provider s) then vouched_github (si_provider s) (q ''code'') sub email
       else vouched_oidc (si_provider s) st (q ''code'') sub email)
    \<and> bound_to db' u (if idp_GitHub (si_provider s) then ProviderGitHub else ProviderGoogle) sub email
    \<and> (db_users db = [] \<or> checkLoginRules db email)
    \<and> signed_in s db db' d u"
proof -
  obtain st resp0 where st: "snd (consumeOAuthStateCookie s now r (q ''state'')) = Inr st" "q ''error'' = []"
    and k: "(if idp_GitHub (si_provider s) then finish_github s db now d else finish_oidc s db now d) st (q ''code'') = (db', resp0)"
    using with_state_cases [OF assms(1) [unfolded handleCallback_def] assms(2)] by metis
  note cookie = consume_Inr [OF st(1)]
  show ?thesis
  proof (cases "idp_GitHub (si_provider s)")
    case True
    then show ?thesis using finish_github_bound [of s db now d st "q ''code''" db' resp0] k assms(2) cookie st(2) by fastforce
  next
    case False
    then show ?thesis using finish_oidc_bound [of s db now d st "q ''code''" db' resp0] k assms(2) cookie st(2) by fastforce
  qed
qed

definition state_example :: oauthState where
  "state_example = \<lparr>ost_State = ''S'', ost_Nonce = ''n'', ost_Verifier = ''v'', ost_ReturnTo = [], ost_IssuedAt = 0\<rparr>"

definition oidc_example :: identity_provider where
  "oidc_example = \<lparr>idp_GitHub = False, idp_Discovered = True,
     idp_Exchange = (\<lambda>code v. if v = ''v'' then Some code else None),
     idp_Verify = (\<lambda>t. Some \<lparr>ot_Subject = ''s'', ot_Nonce = ''n'',
        ot_Claims = Some \<lparr>oc_email = ''a@b'', oc_email_verified = True, oc_name = ''A''\<rparr>\<rparr>),
     idp_githubExchange = (\<lambda>c. Some c),
     idp_githubUser = (\<lambda>t. Some \<lparr>gu_ID = 7, gu_Login = ''octo''\<rparr>),
     idp_githubEmails = (\<lambda>t. Some [\<lparr>ge_Email = ''o@b'', ge_Primary = True, ge_Verified = True\<rparr>])\<rparr>"

definition sign_in_example :: sign_in where
  "sign_in_example = \<lparr>si_crypto = hash_example, si_auth = svc_example,
     si_stateCodec = \<lparr>cd_marshal = (\<lambda>_. ''p''), cd_unmarshal = (\<lambda>_. Some state_example)\<rparr>,
     si_linkCodec = \<lparr>cd_marshal = lks_ReturnTo, cd_unmarshal = (\<lambda>_. None)\<rparr>, si_detail = (\<lambda>_. []), si_provider = oidc_example\<rparr>"

definition draws_example :: login_draws where
  "draws_example = \<lparr>ld_state = ''S'', ld_nonce = ''n'', ld_verifier = ''v'', ld_session = ''raw'', ld_csrf = ''c'', ld_user = ''u1'',
     ld_rules = nat_str, ld_audit = ''a1'', ld_link = ''a2''\<rparr>"

definition callback_request :: Request where
  "callback_request = \<lparr>rq_Method = ''GET'', rq_Authorization = [], rq_Origin = [], rq_CSRFHeader = [],
     rq_Cookies = [(oauthStateCookieName svc_example ''S'', signState hash_example svc_example (si_stateCodec sign_in_example) state_example)]\<rparr>"

definition callback_query :: "string \<Rightarrow> string" where
  "callback_query k = (if k = ''state'' then ''S'' else if k = ''code'' then ''ok'' else [])"

lemma callback_example:
  "db_sessions (fst (handleCallback sign_in_example empty_db 0 draws_example callback_request callback_query)) \<noteq> []"
proof -
  let ?u = "(new_user ''s'' ''a@b'' ''A'' RoleAdmin UserStatusActive)\<lparr>u_ID := ''u1''\<rparr>"
  have state: "snd (consumeOAuthStateCookie sign_in_example 0 callback_request ''S'') = Inr state_example"
    using parse_sign_state [of "si_stateCodec sign_in_example" state_example hash_example svc_example 0]
    by (simp add: consumeOAuthStateCookie_def callback_request_def Cookie_def sign_in_example_def state_example_def oauthStateMaxAge_def Let_def)
  have who: "callback_identity oidc_example state_example ''ok'' = Inr (''s'', ''a@b'', ''A'')" by code_simp
  have up: "upsertUser svc_example empty_db 0 ''u1'' nat_str ''s'' ''a@b'' ''A'' = (fst first_example, Some (Inr ?u))"
    using first_example_user by (simp add: first_example_def prod_eq_iff)
  obtain sess where sess: "createSession hash_example (fst first_example) 0 ''raw'' ''u1'' = (session_db, Inr (sess, b64_encode ''raw''))"
    using first_example_rows(1,2) by (simp add: session_db_def createSession_def sessions_Create_def Let_def has_row_def)
  have "\<exists>x. db_sessions session_db = db_sessions (fst first_example) @ [x]"
    by (subst createSession_Inr(1) [OF sess]) simp
  then have session_db_sessions: "db_sessions session_db \<noteq> []" by auto
  have fin: "finish_oidc sign_in_example empty_db 0 draws_example state_example ''ok''
      = apsnd Some (completeLogin sign_in_example (fst first_example) 0 draws_example ?u [])"
    using who up by (simp add: finish_oidc_def sign_in_example_def draws_example_def state_example_def)
  have "db_sessions (fst (completeLogin sign_in_example (fst first_example) 0 draws_example ?u [])) \<noteq> []"
    using sess session_db_sessions by (simp add: completeLogin_def sign_in_example_def draws_example_def)
  moreover have "\<not> idp_GitHub (si_provider sign_in_example)" by (simp add: sign_in_example_def oidc_example_def)
  moreover obtain db1 resp where "completeLogin sign_in_example (fst first_example) 0 draws_example ?u [] = (db1, resp)" by fastforce
  ultimately show ?thesis using state fin
    by (auto simp: handleCallback_def with_state_def callback_query_def split: prod.splits)
qed

theorem callback_bound_witness:
  "\<exists>u \<in> set (db_users (fst (handleCallback sign_in_example empty_db 0 draws_example callback_request callback_query))).
     u_Email u = ''a@b'' \<and> u_ProviderSubject u = ''s''"
proof -
  let ?r = "handleCallback sign_in_example empty_db 0 draws_example callback_request callback_query"
  have "db_sessions (fst ?r) \<noteq> db_sessions empty_db" using callback_example by (simp add: empty_db_def)
  from callback_bound [OF prod.collapse [symmetric] this]
  obtain st sub email u where "vouched_oidc oidc_example st ''ok'' sub email" "bound_to (fst ?r) u ProviderGoogle sub email"
    by (auto simp: sign_in_example_def oidc_example_def callback_query_def)
  then show ?thesis by (auto simp: vouched_oidc_def oidc_example_def bound_to_def split: if_splits)
qed

section \<open>GitHub sign-in and account links\<close>

text \<open>What decides an account's rights: identifier, role and status.\<close>

definition rank :: "User \<Rightarrow> string \<times> Role \<times> UserStatus" where
  "rank u = (u_ID u, u_Role u, u_Status u)"

lemma users_Update_rank:
  assumes "users_Update db now u = (db', r)" "unique_on u_ID (db_users db)" "v \<in> set (db_users db)" "rank v = rank u"
  shows "map rank (db_users db') = map rank (db_users db)"
    and "filter (\<lambda>x. u_ID x \<noteq> u_ID u) (db_users db') = filter (\<lambda>x. u_ID x \<noteq> u_ID u) (db_users db)"
proof -
  have "rank (if u_ID x = u_ID u then u\<lparr>u_CreatedAt := a, u_UpdatedAt := b\<rparr> else x) = rank x"
    if "x \<in> set (db_users db)" for x a b
    using unique_on_inj [OF assms(2) that assms(3)] assms(4) by (auto simp: rank_def)
  then show "map rank (db_users db') = map rank (db_users db)"
    using assms(1) by (auto simp: users_Update_def update_rows_def Let_def split: option.splits if_splits)
  have keep: "u_ID w = u_ID u \<Longrightarrow> filter (\<lambda>x. u_ID x \<noteq> u_ID u) (map (\<lambda>r. if u_ID r = u_ID u then w else r) us)
      = filter (\<lambda>x. u_ID x \<noteq> u_ID u) us" for us w by (induction us) auto
  show "filter (\<lambda>x. u_ID x \<noteq> u_ID u) (db_users db') = filter (\<lambda>x. u_ID x \<noteq> u_ID u) (db_users db)"
    using assms(1) by (auto simp: users_Update_def update_rows_def Let_def split: option.splits if_splits intro!: keep)
qed

text \<open>A GitHub login on an organization with users, branch by branch.\<close>

definition adds_members :: "DB \<Rightarrow> DB \<Rightarrow> bool" where
  "adds_members db db' \<longleftrightarrow> (\<exists>new. map rank (db_users db') = map rank (db_users db) @ map rank new
     \<and> length new \<le> 1 \<and> (\<forall>n \<in> set new. u_Role n = RoleMember \<and> u_Status n = initialUserStatus db))"

lemma adds_members_same: "map rank (db_users db') = map rank (db_users db) \<Longrightarrow> adds_members db db'"
  by (auto simp: adds_members_def intro: exI [of _ "[]"])

lemma github_known_rank:
  assumes "db_ok db" "users_ByProviderSubject db ProviderGitHub sub = Inr u" "github_known db now u email = (db', r)"
  shows "map rank (db_users db') = map rank (db_users db)" and "r = Inl GitHubDenied \<Longrightarrow> db' = db"
proof -
  have u: "u \<in> set (db_users db)" using ByProviderSubject_Inr [OF assms(2)] by blast
  have uniq: "unique_on u_ID (db_users db)" using assms(1) by (simp add: db_ok_def users_ok_def)
  show "map rank (db_users db') = map rank (db_users db)"
    using assms(3) users_Update_rank(1) [OF _ uniq u, of "toUnix now" "u\<lparr>u_Email := email\<rparr>"]
    by (auto simp: github_known_def rank_def split: if_splits prod.splits sum.splits)
  show "r = Inl GitHubDenied \<Longrightarrow> db' = db"
    using assms(3) by (auto simp: github_known_def split: if_splits prod.splits sum.splits)
qed

lemma github_member_rank:
  assumes "users_ByProviderSubject db ProviderGitHub sub = Inl e" "github_member db now fresh sub email login h = (db', r)"
  shows "adds_members db db'" and "r = Inl GitHubDenied \<Longrightarrow> db' = db" and "r \<noteq> Inr (NeedsConfirmation i)" "r \<noteq> Inl GitHubHandleTaken"
proof -
  let ?n = "github_user sub email login RoleMember (initialUserStatus db)"
  have created: "adds_members db d \<and> db_users d' = db_users d \<longrightarrow> adds_members db d'" for d d'
    by (simp add: adds_members_def)
  have one: "adds_members db d" if "users_Create db t fresh ?n = (d, q)" for d q t
    using that by (auto simp: users_Create_def adds_members_def github_user_def new_user_def Let_def split: if_splits
        intro: exI [of _ "[]"] exI [of _ "[x]" for x])
  show "adds_members db db'"
    using assms by (auto simp: github_member_def adds_members_same dest!: claim_users dest: one create_conflict_same
        split: if_splits prod.splits sum.splits) (metis created one)+
  show "r = Inl GitHubDenied \<Longrightarrow> db' = db" "r \<noteq> Inr (NeedsConfirmation i)" "r \<noteq> Inl GitHubHandleTaken"
    using assms(2) by (auto simp: github_member_def claim_handle_def split: if_splits prod.splits sum.splits)
qed

lemma link_handle_users: "link_handle db now i x y = (db', r) \<Longrightarrow> db_users db' = db_users db \<and> r \<noteq> Inl GitHubDenied"
  by (auto simp: link_handle_def claim_handle_def handles_Create_def handles_Rename_def Let_def split: if_splits prod.splits sum.splits)

lemma users_Update_Inr:
  assumes "users_Update db t u = (db', Inr v)"
  shows "u_ID v = u_ID u" "u_Provider v = u_Provider u" "u_ProviderSubject v = u_ProviderSubject u" "u_Email v = u_Email u"
    "u_Status v = u_Status u" "v \<in> set (db_users db')"
  using assms by (auto simp: users_Update_def update_rows_def Let_def image_iff split: option.splits if_splits
      dest!: lookup_row_Some intro!: bexI)

lemma completeGitHubLink_effect:
  assumes "db_ok db" and "completeGitHubLink s db now d st = (db', r)"
  shows "map rank (db_users db') = map rank (db_users db)"
    and "filter (\<lambda>x. u_ID x \<noteq> lks_ExistingUserID st) (db_users db') = filter (\<lambda>x. u_ID x \<noteq> lks_ExistingUserID st) (db_users db)"
    and "r = Inl GitHubDenied \<Longrightarrow> db' = db"
    and "r = Inr v \<Longrightarrow> u_ID v = lks_ExistingUserID st \<and> checkLoginRules db (lks_Email st)
      \<and> bound_to db' v ProviderGitHub (lks_Subject st) (lks_Email st)"
proof -
  have uniq: "unique_on u_ID (db_users db)" using assms(1) by (simp add: db_ok_def users_ok_def)
  have mem: "u \<in> set (db_users db) \<and> u_ID u = lks_ExistingUserID st" if "users_ByID db (lks_ExistingUserID st) = Inr u" for u
    using that by (auto simp: users_ByID_def found_def dest: lookup_row_Some split: option.splits)
  let ?new = "\<lambda>u. u\<lparr>u_Provider := ProviderGitHub, u_ProviderSubject := lks_Subject st, u_Email := lks_Email st\<rparr>"
  consider "db' = db" "\<And>v. r \<noteq> Inr v"
    | u q where "users_ByID db (lks_ExistingUserID st) = Inr u" "users_Update db (toUnix now) (?new u) = (db', Inl q)" "r = Inl (GitHubStore (ErrAuthStore q))"
    | u db1 w where "users_ByID db (lks_ExistingUserID st) = Inr u" "users_Update db (toUnix now) (?new u) = (db1, Inr w)"
        "u_Status u \<noteq> UserStatusDisabled" "checkLoginRules db (lks_Email st)"
        "db_users db' = db_users db1" "r \<noteq> Inl GitHubDenied" "\<And>v. r = Inr v \<Longrightarrow> v = w"
    using assms(2) by (auto simp: completeGitHubLink_def Let_def dest!: link_handle_users split: sum.splits prod.splits if_splits) blast+
  note cs = this
  have rank_new: "rank u = rank (?new u)" for u by (simp add: rank_def)
  from cs show "map rank (db_users db') = map rank (db_users db)"
    by cases (auto dest!: mem users_Update_rank(1) [OF _ uniq _ rank_new])
  from cs show "filter (\<lambda>x. u_ID x \<noteq> lks_ExistingUserID st) (db_users db') = filter (\<lambda>x. u_ID x \<noteq> lks_ExistingUserID st) (db_users db)"
    by cases (auto dest!: mem users_Update_rank(2) [OF _ uniq _ rank_new])
  from cs show "r = Inl GitHubDenied \<Longrightarrow> db' = db" by cases auto
  assume r: "r = Inr v"
  from cs show "u_ID v = lks_ExistingUserID st \<and> checkLoginRules db (lks_Email st)
      \<and> bound_to db' v ProviderGitHub (lks_Subject st) (lks_Email st)"
  proof cases
    case (3 u db1 w)
    then show ?thesis using users_Update_Inr [OF 3(2)] r mem by (auto simp: bound_to_def)
  qed (use r in auto)
qed

text \<open>
  C22. Signing in with GitHub never changes anyone's rights. On an organization that has users, a
  GitHub login keeps identifier, role and status of every account and adds at most one plain
  member, in the status the approval setting asks for; it ends at the account bound to the very
  GitHub subject and address, or asks for a confirmation, which only an enabled account with the
  vouched address is offered. A denied login, a taken handle and a request for confirmation write nothing.
  A confirmed link re-points exactly the account the token names, keeps its role and status, leaves every
  other account alone, and needs the login rules to admit the new address.
\<close>

theorem github_no_escalation:
  assumes "db_ok db" and "db_users db \<noteq> []"
    and "resolveGitHubLogin a db now fresh fr sub email login h = (db1, r)"
    and "completeGitHubLink s db now d st = (db2, r2)"
  shows "adds_members db db1
    \<and> (r = Inl GitHubDenied \<or> r = Inl GitHubHandleTaken \<or> r = Inr (NeedsConfirmation i) \<longrightarrow> db1 = db)
    \<and> (r = Inr (NeedsConfirmation i) \<longrightarrow> checkLoginRules db email
        \<and> (\<exists>u \<in> set (db_users db). u_ID u = i \<and> u_Email u = email \<and> u_Status u \<noteq> UserStatusDisabled))
    \<and> (r = Inr (GitHubUser v) \<longrightarrow> checkLoginRules db email \<and> bound_to db1 v ProviderGitHub sub email)
    \<and> map rank (db_users db2) = map rank (db_users db)
    \<and> filter (\<lambda>x. u_ID x \<noteq> lks_ExistingUserID st) (db_users db2) = filter (\<lambda>x. u_ID x \<noteq> lks_ExistingUserID st) (db_users db)
    \<and> (r2 = Inl GitHubDenied \<longrightarrow> db2 = db)
    \<and> (r2 = Inr w \<longrightarrow> u_ID w = lks_ExistingUserID st \<and> checkLoginRules db (lks_Email st)
        \<and> bound_to db2 w ProviderGitHub (lks_Subject st) (lks_Email st))"
proof -
  have "adds_members db db1
    \<and> (r = Inl GitHubDenied \<or> r = Inl GitHubHandleTaken \<or> r = Inr (NeedsConfirmation i) \<longrightarrow> db1 = db)
    \<and> (r = Inr (NeedsConfirmation i) \<longrightarrow> checkLoginRules db email
        \<and> (\<exists>u \<in> set (db_users db). u_ID u = i \<and> u_Email u = email \<and> u_Status u \<noteq> UserStatusDisabled))"
  proof (cases "users_ByProviderSubject db ProviderGitHub sub")
    case (Inl e)
    then have e: "e = ErrNotFound" by (rule ByProviderSubject_Inl)
    note member = github_member_rank [OF Inl]
    show ?thesis
      using assms(2,3) Inl e
      by (auto simp: resolveGitHubLogin_def github_existing_def users_ByEmail_def found_def Let_def adds_members_same
          dest: member dest!: lookup_row_Some split: if_splits sum.splits option.splits)
  next
    case (Inr u)
    with assms(3) have k: "github_known db now u email = (db1, r)" by (simp add: resolveGitHubLogin_def)
    have "r \<noteq> Inl GitHubHandleTaken" "r \<noteq> Inr (NeedsConfirmation i)"
      using k by (auto simp: github_known_def split: if_splits prod.splits sum.splits)
    then show ?thesis using github_known_rank [OF assms(1) Inr k] adds_members_same by blast
  qed
  moreover have "r = Inr (GitHubUser v) \<longrightarrow> checkLoginRules db email \<and> bound_to db1 v ProviderGitHub sub email"
    using resolve_account assms(2,3) by blast
  ultimately show ?thesis using completeGitHubLink_effect [OF assms(1,4)] by blast
qed

definition link_example :: linkState where
  "link_example = \<lparr>lks_Subject = ''7'', lks_Email = ''a@b'', lks_Login = ''Octo'', lks_NewHandle = ''octo'',
     lks_ExistingUserID = ''u1'', lks_ReturnTo = [], lks_IssuedAt = 0\<rparr>"

theorem github_no_escalation_witness:
  "(\<exists>u \<in> set (db_users (fst first_example)). u_ID u = ''u1'' \<and> u_Email u = ''a@b'')
   \<and> map rank (db_users (fst (completeGitHubLink sign_in_example (fst first_example) 0 draws_example link_example))) = [(''u1'', RoleAdmin, UserStatusActive)]
   \<and> (\<exists>u \<in> set (db_users (fst (completeGitHubLink sign_in_example (fst first_example) 0 draws_example link_example))). u_ProviderSubject u = ''7'')"
proof -
  let ?l = "completeGitHubLink sign_in_example (fst first_example) 0 draws_example link_example"
  let ?r = "resolveGitHubLogin svc_example (fst first_example) 0 ''u2'' nat_str ''7'' ''a@b'' ''Octo'' ''octo''"
  have ex: "db_users (fst first_example) \<noteq> []" "snd ?r = Inr (NeedsConfirmation ''u1'')" "is_ok (snd ?l)"
    "map rank (db_users (fst first_example)) = [(''u1'', RoleAdmin, UserStatusActive)]" by code_simp+
  then obtain w where w: "snd ?l = Inr w" by (auto simp: is_ok_def split: sum.splits)
  note all = github_no_escalation [OF first_example_ok ex(1) prod.collapse [of ?r, symmetric] prod.collapse [of ?l, symmetric], of "''u1''" _ w]
  then have "bound_to (fst ?l) w ProviderGitHub ''7'' ''a@b''" using w by (simp add: link_example_def)
  then have "\<exists>u \<in> set (db_users (fst ?l)). u_ProviderSubject u = ''7''" by (auto simp: bound_to_def)
  then show ?thesis using all ex by auto
qed

end
