(* ===== verification/CliFiles.thy ===== *)
theory CliFiles
  imports GoGlob Bundle "HOL-Library.AList"
begin

text \<open>
  The funcbox command, collecting the files of a project: the rules of \<^verbatim>\<open>.funcboxignore\<close> (ignore.go)
  and the walk over the project's directory (collect.go). The directory tree is an argument, the listing of every
  real directory in the order of \<^verbatim>\<open>os.ReadDir\<close>; it does not change during the walk. An entry is what
  following it gives: a directory under its real path, a file with its contents if it can be read, or
  a broken symbolic link.

  An ignore rule means what its segments say, with \<^verbatim>\<open>**\<close> for any run of segments, and the last rule that applies decides.
  The walk ends on every tree, cycles of links included, and what it collects is exactly the part
  of the tree that can be reached, which the server unpacks to the same files.
\<close>

section \<open>Ignore rules (ignore.go)\<close>

record ignoreRule =
  ir_negate :: bool
  ir_dirOnly :: bool
  ir_anchored :: bool
  ir_segments :: "string list"

type_synonym Matcher = "ignoreRule list"

definition parseIgnoreLine :: "string \<Rightarrow> ignoreRule option" where
  "parseIgnoreLine pattern =
     (let negate = prefix ''!'' pattern; p1 = (if negate then tl pattern else pattern) in
      if p1 = [] then None
      else let anchored = prefix ''/'' p1; p2 = (if anchored then tl p1 else p1);
               dirOnly = suffix ''/'' p2; p3 = (if dirOnly then trim_suffix p2 ''/'' else p2) in
        if p3 = [] then None
        else let segments = split_on (CHR ''/'') p3 in
          Some \<lparr>ir_negate = negate, ir_dirOnly = dirOnly, ir_anchored = anchored \<or> length segments > 1, ir_segments = segments\<rparr>)"

fun ignore_lines :: "string list \<Rightarrow> Matcher" where
  "ignore_lines [] = []"
| "ignore_lines (line # lines) =
     (let trimmed = trim_space (trim_right_char (CHR 0x0D) line) in
      if trimmed = [] \<or> prefix ''#'' trimmed then ignore_lines lines
      else case parseIgnoreLine trimmed of
        Some rule \<Rightarrow> rule # ignore_lines lines
      | None \<Rightarrow> ignore_lines lines)"

definition NewMatcher :: "bytes \<Rightarrow> Matcher" where
  "NewMatcher data = ignore_lines (split_on (CHR 0x0A) data)"

fun segmentsMatch :: "string list \<Rightarrow> string list \<Rightarrow> bool" where
  "segmentsMatch [] pathSegs = (pathSegs = [])"
| "segmentsMatch (p # pattern) pathSegs =
     (if p = ''**'' then
        (case pathSegs of
           [] \<Rightarrow> segmentsMatch pattern []
         | s # segs \<Rightarrow> segmentsMatch pattern (s # segs) \<or> segmentsMatch (p # pattern) segs)
      else case pathSegs of
        [] \<Rightarrow> False
      | s # segs \<Rightarrow> filepath_Match p s = Some True \<and> segmentsMatch pattern segs)"

definition ruleMatches_ignore :: "ignoreRule \<Rightarrow> string list \<Rightarrow> bool" where
  "ruleMatches_ignore rule pathSegments =
     (if ir_anchored rule then segmentsMatch (ir_segments rule) pathSegments
      else list_ex (\<lambda>start. segmentsMatch (ir_segments rule) (drop start pathSegments)) [0..<Suc (length pathSegments)])"

definition match_step :: "string list \<Rightarrow> bool \<Rightarrow> bool \<Rightarrow> ignoreRule \<Rightarrow> bool" where
  "match_step segments isDir ignored rule =
     (if ir_dirOnly rule \<and> \<not> isDir then ignored
      else if ruleMatches_ignore rule segments then \<not> ir_negate rule
      else ignored)"

definition Matcher_Match :: "Matcher \<Rightarrow> string \<Rightarrow> bool \<Rightarrow> bool" where
  "Matcher_Match m relPath isDir =
     (if relPath = [] then False
      else foldl (match_step (split_on (CHR ''/'') relPath) isDir) False m)"

section \<open>Collecting a directory (collect.go)\<close>

datatype fs_target = FsDir string | FsFile "bytes option" | FsBroken

type_synonym listing_of = "(string \<times> fs_target) list"

type_synonym file_tree = "(string \<times> listing_of) list"

datatype collect_error = ReadDirFailed "string list" | BrokenSymlink string | ReadFileFailed string | BundleTooLarge string

definition IgnoreFileName :: string where
  "IgnoreFileName = ''.funcboxignore''"

definition implicitExcludeDirs :: "string list" where
  "implicitExcludeDirs = [''.git'']"

definition path_Base :: "string \<Rightarrow> string" where
  "path_Base p =
     (if p = [] then ''.''
      else let t = trim_right_char (CHR ''/'') p in
        if t = [] then ''/'' else last (split_on (CHR ''/'') t))"

definition isImplicitDirExclude :: "string \<Rightarrow> bool \<Rightarrow> bool" where
  "isImplicitDirExclude rel includeNodeModules =
     (path_Base rel \<in> set implicitExcludeDirs \<or> \<not> includeNodeModules \<and> path_Base rel = ''node_modules'')"

definition isImplicitFileExclude :: "string \<Rightarrow> bool" where
  "isImplicitFileExclude rel = (path_Base rel = IgnoreFileName \<or> filepath_Match ''.env*'' (path_Base rel) = Some True)"

text \<open>\<^verbatim>\<open>LoadIgnoreMatcher\<close>: \<open>None\<close> is a file that is missing, which gives no rules.\<close>

definition LoadIgnoreMatcher :: "bytes option \<Rightarrow> Matcher" where
  "LoadIgnoreMatcher file = (case file of None \<Rightarrow> NewMatcher [] | Some data \<Rightarrow> NewMatcher data)"

lemma fewer_dirs:
  assumes "map_of fs real = Some sub" and "real \<notin> set anc"
  shows "card (fst ` set fs - insert real (set anc)) < card (fst ` set fs - set anc)"
proof (rule psubset_card_mono)
  show "fst ` set fs - insert real (set anc) \<subset> fst ` set fs - set anc"
    using map_of_SomeD [OF assms(1)] assms(2) by force
qed simp

text \<open>
  One entry list of the walk. \<open>anc\<close> are the real paths of the directories on the way down, \<open>rel\<close> the
  names on the way from the root; the state is the collected files and their total size.
\<close>

function collectDir ::
  "file_tree \<Rightarrow> bool \<Rightarrow> Matcher \<Rightarrow> string list \<Rightarrow> string list \<Rightarrow> listing_of \<Rightarrow> files \<times> int \<Rightarrow> collect_error + files \<times> int" where
  "collectDir fs incl m anc rel [] st = Inr st"
| "collectDir fs incl m anc rel ((name, t) # entries) (fl, used) =
     (let p = join_with (CHR ''/'') (rel @ [name]) in
      case t of
        FsBroken \<Rightarrow> Inl (BrokenSymlink p)
      | FsDir real \<Rightarrow>
          if isImplicitDirExclude p incl \<or> Matcher_Match m p True then collectDir fs incl m anc rel entries (fl, used)
          else if real \<in> set anc then collectDir fs incl m anc rel entries (fl, used)
          else (case map_of fs real of
                  None \<Rightarrow> Inl (ReadDirFailed (rel @ [name]))
                | Some sub \<Rightarrow>
                    (case collectDir fs incl m (real # anc) (rel @ [name]) sub (fl, used) of
                       Inl e \<Rightarrow> Inl e
                     | Inr st \<Rightarrow> collectDir fs incl m anc rel entries st))
      | FsFile contents \<Rightarrow>
          if isImplicitFileExclude p \<or> Matcher_Match m p False then collectDir fs incl m anc rel entries (fl, used)
          else (case contents of
                  None \<Rightarrow> Inl (ReadFileFailed p)
                | Some data \<Rightarrow>
                    let used' = used + int (length data) in
                    if length fl + 1 > MaxFiles \<or> used' > MaxUnpackedBytes then Inl (BundleTooLarge p)
                    else collectDir fs incl m anc rel entries (AList.update p data fl, used')))"
  by pat_completeness auto

termination
  by (relation "measures [\<lambda>(fs, incl, m, anc, rel, entries, st). card (fst ` set fs - set anc),
      \<lambda>(fs, incl, m, anc, rel, entries, st). length entries]") (auto simp: fewer_dirs)

definition CollectFiles :: "file_tree \<Rightarrow> string \<Rightarrow> bool \<Rightarrow> Matcher \<Rightarrow> collect_error + files" where
  "CollectFiles fs root includeNodeModules m =
     (case map_of fs root of
        None \<Rightarrow> Inl (ReadDirFailed [])
      | Some entries \<Rightarrow> map_sum id fst (collectDir fs includeNodeModules m [root] [] entries ([], 0)))"

datatype size_error = UnpackedTooLarge | TooManyFiles

definition CheckUnpackedSize :: "files \<Rightarrow> size_error + unit" where
  "CheckUnpackedSize fl =
     (if total_size fl > MaxUnpackedBytes then Inl UnpackedTooLarge
      else if length fl > MaxFiles then Inl TooManyFiles else Inr ())"

section \<open>What an ignore rule means\<close>

declare filepath_Match.simps [simp del]

text \<open>A pattern cuts the path into one part per segment: any run of names for \<^verbatim>\<open>**\<close>, one matching name otherwise.\<close>

definition segment_part :: "string \<Rightarrow> string list \<Rightarrow> bool" where
  "segment_part p part \<longleftrightarrow> p = ''**'' \<or> (\<exists>s. part = [s] \<and> filepath_Match p s = Some True)"

definition parts_match :: "string list \<Rightarrow> string list \<Rightarrow> bool" where
  "parts_match pattern segs \<longleftrightarrow> (\<exists>parts. segs = concat parts \<and> list_all2 segment_part pattern parts)"

lemma parts_match_Nil [simp]: "parts_match [] segs \<longleftrightarrow> segs = []"
  by (simp add: parts_match_def)

lemma parts_match_Cons:
  "parts_match (p # pattern) segs \<longleftrightarrow> (\<exists>a b. segs = a @ b \<and> segment_part p a \<and> parts_match pattern b)"
proof
  assume "parts_match (p # pattern) segs"
  then obtain a parts where "segs = a @ concat parts" "segment_part p a" "list_all2 segment_part pattern parts"
    by (auto simp: parts_match_def list_all2_Cons1)
  then show "\<exists>a b. segs = a @ b \<and> segment_part p a \<and> parts_match pattern b" by (auto simp: parts_match_def)
next
  assume "\<exists>a b. segs = a @ b \<and> segment_part p a \<and> parts_match pattern b"
  then obtain a parts where "segs = concat (a # parts)" "list_all2 segment_part (p # pattern) (a # parts)"
    by (auto simp: parts_match_def)
  then show "parts_match (p # pattern) segs" unfolding parts_match_def by blast
qed

lemma parts_match_star:
  "parts_match (''**'' # pattern) [] \<longleftrightarrow> parts_match pattern []"
  "parts_match (''**'' # pattern) (s # segs) \<longleftrightarrow> parts_match pattern (s # segs) \<or> parts_match (''**'' # pattern) segs"
  by (auto simp: parts_match_Cons segment_part_def Cons_eq_append_conv)

lemma parts_match_one:
  assumes "p \<noteq> ''**''"
  shows "\<not> parts_match (p # pattern) []"
    and "parts_match (p # pattern) (s # segs) \<longleftrightarrow> filepath_Match p s = Some True \<and> parts_match pattern segs"
proof -
  have one: "segment_part p a \<longleftrightarrow> (\<exists>x. a = [x] \<and> filepath_Match p x = Some True)" for a
    using assms unfolding segment_part_def by blast
  show "\<not> parts_match (p # pattern) []" by (simp add: parts_match_Cons one)
  show "parts_match (p # pattern) (s # segs) \<longleftrightarrow> filepath_Match p s = Some True \<and> parts_match pattern segs"
  proof
    assume "filepath_Match p s = Some True \<and> parts_match pattern segs"
    then show "parts_match (p # pattern) (s # segs)"
      unfolding parts_match_Cons one by (intro exI [of _ "[s]"] exI [of _ segs]) simp
  qed (auto simp: parts_match_Cons one)
qed

lemma segmentsMatch_parts: "segmentsMatch pattern segs = parts_match pattern segs"
  by (induction pattern segs rule: segmentsMatch.induct) (auto simp: parts_match_star parts_match_one split: list.splits)

lemma ruleMatches_ignore_iff:
  "ruleMatches_ignore rule segs \<longleftrightarrow> (\<exists>before rest. segs = before @ rest \<and> (ir_anchored rule \<longrightarrow> before = []) \<and> segmentsMatch (ir_segments rule) rest)"
proof -
  have "(\<exists>start \<in> set [0..<Suc (length segs)]. segmentsMatch (ir_segments rule) (drop start segs))
      \<longleftrightarrow> (\<exists>before rest. segs = before @ rest \<and> segmentsMatch (ir_segments rule) rest)"
  proof (intro iffI; elim bexE exE conjE)
    fix start assume "segmentsMatch (ir_segments rule) (drop start segs)"
    then show "\<exists>before rest. segs = before @ rest \<and> segmentsMatch (ir_segments rule) rest"
      by (intro exI [of _ "take start segs"] exI [of _ "drop start segs"]) simp
  next
    fix before rest assume "segs = before @ rest" "segmentsMatch (ir_segments rule) rest"
    then show "\<exists>start \<in> set [0..<Suc (length segs)]. segmentsMatch (ir_segments rule) (drop start segs)"
      by (intro bexI [of _ "length before"]) auto
  qed
  then show ?thesis by (auto simp: ruleMatches_ignore_def list_ex_iff simp del: upt_Suc)
qed

lemma foldl_last_wins:
  "foldl (match_step segs isDir) b m =
     (case find (\<lambda>r. (ir_dirOnly r \<longrightarrow> isDir) \<and> ruleMatches_ignore r segs) (rev m) of Some r \<Rightarrow> \<not> ir_negate r | None \<Rightarrow> b)"
  by (induction m arbitrary: b rule: rev_induct) (auto simp: match_step_def)

lemma find_skip: "\<forall>x \<in> set xs. \<not> P x \<Longrightarrow> P r \<Longrightarrow> find P (xs @ r # ys) = Some r"
  by (induction xs) auto

lemma find_rev_iff:
  "(find P (rev m) = Some r) \<longleftrightarrow> (\<exists>earlier later. m = earlier @ r # later \<and> P r \<and> (\<forall>x \<in> set later. \<not> P x))"
proof
  assume f: "find P (rev m) = Some r"
  then have "\<exists>x \<in> set m. P x" by (metis find_None_iff2 option.distinct(1) set_rev)
  then obtain e x l where "m = e @ x # l" "P x" "\<forall>z \<in> set l. \<not> P z" using split_list_last_prop by metis
  moreover from this have "find P (rev m) = Some x" by (simp add: find_skip)
  ultimately show "\<exists>earlier later. m = earlier @ r # later \<and> P r \<and> (\<forall>x \<in> set later. \<not> P x)" using f by auto
qed (auto simp: find_skip)

lemma last_applies:
  "(case find P (rev m) of Some r \<Rightarrow> Q r | None \<Rightarrow> False)
   \<longleftrightarrow> (\<exists>earlier rule later. m = earlier @ rule # later \<and> Q rule \<and> P rule \<and> (\<forall>r \<in> set later. \<not> P r))"
proof -
  have "(case find P (rev m) of Some r \<Rightarrow> Q r | None \<Rightarrow> False) \<longleftrightarrow> (\<exists>r. find P (rev m) = Some r \<and> Q r)"
    by (simp split: option.split)
  then show ?thesis unfolding find_rev_iff by blast
qed

text \<open>
  C40. What an ignore file excludes. A path is excluded exactly if some rule applies to it and
  the last rule that applies is not negated. A rule applies to a path if it is not restricted to
  directories or the path is one, and the path ends in a run of segments - all of it for an anchored rule - that can be cut into
  one part per segment of the pattern: any run of names for a double star, and one name
  that matches the segment otherwise.
\<close>

theorem ignore_rules:
  "Matcher_Match m path isDir \<longleftrightarrow> path \<noteq> [] \<and>
     (\<exists>earlier rule later. m = earlier @ rule # later \<and> \<not> ir_negate rule
       \<and> (let applies = \<lambda>r. (ir_dirOnly r \<longrightarrow> isDir) \<and> (\<exists>before parts. split_on (CHR ''/'') path = before @ concat parts
              \<and> (ir_anchored r \<longrightarrow> before = []) \<and> list_all2 segment_part (ir_segments r) parts) in
          applies rule \<and> (\<forall>r \<in> set later. \<not> applies r)))"
proof -
  let ?segs = "split_on (CHR ''/'') path"
  let ?applies = "\<lambda>r. (ir_dirOnly r \<longrightarrow> isDir) \<and> (\<exists>before parts. ?segs = before @ concat parts
              \<and> (ir_anchored r \<longrightarrow> before = []) \<and> list_all2 segment_part (ir_segments r) parts)"
  have ap: "(ir_dirOnly r \<longrightarrow> isDir) \<and> ruleMatches_ignore r ?segs \<longleftrightarrow> ?applies r" for r
    by (auto simp: ruleMatches_ignore_iff segmentsMatch_parts parts_match_def)
  show ?thesis unfolding Matcher_Match_def foldl_last_wins ap last_applies Let_def by simp
qed

theorem ignore_rules_witness:
  "\<exists>earlier rule later. NewMatcher [CHR ''*'', CHR ''.'', CHR ''a'', CHR 0x0A, CHR ''!'', CHR ''b'', CHR ''.'', CHR ''a''] = earlier @ rule # later
     \<and> \<not> ir_negate rule \<and> ir_segments rule = [''*.a'']"
proof -
  let ?m = "NewMatcher [CHR ''*'', CHR ''.'', CHR ''a'', CHR 0x0A, CHR ''!'', CHR ''b'', CHR ''.'', CHR ''a'']"
  have ex: "Matcher_Match ?m ''d/c.a'' False" "list_all (\<lambda>r. ir_negate r \<or> ir_segments r = [''*.a'']) ?m" by code_simp+
  obtain earlier rule later where "?m = earlier @ rule # later" "\<not> ir_negate rule"
    using ex(1) unfolding ignore_rules Let_def by blast
  moreover from this ex(2) have "ir_segments rule = [''*.a'']" by simp
  ultimately show ?thesis by blast
qed

section \<open>What is collected\<close>

text \<open>
  A tree as an operating system gives it: names of entries are not empty, not a dot or two, contain no slash and no
  NUL, and are distinct within a directory.
\<close>

definition os_names :: "listing_of \<Rightarrow> bool" where
  "os_names entries \<longleftrightarrow> distinct (map fst entries) \<and> list_all (\<lambda>e. plain_comp (fst e) \<and> CHR 0x00 \<notin> set (fst e)) entries"

definition os_tree :: "file_tree \<Rightarrow> bool" where
  "os_tree fs \<longleftrightarrow> list_all (\<lambda>d. os_names (snd d)) fs"

text \<open>The contents visible under a path: followed name by name, through no excluded directory and no cycle.\<close>

fun visible :: "file_tree \<Rightarrow> bool \<Rightarrow> Matcher \<Rightarrow> string list \<Rightarrow> string list \<Rightarrow> listing_of \<Rightarrow> string list \<Rightarrow> bytes option" where
  "visible fs incl m anc rel entries [] = None"
| "visible fs incl m anc rel entries (c # cs) =
     (let p = join_with (CHR ''/'') (rel @ [c]) in
      case map_of entries c of
        Some (FsFile contents) \<Rightarrow>
          if cs = [] \<and> \<not> isImplicitFileExclude p \<and> \<not> Matcher_Match m p False then contents else None
      | Some (FsDir real) \<Rightarrow>
          if isImplicitDirExclude p incl \<or> Matcher_Match m p True \<or> real \<in> set anc then None
          else (case map_of fs real of None \<Rightarrow> None | Some sub \<Rightarrow> visible fs incl m (real # anc) (rel @ [c]) sub cs)
      | _ \<Rightarrow> None)"

definition joined :: "string list \<Rightarrow> string" where
  "joined cs = join_with (CHR ''/'') cs"

lemma joined_inj:
  assumes "list_all plain_comp cs" "list_all plain_comp ds" "cs \<noteq> []" "ds \<noteq> []"
  shows "joined cs = joined ds \<longleftrightarrow> cs = ds"
  using split_join_plain assms unfolding joined_def by metis

definition after_walk :: "file_tree \<Rightarrow> bool \<Rightarrow> Matcher \<Rightarrow> string list \<Rightarrow> string list \<Rightarrow> listing_of \<Rightarrow> files \<Rightarrow> files \<Rightarrow> bool" where
  "after_walk fs incl m anc rel entries fl fl' \<longleftrightarrow> (\<forall>qs. qs \<noteq> [] \<longrightarrow> list_all plain_comp qs \<longrightarrow> map_of fl' (joined qs) =
     (if prefix rel qs then (case visible fs incl m anc rel entries (drop (length rel) qs) of Some d \<Rightarrow> Some d | None \<Rightarrow> map_of fl (joined qs))
      else map_of fl (joined qs)))"

lemma visible_absent: "c \<notin> fst ` set entries \<Longrightarrow> visible fs incl m anc rel entries (c # cs) = None"
  using map_of_eq_None_iff [of entries c] by simp

lemma visible_other: "c \<noteq> name \<Longrightarrow> visible fs incl m anc rel ((name, t) # entries) (c # cs) = visible fs incl m anc rel entries (c # cs)"
  by simp

lemmas visible_simps = visible.simps(2)

declare visible.simps(2) [simp del]

lemma visible_Nil [simp]: "visible fs incl m anc rel [] cs = None"
  by (cases cs) (simp_all add: visible_simps)

lemma prefix_snoc_cases:
  "prefix rel qs \<Longrightarrow> qs = rel \<or> (\<exists>c cs. qs = rel @ c # cs)"
  by (metis append_Nil2 list.exhaust prefixE)

text \<open>An entry that adds nothing, and one that is a file.\<close>

lemma after_walk_skip:
  assumes "after_walk fs incl m anc rel entries fl fl'" and "\<And>cs. visible fs incl m anc rel ((name, t) # entries) (name # cs) = None"
    and "name \<notin> fst ` set entries"
  shows "after_walk fs incl m anc rel ((name, t) # entries) fl fl'"
  unfolding after_walk_def
proof (intro allI impI)
  fix qs :: "string list" assume qs: "qs \<noteq> []" "list_all plain_comp qs"
  have "visible fs incl m anc rel ((name, t) # entries) (drop (length rel) qs) = visible fs incl m anc rel entries (drop (length rel) qs)"
  proof (cases "drop (length rel) qs")
    case (Cons c cs)
    then show ?thesis using assms(2,3) visible_absent [of name entries fs incl m anc rel cs] visible_other [of c name] by (cases "c = name") auto
  qed simp
  then show "map_of fl' (joined qs) =
     (if prefix rel qs then (case visible fs incl m anc rel ((name, t) # entries) (drop (length rel) qs) of Some d \<Rightarrow> Some d | None \<Rightarrow> map_of fl (joined qs))
      else map_of fl (joined qs))"
    using assms(1) qs by (simp add: after_walk_def)
qed

lemma map_of_update: "map_of (AList.update k v al) = (map_of al)(k \<mapsto> v)"
  by (rule update_conv')

lemma after_walk_file:
  assumes "after_walk fs incl m anc rel entries (AList.update (joined (rel @ [name])) data fl) fl'"
    and here: "\<And>cs. visible fs incl m anc rel ((name, t) # entries) (name # cs) = (if cs = [] then Some data else None)"
    and "name \<notin> fst ` set entries" and plain: "list_all plain_comp (rel @ [name])"
  shows "after_walk fs incl m anc rel ((name, t) # entries) fl fl'"
  unfolding after_walk_def
proof (intro allI impI)
  fix qs :: "string list" assume qs: "qs \<noteq> []" "list_all plain_comp qs"
  have eq: "joined qs = joined (rel @ [name]) \<longleftrightarrow> qs = rel @ [name]" using joined_inj [OF qs(2) plain qs(1)] by simp
  show "map_of fl' (joined qs) =
     (if prefix rel qs then (case visible fs incl m anc rel ((name, t) # entries) (drop (length rel) qs) of Some d \<Rightarrow> Some d | None \<Rightarrow> map_of fl (joined qs))
      else map_of fl (joined qs))"
  proof (cases "prefix rel qs")
    case True
    then consider "qs = rel" | cs where "qs = rel @ name # cs" | c cs where "qs = rel @ c # cs" "c \<noteq> name"
      using prefix_snoc_cases by metis
    then show ?thesis
      using assms(1) [unfolded after_walk_def, rule_format, OF qs] True eq here visible_absent [OF assms(3)] visible_other
      by cases (auto simp: map_of_update split: option.splits)
  next
    case False
    then have "qs \<noteq> rel @ [name]" by auto
    then show ?thesis using assms(1) [unfolded after_walk_def, rule_format, OF qs] False eq by (simp add: map_of_update)
  qed
qed

lemma after_walk_dir:
  assumes "after_walk fs incl m (real # anc) (rel @ [name]) sub fl fl1" and "after_walk fs incl m anc rel entries fl1 fl'"
    and dir: "\<And>cs. visible fs incl m anc rel ((name, t) # entries) (name # cs) = visible fs incl m (real # anc) (rel @ [name]) sub cs"
    and "name \<notin> fst ` set entries"
  shows "after_walk fs incl m anc rel ((name, t) # entries) fl fl'"
  unfolding after_walk_def
proof (intro allI impI)
  fix qs :: "string list" assume qs: "qs \<noteq> []" "list_all plain_comp qs"
  note w = assms(1,2) [unfolded after_walk_def, rule_format, OF qs]
  show "map_of fl' (joined qs) =
     (if prefix rel qs then (case visible fs incl m anc rel ((name, t) # entries) (drop (length rel) qs) of Some d \<Rightarrow> Some d | None \<Rightarrow> map_of fl (joined qs))
      else map_of fl (joined qs))"
  proof (cases "prefix rel qs")
    case True
    then consider "qs = rel" | cs where "qs = rel @ name # cs" | c cs where "qs = rel @ c # cs" "c \<noteq> name"
      using prefix_snoc_cases by metis
    then show ?thesis
      using w True dir visible_absent [OF assms(4)] visible_other by cases (auto split: option.splits)
  next
    case False
    then have "\<not> prefix (rel @ [name]) qs" by (metis append_prefixD)
    then show ?thesis using w False by simp
  qed
qed

definition bounded :: "files \<times> int \<Rightarrow> bool" where
  "bounded st \<longleftrightarrow> distinct (map fst (fst st)) \<and> total_size (fst st) \<le> snd st \<and> snd st \<le> MaxUnpackedBytes \<and> length (fst st) \<le> MaxFiles"

lemma update_size: "total_size (AList.update k v al) \<le> total_size al + int (length v)"
  by (induction al) (auto simp: total_size_def)

lemma update_length: "length (AList.update k v al) \<le> length al + 1"
  by (induction al) auto

lemma bounded_update:
  assumes "bounded (fl, used)" "\<not> (length fl + 1 > MaxFiles \<or> used + int (length data) > MaxUnpackedBytes)"
  shows "bounded (AList.update k data fl, used + int (length data))"
  using assms update_size [of k data fl] update_length [of k data fl] by (auto simp: bounded_def distinct_update)

definition good_keys :: "files \<Rightarrow> bool" where
  "good_keys fl \<longleftrightarrow> (\<forall>k \<in> fst ` set fl. \<exists>cs. k = joined cs \<and> cs \<noteq> [] \<and> list_all plain_comp cs \<and> list_all (\<lambda>c. CHR 0x00 \<notin> set c) cs)"

definition os_name :: "string \<Rightarrow> bool" where
  "os_name c \<longleftrightarrow> plain_comp c \<and> CHR 0x00 \<notin> set c"

lemma os_names_Cons: "os_names ((name, t) # entries) \<longleftrightarrow> os_name name \<and> name \<notin> fst ` set entries \<and> os_names entries"
  by (auto simp: os_names_def os_name_def list_all_iff)

lemma os_tree_sub: "os_tree fs \<Longrightarrow> map_of fs real = Some sub \<Longrightarrow> os_names sub"
  by (metis (no_types, lifting) list_all_iff map_of_SomeD os_tree_def snd_conv)

lemma good_keys_update: "good_keys fl \<Longrightarrow> list_all os_name cs \<Longrightarrow> cs \<noteq> [] \<Longrightarrow> good_keys (AList.update (joined cs) data fl)"
  by (auto simp: good_keys_def dom_update os_name_def list_all_iff)

lemma collectDir_walk:
  "collectDir fs incl m anc rel entries st = Inr st' \<Longrightarrow> os_names entries \<Longrightarrow> list_all os_name rel \<Longrightarrow>
     bounded st \<Longrightarrow> good_keys (fst st) \<Longrightarrow> os_tree fs \<Longrightarrow>
     after_walk fs incl m anc rel entries (fst st) (fst st') \<and> bounded st' \<and> good_keys (fst st')"
proof (induction fs incl m anc rel entries st arbitrary: st' rule: collectDir.induct)
  case (1 fs incl m anc rel st)
  then show ?case by (auto simp: after_walk_def split: option.split)
next
  case (2 fs incl m anc rel name t entries fl used)
  let ?p = "join_with (CHR ''/'') (rel @ [name])"
  have n: "os_name name" "name \<notin> fst ` set entries" "os_names entries" using 2(8) by (auto simp: os_names_Cons)
  then have plain: "list_all os_name (rel @ [name])" "list_all plain_comp (rel @ [name])"
    using 2(9) by (auto simp: os_name_def list_all_iff)
  have vis: "visible fs incl m anc rel ((name, t) # entries) (name # cs) =
     (case t of FsFile contents \<Rightarrow> if cs = [] \<and> \<not> isImplicitFileExclude ?p \<and> \<not> Matcher_Match m ?p False then contents else None
      | FsDir real \<Rightarrow> if isImplicitDirExclude ?p incl \<or> Matcher_Match m ?p True \<or> real \<in> set anc then None
          else (case map_of fs real of None \<Rightarrow> None | Some sub \<Rightarrow> visible fs incl m (real # anc) (rel @ [name]) sub cs)
      | FsBroken \<Rightarrow> None)" for cs by (simp add: visible_simps Let_def split: fs_target.split)
  have skip: ?case if "\<And>cs. visible fs incl m anc rel ((name, t) # entries) (name # cs) = None"
      "after_walk fs incl m anc rel entries fl (fst st') \<and> bounded st' \<and> good_keys (fst st')"
    using after_walk_skip [OF _ that(1) n(2)] that(2) by simp
  show ?case
  proof (cases t)
    case FsBroken
    then show ?thesis using 2(7) by simp
  next
    case (FsFile contents)
    show ?thesis
    proof (cases "isImplicitFileExclude ?p \<or> Matcher_Match m ?p False")
      case True
      then show ?thesis using 2(5,7-) FsFile n(3) vis by (intro skip) auto
    next
      case False
      then obtain data where d: "contents = Some data" "\<not> (length fl + 1 > MaxFiles \<or> used + int (length data) > MaxUnpackedBytes)"
          "collectDir fs incl m anc rel entries (AList.update ?p data fl, used + int (length data)) = Inr st'"
        using 2(7) FsFile by (auto simp: Let_def split: option.splits if_splits)
      have "after_walk fs incl m anc rel entries (AList.update ?p data fl) (fst st') \<and> bounded st' \<and> good_keys (fst st')"
        using 2(6) [OF refl FsFile False d(1) refl] d(2,3) n(3) 2(9) bounded_update [OF 2(10) d(2)]
          good_keys_update [OF _ plain(1)] 2(11,12) by (simp add: joined_def)
      then show ?thesis using after_walk_file [of fs incl m anc rel entries name data fl "fst st'" t] vis FsFile False d(1) n(2) plain(2)
        by (simp add: joined_def)
    qed
  next
    case (FsDir real)
    show ?thesis
    proof (cases "isImplicitDirExclude ?p incl \<or> Matcher_Match m ?p True \<or> real \<in> set anc")
      case True
      then have "collectDir fs incl m anc rel entries (fl, used) = Inr st'" using 2(7) FsDir by (auto simp: Let_def split: if_splits)
      then have "after_walk fs incl m anc rel entries fl (fst st') \<and> bounded st' \<and> good_keys (fst st')"
        using 2(1) [OF refl FsDir] 2(2) [OF refl FsDir] True n(3) 2(9,10,11,12)
        by (cases "isImplicitDirExclude ?p incl \<or> Matcher_Match m ?p True") simp_all
      then show ?thesis using FsDir True vis by (intro skip) auto
    next
      case False
      then obtain sub st1 where d: "map_of fs real = Some sub" "collectDir fs incl m (real # anc) (rel @ [name]) sub (fl, used) = Inr st1"
          "collectDir fs incl m anc rel entries st1 = Inr st'"
        using 2(7) FsDir by (auto simp: Let_def split: option.splits if_splits sum.splits)
      have one: "after_walk fs incl m (real # anc) (rel @ [name]) sub fl (fst st1) \<and> bounded st1 \<and> good_keys (fst st1)"
        using 2(3) [OF refl FsDir _ _ d(1), of st1] False d(2) os_tree_sub [OF 2(12) d(1)] plain(1) 2(10,11,12) by simp
      have "after_walk fs incl m anc rel entries (fst st1) (fst st') \<and> bounded st' \<and> good_keys (fst st')"
        using 2(4) [OF refl FsDir _ _ d(1,2), of st'] False d(3) n(3) 2(9,12) one by simp
      then show ?thesis using after_walk_dir [of fs incl m real anc rel name sub fl "fst st1" entries "fst st'" t] one vis FsDir False d(1) n(2)
        by simp
    qed
  qed
qed

text \<open>An entry of the archive is safe if it is not too long and has no backslash.\<close>

lemma good_key_safe:
  assumes "cs \<noteq> []" "list_all plain_comp cs" "length (joined cs) \<le> MaxPathLength" "backslash \<notin> set (joined cs)"
  shows "safe_path (joined cs)"
  using assms split_join_plain [of cs] by (simp add: safe_path_def joined_def)

lemma good_key_nul:
  assumes "list_all (\<lambda>c. CHR 0x00 \<notin> set c) cs"
  shows "CHR 0x00 \<notin> set (joined cs)"
  using set_join_with [of "CHR ''/''" cs] assms by (auto simp: joined_def list_all_iff)

lemma CollectFiles_walk:
  assumes "CollectFiles fs root incl m = Inr fl" and "os_tree fs"
  shows "\<exists>entries. map_of fs root = Some entries \<and> after_walk fs incl m [root] [] entries [] fl
    \<and> (\<exists>used. bounded (fl, used)) \<and> good_keys fl"
proof -
  obtain entries used where c: "map_of fs root = Some entries" "collectDir fs incl m [root] [] entries ([], 0) = Inr (fl, used)"
    using assms(1) by (cases "map_of fs root"; cases "collectDir fs incl m [root] [] (the (map_of fs root)) ([], 0)")
      (auto simp: CollectFiles_def)
  have "bounded ([], 0)" by (simp add: bounded_def total_size_def MaxUnpackedBytes_def)
  then show ?thesis
    using collectDir_walk [OF c(2) os_tree_sub [OF assms(2) c(1)] _ _ _ assms(2)] c(1) by (auto simp: good_keys_def)
qed

lemma visible_plain:
  "visible fs incl m anc rel entries cs = Some d \<Longrightarrow> os_tree fs \<Longrightarrow> os_names entries \<Longrightarrow> cs \<noteq> [] \<and> list_all plain_comp cs"
proof (induction fs incl m anc rel entries cs rule: visible.induct)
  case (2 fs incl m anc rel entries c cs)
  have "c \<in> fst ` set entries" using 2(2) visible_absent by (metis option.distinct(1))
  then have c: "plain_comp c" using 2(4) by (auto simp: os_names_def list_all_iff)
  obtain t where t: "map_of entries c = Some t" using 2(2) by (cases "map_of entries c") (auto simp: visible_simps)
  show ?case
  proof (cases t)
    case (FsDir real)
    with t 2(2) obtain sub where d: "\<not> (isImplicitDirExclude (join_with (CHR ''/'') (rel @ [c])) incl \<or> Matcher_Match m (join_with (CHR ''/'') (rel @ [c])) True \<or> real \<in> set anc)"
        "map_of fs real = Some sub" "visible fs incl m (real # anc) (rel @ [c]) sub cs = Some d"
      by (auto simp: visible_simps Let_def split: option.splits if_splits)
    show ?thesis using 2(1) [OF refl t FsDir d(1,2,3) 2(3)] os_tree_sub [OF 2(3) d(2)] c by simp
  qed (use t 2(2) c in \<open>auto simp: visible_simps Let_def split: if_splits\<close>)
qed simp

lemma path_Base_joined:
  assumes "list_all plain_comp (rel @ [c])"
  shows "path_Base (join_with (CHR ''/'') (rel @ [c])) = c"
proof -
  let ?p = "join_with (CHR ''/'') (rel @ [c])"
  have c: "c \<noteq> []" "CHR ''/'' \<notin> set c" using assms by (auto simp: plain_comp_def)
  have "\<exists>x. ?p = x @ c"
  proof (induction rel)
    case (Cons r rel)
    then show ?case by (auto simp: join_with_Cons)
  qed simp
  then obtain x where x: "?p = x @ c" by blast
  have "last c \<noteq> CHR ''/''" using c by (metis last_in_set)
  then have "trim_right_char (CHR ''/'') ?p = ?p"
    using c(1) unfolding x trim_right_char_def by (cases c rule: rev_cases) simp_all
  then show ?thesis using c(1) x split_join_plain [OF _ assms] by (simp add: path_Base_def)
qed

lemma visible_names:
  "visible fs incl m anc rel entries cs = Some d \<Longrightarrow> os_tree fs \<Longrightarrow> os_names entries \<Longrightarrow> list_all plain_comp rel \<Longrightarrow>
     (\<forall>c \<in> set (butlast cs). c \<noteq> ''.git'' \<and> (c = ''node_modules'' \<longrightarrow> incl))
     \<and> last cs \<noteq> IgnoreFileName \<and> filepath_Match ''.env*'' (last cs) \<noteq> Some True"
proof (induction fs incl m anc rel entries cs rule: visible.induct)
  case (2 fs incl m anc rel entries c cs)
  obtain t where t: "map_of entries c = Some t" using 2(2) by (cases "map_of entries c") (auto simp: visible_simps)
  have "plain_comp c" using visible_plain [OF 2(2,3,4)] by simp
  then have rel: "list_all plain_comp (rel @ [c])" using 2(5) by simp
  note base = path_Base_joined [OF rel]
  show ?case
  proof (cases t)
    case (FsDir real)
    with t 2(2) obtain sub where d: "\<not> (isImplicitDirExclude (join_with (CHR ''/'') (rel @ [c])) incl \<or> Matcher_Match m (join_with (CHR ''/'') (rel @ [c])) True \<or> real \<in> set anc)"
        "map_of fs real = Some sub" "visible fs incl m (real # anc) (rel @ [c]) sub cs = Some d"
      by (auto simp: visible_simps Let_def split: option.splits if_splits)
    then have "c \<noteq> ''.git'' \<and> (c = ''node_modules'' \<longrightarrow> incl)" by (auto simp: isImplicitDirExclude_def base implicitExcludeDirs_def)
    moreover have "cs \<noteq> []" using d(3) by auto
    ultimately show ?thesis using 2(1) [OF refl t FsDir d(1,2,3) 2(3) os_tree_sub [OF 2(3) d(2)] rel] by simp
  qed (use t 2(2) in \<open>auto simp: visible_simps Let_def isImplicitFileExclude_def base split: if_splits\<close>)
qed simp

text \<open>
  C37. What the developer has is what runs. The files the command collects are exactly those visible in the
  project's tree - reached name by name through directories that are neither excluded nor an ancestor of themselves, and not
  excluded themselves - with their contents. By name, no collected path ends in a component that matches \<^verbatim>\<open>.env*\<close> or goes
  through a directory called \<^verbatim>\<open>.git\<close>, or \<^verbatim>\<open>node_modules\<close> unless that is asked for. The
  files pass the size check; and if all paths have at most 256
  bytes and no backslash, the archive they are packed into is unpacked by the server to the very same
  files.

  Only names are looked at: files in a directory whose name matches \<^verbatim>\<open>.env*\<close> and files reached through a symbolic link to an
  excluded directory are collected, and a path with a backslash is unpacked as another one; the examples below show the three cases.
\<close>

theorem upload_is_tree:
  assumes "CollectFiles fs root incl m = Inr fl" and "os_tree fs"
  shows "\<exists>entries. map_of fs root = Some entries
    \<and> (\<forall>path. map_of fl path = visible fs incl m [root] [] entries (split_on (CHR ''/'') path))
    \<and> (\<forall>path \<in> fst ` set fl. let names = split_on (CHR ''/'') path in
         (\<forall>c \<in> set (butlast names). c \<noteq> ''.git'' \<and> (c = ''node_modules'' \<longrightarrow> incl)) \<and> filepath_Match ''.env*'' (last names) \<noteq> Some True)
    \<and> CheckUnpackedSize fl = Inr ()
    \<and> (list_all (\<lambda>f. length (fst f) \<le> MaxPathLength \<and> backslash \<notin> set (fst f)) fl \<longrightarrow>
        (\<exists>a out. Pack fl = Inr a \<and> Unpack a = Inr out
          \<and> (\<forall>path. map_of out path = visible fs incl m [root] [] entries (split_on (CHR ''/'') path))))"
proof -
  obtain entries used where e: "map_of fs root = Some entries" and w: "after_walk fs incl m [root] [] entries [] fl"
    and b: "bounded (fl, used)" and g: "good_keys fl"
    using CollectFiles_walk [OF assms] by blast
  note nm = os_tree_sub [OF assms(2) e]
  have vis: "map_of fl path = visible fs incl m [root] [] entries (split_on (CHR ''/'') path)" for path
  proof (cases "list_all plain_comp (split_on (CHR ''/'') path)")
    case True
    then show ?thesis using w [unfolded after_walk_def, rule_format, of "split_on (CHR ''/'') path"]
      by (auto simp: joined_def join_split split: option.splits)
  next
    case False
    then have "visible fs incl m [root] [] entries (split_on (CHR ''/'') path) = None"
      using visible_plain [OF _ assms(2) nm] by (metis not_Some_eq)
    moreover have "path \<notin> fst ` set fl"
      using g False split_join_plain by (fastforce simp: good_keys_def joined_def)
    ultimately show ?thesis by (simp add: map_of_eq_None_iff)
  qed
  have size: "CheckUnpackedSize fl = Inr ()" using b by (auto simp: CheckUnpackedSize_def bounded_def)
  have "\<exists>a out. Pack fl = Inr a \<and> Unpack a = Inr out \<and> map_of out = map_of fl"
    if ok: "list_all (\<lambda>f. length (fst f) \<le> MaxPathLength \<and> backslash \<notin> set (fst f)) fl"
  proof -
    have "safe_path k \<and> CHR 0x00 \<notin> set k" if k: "k \<in> fst ` set fl" for k
    proof -
      obtain cs where "k = joined cs" "cs \<noteq> []" "list_all plain_comp cs" "list_all (\<lambda>c. CHR 0x00 \<notin> set c) cs"
        using g k by (auto simp: good_keys_def)
      moreover have "length k \<le> MaxPathLength" "backslash \<notin> set k" using ok k by (auto simp: list_all_iff)
      ultimately show ?thesis using good_key_safe good_key_nul by metis
    qed
    then have "packable fl" using b by (auto simp: packable_def bounded_def list_all_iff)
    then show ?thesis using Unpack_Pack by blast
  qed
  then have pk: "list_all (\<lambda>f. length (fst f) \<le> MaxPathLength \<and> backslash \<notin> set (fst f)) fl \<longrightarrow>
        (\<exists>a out. Pack fl = Inr a \<and> Unpack a = Inr out
          \<and> (\<forall>path. map_of out path = visible fs incl m [root] [] entries (split_on (CHR ''/'') path)))"
    by (auto simp: vis)
  have secret: "let names = split_on (CHR ''/'') path in
      (\<forall>c \<in> set (butlast names). c \<noteq> ''.git'' \<and> (c = ''node_modules'' \<longrightarrow> incl)) \<and> filepath_Match ''.env*'' (last names) \<noteq> Some True"
    if key: "path \<in> fst ` set fl" for path
  proof -
    obtain d where "map_of fl path = Some d" using key map_of_eq_None_iff [of fl path] by (cases "map_of fl path") auto
    then have some: "visible fs incl m [root] [] entries (split_on (CHR ''/'') path) = Some d" using vis by simp
    show ?thesis using visible_names [OF some assms(2) nm] by (auto simp: Let_def)
  qed
  show ?thesis
    by (rule exI [of _ entries], intro conjI ballI allI) (assumption | rule e vis size pk secret)+
qed

text \<open>A directory of environment files, a link \<open>x\<close> to the directory of the repository's metadata, and a backslash in a name.\<close>

definition leaky_example :: file_tree where
  "leaky_example =
     [(''/p'', [(''.env.d'', FsDir ''/p/.env.d''), (''.git'', FsDir ''/p/.git''), ([CHR ''a'', CHR 0x5C, CHR ''b''], FsFile (Some ''1'')), (''x'', FsDir ''/p/.git'')]),
      (''/p/.env.d'', [(''prod'', FsFile (Some ''secret''))]),
      (''/p/.git'', [(''config'', FsFile (Some ''token''))])]"

lemma leaky_collected:
  "CollectFiles leaky_example ''/p'' False (NewMatcher [])
     = Inr [(''.env.d/prod'', ''secret''), ([CHR ''a'', CHR 0x5C, CHR ''b''], ''1''), (''x/config'', ''token'')]"
  by code_simp

lemma backslash_unpacked:
  "Pack [([CHR ''a'', CHR 0x5C, CHR ''b''], ''1'')] = Inr (Archive [canonical_entry [CHR ''a'', CHR 0x5C, CHR ''b''] ''1''] False)"
  "Unpack (Archive [canonical_entry [CHR ''a'', CHR 0x5C, CHR ''b''] ''1''] False) = Inr [(''a/b'', ''1'')]"
proof -
  show "Pack [([CHR ''a'', CHR 0x5C, CHR ''b''], ''1'')] = Inr (Archive [canonical_entry [CHR ''a'', CHR 0x5C, CHR ''b''] ''1''] False)"
    by code_simp
  have "normalizePath [CHR ''a'', CHR 0x5C, CHR ''b''] = Inr ''a/b''" by code_simp
  then show "Unpack (Archive [canonical_entry [CHR ''a'', CHR 0x5C, CHR ''b''] ''1''] False) = Inr [(''a/b'', ''1'')]"
    by (simp add: Unpack_def canonical_entry_def has_file_def MaxFiles_def readWithinBudget_def MaxUnpackedBytes_def)
qed

definition project_example :: file_tree where
  "project_example =
     [(''/p'', [(''.env'', FsFile (Some ''secret'')), (''index.js'', FsFile (Some ''i'')), (''lib'', FsDir ''/p/lib''), (''loop'', FsDir ''/p'')]),
      (''/p/lib'', [(''a.js'', FsFile (Some ''a'')), (''a.log'', FsFile (Some ''l''))])]"

lemma project_collected:
  "CollectFiles project_example ''/p'' False (NewMatcher ''*.log'') = Inr [(''index.js'', ''i''), (''lib/a.js'', ''a'')]"
  by code_simp

theorem upload_is_tree_witness:
  "\<exists>a out. Pack [(''index.js'', ''i''), (''lib/a.js'', ''a'')] = Inr a \<and> Unpack a = Inr out
     \<and> map_of out ''lib/a.js'' = Some ''a'' \<and> map_of out ''.env'' = None"
proof -
  let ?fl = "[(''index.js'', ''i''), (''lib/a.js'', ''a'')]"
  have ok: "os_tree project_example" "list_all (\<lambda>f. length (fst f) \<le> MaxPathLength \<and> backslash \<notin> set (fst f)) ?fl" by code_simp+
  then obtain entries a out where out: "Pack ?fl = Inr a" "Unpack a = Inr out"
      "\<forall>path. map_of ?fl path = visible project_example False (NewMatcher ''*.log'') [''/p''] [] entries (split_on (CHR ''/'') path)"
      "\<forall>path. map_of out path = visible project_example False (NewMatcher ''*.log'') [''/p''] [] entries (split_on (CHR ''/'') path)"
    using upload_is_tree [OF project_collected ok(1)] by blast
  then have "map_of out path = map_of ?fl path" for path by metis
  then have "map_of out ''lib/a.js'' = Some ''a''" "map_of out ''.env'' = None" by simp_all
  then show ?thesis using out(1,2) by blast
qed

end
