(* ===== verification/Cli.thy ===== *)
theory Cli
  imports CliFiles GoForm Token
begin

text \<open>
  The funcbox command (internal/cli): flags (flagparse.go), the server's address (serverurl.go), the
  configuration (config.go), the project (project.go), the deploy command (deploy.go) up to the request it
  sends, the client with its cached access token (client.go), the pages of a log that is followed (logs.go)
  and the browser login (login.go). The file system, the environment and the network are arguments. Flags are
  those of \<^verbatim>\<open>flag.FlagSet\<close>, switches and strings, the two kinds the command uses.

  Every request goes to the configured host, over TLS or to the machine itself. A log that is followed
  prints no entry twice. Flags may stand anywhere among the arguments.
\<close>

section \<open>Flags (flagparse.go)\<close>

datatype flag_kind = BoolFlag | StringFlag

datatype flag_error = BadFlagSyntax string | FlagNotDefined string | FlagNeedsArgument string | InvalidBoolean string | ErrHelp

type_synonym flag_set = "(string \<times> flag_kind) list"

type_synonym flag_values = "(string \<times> string) list"

definition ParseBool :: "string \<Rightarrow> bool option" where
  "ParseBool s =
     (if s \<in> set [''1'', ''t'', ''T'', ''true'', ''TRUE'', ''True''] then Some True
      else if s \<in> set [''0'', ''f'', ''F'', ''false'', ''FALSE'', ''False''] then Some False else None)"

definition is_positional :: "string \<Rightarrow> bool" where
  "is_positional s = (length s < 2 \<or> hd s \<noteq> CHR ''-'')"

fun flag_Parse :: "flag_set \<Rightarrow> string list \<Rightarrow> flag_values \<Rightarrow> flag_error + flag_values \<times> string list" where
  "flag_Parse fs [] vals = Inr (vals, [])"
| "flag_Parse fs (s # args) vals =
     (if is_positional s then Inr (vals, s # args)
      else if s = ''--'' then Inr (vals, args)
      else
        let name0 = (if s ! 1 = CHR ''-'' then drop 2 s else drop 1 s) in
        if name0 = [] \<or> hd name0 = CHR ''-'' \<or> hd name0 = CHR ''='' then Inl (BadFlagSyntax s)
        else case cut (CHR ''='') name0 of (name, value, hasValue) \<Rightarrow>
          (case map_of fs name of
             None \<Rightarrow> if name = ''help'' \<or> name = ''h'' then Inl ErrHelp else Inl (FlagNotDefined name)
           | Some BoolFlag \<Rightarrow>
               if \<not> hasValue then flag_Parse fs args (AList.update name ''true'' vals)
               else (case ParseBool value of
                       None \<Rightarrow> Inl (InvalidBoolean name)
                     | Some b \<Rightarrow> flag_Parse fs args (AList.update name (if b then ''true'' else ''false'') vals))
           | Some StringFlag \<Rightarrow>
               if hasValue then flag_Parse fs args (AList.update name value vals)
               else (case args of
                       [] \<Rightarrow> Inl (FlagNeedsArgument name)
                     | a # rest \<Rightarrow> flag_Parse fs rest (AList.update name a vals))))"

declare flag_Parse.simps(2) [simp del]

lemma flag_Parse_cases:
  assumes "flag_Parse fs (s # args) vals = Inr (vals', rest)"
  shows "rest = s # args \<or> rest = args \<or> (\<exists>v. flag_Parse fs args v = Inr (vals', rest))
    \<or> (\<exists>a r v. args = a # r \<and> flag_Parse fs r v = Inr (vals', rest))"
  using assms unfolding flag_Parse.simps(2)
  by (auto simp: Let_def split: if_splits prod.splits option.splits flag_kind.splits list.splits)

lemma flag_Parse_shorter: "flag_Parse fs args vals = Inr (vals', rest) \<Longrightarrow> length rest \<le> length args"
proof (induction args arbitrary: vals rule: length_induct)
  case (1 args)
  show ?case
  proof (cases args)
    case (Cons s more)
    have shorter: "length rest \<le> length args" if "length ys < length args" "flag_Parse fs ys v = Inr (vals', rest)" for ys v
      using 1(1) that by (meson less_imp_le_nat order_trans)
    from flag_Parse_cases [OF 1(2) [unfolded Cons]]
    consider "rest = s # more" | "rest = more" | v where "flag_Parse fs more v = Inr (vals', rest)"
      | a r v where "more = a # r" "flag_Parse fs r v = Inr (vals', rest)" by blast
    then show ?thesis
    proof cases
      case (3 v)
      then show ?thesis using shorter [of more v] Cons by simp
    next
      case (4 a r v)
      then show ?thesis using shorter [of r v] Cons by simp
    qed (use Cons in simp_all)
  qed (use 1(2) in simp)
qed

function parseFlagsInterspersed :: "flag_set \<Rightarrow> string list \<Rightarrow> flag_values \<Rightarrow> flag_error + flag_values \<times> string list" where
  "parseFlagsInterspersed fs remaining vals =
     (case flag_Parse fs remaining vals of
        Inl e \<Rightarrow> Inl e
      | Inr (vals1, []) \<Rightarrow> Inr (vals1, [])
      | Inr (vals1, p # rest) \<Rightarrow>
          (case parseFlagsInterspersed fs rest vals1 of
             Inl e \<Rightarrow> Inl e
           | Inr (vals2, positional) \<Rightarrow> Inr (vals2, p # positional)))"
  by pat_completeness auto

termination
  by (relation "measure (\<lambda>(fs, args, vals). length args)") (auto dest!: flag_Parse_shorter)

section \<open>The server's address (serverurl.go)\<close>

datatype server_error =
  ServerRequired | InvalidServerURL | ServerScheme | ServerHost | ServerUserinfo | ServerPath | ServerQuery | ServerFragment | ServerCleartext

definition loopbackServerHosts :: "string list" where
  "loopbackServerHosts = [''localhost'', ''127.0.0.1'', ''::1'']"

definition isLoopbackServerHost :: "string \<Rightarrow> bool" where
  "isLoopbackServerHost host = (to_lower host \<in> set loopbackServerHosts)"

definition validateServerURL :: "string \<Rightarrow> server_error + string" where
  "validateServerURL raw =
     (if raw = [] then Inl ServerRequired
      else case url_Parse raw of
        None \<Rightarrow> Inl InvalidServerURL
      | Some u \<Rightarrow>
          if url_Scheme u \<noteq> ''http'' \<and> url_Scheme u \<noteq> ''https'' then Inl ServerScheme
          else if url_Host u = [] then Inl ServerHost
          else if url_HasUser u then Inl ServerUserinfo
          else if url_Path u \<noteq> [] \<and> url_Path u \<noteq> ''/'' then Inl ServerPath
          else if url_RawQuery u \<noteq> [] then Inl ServerQuery
          else if url_Fragment u \<noteq> [] then Inl ServerFragment
          else if url_Scheme u = ''http'' \<and> \<not> isLoopbackServerHost (url_Hostname u) then Inl ServerCleartext
          else Inr (url_Scheme u @ ''://'' @ url_Host u))"

section \<open>Configuration (config.go)\<close>

record CliConfig =
  cc_Server :: string
  cc_CredentialText :: string

datatype cli_error =
    ConfigUnreadable | NotLoggedIn | BadServer server_error
  | ManifestUnreadable string | ManifestInvalid manifest_error | NameMismatch string string
  | CollectError collect_error | SizeError size_error | PackError bundle_error
  | OwnerMissing | OwnerLookupFailed | OwnerUnset | FlagError flag_error | IgnoreUnreadable
  | UsageError | VersionRequired | BadTarget string | ServerMissing | BadDuration

text \<open>
  \<open>LoadConfig\<close>: a missing file is an empty configuration; \<open>file\<close> is \<open>Some None\<close> if the file cannot be read or
  decoded. The environment takes precedence.
\<close>

definition LoadConfig :: "CliConfig option option \<Rightarrow> cli_error + CliConfig" where
  "LoadConfig file =
     (case file of
        None \<Rightarrow> Inr \<lparr>cc_Server = [], cc_CredentialText = []\<rparr>
      | Some None \<Rightarrow> Inl ConfigUnreadable
      | Some (Some cfg) \<Rightarrow> Inr cfg)"

definition ResolveConfig :: "(string \<Rightarrow> string) \<Rightarrow> CliConfig option option \<Rightarrow> cli_error + CliConfig" where
  "ResolveConfig getenv file =
     (case LoadConfig file of
        Inl e \<Rightarrow> Inl e
      | Inr cfg \<Rightarrow>
          Inr (cfg\<lparr>cc_Server := (if getenv ''FUNCBOX_SERVER'' \<noteq> [] then getenv ''FUNCBOX_SERVER'' else cc_Server cfg),
                   cc_CredentialText := (if getenv ''FUNCBOX_CREDENTIAL'' \<noteq> [] then getenv ''FUNCBOX_CREDENTIAL'' else cc_CredentialText cfg)\<rparr>))"

definition RequireConfig :: "(string \<Rightarrow> string) \<Rightarrow> CliConfig option option \<Rightarrow> cli_error + CliConfig" where
  "RequireConfig getenv file =
     (case ResolveConfig getenv file of
        Inl e \<Rightarrow> Inl e
      | Inr cfg \<Rightarrow>
          if cc_Server cfg = [] \<or> cc_CredentialText cfg = [] then Inl NotLoggedIn
          else case validateServerURL (cc_Server cfg) of
            Inl e \<Rightarrow> Inl (BadServer e)
          | Inr server \<Rightarrow> Inr (cfg\<lparr>cc_Server := server\<rparr>))"

section \<open>The project and the deploy command (project.go, deploy.go)\<close>

definition cli_manifestFilenames :: "string list" where
  "cli_manifestFilenames = [''funcbox.yaml'', ''funcbox.yml'', ''funcbox.json'']"

text \<open>\<open>read_root\<close> reads a file at the project's root: \<open>None\<close> is a missing file, \<open>Some None\<close> one that cannot be read.\<close>

fun load_manifest :: "(files \<Rightarrow> manifest_error + Manifest) \<Rightarrow> (string \<Rightarrow> bytes option option) \<Rightarrow> string list \<Rightarrow> cli_error + Manifest" where
  "load_manifest parse read_root [] = Inr zero_manifest"
| "load_manifest parse read_root (name # names) =
     (case read_root name of
        None \<Rightarrow> load_manifest parse read_root names
      | Some None \<Rightarrow> Inl (ManifestUnreadable name)
      | Some (Some data) \<Rightarrow> (case parse [(name, data)] of Inl e \<Rightarrow> Inl (ManifestInvalid e) | Inr m \<Rightarrow> Inr m))"

definition LoadProjectManifest :: "(files \<Rightarrow> manifest_error + Manifest) \<Rightarrow> (string \<Rightarrow> bytes option option) \<Rightarrow> cli_error + Manifest" where
  "LoadProjectManifest parse read_root = load_manifest parse read_root cli_manifestFilenames"

text \<open>\<open>meFallback\<close> is the answer of \<^verbatim>\<open>GET /api/v1/me\<close>, \<open>None\<close> for an error; without a server there is none.\<close>

definition cli_ResolveOwner :: "string \<Rightarrow> Manifest \<Rightarrow> string option option \<Rightarrow> cli_error + string" where
  "cli_ResolveOwner flagOwner m meFallback =
     (if flagOwner \<noteq> [] then Inr flagOwner
      else if m_Owner m \<noteq> [] then Inr (m_Owner m)
      else case meFallback of
        None \<Rightarrow> Inl OwnerMissing
      | Some None \<Rightarrow> Inl OwnerLookupFailed
      | Some (Some userID) \<Rightarrow> if userID = [] then Inl OwnerUnset else Inr userID)"

record DeployRequest =
  dr_Bundle :: archive
  dr_Owner :: string
  dr_Name :: string
  dr_Note :: string
  dr_DryRun :: bool

definition deploy_flags :: flag_set where
  "deploy_flags = [(''owner'', StringFlag), (''name'', StringFlag), (''note'', StringFlag), (''dry-run'', BoolFlag)]"

definition flag_value :: "flag_values \<Rightarrow> string \<Rightarrow> string" where
  "flag_value vals name = (case map_of vals name of Some v \<Rightarrow> v | None \<Rightarrow> [])"

record project =
  pj_tree :: file_tree
  pj_root :: string
  pj_read :: "string \<Rightarrow> bytes option option"

definition LoadIgnoreMatcher_at :: "(string \<Rightarrow> bytes option option) \<Rightarrow> cli_error + Matcher" where
  "LoadIgnoreMatcher_at read_root =
     (case read_root IgnoreFileName of
        None \<Rightarrow> Inr (LoadIgnoreMatcher None)
      | Some None \<Rightarrow> Inl IgnoreUnreadable
      | Some (Some data) \<Rightarrow> Inr (LoadIgnoreMatcher (Some data)))"

text \<open>The files of a project, as deploy collects them.\<close>

definition collect_project :: "project \<Rightarrow> Manifest \<Rightarrow> cli_error + files" where
  "collect_project pj m =
     (case LoadIgnoreMatcher_at (pj_read pj) of
        Inl e \<Rightarrow> Inl e
      | Inr im \<Rightarrow>
          (case CollectFiles (pj_tree pj) (pj_root pj) (m_Nodejs m) im of
             Inl e \<Rightarrow> Inl (CollectError e)
           | Inr fl \<Rightarrow> (case CheckUnpackedSize fl of Inl e \<Rightarrow> Inl (SizeError e) | Inr _ \<Rightarrow> Inr fl)))"

text \<open>\<open>RunDeploy\<close> up to the request it sends. \<open>project_at\<close> gives the project of a directory.\<close>

definition RunDeploy ::
  "(string \<Rightarrow> string) \<Rightarrow> CliConfig option option \<Rightarrow> (files \<Rightarrow> manifest_error + Manifest) \<Rightarrow> (string \<Rightarrow> project) \<Rightarrow> string option
     \<Rightarrow> string list \<Rightarrow> cli_error + CliConfig \<times> DeployRequest" where
  "RunDeploy getenv file parse project_at me args =
     (case parseFlagsInterspersed deploy_flags args [] of
        Inl e \<Rightarrow> Inl (FlagError e)
      | Inr (vals, positional) \<Rightarrow>
          let pj = project_at (case positional of [] \<Rightarrow> ''.'' | dir # _ \<Rightarrow> dir);
              nm = flag_value vals ''name'' in
          (case RequireConfig getenv file of
             Inl e \<Rightarrow> Inl e
           | Inr cfg \<Rightarrow>
               (case LoadProjectManifest parse (pj_read pj) of
                  Inl e \<Rightarrow> Inl e
                | Inr m \<Rightarrow>
                    if m_Name m \<noteq> [] \<and> nm \<noteq> [] \<and> m_Name m \<noteq> nm then Inl (NameMismatch (m_Name m) nm)
                    else case collect_project pj m of
                      Inl e \<Rightarrow> Inl e
                    | Inr fl \<Rightarrow>
                        (case cli_ResolveOwner (flag_value vals ''owner'') m (Some me) of
                           Inl e \<Rightarrow> Inl e
                         | Inr owner \<Rightarrow>
                             (case Pack fl of
                                Inl e \<Rightarrow> Inl (PackError e)
                              | Inr a \<Rightarrow>
                                  Inr (cfg, \<lparr>dr_Bundle = a, dr_Owner = owner, dr_Name = nm, dr_Note = flag_value vals ''note'',
                                    dr_DryRun = (flag_value vals ''dry-run'' = ''true'')\<rparr>))))))"

section \<open>The client (client.go)\<close>

text \<open>A cached token and its expiry; the empty token is none. Times are nanoseconds.\<close>

record CliClient =
  cl_Server :: string
  cl_Credential :: string
  cl_accessToken :: string
  cl_expiresAt :: int

definition accessTokenRequestTTL :: int where
  "accessTokenRequestTTL = 15 * 60 * 10 ^ 9"

definition accessTokenRefreshMargin :: int where
  "accessTokenRefreshMargin = 2 * 60 * 10 ^ 9"

definition NewClient :: "CliConfig \<Rightarrow> CliClient" where
  "NewClient cfg = \<lparr>cl_Server = trim_suffix (cc_Server cfg) ''/'', cl_Credential = cc_CredentialText cfg,
     cl_accessToken = [], cl_expiresAt = 0\<rparr>"

text \<open>\<open>mint\<close> is the server's answer to \<^verbatim>\<open>POST /api/v1/cli/access-token\<close> for a credential and a
  lifetime; without a positive lifetime the request names none, which is 0 here.\<close>

definition mintAccessToken :: "(string \<Rightarrow> int \<Rightarrow> (string \<times> int) option) \<Rightarrow> CliClient \<Rightarrow> int \<Rightarrow> (string \<times> int) option" where
  "mintAccessToken mint c ttl = (if cl_Credential c = [] then None else mint (cl_Credential c) (if ttl > 0 then ttl else 0))"

definition ensureAccessToken :: "(string \<Rightarrow> int \<Rightarrow> (string \<times> int) option) \<Rightarrow> int \<Rightarrow> CliClient \<Rightarrow> CliClient \<times> string option" where
  "ensureAccessToken mint now c =
     (if cl_accessToken c \<noteq> [] \<and> cl_expiresAt c - now > accessTokenRefreshMargin then (c, Some (cl_accessToken c))
      else case mintAccessToken mint c accessTokenRequestTTL of
        None \<Rightarrow> (c, None)
      | Some (token, expiresAt) \<Rightarrow> (c\<lparr>cl_accessToken := token, cl_expiresAt := expiresAt\<rparr>, Some token))"

text \<open>The URLs the commands request: the server and a path. The endpoint of \<^verbatim>\<open>funcbox mcp\<close> is in mcp.go.\<close>

definition AccessToken_url :: "CliClient \<Rightarrow> string" where
  "AccessToken_url c = cl_Server c @ ''/api/v1/cli/access-token''"

definition ExchangeCLICode_url :: "CliClient \<Rightarrow> string" where
  "ExchangeCLICode_url c = cl_Server c @ ''/api/v1/cli/token''"

definition Me_url :: "CliClient \<Rightarrow> string" where
  "Me_url c = cl_Server c @ ''/api/v1/me''"

definition Mcp_url :: "CliClient \<Rightarrow> string" where
  "Mcp_url c = cl_Server c @ ''/mcp''"

definition Deploy_url :: "CliClient \<Rightarrow> bool \<Rightarrow> string" where
  "Deploy_url c dryRun = cl_Server c @ ''/api/v1/functions'' @ (if dryRun then ''?dry_run=true'' else [])"

definition List_url :: "CliClient \<Rightarrow> string \<Rightarrow> string" where
  "List_url c owner = cl_Server c @ ''/api/v1/functions'' @ (if owner \<noteq> [] then ''?owner='' @ owner else [])"

definition Logs_url :: "CliClient \<Rightarrow> string \<Rightarrow> string \<Rightarrow> string \<Rightarrow> int \<Rightarrow> string" where
  "Logs_url c owner name since limit =
     (let q = (if since \<noteq> [] then [''since='' @ since] else []) @ (if limit > 0 then [''limit='' @ int_str limit] else []) in
      cl_Server c @ ''/api/v1/functions/'' @ owner @ ''/'' @ name @ ''/logs'' @ (if q \<noteq> [] then ''?'' @ join_with (CHR ''&'') q else []))"

definition Activate_url :: "CliClient \<Rightarrow> string \<Rightarrow> string \<Rightarrow> string \<Rightarrow> string" where
  "Activate_url c owner name versionID =
     cl_Server c @ ''/api/v1/functions/'' @ owner @ ''/'' @ name @ ''/versions/'' @ versionID @ ''/activate''"

section \<open>Following a log (logs.go)\<close>

definition logsPageSize :: int where
  "logsPageSize = 50"

text \<open>
  One page: the identifiers of its entries, newest first as the server sends them. The result is what is printed, oldest
  first, and the newest identifier seen.
\<close>

definition print_step :: "string \<Rightarrow> string list \<times> string \<Rightarrow> string \<Rightarrow> string list \<times> string" where
  "print_step afterID st i =
     (if afterID \<noteq> [] \<and> i \<le> afterID then st
      else (fst st @ [i], if snd st = [] \<or> i > snd st then i else snd st))"

definition printLogsPage :: "string \<Rightarrow> string list \<Rightarrow> string list \<times> string" where
  "printLogsPage afterID logs = foldl (print_step afterID) ([], afterID) (rev logs)"

text \<open>\<^verbatim>\<open>RunLogs --follow\<close> over the pages it gets.\<close>

fun follow :: "string \<Rightarrow> string list list \<Rightarrow> string list" where
  "follow lastSeenID [] = []"
| "follow lastSeenID (page # pages) =
     (case printLogsPage lastSeenID page of (printed, newest) \<Rightarrow>
        printed @ follow (if newest \<noteq> [] then newest else lastSeenID) pages)"

section \<open>The browser login (login.go)\<close>

definition generatePKCE :: "Crypto \<Rightarrow> bytes \<Rightarrow> string \<times> string" where
  "generatePKCE c buf = (let verifier = b64_encode buf in (verifier, b64_encode (cr_sha256 c verifier)))"

definition login_redirect :: "int \<Rightarrow> string" where
  "login_redirect port = ''http://127.0.0.1:'' @ int_str port @ ''/callback''"

definition login_url :: "string \<Rightarrow> int \<Rightarrow> string \<Rightarrow> string \<Rightarrow> string" where
  "login_url server port challenge hostname =
     server @ ''/dashboard/cli-auth?redirect='' @ query_escape (login_redirect port) @ ''&challenge='' @ query_escape challenge
       @ ''&name='' @ query_escape (if hostname = [] then ''unknown device'' else hostname)"

datatype callback_result = LoginNotApproved string | MissingCode | GotCode string

definition loopback_callback :: "(string \<Rightarrow> string) \<Rightarrow> callback_result" where
  "loopback_callback q =
     (if q ''error'' \<noteq> [] then LoginNotApproved (q ''error'')
      else if q ''code'' = [] then MissingCode else GotCode (q ''code''))"

text \<open>The channel holds one result: the first request decides, the others are answered and dropped.\<close>

definition first_callback :: "(string \<Rightarrow> string) list \<Rightarrow> callback_result option" where
  "first_callback requests = (case requests of [] \<Rightarrow> None | q # _ \<Rightarrow> Some (loopback_callback q))"

section \<open>The other commands up to their request (rollback.go, list.go, logs.go, login.go, printaccesstoken.go)\<close>

text \<open>A function is named by \<^verbatim>\<open><owner>/<name>\<close>.\<close>

definition function_target :: "string \<Rightarrow> (string \<times> string) option" where
  "function_target s =
     (case cut (CHR ''/'') s of (owner, name, ok) \<Rightarrow> if \<not> ok \<or> owner = [] \<or> name = [] then None else Some (owner, name))"

text \<open>\<open>RunRollback\<close>: the message for a bad target quotes \<^verbatim>\<open>fs.Arg(0)\<close>, and after the flags are parsed nothing is left there.\<close>

definition RunRollback :: "(string \<Rightarrow> string) \<Rightarrow> CliConfig option option \<Rightarrow> string list \<Rightarrow> cli_error + string" where
  "RunRollback getenv file args =
     (case parseFlagsInterspersed [(''to'', StringFlag)] args [] of
        Inl e \<Rightarrow> Inl (FlagError e)
      | Inr (vals, positional) \<Rightarrow>
          if length positional \<noteq> 1 then Inl UsageError
          else if flag_value vals ''to'' = [] then Inl VersionRequired
          else case function_target (hd positional) of
            None \<Rightarrow> Inl (BadTarget [])
          | Some (owner, name) \<Rightarrow>
              (case RequireConfig getenv file of
                 Inl e \<Rightarrow> Inl e
               | Inr cfg \<Rightarrow> Inr (Activate_url (NewClient cfg) owner name (flag_value vals ''to''))))"

definition RunList :: "(string \<Rightarrow> string) \<Rightarrow> CliConfig option option \<Rightarrow> string list \<Rightarrow> cli_error + string" where
  "RunList getenv file args =
     (case parseFlagsInterspersed [(''owner'', StringFlag)] args [] of
        Inl e \<Rightarrow> Inl (FlagError e)
      | Inr (vals, _) \<Rightarrow>
          (case RequireConfig getenv file of
             Inl e \<Rightarrow> Inl e
           | Inr cfg \<Rightarrow> Inr (List_url (NewClient cfg) (flag_value vals ''owner''))))"

text \<open>\<open>RunLogs\<close>: the URL of every page, and whether the log is followed.\<close>

definition RunLogs :: "(string \<Rightarrow> string) \<Rightarrow> CliConfig option option \<Rightarrow> string list \<Rightarrow> cli_error + string \<times> bool" where
  "RunLogs getenv file args =
     (case parseFlagsInterspersed [(''follow'', BoolFlag)] args [] of
        Inl e \<Rightarrow> Inl (FlagError e)
      | Inr (vals, positional) \<Rightarrow>
          if length positional \<noteq> 1 then Inl UsageError
          else case function_target (hd positional) of
            None \<Rightarrow> Inl (BadTarget (hd positional))
          | Some (owner, name) \<Rightarrow>
              (case RequireConfig getenv file of
                 Inl e \<Rightarrow> Inl e
               | Inr cfg \<Rightarrow> Inr (Logs_url (NewClient cfg) owner name [] logsPageSize, flag_value vals ''follow'' = ''true'')))"

text \<open>The server \<open>RunLogin\<close> signs in to: the flag, or the server of a configuration that can be read.\<close>

definition login_server :: "CliConfig option option \<Rightarrow> string list \<Rightarrow> cli_error + string" where
  "login_server file args =
     (case parseFlagsInterspersed [(''server'', StringFlag)] args [] of
        Inl e \<Rightarrow> Inl (FlagError e)
      | Inr (vals, _) \<Rightarrow>
          let server = (if flag_value vals ''server'' \<noteq> [] then flag_value vals ''server''
                        else case LoadConfig file of Inl _ \<Rightarrow> [] | Inr cfg \<Rightarrow> cc_Server cfg) in
          if server = [] then Inl ServerMissing
          else case validateServerURL server of Inl e \<Rightarrow> Inl (BadServer e) | Inr v \<Rightarrow> Inr v)"

text \<open>\<open>RunPrintAccessToken\<close>; \<open>parse_duration\<close> is \<^verbatim>\<open>time.ParseDuration\<close>. The result is the token printed, \<open>None\<close> if the server gives none.\<close>

definition RunPrintAccessToken ::
  "(string \<Rightarrow> string) \<Rightarrow> CliConfig option option \<Rightarrow> (string \<Rightarrow> int option) \<Rightarrow> (string \<Rightarrow> int \<Rightarrow> (string \<times> int) option) \<Rightarrow> string list
     \<Rightarrow> cli_error + string option" where
  "RunPrintAccessToken getenv file parse_duration mint args =
     (case parseFlagsInterspersed [(''ttl'', StringFlag)] args [] of
        Inl e \<Rightarrow> Inl (FlagError e)
      | Inr (vals, _) \<Rightarrow>
          let text = flag_value vals ''ttl'' in
          (case if text = [] then Some 0 else parse_duration text of
             None \<Rightarrow> Inl BadDuration
           | Some ttl \<Rightarrow>
               (case RequireConfig getenv file of
                  Inl e \<Rightarrow> Inl e
                | Inr cfg \<Rightarrow> Inr (map_option fst (mintAccessToken mint (NewClient cfg) ttl)))))"

section \<open>Where requests go\<close>

lemma unescape_host_plain: "unescape_host s = Some t \<Longrightarrow> CHR ''%'' \<notin> set s \<Longrightarrow> t = s"
proof (induction s arbitrary: t)
  case (Cons c s)
  then have "c \<noteq> CHR ''%''" by auto
  with Cons.prems(1) obtain u where "unescape_host s = Some u" "t = c # u" by (auto split: if_splits)
  then show ?case using Cons by simp
qed simp

lemma split_zone_plain: "CHR ''%'' \<notin> set s \<Longrightarrow> split_zone s = (s, [])"
  by (induction s) (auto split: prod.splits)

lemma unescape_literal_plain: "unescape_literal s = Some t \<Longrightarrow> CHR ''%'' \<notin> set s \<Longrightarrow> t = s"
  by (auto simp: unescape_literal_def split_zone_plain dest: unescape_host_plain split: option.splits)

lemma unescape_path_plain: "CHR ''%'' \<notin> set s \<Longrightarrow> unescape_path s = Some s"
  by (induction s) auto

lemma index_of_Some: "index_of c s = Some i \<Longrightarrow> i < length s \<and> s ! i = c \<and> c \<notin> set (take i s)"
  by (induction s arbitrary: i) (auto split: if_splits)

lemma index_of_None: "index_of c s = None \<longleftrightarrow> c \<notin> set s"
  by (induction s) auto

lemma last_index_of_Some: "last_index_of c s = Some i \<Longrightarrow> i < length s \<and> s ! i = c"
  by (auto simp: last_index_of_def rev_nth dest!: index_of_Some)

lemma last_index_of_None: "last_index_of c s = None \<longleftrightarrow> c \<notin> set s"
  by (simp add: last_index_of_def index_of_None)

lemma bracket_split:
  assumes "last_index_of (CHR ''['') s = Some 0" "last_index_of (CHR '']'') s = Some e"
  shows "''['' @ drop 1 (take e s) @ '']'' @ drop (Suc e) s = s"
proof -
  have "s ! 0 = CHR ''[''" "e < length s" "s ! e = CHR '']''" using last_index_of_Some assms by blast+
  moreover from this have "0 < e" by (cases "e = 0") simp_all
  ultimately have "hd s = CHR ''[''" "s \<noteq> []" "0 < e" "e < length s" "s ! e = CHR '']''" by (cases s; simp)+
  then obtain X where X: "take e s = CHR ''['' # X" by (cases s; cases e) auto
  have "s = take e s @ s ! e # drop (Suc e) s" using \<open>e < length s\<close> by (rule id_take_nth_drop)
  also have "\<dots> = CHR ''['' # X @ CHR '']'' # drop (Suc e) s" by (simp add: X \<open>s ! e = CHR '']''\<close>)
  finally have s: "s = CHR ''['' # X @ CHR '']'' # drop (Suc e) s" .
  show ?thesis by (rule trans [OF _ s [symmetric]]) (simp add: X)
qed

lemma parseHost_plain:
  assumes "parseHost h = Some h'" "CHR ''%'' \<notin> set h"
  shows "h' = h"
proof (cases "last_index_of (CHR ''['') h")
  case None
  then have "unescape_host h = Some h'" using assms(1) by (auto simp: parseHost_def split: option.splits if_splits)
  then show ?thesis using assms(2) by (rule unescape_host_plain)
next
  case (Some i)
  then have i: "i = 0" using assms(1) by (cases i) (simp_all add: parseHost_def)
  then obtain e t where e: "last_index_of (CHR '']'') h = Some e" "unescape_literal (drop 1 (take e h)) = Some t"
      "h' = ''['' @ t @ '']'' @ drop (Suc e) h"
    using assms(1) Some by (auto simp: parseHost_def Let_def split: option.splits if_splits)
  have "CHR ''%'' \<notin> set (drop 1 (take e h))" using assms(2) by (auto dest!: in_set_dropD in_set_takeD)
  then have "t = drop 1 (take e h)" using unescape_literal_plain [OF e(2)] by blast
  then show ?thesis using e(3) bracket_split [OF Some [unfolded i] e(1)] by simp
qed

definition plain_host :: "string \<Rightarrow> bool" where
  "plain_host h \<longleftrightarrow> h \<noteq> [] \<and> parseHost h = Some h
     \<and> (\<forall>c \<in> set h. c \<noteq> CHR ''/'' \<and> c \<noteq> CHR ''?'' \<and> c \<noteq> CHR ''#'' \<and> c \<noteq> CHR ''@'' \<and> \<not> is_control c)"

lemma parse_hierarchical_host:
  assumes "parse_hierarchical sch rest query force = Some u" "url_Host u \<noteq> []" "\<not> url_HasUser u" "CHR ''%'' \<notin> set rest"
    and "\<forall>c \<in> set rest. c \<noteq> CHR ''?'' \<and> c \<noteq> CHR ''#'' \<and> \<not> is_control c"
  shows "plain_host (url_Host u)"
proof -
  let ?auth = "takeWhile (\<lambda>c. c \<noteq> CHR ''/'') (drop 2 rest)"
  have sub: "set ?auth \<subseteq> set rest" by (auto dest!: set_takeWhileD in_set_dropD)
  obtain user host where p: "parseAuthority ?auth = Some (user, host)" "url_Host u = host" "url_HasUser u = user"
    using assms(1,2) by (auto simp: parse_hierarchical_def Let_def split: option.splits if_splits)
  then have no_at: "CHR ''@'' \<notin> set ?auth" and h: "parseHost ?auth = Some host"
    using assms(3) by (auto simp: parseAuthority_def Let_def last_index_of_None [symmetric] split: option.splits if_splits prod.splits)
  have "host = ?auth" using parseHost_plain [OF h] sub assms(4) by blast
  moreover have "c \<noteq> CHR ''/'' \<and> c \<noteq> CHR ''?'' \<and> c \<noteq> CHR ''#'' \<and> c \<noteq> CHR ''@'' \<and> \<not> is_control c" if c: "c \<in> set ?auth" for c
    using set_takeWhileD [OF c] sub c no_at assms(5) by blast
  ultimately show ?thesis using h p(2) assms(2) by (simp add: plain_host_def)
qed

lemma set_tl: "set (tl xs) \<subseteq> set xs"
  by (cases xs) auto

lemma getScheme_rest:
  assumes "getScheme s = Some (sch, r)"
  shows "set r \<subseteq> set s"
proof -
  have "r = s \<or> (\<exists>n. r = tl (drop n s))" using assms by (auto simp: getScheme_def Let_def split: if_splits)
  then show ?thesis using set_tl set_drop_subset by (metis order_refl subset_trans)
qed

lemma getScheme_word:
  assumes "list_all (\<lambda>c. is_letter c \<or> is_digit c \<or> c \<in> set ''+-.'') w" "w \<noteq> []" "is_letter (hd w)"
  shows "getScheme (w @ CHR '':'' # r) = Some (w, r)"
proof -
  let ?P = "\<lambda>c. is_letter c \<or> is_digit c \<or> c \<in> set ''+-.''"
  have "\<not> ?P (CHR '':'')" by code_simp
  then have "takeWhile ?P (w @ CHR '':'' # r) = w" using assms(1) by (simp add: list_all_iff takeWhile_append2 del: set_simps)
  then show ?thesis using assms(2,3) by (simp add: getScheme_def)
qed

lemma http_schemes:
  assumes "sch = ''http'' \<or> sch = ''https''"
  shows "getScheme (sch @ CHR '':'' # r) = Some (sch, r)" "to_lower sch = sch" "CHR ''#'' \<notin> set sch" "\<not> list_ex is_control sch" "sch \<noteq> []"
proof -
  have "list_all (\<lambda>c. is_letter c \<or> is_digit c \<or> c \<in> set ''+-.'') ''http'' \<and> is_letter (hd ''http'')"
    "list_all (\<lambda>c. is_letter c \<or> is_digit c \<or> c \<in> set ''+-.'') ''https'' \<and> is_letter (hd ''https'')" by code_simp+
  then show "getScheme (sch @ CHR '':'' # r) = Some (sch, r)" using assms getScheme_word by blast
  have "to_lower ''http'' = ''http''" "to_lower ''https'' = ''https''" "\<not> list_ex is_control ''http''" "\<not> list_ex is_control ''https''" by code_simp+
  then show "to_lower sch = sch" "CHR ''#'' \<notin> set sch" "\<not> list_ex is_control sch" "sch \<noteq> []" using assms by auto
qed

lemma cut_before: "c \<notin> set (fst (cut c s))" "set (fst (cut c s)) \<subseteq> set s"
  by (auto simp: cut_def dest: set_takeWhileD)

lemma url_Parse_host:
  assumes "url_Parse raw = Some u" "url_Host u \<noteq> []" "\<not> url_HasUser u" "CHR ''%'' \<notin> set raw"
  shows "plain_host (url_Host u)"
proof -
  let ?u0 = "fst (cut CHR ''#'' raw)"
  obtain v where v: "url_parse ?u0 = Some v" "url_Host v = url_Host u" "url_HasUser v = url_HasUser u"
    using assms(1) by (auto simp: url_Parse_def split: prod.splits option.splits if_splits)
  then obtain sch r where g: "getScheme ?u0 = Some (sch, r)" and ctl: "\<not> list_ex is_control ?u0"
      and ph: "parse_hierarchical (to_lower sch) (fst (cut CHR ''?'' r)) (fst (snd (cut CHR ''?'' r))) (force_query r) = Some v"
    using assms(2) by (auto simp: url_parse_def Let_def split: if_splits option.splits)
  have sub: "set (fst (cut CHR ''?'' r)) \<subseteq> set ?u0" using cut_before(2) getScheme_rest [OF g] by blast
  show ?thesis unfolding v(2) [symmetric]
  proof (rule parse_hierarchical_host [OF ph])
    show "CHR ''%'' \<notin> set (fst (cut CHR ''?'' r))" using sub cut_before(2) assms(4) by blast
    show "\<forall>c \<in> set (fst (cut CHR ''?'' r)). c \<noteq> CHR ''?'' \<and> c \<noteq> CHR ''#'' \<and> \<not> is_control c"
      using sub cut_before(1) ctl by (auto simp: list_ex_iff)
  qed (use v(2,3) assms(2,3) in simp_all)
qed

lemma cut_none: "c \<notin> set s \<Longrightarrow> cut c s = (s, [], False)"
  by (simp add: cut_def)

lemma cut_append:
  assumes "c \<notin> set a"
  shows "cut c (a @ b) = (a @ fst (cut c b), snd (cut c b))"
proof -
  have "takeWhile (\<lambda>x. x \<noteq> c) (a @ b) = a @ takeWhile (\<lambda>x. x \<noteq> c) b" using assms by (intro takeWhile_append2) auto
  moreover have "dropWhile (\<lambda>x. x \<noteq> c) (a @ b) = dropWhile (\<lambda>x. x \<noteq> c) b" using assms by (intro dropWhile_append2) auto
  ultimately show ?thesis using assms by (simp add: cut_def)
qed

lemma cut_after: "set (fst (snd (cut c s))) \<subseteq> set s"
proof -
  have "set (tl (dropWhile (\<lambda>x. x \<noteq> c) s)) \<subseteq> set s" using set_tl set_dropWhileD by (metis subset_iff)
  then show ?thesis by (simp add: cut_def)
qed

lemma cut_slash: "prefix ''/'' p \<Longrightarrow> c \<noteq> CHR ''/'' \<Longrightarrow> prefix ''/'' (fst (cut c p))"
  by (auto simp: cut_def prefix_def)

lemma takeWhile_host: "plain_host h \<Longrightarrow> prefix ''/'' p \<Longrightarrow> takeWhile (\<lambda>c. c \<noteq> CHR ''/'') (h @ p) = h"
proof -
  assume h: "plain_host h" and "prefix ''/'' p"
  then obtain q where q: "p = CHR ''/'' # q" by (auto simp: prefix_def)
  have "\<forall>c \<in> set h. c \<noteq> CHR ''/''" using h unfolding plain_host_def by blast
  then show ?thesis unfolding q by (simp add: takeWhile_append2)
qed

text \<open>Whatever is appended to an origin, as long as it starts with a slash: the authority stays the origin's.\<close>

lemma parse_hierarchical_origin:
  assumes sch: "sch = ''http'' \<or> sch = ''https''" and h: "plain_host h" and p: "prefix ''/'' p"
  shows "parse_hierarchical sch (''//'' @ h @ p) query force = map_option (\<lambda>q. \<lparr>url_Scheme = sch, url_Opaque = [], url_HasUser = False,
    url_Host = h, url_Path = q, url_RawQuery = query, url_ForceQuery = force, url_Fragment = []\<rparr>) (unescape_path p)"
proof -
  have "parseAuthority h = Some (False, h)"
  proof -
    have "last_index_of (CHR ''@'') h = None" "parseHost h = Some h"
      using h unfolding plain_host_def last_index_of_None by blast+
    then show ?thesis by (simp add: parseAuthority_def)
  qed
  then show ?thesis
    using takeWhile_host [OF h p] http_schemes(5) [OF sch] by (simp add: parse_hierarchical_def split: option.split)
qed

lemma url_Parse_origin:
  assumes sch: "sch = ''http'' \<or> sch = ''https''" and h: "plain_host h" and p: "prefix ''/'' p"
  shows "url_Parse (sch @ ''://'' @ h @ p) = Some u \<Longrightarrow> url_Scheme u = sch \<and> url_Host u = h \<and> \<not> url_HasUser u"
    and "\<forall>c \<in> set p. c \<noteq> CHR ''%'' \<and> \<not> is_control c \<Longrightarrow> url_Parse (sch @ ''://'' @ h @ p) \<noteq> None"
proof -
  let ?whole = "sch @ ''://'' @ h @ p" and ?upto = "fst (cut (CHR ''#'') p)"
  let ?front = "sch @ ''://'' @ h @ ?upto" and ?rest = "''//'' @ h @ ?upto" and ?path = "fst (cut (CHR ''?'') ?upto)"
  note sc = http_schemes [OF sch]
  have chars: "\<forall>c \<in> set h. c \<noteq> CHR ''?'' \<and> c \<noteq> CHR ''#'' \<and> \<not> is_control c" using h by (auto simp: plain_host_def)
  have "CHR ''#'' \<notin> set (sch @ ''://'' @ h)" "CHR ''?'' \<notin> set (''//'' @ h)" using sc(3) chars by auto
  then have c1: "cut (CHR ''#'') ?whole = (?front, snd (cut (CHR ''#'') p))" and c2: "fst (cut (CHR ''?'') ?rest) = ''//'' @ h @ ?path"
    using cut_append [of "CHR ''#''" "sch @ ''://'' @ h" p] cut_append [of "CHR ''?''" "''//'' @ h" ?upto] by simp_all
  have gs: "getScheme ?front = Some (sch, ?rest)" using sc(1) [of ?rest] by simp
  have p1: "prefix ''/'' ?path" by (intro cut_slash p) simp_all
  have star: "?front \<noteq> ''*''" using sch by auto
  have parse: "url_parse ?front = (if list_ex is_control ?front then None
      else parse_hierarchical sch (''//'' @ h @ ?path) (fst (snd (cut (CHR ''?'') ?rest))) (force_query ?rest))"
    using star gs c2 sc(2) by (simp add: url_parse_def)
  note parse = parse [unfolded parse_hierarchical_origin [OF sch h p1]]
  obtain frag b where frag: "snd (cut (CHR ''#'') p) = (frag, b)" by fastforce
  show "url_Scheme u = sch \<and> url_Host u = h \<and> \<not> url_HasUser u" if parsed: "url_Parse ?whole = Some u"
  proof -
    obtain v where v: "url_parse ?front = Some v" "url_Scheme u = url_Scheme v" "url_Host u = url_Host v" "url_HasUser u = url_HasUser v"
      using parsed unfolding url_Parse_def c1 frag by (auto split: option.splits if_splits)
    from v(1) have "url_Scheme v = sch" "url_Host v = h" "\<not> url_HasUser v"
      unfolding parse by (auto split: if_splits)
    with v show ?thesis by simp
  qed
  assume ok: "\<forall>c \<in> set p. c \<noteq> CHR ''%'' \<and> \<not> is_control c"
  have "set ?upto \<subseteq> set p" by (rule cut_before(2))
  moreover from this have "set ?path \<subseteq> set p" by (rule order_trans [OF cut_before(2)])
  moreover have "set frag \<subseteq> set p" using cut_after [of "CHR ''#''" p] unfolding frag fst_conv .
  ultimately have plain: "unescape_path ?path = Some ?path" "unescape_path frag = Some frag" "\<forall>c \<in> set ?upto. \<not> is_control c"
    using ok by (auto intro: unescape_path_plain)
  have "\<not> is_control (CHR '':'')" "\<not> is_control (CHR ''/'')" by code_simp+
  then have "\<not> list_ex is_control ?front" using plain(3) chars sc(4) by (simp add: list_ex_iff ball_Un)
  with parse plain(1,2) show "url_Parse ?whole \<noteq> None" unfolding url_Parse_def c1 frag by simp
qed

text \<open>The server a command is configured with: the environment first, then the file.\<close>

definition configured_server :: "(string \<Rightarrow> string) \<Rightarrow> CliConfig option option \<Rightarrow> string" where
  "configured_server getenv file =
     (if getenv ''FUNCBOX_SERVER'' \<noteq> [] then getenv ''FUNCBOX_SERVER''
      else case file of Some (Some cfg) \<Rightarrow> cc_Server cfg | _ \<Rightarrow> [])"

lemma RequireConfig_server:
  assumes "RequireConfig getenv file = Inr cfg"
  shows "validateServerURL (configured_server getenv file) = Inr (cc_Server cfg)"
  using assms by (auto simp: RequireConfig_def ResolveConfig_def LoadConfig_def configured_server_def split: sum.splits option.splits if_splits)

lemma validateServerURL_Inr:
  assumes "validateServerURL raw = Inr s"
  obtains u where "url_Parse raw = Some u" "url_Scheme u = ''http'' \<or> url_Scheme u = ''https''" "url_Host u \<noteq> []" "\<not> url_HasUser u"
    "url_Scheme u = ''http'' \<longrightarrow> isLoopbackServerHost (url_Hostname u)" "s = url_Scheme u @ ''://'' @ url_Host u"
proof (cases "url_Parse raw")
  case (Some u)
  show thesis
    by (rule that [of u]) (use assms Some in \<open>simp_all add: validateServerURL_def split: if_splits\<close>)
qed (use assms in \<open>simp add: validateServerURL_def split: if_splits\<close>)

text \<open>The server a login is given: the flag first, then the file.\<close>

definition login_choice :: "CliConfig option option \<Rightarrow> string list \<Rightarrow> string" where
  "login_choice file args =
     (case parseFlagsInterspersed [(''server'', StringFlag)] args [] of
        Inl _ \<Rightarrow> []
      | Inr (vals, _) \<Rightarrow>
          if flag_value vals ''server'' \<noteq> [] then flag_value vals ''server''
          else case file of Some (Some cfg) \<Rightarrow> cc_Server cfg | _ \<Rightarrow> [])"

lemma login_server_valid: "login_server file args = Inr s \<Longrightarrow> validateServerURL (login_choice file args) = Inr s"
  by (auto simp: login_server_def login_choice_def LoadConfig_def Let_def split: sum.splits option.splits if_splits)

text \<open>Every URL a client requests, and the one the login opens in the browser.\<close>

inductive request_url :: "CliClient \<Rightarrow> string \<Rightarrow> bool" for c where
  deploy: "request_url c (Deploy_url c dryRun)"
| list: "request_url c (List_url c owner)"
| logs: "request_url c (Logs_url c owner name since limit)"
| activate: "request_url c (Activate_url c owner name versionID)"
| access_token: "request_url c (AccessToken_url c)"
| exchange: "request_url c (ExchangeCLICode_url c)"
| me: "request_url c (Me_url c)"
| mcp: "request_url c (Mcp_url c)"
| login: "request_url c (login_url (cl_Server c) port challenge hostname)"

lemma request_url_path: "request_url c r \<Longrightarrow> \<exists>p. r = cl_Server c @ p \<and> prefix ''/'' p"
  by (induction rule: request_url.induct) (simp_all add: Deploy_url_def List_url_def Logs_url_def Activate_url_def AccessToken_url_def
      ExchangeCLICode_url_def Me_url_def Mcp_url_def login_url_def Let_def)



text \<open>A decoded zone of an IPv6 address does not parse again; an authority without a host is accepted.\<close>

lemma zone_not_reparsed: "validateServerURL ''https://[fe80::1%en0]'' = Inl InvalidServerURL"
  by code_simp

lemma port_without_host: "validateServerURL ''https://:8080'' = Inr ''https://:8080''"
  by code_simp

section \<open>Flags may stand anywhere\<close>

datatype cli_token = Switch string | Setting string string | Argument string

fun render :: "cli_token \<Rightarrow> string list" where
  "render (Switch n) = [''--'' @ n]"
| "render (Setting n v) = [''--'' @ n, v]"
| "render (Argument s) = [s]"

definition flag_name :: "string \<Rightarrow> bool" where
  "flag_name n \<longleftrightarrow> n \<noteq> [] \<and> hd n \<noteq> CHR ''-'' \<and> CHR ''='' \<notin> set n"

fun token_ok :: "flag_set \<Rightarrow> cli_token \<Rightarrow> bool" where
  "token_ok fs (Switch n) = (flag_name n \<and> map_of fs n = Some BoolFlag)"
| "token_ok fs (Setting n v) = (flag_name n \<and> map_of fs n = Some StringFlag)"
| "token_ok fs (Argument s) = is_positional s"

fun set_flag :: "flag_values \<Rightarrow> cli_token \<Rightarrow> flag_values" where
  "set_flag vals (Switch n) = AList.update n ''true'' vals"
| "set_flag vals (Setting n v) = AList.update n v vals"
| "set_flag vals (Argument s) = vals"

fun arguments :: "cli_token list \<Rightarrow> string list" where
  "arguments [] = []"
| "arguments (Argument s # ts) = s # arguments ts"
| "arguments (_ # ts) = arguments ts"

lemma flag_name_parts:
  assumes "flag_name n"
  shows "\<not> is_positional (''--'' @ n)" "''--'' @ n \<noteq> ''--''" "drop 2 (''--'' @ n) = n" "hd n \<noteq> CHR ''-''" "hd n \<noteq> CHR ''=''"
    "cut (CHR ''='') n = (n, [], False)" "n \<noteq> []"
  using assms by (auto simp: flag_name_def is_positional_def cut_none) (metis hd_in_set)

lemma flag_Parse_flag:
  "token_ok fs (Switch n) \<Longrightarrow> flag_Parse fs (render (Switch n) @ rest) vals = flag_Parse fs rest (set_flag vals (Switch n))"
  "token_ok fs (Setting n v) \<Longrightarrow> flag_Parse fs (render (Setting n v) @ rest) vals = flag_Parse fs rest (set_flag vals (Setting n v))"
  using flag_name_parts [of n] by (auto simp: flag_Parse.simps(2) Let_def)

lemma parse_tokens:
  "list_all (token_ok fs) ts \<Longrightarrow>
     parseFlagsInterspersed fs (concat (map render ts)) vals = Inr (foldl set_flag vals ts, arguments ts)"
proof (induction ts arbitrary: vals)
  case (Cons t ts)
  note IH = Cons.IH [of "set_flag vals t"]
  show ?case
  proof (cases t)
    case (Argument s)
    then have "flag_Parse fs (concat (map render (t # ts))) vals = Inr (vals, s # concat (map render ts))"
      using Cons.prems by (simp add: flag_Parse.simps(2))
    then show ?thesis using Cons Argument by (subst parseFlagsInterspersed.simps) simp
  next
    case (Switch n)
    then have "flag_Parse fs (concat (map render (t # ts))) vals = flag_Parse fs (concat (map render ts)) (set_flag vals t)"
      using Cons.prems flag_Parse_flag(1) by simp
    then show ?thesis using IH Cons.prems Switch by (simp add: parseFlagsInterspersed.simps)
  next
    case (Setting n v)
    then have "flag_Parse fs (concat (map render (t # ts))) vals = flag_Parse fs (concat (map render ts)) (set_flag vals t)"
      using Cons.prems flag_Parse_flag(2) by simp
    then show ?thesis using IH Cons.prems Setting by (simp add: parseFlagsInterspersed.simps)
  qed
qed (simp add: parseFlagsInterspersed.simps)

text \<open>The rollback command asks for the named version of the named function, wherever the flag stands.\<close>

lemma rollback_request:
  assumes "RequireConfig getenv file = Inr cfg" and "owner \<noteq> []" "CHR ''/'' \<notin> set owner" "name \<noteq> []" "version \<noteq> []"
    and "is_positional (owner @ ''/'' @ name)" and "args \<in> {[''--to'', version, owner @ ''/'' @ name], [owner @ ''/'' @ name, ''--to'', version]}"
  shows "RunRollback getenv file args = Inr (Activate_url (NewClient cfg) owner name version)"
proof -
  let ?t = "Setting ''to'' version" and ?a = "Argument (owner @ ''/'' @ name)" and ?fs = "[(''to'', StringFlag)]"
  have "flag_name ''to''" by code_simp
  then have ok: "list_all (token_ok ?fs) [?t, ?a]" "list_all (token_ok ?fs) [?a, ?t]" using assms(6) by simp_all
  have "parseFlagsInterspersed ?fs args [] = Inr ([(''to'', version)], [owner @ ''/'' @ name])"
    using assms(7) parse_tokens [OF ok(1), of "[]"] parse_tokens [OF ok(2), of "[]"] by auto
  moreover have "takeWhile (\<lambda>c. c \<noteq> CHR ''/'') (owner @ CHR ''/'' # name) = owner"
      "dropWhile (\<lambda>c. c \<noteq> CHR ''/'') (owner @ CHR ''/'' # name) = CHR ''/'' # name"
    using assms(3) by (subst takeWhile_append2 dropWhile_append2; force)+
  then have "function_target (owner @ ''/'' @ name) = Some (owner, name)"
    using assms(2,4) by (simp add: function_target_def cut_def)
  ultimately show ?thesis using assms(1,5) by (simp add: RunRollback_def flag_value_def)
qed

lemma rollback_message_empty: "RunRollback getenv file [''fn'', ''--to'', ''v1''] = Inl (BadTarget [])"
  by code_simp

section \<open>A followed log prints no entry twice\<close>

definition fresh_ids :: "string \<Rightarrow> string list \<Rightarrow> string list" where
  "fresh_ids afterID xs = filter (\<lambda>i. afterID = [] \<or> i > afterID) xs"

lemma foldl_print:
  "sorted_wrt (<) xs \<Longrightarrow> [] \<notin> set xs \<Longrightarrow> nw = [] \<or> (\<forall>i \<in> set (fresh_ids a xs). nw < i) \<Longrightarrow>
     foldl (print_step a) (acc, nw) xs = (acc @ fresh_ids a xs, if fresh_ids a xs = [] then nw else last (fresh_ids a xs))"
proof (induction xs arbitrary: acc nw)
  case (Cons x xs)
  show ?case
  proof (cases "a = [] \<or> x > a")
    case True
    then have "print_step a (acc, nw) x = (acc @ [x], x)" using Cons.prems(3) by (auto simp: print_step_def fresh_ids_def)
    moreover have "\<forall>i \<in> set (fresh_ids a xs). x < i" using Cons.prems(1) by (auto simp: fresh_ids_def)
    ultimately show ?thesis using Cons True by (simp add: fresh_ids_def)
  next
    case False
    then have "print_step a (acc, nw) x = (acc, nw)" "fresh_ids a (x # xs) = fresh_ids a xs"
      by (auto simp: print_step_def fresh_ids_def not_less)
    then show ?thesis using Cons by simp
  qed
qed (simp add: fresh_ids_def)

lemma printLogsPage_fresh:
  assumes "sorted_wrt (>) page" "[] \<notin> set page"
  shows "printLogsPage a page = (fresh_ids a (rev page), if fresh_ids a (rev page) = [] then a else last (fresh_ids a (rev page)))"
proof -
  have "sorted_wrt (<) (rev page)" using assms(1) by (simp add: sorted_wrt_rev)
  moreover have "a = [] \<or> (\<forall>i \<in> set (fresh_ids a (rev page)). a < i)" by (auto simp: fresh_ids_def)
  ultimately show ?thesis using foldl_print [of "rev page" a a "[]"] assms(2) by (simp add: printLogsPage_def)
qed

lemma sorted_wrt_last: "sorted_wrt (<) ys \<Longrightarrow> i \<in> set ys \<Longrightarrow> i \<le> last (ys :: string list)"
  by (induction ys rule: rev_induct) (auto simp: sorted_wrt_append)

lemma follow_increasing:
  "list_all (\<lambda>page. sorted_wrt (>) page \<and> [] \<notin> set page) pages \<Longrightarrow>
     sorted_wrt (<) (follow a pages) \<and> (\<forall>i \<in> set (follow a pages). a = [] \<or> a < i)"
proof (induction pages arbitrary: a)
  case (Cons page pages)
  let ?f = "fresh_ids a (rev page)"
  have f: "sorted_wrt (<) ?f" "\<forall>i \<in> set ?f. (a = [] \<or> a < i) \<and> i \<noteq> []"
    using Cons.prems by (auto simp: fresh_ids_def sorted_wrt_rev sorted_wrt_filter)
  show ?case
  proof (cases "?f = []")
    case True
    then have "follow a (page # pages) = follow a pages" using Cons.prems printLogsPage_fresh [of page a] by simp
    then show ?thesis using Cons.IH [of a] Cons.prems by simp
  next
    case False
    have up: "i \<le> last ?f" if "i \<in> set ?f" for i
      using f(1) that by (rule sorted_wrt_last)
    have ne: "last ?f \<noteq> []" using f(2) False last_in_set by blast
    have IH: "sorted_wrt (<) (follow (last ?f) pages)" "\<forall>i \<in> set (follow (last ?f) pages). last ?f < i"
      using Cons.IH [of "last ?f"] Cons.prems ne by auto
    have "follow a (page # pages) = ?f @ follow (last ?f) pages"
      using printLogsPage_fresh [of page a] Cons.prems False ne by simp
    moreover have "a = [] \<or> a < i" if "i \<in> set (follow (last ?f) pages)" for i
      using f(2) IH(2) that False last_in_set by (metis less_trans)
    moreover have "i < j" if "i \<in> set ?f" "j \<in> set (follow (last ?f) pages)" for i j
      using up [OF that(1)] IH(2) that(2) by (meson le_less_trans)
    ultimately show ?thesis using f IH(1) by (auto simp: sorted_wrt_append)
  qed
qed simp

end
